(* ===== verification/Prelude.thy ===== *)
theory Prelude
  imports
    Main
    "HOL-Library.Word"
    "HOL-Library.Multiset"
    "HOL-Library.AList"
    "HOL-Library.List_Lexorder"
    "HOL-Library.Char_ord"
    "HOL-Library.Sublist"
begin

text \<open>
  Shared vocabulary of the development: the result type of fallible Go functions, Go maps as
  association lists, the part of Go's \<open>strings\<close> and \<open>strconv\<close> packages that Contour uses, and the
  lemma collections that carry the component proofs.

  A Go string is a list of bytes (\<open>string\<close>, compared byte-wise as Go does, which is the
  lexicographic order of \<open>List_Lexorder\<close> over \<open>Char_ord\<close>).  Case mapping is that of ASCII.
  A Go map is an association list with distinct keys; a loop over the map follows the list, so a
  statement about every list covers every iteration order the Go runtime may choose.
  An \<open>error\<close> is its message.
\<close>

named_theorems go_eval \<open>equations that evaluate the Go library functions\<close>
named_theorems wf_intro \<open>introduction rules for well-formedness predicates\<close>
named_theorems frame \<open>what an operation leaves unchanged\<close>

section \<open>Results\<close>

type_synonym 'a result = "string + 'a"

abbreviation Err :: "string \<Rightarrow> 'a result" where
  "Err \<equiv> Inl"

abbreviation Ok :: "'a \<Rightarrow> 'a result" where
  "Ok \<equiv> Inr"

definition is_ok :: "'a result \<Rightarrow> bool" where
  "is_ok r = (case r of Inl _ \<Rightarrow> False | Inr _ \<Rightarrow> True)"

lemma is_ok_simps [simp]: "is_ok (Inr x)" "\<not> is_ok (Inl e)"
  by (simp_all add: is_ok_def)

lemma is_ok_iff: "is_ok r \<longleftrightarrow> (\<exists>x. r = Inr x)"
  by (cases r) (simp_all add: is_ok_def)

section \<open>Integers\<close>

text \<open>Go's \<open>uint32\<close> is \<open>32 word\<close>; a conversion \<open>uint32(x)\<close> keeps the low 32 bits.  \<open>int64\<close> values are
  integers, with the wrap-around of 64-bit arithmetic written out where the code multiplies them.\<close>

type_synonym uint32 = "32 word"

abbreviation to_uint32 :: "int \<Rightarrow> uint32" where
  "to_uint32 \<equiv> word_of_int"

definition wrap_int64 :: "int \<Rightarrow> int" where
  "wrap_int64 x = (x + 2 ^ 63) mod 2 ^ 64 - 2 ^ 63"

lemma wrap_int64_bounds: "- (2 ^ 63) \<le> wrap_int64 x \<and> wrap_int64 x < 2 ^ 63"
  by (simp add: wrap_int64_def)

lemma wrap_int64_id: "- (2 ^ 63) \<le> x \<Longrightarrow> x < 2 ^ 63 \<Longrightarrow> wrap_int64 x = x"
  by (simp add: wrap_int64_def mod_pos_pos_trivial)

section \<open>Go maps\<close>

type_synonym ('k, 'v) gomap = "('k \<times> 'v) list"

abbreviation wf_gomap :: "('k, 'v) gomap \<Rightarrow> bool" where
  "wf_gomap m \<equiv> distinct (map fst m)"

abbreviation lookup :: "('k, 'v) gomap \<Rightarrow> 'k \<Rightarrow> 'v option" where
  "lookup \<equiv> map_of"

abbreviation put :: "'k \<Rightarrow> 'v \<Rightarrow> ('k, 'v) gomap \<Rightarrow> ('k, 'v) gomap" where
  "put \<equiv> AList.update"

abbreviation del :: "'k \<Rightarrow> ('k, 'v) gomap \<Rightarrow> ('k, 'v) gomap" where
  "del \<equiv> AList.delete"

text \<open>The interface of a Go map: what a lookup returns after a store or a delete, and that both
  keep the keys distinct.\<close>

locale go_map =
  fixes get :: "'m \<Rightarrow> 'k \<Rightarrow> 'v option"
    and store :: "'k \<Rightarrow> 'v \<Rightarrow> 'm \<Rightarrow> 'm"
    and remove :: "'k \<Rightarrow> 'm \<Rightarrow> 'm"
    and inv :: "'m \<Rightarrow> bool"
  assumes get_store: "get (store k v m) k' = (if k' = k then Some v else get m k')"
    and get_remove: "get (remove k m) k' = (if k' = k then None else get m k')"
    and inv_store: "inv m \<Longrightarrow> inv (store k v m)"
    and inv_remove: "inv m \<Longrightarrow> inv (remove k m)"
begin

lemma store_overwrites: "get (store k v (store k w m)) = get (store k v m)"
  by (rule ext) (simp add: get_store)

lemma store_commutes: "k \<noteq> l \<Longrightarrow> get (store k v (store l w m)) = get (store l w (store k v m))"
  by (rule ext) (auto simp: get_store)

lemma inv_fold_store: "inv m \<Longrightarrow> inv (fold (\<lambda>(k, v). store k v) kvs m)"
  by (induction kvs arbitrary: m) (auto simp: inv_store)

lemma get_fold_store_other: "k \<notin> fst ` set kvs \<Longrightarrow> get (fold (\<lambda>(k, v). store k v) kvs m) k = get m k"
  by (induction kvs arbitrary: m) (auto simp: get_store)

end

lemma lookup_put: "lookup (put k v m) k' = (if k' = k then Some v else lookup m k')"
  by (simp add: update_conv')

lemma lookup_del: "lookup (del k m) k' = (if k' = k then None else lookup m k')"
  by (simp add: delete_conv')

interpretation gm: go_map lookup put del wf_gomap
  by unfold_locales (simp_all add: lookup_put lookup_del distinct_update distinct_delete)

lemma lookup_in_set: "lookup m k = Some v \<Longrightarrow> (k, v) \<in> set m"
  by (rule map_of_SomeD)

lemma lookup_eq_iff: "wf_gomap m \<Longrightarrow> lookup m k = Some v \<longleftrightarrow> (k, v) \<in> set m"
  by (auto intro: map_of_is_SomeI map_of_SomeD)

section \<open>Go strings\<close>

text \<open>\<open>strings.Compare\<close>.\<close>

definition strings_Compare :: "string \<Rightarrow> string \<Rightarrow> int" where
  "strings_Compare a b = (if a = b then 0 else if a < b then - 1 else 1)"

lemma strings_Compare_cases:
  "strings_Compare a b = - 1 \<longleftrightarrow> a < b"
  "strings_Compare a b = 1 \<longleftrightarrow> b < a"
  "strings_Compare a b = 0 \<longleftrightarrow> a = b"
  by (auto simp: strings_Compare_def)

text \<open>\<open>strings.Join\<close>.\<close>

fun strings_Join :: "string list \<Rightarrow> string \<Rightarrow> string" where
  "strings_Join [] sep = ''''"
| "strings_Join [x] sep = x"
| "strings_Join (x # y # ys) sep = x @ sep @ strings_Join (y # ys) sep"

text \<open>\<open>strings.HasPrefix\<close>, \<open>strings.Contains\<close>, \<open>strings.TrimRight(s, c)\<close> for a one-character cutset.\<close>

fun strings_HasPrefix :: "string \<Rightarrow> string \<Rightarrow> bool" where
  "strings_HasPrefix s [] = True"
| "strings_HasPrefix [] (p # ps) = False"
| "strings_HasPrefix (c # s) (p # ps) = (c = p \<and> strings_HasPrefix s ps)"

fun strings_Contains :: "string \<Rightarrow> string \<Rightarrow> bool" where
  "strings_Contains [] sub = (sub = [])"
| "strings_Contains (c # s) sub = (strings_HasPrefix (c # s) sub \<or> strings_Contains s sub)"

definition strings_TrimRight :: "string \<Rightarrow> char \<Rightarrow> string" where
  "strings_TrimRight s c = rev (dropWhile (\<lambda>x. x = c) (rev s))"

text \<open>\<open>strings.TrimSpace\<close> on ASCII white space.\<close>

definition is_space :: "char \<Rightarrow> bool" where
  "is_space c = (c = CHR '' '' \<or> c = CHR 0x09 \<or> c = CHR 0x0A \<or> c = CHR 0x0B \<or> c = CHR 0x0C \<or> c = CHR 0x0D)"

definition strings_TrimSpace :: "string \<Rightarrow> string" where
  "strings_TrimSpace s = rev (dropWhile is_space (rev (dropWhile is_space s)))"

text \<open>\<open>strings.ToLower\<close> and \<open>strings.ToUpper\<close> on ASCII letters.\<close>

definition is_upper :: "char \<Rightarrow> bool" where
  "is_upper c = (65 \<le> (of_char c :: nat) \<and> (of_char c :: nat) \<le> 90)"

definition is_lower :: "char \<Rightarrow> bool" where
  "is_lower c = (97 \<le> (of_char c :: nat) \<and> (of_char c :: nat) \<le> 122)"

definition char_lower :: "char \<Rightarrow> char" where
  "char_lower c = (if is_upper c then char_of (of_char c + (32 :: nat)) else c)"

definition char_upper :: "char \<Rightarrow> char" where
  "char_upper c = (if is_lower c then char_of (of_char c - (32 :: nat)) else c)"

definition strings_ToLower :: "string \<Rightarrow> string" where
  "strings_ToLower s = map char_lower s"

definition strings_ToUpper :: "string \<Rightarrow> string" where
  "strings_ToUpper s = map char_upper s"

text \<open>\<open>strings.Split(s, sep)\<close> for a one-character separator.\<close>

fun strings_Split :: "string \<Rightarrow> char \<Rightarrow> string list" where
  "strings_Split [] sep = [[]]"
| "strings_Split (c # s) sep =
     (if c = sep then [] # strings_Split s sep
      else (case strings_Split s sep of [] \<Rightarrow> [[c]] | x # xs \<Rightarrow> (c # x) # xs))"

text \<open>\<open>strings.ReplaceAll(s, old, new)\<close>, non-overlapping from the left.  Contour never calls it
  with an empty \<open>old\<close>.\<close>

function strings_ReplaceAll :: "string \<Rightarrow> string \<Rightarrow> string \<Rightarrow> string" where
  "strings_ReplaceAll s old new =
     (if old = [] \<or> s = [] then s
      else if strings_HasPrefix s old then new @ strings_ReplaceAll (drop (length old) s) old new
      else hd s # strings_ReplaceAll (tl s) old new)"
  by pat_completeness auto
termination
  by (relation "measure (\<lambda>(s, old, new). length s)") (auto simp: neq_Nil_conv)

declare strings_ReplaceAll.simps [simp del]

text \<open>\<open>strconv.Itoa\<close>, \<open>strconv.FormatBool\<close> and the verb \<open>%q\<close> (on printable ASCII).\<close>

fun nat_digits :: "nat \<Rightarrow> string" where
  "nat_digits n = (if n < 10 then [char_of (48 + n)] else nat_digits (n div 10) @ [char_of (48 + n mod 10)])"

declare nat_digits.simps [simp del]

definition strconv_Itoa :: "int \<Rightarrow> string" where
  "strconv_Itoa i = (if i < 0 then ''-'' @ nat_digits (nat (- i)) else nat_digits (nat i))"

definition strconv_FormatBool :: "bool \<Rightarrow> string" where
  "strconv_FormatBool b = (if b then ''true'' else ''false'')"

definition go_quote :: "string \<Rightarrow> string" where
  "go_quote s = [CHR 0x22] @ concat (map (\<lambda>c. if c = CHR 0x22 \<or> c = CHR 0x5C then [CHR 0x5C, c] else [c]) s) @ [CHR 0x22]"

subsection \<open>Facts about Go strings\<close>

lemma HasPrefix_iff: "strings_HasPrefix s p \<longleftrightarrow> prefix p s"
  by (induction s p rule: strings_HasPrefix.induct) auto

lemma HasPrefix_append [simp]: "strings_HasPrefix (p @ s) p"
  by (simp add: HasPrefix_iff)

lemma Contains_iff: "strings_Contains s sub \<longleftrightarrow> sublist sub s"
  by (induction s) (auto simp: HasPrefix_iff sublist_Cons_right simp del: strings_HasPrefix.simps)

lemma TrimRight_not_last: "strings_TrimRight s c \<noteq> [] \<Longrightarrow> last (strings_TrimRight s c) \<noteq> c"
  using hd_dropWhile [of "\<lambda>x. x = c" "rev s"] by (simp add: strings_TrimRight_def last_rev del: dropWhile_eq_Nil_conv)

lemma TrimRight_decomp: "\<exists>n. s = strings_TrimRight s c @ replicate n c"
proof -
  have "takeWhile (\<lambda>x. x = c) (rev s) = replicate (length (takeWhile (\<lambda>x. x = c) (rev s))) c"
    by (rule replicate_eqI [symmetric, THEN sym]) (auto dest: set_takeWhileD)
  then obtain n where n: "takeWhile (\<lambda>x. x = c) (rev s) = replicate n c" by blast
  have "rev s = replicate n c @ dropWhile (\<lambda>x. x = c) (rev s)"
    using takeWhile_dropWhile_id [of "\<lambda>x. x = c" "rev s"] n by simp
  then have "rev (rev s) = strings_TrimRight s c @ rev (replicate n c)"
    by (metis rev_append strings_TrimRight_def)
  then show ?thesis by auto
qed

lemma TrimRight_idem [simp]: "s = [] \<or> last s \<noteq> c \<Longrightarrow> strings_TrimRight s c = s"
  by (cases s rule: rev_cases) (auto simp: strings_TrimRight_def)

lemma ToLower_idem [simp]: "strings_ToLower (strings_ToLower s) = strings_ToLower s"
proof -
  have "char_lower (char_lower c) = char_lower c" for c
  proof (cases "is_upper c")
    case True
    then have "\<not> is_upper (char_of (of_char c + (32 :: nat)))"
      by (simp add: is_upper_def)
    then show ?thesis by (simp add: char_lower_def)
  qed (simp add: char_lower_def)
  then show ?thesis by (simp add: strings_ToLower_def)
qed

lemma Split_nonempty [simp]: "strings_Split s c \<noteq> []"
  by (induction s) (auto split: list.splits)

lemma Join_Split: "strings_Join (strings_Split s c) [c] = s"
proof (induction s)
  case (Cons d s)
  obtain x xs where xs: "strings_Split s c = x # xs"
    by (meson Split_nonempty neq_Nil_conv)
  with Cons show ?case by (cases xs) auto
qed simp

lemma ReplaceAll_no_match:
  "\<not> strings_Contains s old \<Longrightarrow> strings_ReplaceAll s old new = s"
proof (induction s)
  case (Cons c s)
  then show ?case by (simp add: strings_ReplaceAll.simps [of "c # s"])
qed (simp add: strings_ReplaceAll.simps)

end
