(* ===== verification/API_V1.thy ===== *)
theory API_V1
  imports Prelude
begin

text \<open>
  The HTTPProxy API (\<open>apis/projectcontour/v1/httpproxy.go\<close>): one record per struct, with the
  fields of the source in the source's order and a prefix that names the struct.  A pointer is an
  \<open>option\<close>, a slice a list, a map a \<open>gomap\<close>; the structs that only wrap one field (a cookie's new
  path, the name of a hashed header) are that field.  \<open>zero_T\<close> is Go's zero value of the struct
  \<open>T\<close>, so that a composite literal is an update of it.
\<close>

section \<open>Structs\<close>

record HeaderMatchCondition_v1 =
  hm1_Name :: string
  hm1_Present :: bool
  hm1_NotPresent :: bool
  hm1_Contains :: string
  hm1_NotContains :: string
  hm1_IgnoreCase :: bool
  hm1_Exact :: string
  hm1_NotExact :: string
  hm1_Regex :: string
  hm1_TreatMissingAsEmpty :: bool

definition zero_HeaderMatchCondition_v1 :: HeaderMatchCondition_v1 where
  "zero_HeaderMatchCondition_v1 = \<lparr>
     hm1_Name = '''', hm1_Present = False, hm1_NotPresent = False, hm1_Contains = '''',
     hm1_NotContains = '''', hm1_IgnoreCase = False, hm1_Exact = '''', hm1_NotExact = '''',
     hm1_Regex = '''', hm1_TreatMissingAsEmpty = False\<rparr>"

record QueryParameterMatchCondition_v1 =
  qm1_Name :: string
  qm1_Exact :: string
  qm1_Prefix :: string
  qm1_Suffix :: string
  qm1_Regex :: string
  qm1_Contains :: string
  qm1_IgnoreCase :: bool
  qm1_Present :: bool

definition zero_QueryParameterMatchCondition_v1 :: QueryParameterMatchCondition_v1 where
  "zero_QueryParameterMatchCondition_v1 = \<lparr>
     qm1_Name = '''', qm1_Exact = '''', qm1_Prefix = '''', qm1_Suffix = '''', qm1_Regex = '''',
     qm1_Contains = '''', qm1_IgnoreCase = False, qm1_Present = False\<rparr>"

record MatchCondition_v1 =
  mc_Prefix :: string
  mc_Exact :: string
  mc_Regex :: string
  mc_Header :: "HeaderMatchCondition_v1 option"
  mc_QueryParameter :: "QueryParameterMatchCondition_v1 option"

definition zero_MatchCondition_v1 :: MatchCondition_v1 where
  "zero_MatchCondition_v1 = \<lparr>
     mc_Prefix = '''', mc_Exact = '''', mc_Regex = '''', mc_Header = None, mc_QueryParameter = None\<rparr>"

record Include =
  inc_Name :: string
  inc_Namespace :: string
  inc_Conditions :: "MatchCondition_v1 list"

definition zero_Include :: Include where
  "zero_Include = \<lparr>
     inc_Name = '''', inc_Namespace = '''', inc_Conditions = []\<rparr>"

record ExtensionServiceReference =
  esr_APIVersion :: string
  esr_Namespace :: string
  esr_Name :: string

definition zero_ExtensionServiceReference :: ExtensionServiceReference where
  "zero_ExtensionServiceReference = \<lparr>
     esr_APIVersion = '''', esr_Namespace = '''', esr_Name = ''''\<rparr>"

record AuthorizationServerBufferSettings_v1 =
  asb1_MaxRequestBytes :: uint32
  asb1_AllowPartialMessage :: bool
  asb1_PackAsBytes :: bool

definition zero_AuthorizationServerBufferSettings_v1 :: AuthorizationServerBufferSettings_v1 where
  "zero_AuthorizationServerBufferSettings_v1 = \<lparr>
     asb1_MaxRequestBytes = 0, asb1_AllowPartialMessage = False, asb1_PackAsBytes = False\<rparr>"

record AuthorizationPolicy =
  ap_Disabled :: bool
  ap_Context :: "(string, string) gomap"

definition zero_AuthorizationPolicy :: AuthorizationPolicy where
  "zero_AuthorizationPolicy = \<lparr>
     ap_Disabled = False, ap_Context = []\<rparr>"

record AuthorizationServer =
  as_ExtensionServiceRef :: ExtensionServiceReference
  as_AuthPolicy :: "AuthorizationPolicy option"
  as_ResponseTimeout :: string
  as_FailOpen :: bool
  as_WithRequestBody :: "AuthorizationServerBufferSettings_v1 option"

definition zero_AuthorizationServer :: AuthorizationServer where
  "zero_AuthorizationServer = \<lparr>
     as_ExtensionServiceRef = zero_ExtensionServiceReference, as_AuthPolicy = None,
     as_ResponseTimeout = '''', as_FailOpen = False, as_WithRequestBody = None\<rparr>"

record UpstreamValidation =
  uv_CACertificate :: string
  uv_SubjectName :: string
  uv_SubjectNames :: "string list"

definition zero_UpstreamValidation :: UpstreamValidation where
  "zero_UpstreamValidation = \<lparr>
     uv_CACertificate = '''', uv_SubjectName = '''', uv_SubjectNames = []\<rparr>"

record RemoteJWKS_v1 =
  jwks1_URI :: string
  jwks1_UpstreamValidation :: "UpstreamValidation option"
  jwks1_Timeout :: string
  jwks1_CacheDuration :: string
  jwks1_DNSLookupFamily :: string

definition zero_RemoteJWKS_v1 :: RemoteJWKS_v1 where
  "zero_RemoteJWKS_v1 = \<lparr>
     jwks1_URI = '''', jwks1_UpstreamValidation = None, jwks1_Timeout = '''',
     jwks1_CacheDuration = '''', jwks1_DNSLookupFamily = ''''\<rparr>"

record JWTProvider_v1 =
  jwt1_Name :: string
  jwt1_Default :: bool
  jwt1_Issuer :: string
  jwt1_Audiences :: "string list"
  jwt1_RemoteJWKS :: RemoteJWKS_v1
  jwt1_ForwardJWT :: bool

definition zero_JWTProvider_v1 :: JWTProvider_v1 where
  "zero_JWTProvider_v1 = \<lparr>
     jwt1_Name = '''', jwt1_Default = False, jwt1_Issuer = '''', jwt1_Audiences = [],
     jwt1_RemoteJWKS = zero_RemoteJWKS_v1, jwt1_ForwardJWT = False\<rparr>"

record ClientCertificateDetails_v1 =
  ccd1_Subject :: bool
  ccd1_Cert :: bool
  ccd1_Chain :: bool
  ccd1_DNS :: bool
  ccd1_URI :: bool

definition zero_ClientCertificateDetails_v1 :: ClientCertificateDetails_v1 where
  "zero_ClientCertificateDetails_v1 = \<lparr>
     ccd1_Subject = False, ccd1_Cert = False, ccd1_Chain = False, ccd1_DNS = False, ccd1_URI = False\<rparr>"

record DownstreamValidation =
  dv1_CACertificate :: string
  dv1_SkipClientCertValidation :: bool
  dv1_ForwardClientCertificate :: "ClientCertificateDetails_v1 option"
  dv1_CertificateRevocationList :: string
  dv1_OnlyVerifyLeafCertCrl :: bool
  dv1_OptionalClientCertificate :: bool

definition zero_DownstreamValidation :: DownstreamValidation where
  "zero_DownstreamValidation = \<lparr>
     dv1_CACertificate = '''', dv1_SkipClientCertValidation = False,
     dv1_ForwardClientCertificate = None, dv1_CertificateRevocationList = '''',
     dv1_OnlyVerifyLeafCertCrl = False, dv1_OptionalClientCertificate = False\<rparr>"

record TLS =
  tls_SecretName :: string
  tls_MinimumProtocolVersion :: string
  tls_MaximumProtocolVersion :: string
  tls_Passthrough :: bool
  tls_ClientValidation :: "DownstreamValidation option"
  tls_EnableFallbackCertificate :: bool

definition zero_TLS :: TLS where
  "zero_TLS = \<lparr>
     tls_SecretName = '''', tls_MinimumProtocolVersion = '''', tls_MaximumProtocolVersion = '''',
     tls_Passthrough = False, tls_ClientValidation = None, tls_EnableFallbackCertificate = False\<rparr>"

record CORSPolicy_v1 =
  cors1_AllowCredentials :: bool
  cors1_AllowOrigin :: "string list"
  cors1_AllowMethods :: "string list"
  cors1_AllowHeaders :: "string list"
  cors1_ExposeHeaders :: "string list"
  cors1_MaxAge :: string
  cors1_AllowPrivateNetwork :: bool

definition zero_CORSPolicy_v1 :: CORSPolicy_v1 where
  "zero_CORSPolicy_v1 = \<lparr>
     cors1_AllowCredentials = False, cors1_AllowOrigin = [], cors1_AllowMethods = [],
     cors1_AllowHeaders = [], cors1_ExposeHeaders = [], cors1_MaxAge = '''',
     cors1_AllowPrivateNetwork = False\<rparr>"

record IPFilterPolicy =
  ipf1_Source :: string
  ipf1_CIDR :: string

definition zero_IPFilterPolicy :: IPFilterPolicy where
  "zero_IPFilterPolicy = \<lparr>
     ipf1_Source = '''', ipf1_CIDR = ''''\<rparr>"

record HeaderValue =
  hv_Name :: string
  hv_Value :: string

definition zero_HeaderValue :: HeaderValue where
  "zero_HeaderValue = \<lparr>
     hv_Name = '''', hv_Value = ''''\<rparr>"

record LocalRateLimitPolicy_v1 =
  lrl1_Requests :: uint32
  lrl1_Unit :: string
  lrl1_Burst :: uint32
  lrl1_ResponseStatusCode :: uint32
  lrl1_ResponseHeadersToAdd :: "HeaderValue list"

definition zero_LocalRateLimitPolicy_v1 :: LocalRateLimitPolicy_v1 where
  "zero_LocalRateLimitPolicy_v1 = \<lparr>
     lrl1_Requests = 0, lrl1_Unit = '''', lrl1_Burst = 0, lrl1_ResponseStatusCode = 0,
     lrl1_ResponseHeadersToAdd = []\<rparr>"

record GenericKeyDescriptor =
  gkd_Key :: string
  gkd_Value :: string

definition zero_GenericKeyDescriptor :: GenericKeyDescriptor where
  "zero_GenericKeyDescriptor = \<lparr>
     gkd_Key = '''', gkd_Value = ''''\<rparr>"

record RequestHeaderDescriptor =
  rhd_HeaderName :: string
  rhd_DescriptorKey :: string

definition zero_RequestHeaderDescriptor :: RequestHeaderDescriptor where
  "zero_RequestHeaderDescriptor = \<lparr>
     rhd_HeaderName = '''', rhd_DescriptorKey = ''''\<rparr>"

record RequestHeaderValueMatchDescriptor =
  rhvm_Headers :: "HeaderMatchCondition_v1 list"
  rhvm_ExpectMatch :: bool
  rhvm_Value :: string

definition zero_RequestHeaderValueMatchDescriptor :: RequestHeaderValueMatchDescriptor where
  "zero_RequestHeaderValueMatchDescriptor = \<lparr>
     rhvm_Headers = [], rhvm_ExpectMatch = False, rhvm_Value = ''''\<rparr>"

record RateLimitDescriptorEntry_v1 =
  rlde1_GenericKey :: "GenericKeyDescriptor option"
  rlde1_RequestHeader :: "RequestHeaderDescriptor option"
  rlde1_RequestHeaderValueMatch :: "RequestHeaderValueMatchDescriptor option"
  rlde1_RemoteAddress :: "unit option"

definition zero_RateLimitDescriptorEntry_v1 :: RateLimitDescriptorEntry_v1 where
  "zero_RateLimitDescriptorEntry_v1 = \<lparr>
     rlde1_GenericKey = None, rlde1_RequestHeader = None, rlde1_RequestHeaderValueMatch = None,
     rlde1_RemoteAddress = None\<rparr>"

record GlobalRateLimitPolicy_v1 =
  grl1_Disabled :: bool
  grl1_Descriptors :: "RateLimitDescriptorEntry_v1 list list"

definition zero_GlobalRateLimitPolicy_v1 :: GlobalRateLimitPolicy_v1 where
  "zero_GlobalRateLimitPolicy_v1 = \<lparr>
     grl1_Disabled = False, grl1_Descriptors = []\<rparr>"

record RateLimitPolicy_v1 =
  rl1_Local :: "LocalRateLimitPolicy_v1 option"
  rl1_Global :: "GlobalRateLimitPolicy_v1 option"

definition zero_RateLimitPolicy_v1 :: RateLimitPolicy_v1 where
  "zero_RateLimitPolicy_v1 = \<lparr>
     rl1_Local = None, rl1_Global = None\<rparr>"

record VirtualHost_v1 =
  vh1_Fqdn :: string
  vh1_TLS :: "TLS option"
  vh1_Authorization :: "AuthorizationServer option"
  vh1_CORSPolicy :: "CORSPolicy_v1 option"
  vh1_RateLimitPolicy :: "RateLimitPolicy_v1 option"
  vh1_JWTProviders :: "JWTProvider_v1 list"
  vh1_IPAllowFilterPolicy :: "IPFilterPolicy list"
  vh1_IPDenyFilterPolicy :: "IPFilterPolicy list"

definition zero_VirtualHost_v1 :: VirtualHost_v1 where
  "zero_VirtualHost_v1 = \<lparr>
     vh1_Fqdn = '''', vh1_TLS = None, vh1_Authorization = None, vh1_CORSPolicy = None,
     vh1_RateLimitPolicy = None, vh1_JWTProviders = [], vh1_IPAllowFilterPolicy = [],
     vh1_IPDenyFilterPolicy = []\<rparr>"

record JWTVerificationPolicy =
  jvp_Require :: string
  jvp_Disabled :: bool

definition zero_JWTVerificationPolicy :: JWTVerificationPolicy where
  "zero_JWTVerificationPolicy = \<lparr>
     jvp_Require = '''', jvp_Disabled = False\<rparr>"

record HTTPDirectResponsePolicy =
  drp_StatusCode :: int
  drp_Body :: string

definition zero_HTTPDirectResponsePolicy :: HTTPDirectResponsePolicy where
  "zero_HTTPDirectResponsePolicy = \<lparr>
     drp_StatusCode = 0, drp_Body = ''''\<rparr>"

record HTTPRequestRedirectPolicy =
  rrp_Scheme :: "string option"
  rrp_Hostname :: "string option"
  rrp_Port :: "int option"
  rrp_StatusCode :: "int option"
  rrp_Path :: "string option"
  rrp_Prefix :: "string option"

definition zero_HTTPRequestRedirectPolicy :: HTTPRequestRedirectPolicy where
  "zero_HTTPRequestRedirectPolicy = \<lparr>
     rrp_Scheme = None, rrp_Hostname = None, rrp_Port = None, rrp_StatusCode = None,
     rrp_Path = None, rrp_Prefix = None\<rparr>"

record HTTPInternalRedirectPolicy =
  irp1_MaxInternalRedirects :: uint32
  irp1_RedirectResponseCodes :: "uint32 list"
  irp1_AllowCrossSchemeRedirect :: string
  irp1_DenyRepeatedRouteRedirect :: bool

definition zero_HTTPInternalRedirectPolicy :: HTTPInternalRedirectPolicy where
  "zero_HTTPInternalRedirectPolicy = \<lparr>
     irp1_MaxInternalRedirects = 0, irp1_RedirectResponseCodes = [],
     irp1_AllowCrossSchemeRedirect = '''', irp1_DenyRepeatedRouteRedirect = False\<rparr>"

record CookieRewritePolicy_v1 =
  crp1_Name :: string
  crp1_PathRewrite :: "string option"
  crp1_DomainRewrite :: "string option"
  crp1_Secure :: "bool option"
  crp1_SameSite :: "string option"

definition zero_CookieRewritePolicy_v1 :: CookieRewritePolicy_v1 where
  "zero_CookieRewritePolicy_v1 = \<lparr>
     crp1_Name = '''', crp1_PathRewrite = None, crp1_DomainRewrite = None, crp1_Secure = None,
     crp1_SameSite = None\<rparr>"

record HTTPStatusRange =
  hsr_Start :: int
  hsr_End :: int

definition zero_HTTPStatusRange :: HTTPStatusRange where
  "zero_HTTPStatusRange = \<lparr>
     hsr_Start = 0, hsr_End = 0\<rparr>"

record HTTPHealthCheckPolicy_v1 =
  hhc1_Path :: string
  hhc1_Host :: string
  hhc1_IntervalSeconds :: int
  hhc1_TimeoutSeconds :: int
  hhc1_UnhealthyThresholdCount :: int
  hhc1_HealthyThresholdCount :: int
  hhc1_ExpectedStatuses :: "HTTPStatusRange list"

definition zero_HTTPHealthCheckPolicy_v1 :: HTTPHealthCheckPolicy_v1 where
  "zero_HTTPHealthCheckPolicy_v1 = \<lparr>
     hhc1_Path = '''', hhc1_Host = '''', hhc1_IntervalSeconds = 0, hhc1_TimeoutSeconds = 0,
     hhc1_UnhealthyThresholdCount = 0, hhc1_HealthyThresholdCount = 0, hhc1_ExpectedStatuses = []\<rparr>"

record TCPHealthCheckPolicy_v1 =
  thc1_IntervalSeconds :: int
  thc1_TimeoutSeconds :: int
  thc1_UnhealthyThresholdCount :: uint32
  thc1_HealthyThresholdCount :: uint32

definition zero_TCPHealthCheckPolicy_v1 :: TCPHealthCheckPolicy_v1 where
  "zero_TCPHealthCheckPolicy_v1 = \<lparr>
     thc1_IntervalSeconds = 0, thc1_TimeoutSeconds = 0, thc1_UnhealthyThresholdCount = 0,
     thc1_HealthyThresholdCount = 0\<rparr>"

record TimeoutPolicy =
  tp_Response :: string
  tp_Idle :: string
  tp_IdleConnection :: string

definition zero_TimeoutPolicy :: TimeoutPolicy where
  "zero_TimeoutPolicy = \<lparr>
     tp_Response = '''', tp_Idle = '''', tp_IdleConnection = ''''\<rparr>"

record RetryPolicy_v1 =
  rp1_NumRetries :: int
  rp1_PerTryTimeout :: string
  rp1_RetryOn :: "string list"
  rp1_RetriableStatusCodes :: "uint32 list"

definition zero_RetryPolicy_v1 :: RetryPolicy_v1 where
  "zero_RetryPolicy_v1 = \<lparr>
     rp1_NumRetries = 0, rp1_PerTryTimeout = '''', rp1_RetryOn = [], rp1_RetriableStatusCodes = []\<rparr>"

record ReplacePrefix =
  rpx_Prefix :: string
  rpx_Replacement :: string

definition zero_ReplacePrefix :: ReplacePrefix where
  "zero_ReplacePrefix = \<lparr>
     rpx_Prefix = '''', rpx_Replacement = ''''\<rparr>"

record RequestHashPolicy_v1 =
  rhp1_Terminal :: bool
  rhp1_HeaderHashOptions :: "string option"
  rhp1_QueryParameterHashOptions :: "string option"
  rhp1_HashSourceIP :: bool

definition zero_RequestHashPolicy_v1 :: RequestHashPolicy_v1 where
  "zero_RequestHashPolicy_v1 = \<lparr>
     rhp1_Terminal = False, rhp1_HeaderHashOptions = None, rhp1_QueryParameterHashOptions = None,
     rhp1_HashSourceIP = False\<rparr>"

record LoadBalancerPolicy =
  lbp_Strategy :: string
  lbp_RequestHashPolicies :: "RequestHashPolicy_v1 list"

definition zero_LoadBalancerPolicy :: LoadBalancerPolicy where
  "zero_LoadBalancerPolicy = \<lparr>
     lbp_Strategy = '''', lbp_RequestHashPolicies = []\<rparr>"

record HeadersPolicy_v1 =
  hp1_Set :: "HeaderValue list"
  hp1_Remove :: "string list"

definition zero_HeadersPolicy_v1 :: HeadersPolicy_v1 where
  "zero_HeadersPolicy_v1 = \<lparr>
     hp1_Set = [], hp1_Remove = []\<rparr>"

record SlowStartPolicy =
  ssp_Window :: string
  ssp_Aggression :: string
  ssp_MinimumWeightPercent :: uint32

definition zero_SlowStartPolicy :: SlowStartPolicy where
  "zero_SlowStartPolicy = \<lparr>
     ssp_Window = '''', ssp_Aggression = '''', ssp_MinimumWeightPercent = 0\<rparr>"

record Service_v1 =
  sv1_Name :: string
  sv1_Port :: int
  sv1_HealthPort :: int
  sv1_Protocol :: "string option"
  sv1_Weight :: int
  sv1_UpstreamValidation :: "UpstreamValidation option"
  sv1_Mirror :: bool
  sv1_RequestHeadersPolicy :: "HeadersPolicy_v1 option"
  sv1_ResponseHeadersPolicy :: "HeadersPolicy_v1 option"
  sv1_CookieRewritePolicies :: "CookieRewritePolicy_v1 list"
  sv1_SlowStartPolicy :: "SlowStartPolicy option"

definition zero_Service_v1 :: Service_v1 where
  "zero_Service_v1 = \<lparr>
     sv1_Name = '''', sv1_Port = 0, sv1_HealthPort = 0, sv1_Protocol = None, sv1_Weight = 0,
     sv1_UpstreamValidation = None, sv1_Mirror = False, sv1_RequestHeadersPolicy = None,
     sv1_ResponseHeadersPolicy = None, sv1_CookieRewritePolicies = [], sv1_SlowStartPolicy = None\<rparr>"

record TCPProxyInclude =
  tpi_Name :: string
  tpi_Namespace :: string

definition zero_TCPProxyInclude :: TCPProxyInclude where
  "zero_TCPProxyInclude = \<lparr>
     tpi_Name = '''', tpi_Namespace = ''''\<rparr>"

record TCPProxy_v1 =
  tcp1_LoadBalancerPolicy :: "LoadBalancerPolicy option"
  tcp1_Services :: "Service_v1 list"
  tcp1_Include :: "TCPProxyInclude option"
  tcp1_IncludesDeprecated :: "TCPProxyInclude option"
  tcp1_HealthCheckPolicy :: "TCPHealthCheckPolicy_v1 option"

definition zero_TCPProxy_v1 :: TCPProxy_v1 where
  "zero_TCPProxy_v1 = \<lparr>
     tcp1_LoadBalancerPolicy = None, tcp1_Services = [], tcp1_Include = None,
     tcp1_IncludesDeprecated = None, tcp1_HealthCheckPolicy = None\<rparr>"

record Route_v1 =
  rt1_Conditions :: "MatchCondition_v1 list"
  rt1_Services :: "Service_v1 list"
  rt1_EnableWebsockets :: bool
  rt1_PermitInsecure :: bool
  rt1_AuthPolicy :: "AuthorizationPolicy option"
  rt1_TimeoutPolicy :: "TimeoutPolicy option"
  rt1_RetryPolicy :: "RetryPolicy_v1 option"
  rt1_HealthCheckPolicy :: "HTTPHealthCheckPolicy_v1 option"
  rt1_LoadBalancerPolicy :: "LoadBalancerPolicy option"
  rt1_PathRewritePolicy :: "ReplacePrefix list option"
  rt1_RequestHeadersPolicy :: "HeadersPolicy_v1 option"
  rt1_ResponseHeadersPolicy :: "HeadersPolicy_v1 option"
  rt1_CookieRewritePolicies :: "CookieRewritePolicy_v1 list"
  rt1_RateLimitPolicy :: "RateLimitPolicy_v1 option"
  rt1_RequestRedirectPolicy :: "HTTPRequestRedirectPolicy option"
  rt1_DirectResponsePolicy :: "HTTPDirectResponsePolicy option"
  rt1_InternalRedirectPolicy :: "HTTPInternalRedirectPolicy option"
  rt1_JWTVerificationPolicy :: "JWTVerificationPolicy option"
  rt1_IPAllowFilterPolicy :: "IPFilterPolicy list"
  rt1_IPDenyFilterPolicy :: "IPFilterPolicy list"

definition zero_Route_v1 :: Route_v1 where
  "zero_Route_v1 = \<lparr>
     rt1_Conditions = [], rt1_Services = [], rt1_EnableWebsockets = False,
     rt1_PermitInsecure = False, rt1_AuthPolicy = None, rt1_TimeoutPolicy = None,
     rt1_RetryPolicy = None, rt1_HealthCheckPolicy = None, rt1_LoadBalancerPolicy = None,
     rt1_PathRewritePolicy = None, rt1_RequestHeadersPolicy = None,
     rt1_ResponseHeadersPolicy = None, rt1_CookieRewritePolicies = [], rt1_RateLimitPolicy = None,
     rt1_RequestRedirectPolicy = None, rt1_DirectResponsePolicy = None,
     rt1_InternalRedirectPolicy = None, rt1_JWTVerificationPolicy = None,
     rt1_IPAllowFilterPolicy = [], rt1_IPDenyFilterPolicy = []\<rparr>"

record HTTPProxySpec =
  spec_VirtualHost :: "VirtualHost_v1 option"
  spec_Routes :: "Route_v1 list"
  spec_TCPProxy :: "TCPProxy_v1 option"
  spec_Includes :: "Include list"
  spec_IngressClassName :: string

definition zero_HTTPProxySpec :: HTTPProxySpec where
  "zero_HTTPProxySpec = \<lparr>
     spec_VirtualHost = None, spec_Routes = [], spec_TCPProxy = None, spec_Includes = [],
     spec_IngressClassName = ''''\<rparr>"

record HTTPProxy =
  px_Name :: string
  px_Namespace :: string
  px_Generation :: int
  px_Annotations :: "(string, string) gomap"
  px_Spec :: HTTPProxySpec

definition zero_HTTPProxy :: HTTPProxy where
  "zero_HTTPProxy = \<lparr>
     px_Name = '''', px_Namespace = '''', px_Generation = 0, px_Annotations = [],
     px_Spec = zero_HTTPProxySpec\<rparr>"

lemmas zero_v1_defs =
  zero_HeaderMatchCondition_v1_def
  zero_QueryParameterMatchCondition_v1_def
  zero_MatchCondition_v1_def
  zero_Include_def
  zero_ExtensionServiceReference_def
  zero_AuthorizationServerBufferSettings_v1_def
  zero_AuthorizationPolicy_def
  zero_AuthorizationServer_def
  zero_UpstreamValidation_def
  zero_RemoteJWKS_v1_def
  zero_JWTProvider_v1_def
  zero_ClientCertificateDetails_v1_def
  zero_DownstreamValidation_def
  zero_TLS_def
  zero_CORSPolicy_v1_def
  zero_IPFilterPolicy_def
  zero_HeaderValue_def
  zero_LocalRateLimitPolicy_v1_def
  zero_GenericKeyDescriptor_def
  zero_RequestHeaderDescriptor_def
  zero_RequestHeaderValueMatchDescriptor_def
  zero_RateLimitDescriptorEntry_v1_def
  zero_GlobalRateLimitPolicy_v1_def
  zero_RateLimitPolicy_v1_def
  zero_VirtualHost_v1_def
  zero_JWTVerificationPolicy_def
  zero_HTTPDirectResponsePolicy_def
  zero_HTTPRequestRedirectPolicy_def
  zero_HTTPInternalRedirectPolicy_def
  zero_CookieRewritePolicy_v1_def
  zero_HTTPStatusRange_def
  zero_HTTPHealthCheckPolicy_v1_def
  zero_TCPHealthCheckPolicy_v1_def
  zero_TimeoutPolicy_def
  zero_RetryPolicy_v1_def
  zero_ReplacePrefix_def
  zero_RequestHashPolicy_v1_def
  zero_LoadBalancerPolicy_def
  zero_HeadersPolicy_v1_def
  zero_SlowStartPolicy_def
  zero_Service_v1_def
  zero_TCPProxyInclude_def
  zero_TCPProxy_v1_def
  zero_Route_v1_def
  zero_HTTPProxySpec_def
  zero_HTTPProxy_def

section \<open>Helpers (\<open>apis/projectcontour/v1/helpers.go\<close>)\<close>

definition AuthorizationConfigured :: "VirtualHost_v1 \<Rightarrow> bool" where
  "AuthorizationConfigured v = (vh1_Authorization v \<noteq> None)"

definition DisableAuthorization :: "VirtualHost_v1 \<Rightarrow> bool" where
  "DisableAuthorization v =
     (case vh1_Authorization v of
        Some a \<Rightarrow> (case as_AuthPolicy a of None \<Rightarrow> False | Some p \<Rightarrow> ap_Disabled p)
      | None \<Rightarrow> False)"

definition IsConfigured :: "ExtensionServiceReference \<Rightarrow> bool" where
  "IsConfigured r = (esr_Name r \<noteq> '''')"

definition VirtualHost_AuthorizationContext :: "VirtualHost_v1 \<Rightarrow> (string, string) gomap" where
  "VirtualHost_AuthorizationContext v =
     (case vh1_Authorization v of
        Some a \<Rightarrow> (case as_AuthPolicy a of Some p \<Rightarrow> ap_Context p | None \<Rightarrow> [])
      | None \<Rightarrow> [])"

definition GetPrefixReplacements :: "Route_v1 \<Rightarrow> ReplacePrefix list" where
  "GetPrefixReplacements r = (case rt1_PathRewritePolicy r of Some rs \<Rightarrow> rs | None \<Rightarrow> [])"

text \<open>The entries of the route are stored after, and so over, those of the parent.\<close>

definition Route_AuthorizationContext :: "Route_v1 \<Rightarrow> (string, string) gomap \<Rightarrow> (string, string) gomap" where
  "Route_AuthorizationContext r parent =
     (let values = fold (\<lambda>(k, v). put k v) parent [];
          values = (case rt1_AuthPolicy r of
                      Some p \<Rightarrow> fold (\<lambda>(k, v). put k v) (ap_Context p) values
                    | None \<Rightarrow> values)
      in values)"

lemma lookup_fold_put:
  "wf_gomap kvs \<Longrightarrow>
   lookup (fold (\<lambda>(k, v). put k v) kvs m) k = (case lookup kvs k of Some v \<Rightarrow> Some v | None \<Rightarrow> lookup m k)"
proof (induction kvs arbitrary: m)
  case (Cons kv kvs)
  obtain k' v' where kv: "kv = (k', v')" by force
  show ?case
  proof (cases "k = k'")
    case True
    with Cons.prems kv have "lookup kvs k = None" by (auto simp: map_of_eq_None_iff)
    with Cons kv True show ?thesis by (simp add: lookup_put)
  next
    case False
    with Cons kv show ?thesis by (simp add: lookup_put split: option.splits)
  qed
qed simp

text \<open>The route's context wins, the parent's is inherited: what the doc of the Go method promises.\<close>

lemma lookup_Route_AuthorizationContext:
  assumes "wf_gomap parent" "\<And>p. rt1_AuthPolicy r = Some p \<Longrightarrow> wf_gomap (ap_Context p)"
  shows "lookup (Route_AuthorizationContext r parent) k =
     (case rt1_AuthPolicy r of
        None \<Rightarrow> lookup parent k
      | Some p \<Rightarrow> (case lookup (ap_Context p) k of Some v \<Rightarrow> Some v | None \<Rightarrow> lookup parent k))"
  using assms
  by (auto simp: Route_AuthorizationContext_def lookup_fold_put Let_def split: option.splits)

end
