(* ===== verification/Timeout.thy ===== *)
theory Timeout
  imports Prelude
begin

text \<open>
  \<open>internal/timeout/timeout.go\<close>: a timeout setting is one of ``disabled'', ``use the default'' or
  an explicit value.  Durations are nanoseconds.  \<open>time.ParseDuration\<close> is a parameter of the two
  parsers: what is shown holds for every parser.
\<close>

type_synonym duration = int

record Setting =
  val :: duration
  valset :: bool
  disabled :: bool

definition IsDisabled :: "Setting \<Rightarrow> bool" where
  "IsDisabled s = disabled s"

definition UseDefault :: "Setting \<Rightarrow> bool" where
  "UseDefault s = (\<not> disabled s \<and> \<not> valset s)"

definition Duration :: "Setting \<Rightarrow> duration" where
  "Duration s = val s"

definition DefaultSetting :: Setting where
  "DefaultSetting = \<lparr>val = 0, valset = False, disabled = False\<rparr>"

definition DisabledSetting :: Setting where
  "DisabledSetting = \<lparr>val = 0, valset = False, disabled = True\<rparr>"

definition DurationSetting :: "duration \<Rightarrow> Setting" where
  "DurationSetting d = (if d = 0 then DefaultSetting else \<lparr>val = d, valset = True, disabled = False\<rparr>)"

definition timeout_Parse :: "(string \<Rightarrow> duration result) \<Rightarrow> string \<Rightarrow> Setting result" where
  "timeout_Parse ParseDuration timeout =
     (if timeout = '''' then Ok DefaultSetting
      else if timeout = ''infinity'' \<or> timeout = ''infinite'' then Ok DisabledSetting
      else (case ParseDuration timeout of
              Inl err \<Rightarrow> Err (''unable to parse timeout string '' @ go_quote timeout @ '': '' @ err)
            | Inr d \<Rightarrow> if d = 0 then Ok DefaultSetting else Ok (DurationSetting d)))"

definition ParseMaxAge :: "(string \<Rightarrow> duration result) \<Rightarrow> string \<Rightarrow> Setting result" where
  "ParseMaxAge ParseDuration timeout =
     (if timeout = '''' then Ok DefaultSetting
      else (case ParseDuration timeout of
              Inl err \<Rightarrow> Err (''unable to parse timeout string '' @ go_quote timeout @ '': '' @ err)
            | Inr d \<Rightarrow> if d = 0 then Ok DisabledSetting else Ok (DurationSetting d)))"

section \<open>Every setting is exactly one of the three kinds\<close>

definition wf_Setting :: "Setting \<Rightarrow> bool" where
  "wf_Setting s \<longleftrightarrow>
     (IsDisabled s \<and> \<not> valset s \<and> Duration s = 0) \<or>
     (UseDefault s \<and> Duration s = 0) \<or>
     (\<not> IsDisabled s \<and> \<not> UseDefault s \<and> Duration s \<noteq> 0)"

lemmas setting_defs =
  IsDisabled_def UseDefault_def Duration_def DefaultSetting_def DisabledSetting_def DurationSetting_def

lemma wf_Setting_intros [wf_intro]:
  "wf_Setting DefaultSetting" "wf_Setting DisabledSetting" "wf_Setting (DurationSetting d)"
  by (simp_all add: wf_Setting_def setting_defs)

lemma setting_kinds [simp]:
  "IsDisabled DisabledSetting" "\<not> IsDisabled DefaultSetting" "\<not> IsDisabled (DurationSetting d)"
  "UseDefault DefaultSetting" "\<not> UseDefault DisabledSetting"
  "UseDefault (DurationSetting d) \<longleftrightarrow> d = 0"
  "Duration (DurationSetting d) = d" "Duration DefaultSetting = 0" "Duration DisabledSetting = 0"
  by (simp_all add: setting_defs)

lemma timeout_Parse_wf: "timeout_Parse pd s = Inr st \<Longrightarrow> wf_Setting st"
  by (auto simp: timeout_Parse_def intro: wf_intro split: if_splits sum.splits)

lemma ParseMaxAge_wf: "ParseMaxAge pd s = Inr st \<Longrightarrow> wf_Setting st"
  by (auto simp: ParseMaxAge_def intro: wf_intro split: if_splits sum.splits)

text \<open>
  \<open>timeout.Parse\<close> on every input: the result is disabled exactly for ``infinity'' and
  ``infinite'', it is the default exactly for the empty string and for a duration of zero, it is an
  explicit value otherwise, and it fails exactly when the string is none of the reserved words and
  is not a duration.  Whatever it returns is one of the three kinds of setting and only one.
\<close>

theorem timeout_Parse_correct:
  "case timeout_Parse pd s of
     Inl e \<Rightarrow> s \<notin> {'''', ''infinity'', ''infinite''} \<and> \<not> is_ok (pd s)
   | Inr st \<Rightarrow>
       wf_Setting st \<and>
       (IsDisabled st \<longleftrightarrow> s = ''infinity'' \<or> s = ''infinite'') \<and>
       (UseDefault st \<longleftrightarrow> s = '''' \<or> (s \<notin> {''infinity'', ''infinite''} \<and> pd s = Inr 0)) \<and>
       (\<not> IsDisabled st \<and> \<not> UseDefault st \<longleftrightarrow> s \<noteq> '''' \<and> s \<notin> {''infinity'', ''infinite''} \<and>
          pd s = Inr (Duration st) \<and> Duration st \<noteq> 0)"
  by (auto simp: timeout_Parse_def intro: wf_intro split: sum.splits)

end
