(* ===== verification/Dag_Types.thy ===== *)
theory Dag_Types
  imports API_V1 Timeout
begin

text \<open>
  The data model of \<open>internal/dag/dag.go\<close>: the records of the directed acyclic graph that Contour
  builds from Kubernetes objects, one per struct, and the operations of that file.  Fields keep the
  source's names behind a prefix that names the struct; \<open>zero_T\<close> is the zero value of \<open>T\<close>.
\<close>

type_synonym uint8 = "8 word"

section \<open>Kubernetes objects\<close>

text \<open>Of the objects of \<open>k8s.io/api/core/v1\<close>, the fields the code reads.\<close>


record ServicePort =
  port_Name :: string
  port_Protocol :: string
  port_AppProtocol :: "string option"
  port_Port :: int

definition zero_ServicePort :: ServicePort where
  "zero_ServicePort = \<lparr>
     port_Name = '''', port_Protocol = '''', port_AppProtocol = None, port_Port = 0\<rparr>"

record CoreService =
  csv_Name :: string
  csv_Namespace :: string
  csv_Annotations :: "(string, string) gomap"
  csv_Type :: string
  csv_ExternalName :: string
  csv_Ports :: "ServicePort list"

definition zero_CoreService :: CoreService where
  "zero_CoreService = \<lparr>
     csv_Name = '''', csv_Namespace = '''', csv_Annotations = [], csv_Type = '''',
     csv_ExternalName = '''', csv_Ports = []\<rparr>"

record CoreSecret =
  csec_Name :: string
  csec_Namespace :: string
  csec_Type :: string
  csec_Data :: "(string, string) gomap"

definition zero_CoreSecret :: CoreSecret where
  "zero_CoreSecret = \<lparr>
     csec_Name = '''', csec_Namespace = '''', csec_Type = '''', csec_Data = []\<rparr>"

section \<open>Matching\<close>

datatype PrefixMatchType = PrefixMatchString | PrefixMatchSegment

datatype MatchCondition =
    PrefixMatchCondition string PrefixMatchType
  | ExactMatchCondition string
  | RegexMatchCondition string

abbreviation HeaderMatchTypeExact :: string where "HeaderMatchTypeExact \<equiv> ''exact''"
abbreviation HeaderMatchTypeContains :: string where "HeaderMatchTypeContains \<equiv> ''contains''"
abbreviation HeaderMatchTypePresent :: string where "HeaderMatchTypePresent \<equiv> ''present''"
abbreviation HeaderMatchTypeRegex :: string where "HeaderMatchTypeRegex \<equiv> ''regex''"

abbreviation QueryParamMatchTypeExact :: string where "QueryParamMatchTypeExact \<equiv> ''exact''"
abbreviation QueryParamMatchTypePrefix :: string where "QueryParamMatchTypePrefix \<equiv> ''prefix''"
abbreviation QueryParamMatchTypeSuffix :: string where "QueryParamMatchTypeSuffix \<equiv> ''suffix''"
abbreviation QueryParamMatchTypeRegex :: string where "QueryParamMatchTypeRegex \<equiv> ''regex''"
abbreviation QueryParamMatchTypeContains :: string where "QueryParamMatchTypeContains \<equiv> ''contains''"
abbreviation QueryParamMatchTypePresent :: string where "QueryParamMatchTypePresent \<equiv> ''present''"


record HeaderMatchCondition =
  hc_Name :: string
  hc_Value :: string
  hc_MatchType :: string
  hc_Invert :: bool
  hc_IgnoreCase :: bool
  hc_TreatMissingAsEmpty :: bool

definition zero_HeaderMatchCondition :: HeaderMatchCondition where
  "zero_HeaderMatchCondition = \<lparr>
     hc_Name = '''', hc_Value = '''', hc_MatchType = '''', hc_Invert = False,
     hc_IgnoreCase = False, hc_TreatMissingAsEmpty = False\<rparr>"

record QueryParamMatchCondition =
  qc_Name :: string
  qc_Value :: string
  qc_MatchType :: string
  qc_IgnoreCase :: bool

definition zero_QueryParamMatchCondition :: QueryParamMatchCondition where
  "zero_QueryParamMatchCondition = \<lparr>
     qc_Name = '''', qc_Value = '''', qc_MatchType = '''', qc_IgnoreCase = False\<rparr>"

section \<open>Route policies\<close>


record DirectResponse =
  dr_StatusCode :: uint32
  dr_Body :: string

definition zero_DirectResponse :: DirectResponse where
  "zero_DirectResponse = \<lparr>
     dr_StatusCode = 0, dr_Body = ''''\<rparr>"

record PathRewritePolicy =
  prp_PrefixRewrite :: string
  prp_FullPathRewrite :: string
  prp_PrefixRegexRemove :: string

definition zero_PathRewritePolicy :: PathRewritePolicy where
  "zero_PathRewritePolicy = \<lparr>
     prp_PrefixRewrite = '''', prp_FullPathRewrite = '''', prp_PrefixRegexRemove = ''''\<rparr>"

record Redirect =
  rd_Hostname :: string
  rd_Scheme :: string
  rd_PortNumber :: uint32
  rd_StatusCode :: int
  rd_PathRewritePolicy :: "PathRewritePolicy option"

definition zero_Redirect :: Redirect where
  "zero_Redirect = \<lparr>
     rd_Hostname = '''', rd_Scheme = '''', rd_PortNumber = 0, rd_StatusCode = 0,
     rd_PathRewritePolicy = None\<rparr>"

record InternalRedirectPolicy =
  irp_MaxInternalRedirects :: uint32
  irp_RedirectResponseCodes :: "uint32 list"
  irp_AllowCrossSchemeRedirect :: string
  irp_DenyRepeatedRouteRedirect :: bool

definition zero_InternalRedirectPolicy :: InternalRedirectPolicy where
  "zero_InternalRedirectPolicy = \<lparr>
     irp_MaxInternalRedirects = 0, irp_RedirectResponseCodes = [],
     irp_AllowCrossSchemeRedirect = '''', irp_DenyRepeatedRouteRedirect = False\<rparr>"

record RouteTimeoutPolicy =
  rto_ResponseTimeout :: Setting
  rto_IdleStreamTimeout :: Setting

definition zero_RouteTimeoutPolicy :: RouteTimeoutPolicy where
  "zero_RouteTimeoutPolicy = \<lparr>
     rto_ResponseTimeout = DefaultSetting, rto_IdleStreamTimeout = DefaultSetting\<rparr>"

record ClusterTimeoutPolicy =
  cto_IdleConnectionTimeout :: Setting
  cto_ConnectTimeout :: duration

definition zero_ClusterTimeoutPolicy :: ClusterTimeoutPolicy where
  "zero_ClusterTimeoutPolicy = \<lparr>
     cto_IdleConnectionTimeout = DefaultSetting, cto_ConnectTimeout = 0\<rparr>"

record RetryPolicy =
  rp_RetryOn :: string
  rp_RetriableStatusCodes :: "uint32 list"
  rp_NumRetries :: uint32
  rp_PerTryTimeout :: Setting

definition zero_RetryPolicy :: RetryPolicy where
  "zero_RetryPolicy = \<lparr>
     rp_RetryOn = '''', rp_RetriableStatusCodes = [], rp_NumRetries = 0,
     rp_PerTryTimeout = DefaultSetting\<rparr>"

record HeadersPolicy =
  hp_HostRewrite :: string
  hp_HostRewriteHeader :: string
  hp_Add :: "(string, string) gomap"
  hp_Set :: "(string, string) gomap"
  hp_Remove :: "string list"

definition zero_HeadersPolicy :: HeadersPolicy where
  "zero_HeadersPolicy = \<lparr>
     hp_HostRewrite = '''', hp_HostRewriteHeader = '''', hp_Add = [], hp_Set = [], hp_Remove = []\<rparr>"

record CookieRewritePolicy =
  crp_Name :: string
  crp_Path :: "string option"
  crp_Domain :: "string option"
  crp_Secure :: nat
  crp_SameSite :: "string option"

definition zero_CookieRewritePolicy :: CookieRewritePolicy where
  "zero_CookieRewritePolicy = \<lparr>
     crp_Name = '''', crp_Path = None, crp_Domain = None, crp_Secure = 0, crp_SameSite = None\<rparr>"

record LocalRateLimitPolicy =
  lrl_MaxTokens :: uint32
  lrl_TokensPerFill :: uint32
  lrl_FillInterval :: duration
  lrl_ResponseStatusCode :: uint32
  lrl_ResponseHeadersToAdd :: "(string, string) gomap"

definition zero_LocalRateLimitPolicy :: LocalRateLimitPolicy where
  "zero_LocalRateLimitPolicy = \<lparr>
     lrl_MaxTokens = 0, lrl_TokensPerFill = 0, lrl_FillInterval = 0, lrl_ResponseStatusCode = 0,
     lrl_ResponseHeadersToAdd = []\<rparr>"

record GenericKeyDescriptorEntry =
  gke_Key :: string
  gke_Value :: string

definition zero_GenericKeyDescriptorEntry :: GenericKeyDescriptorEntry where
  "zero_GenericKeyDescriptorEntry = \<lparr>
     gke_Key = '''', gke_Value = ''''\<rparr>"

record HeaderMatchDescriptorEntry =
  hme_HeaderName :: string
  hme_Key :: string

definition zero_HeaderMatchDescriptorEntry :: HeaderMatchDescriptorEntry where
  "zero_HeaderMatchDescriptorEntry = \<lparr>
     hme_HeaderName = '''', hme_Key = ''''\<rparr>"

record HeaderValueMatchDescriptorEntry =
  hvme_Headers :: "HeaderMatchCondition list"
  hvme_ExpectMatch :: bool
  hvme_Value :: string

definition zero_HeaderValueMatchDescriptorEntry :: HeaderValueMatchDescriptorEntry where
  "zero_HeaderValueMatchDescriptorEntry = \<lparr>
     hvme_Headers = [], hvme_ExpectMatch = False, hvme_Value = ''''\<rparr>"

record RateLimitDescriptorEntry =
  rlde_GenericKey :: "GenericKeyDescriptorEntry option"
  rlde_HeaderMatch :: "HeaderMatchDescriptorEntry option"
  rlde_HeaderValueMatch :: "HeaderValueMatchDescriptorEntry option"
  rlde_RemoteAddress :: "unit option"

definition zero_RateLimitDescriptorEntry :: RateLimitDescriptorEntry where
  "zero_RateLimitDescriptorEntry = \<lparr>
     rlde_GenericKey = None, rlde_HeaderMatch = None, rlde_HeaderValueMatch = None,
     rlde_RemoteAddress = None\<rparr>"

record GlobalRateLimitPolicy =
  grl_Descriptors :: "RateLimitDescriptorEntry list list"

definition zero_GlobalRateLimitPolicy :: GlobalRateLimitPolicy where
  "zero_GlobalRateLimitPolicy = \<lparr>
     grl_Descriptors = []\<rparr>"

record RateLimitPolicy =
  rl_Local :: "LocalRateLimitPolicy option"
  rl_Global :: "GlobalRateLimitPolicy option"

definition zero_RateLimitPolicy :: RateLimitPolicy where
  "zero_RateLimitPolicy = \<lparr>
     rl_Local = None, rl_Global = None\<rparr>"

datatype VhRateLimitsType = VhRateLimitsOverride | VhRateLimitsInclude | VhRateLimitsIgnore


record CookieHashOptions =
  cho_CookieName :: string
  cho_TTL :: duration
  cho_Path :: string

definition zero_CookieHashOptions :: CookieHashOptions where
  "zero_CookieHashOptions = \<lparr>
     cho_CookieName = '''', cho_TTL = 0, cho_Path = ''''\<rparr>"

record RequestHashPolicy =
  rhp_Terminal :: bool
  rhp_HeaderHashOptions :: "string option"
  rhp_CookieHashOptions :: "CookieHashOptions option"
  rhp_HashSourceIP :: bool
  rhp_QueryParameterHashOptions :: "string option"

definition zero_RequestHashPolicy :: RequestHashPolicy where
  "zero_RequestHashPolicy = \<lparr>
     rhp_Terminal = False, rhp_HeaderHashOptions = None, rhp_CookieHashOptions = None,
     rhp_HashSourceIP = False, rhp_QueryParameterHashOptions = None\<rparr>"

datatype CORSAllowOriginMatchType = CORSAllowOriginMatchExact | CORSAllowOriginMatchRegex


record CORSAllowOriginMatch =
  cao_Type :: CORSAllowOriginMatchType
  cao_Value :: string

definition zero_CORSAllowOriginMatch :: CORSAllowOriginMatch where
  "zero_CORSAllowOriginMatch = \<lparr>
     cao_Type = CORSAllowOriginMatchExact, cao_Value = ''''\<rparr>"

record CORSPolicy =
  cors_AllowCredentials :: bool
  cors_AllowOrigin :: "CORSAllowOriginMatch list"
  cors_AllowMethods :: "string list"
  cors_AllowHeaders :: "string list"
  cors_ExposeHeaders :: "string list"
  cors_MaxAge :: Setting
  cors_AllowPrivateNetwork :: bool

definition zero_CORSPolicy :: CORSPolicy where
  "zero_CORSPolicy = \<lparr>
     cors_AllowCredentials = False, cors_AllowOrigin = [], cors_AllowMethods = [],
     cors_AllowHeaders = [], cors_ExposeHeaders = [], cors_MaxAge = DefaultSetting,
     cors_AllowPrivateNetwork = False\<rparr>"

text \<open>\<open>net.IPNet\<close>: the bytes of the address and of the mask.\<close>

type_synonym IPNet = "int list \<times> int list"


record IPFilterRule =
  ipf_Remote :: bool
  ipf_CIDR :: IPNet

definition zero_IPFilterRule :: IPFilterRule where
  "zero_IPFilterRule = \<lparr>
     ipf_Remote = False, ipf_CIDR = ([], [])\<rparr>"

section \<open>Secrets and upstream validation\<close>

text \<open>The three validation results are computed on first use and kept: \<open>None\<close> is not validated yet,
  \<open>Some None\<close> is valid, \<open>Some (Some e)\<close> is invalid with error \<open>e\<close>.\<close>


record Secret =
  sec_Object :: CoreSecret
  sec_ValidTLSSecret :: "string option option"
  sec_ValidCASecret :: "string option option"
  sec_ValidCRLSecret :: "string option option"

definition zero_Secret :: Secret where
  "zero_Secret = \<lparr>
     sec_Object = zero_CoreSecret, sec_ValidTLSSecret = None, sec_ValidCASecret = None,
     sec_ValidCRLSecret = None\<rparr>"

record ClientCertificateDetails =
  ccd_Subject :: bool
  ccd_Cert :: bool
  ccd_Chain :: bool
  ccd_DNS :: bool
  ccd_URI :: bool

definition zero_ClientCertificateDetails :: ClientCertificateDetails where
  "zero_ClientCertificateDetails = \<lparr>
     ccd_Subject = False, ccd_Cert = False, ccd_Chain = False, ccd_DNS = False, ccd_URI = False\<rparr>"

record PeerValidationContext =
  pvc_CACertificates :: "Secret option list"
  pvc_SubjectNames :: "string list"
  pvc_SkipClientCertValidation :: bool
  pvc_ForwardClientCertificate :: "ClientCertificateDetails option"
  pvc_CRL :: "Secret option"
  pvc_OnlyVerifyLeafCertCrl :: bool
  pvc_OptionalClientCertificate :: bool

definition zero_PeerValidationContext :: PeerValidationContext where
  "zero_PeerValidationContext = \<lparr>
     pvc_CACertificates = [], pvc_SubjectNames = [], pvc_SkipClientCertValidation = False,
     pvc_ForwardClientCertificate = None, pvc_CRL = None, pvc_OnlyVerifyLeafCertCrl = False,
     pvc_OptionalClientCertificate = False\<rparr>"

record UpstreamTLS =
  utls_MinimumProtocolVersion :: string
  utls_MaximumProtocolVersion :: string
  utls_CipherSuites :: "string list"

definition zero_UpstreamTLS :: UpstreamTLS where
  "zero_UpstreamTLS = \<lparr>
     utls_MinimumProtocolVersion = '''', utls_MaximumProtocolVersion = '''', utls_CipherSuites = []\<rparr>"

section \<open>Services and clusters\<close>


record CircuitBreakers =
  cb_MaxConnections :: uint32
  cb_MaxPendingRequests :: uint32
  cb_MaxRequests :: uint32
  cb_MaxRetries :: uint32
  cb_PerHostMaxConnections :: uint32

definition zero_CircuitBreakers :: CircuitBreakers where
  "zero_CircuitBreakers = \<lparr>
     cb_MaxConnections = 0, cb_MaxPendingRequests = 0, cb_MaxRequests = 0, cb_MaxRetries = 0,
     cb_PerHostMaxConnections = 0\<rparr>"

record WeightedService =
  ws_Weight :: uint32
  ws_ServiceName :: string
  ws_ServiceNamespace :: string
  ws_ServicePort :: ServicePort
  ws_HealthPort :: ServicePort

definition zero_WeightedService :: WeightedService where
  "zero_WeightedService = \<lparr>
     ws_Weight = 0, ws_ServiceName = '''', ws_ServiceNamespace = '''',
     ws_ServicePort = zero_ServicePort, ws_HealthPort = zero_ServicePort\<rparr>"

record Service =
  sv_Weighted :: WeightedService
  sv_Protocol :: string
  sv_CircuitBreakers :: CircuitBreakers
  sv_ExternalName :: string

definition zero_Service :: Service where
  "zero_Service = \<lparr>
     sv_Weighted = zero_WeightedService, sv_Protocol = '''',
     sv_CircuitBreakers = zero_CircuitBreakers, sv_ExternalName = ''''\<rparr>"

record ServiceCluster =
  sc_ClusterName :: string
  sc_Services :: "WeightedService list"

definition zero_ServiceCluster :: ServiceCluster where
  "zero_ServiceCluster = \<lparr>
     sc_ClusterName = '''', sc_Services = []\<rparr>"

record HTTPHealthCheckPolicy =
  hhc_Path :: string
  hhc_Host :: string
  hhc_Interval :: duration
  hhc_Timeout :: duration
  hhc_UnhealthyThreshold :: uint32
  hhc_HealthyThreshold :: uint32
  hhc_ExpectedStatuses :: "HTTPStatusRange list"

definition zero_HTTPHealthCheckPolicy :: HTTPHealthCheckPolicy where
  "zero_HTTPHealthCheckPolicy = \<lparr>
     hhc_Path = '''', hhc_Host = '''', hhc_Interval = 0, hhc_Timeout = 0,
     hhc_UnhealthyThreshold = 0, hhc_HealthyThreshold = 0, hhc_ExpectedStatuses = []\<rparr>"

record TCPHealthCheckPolicy =
  thc_Interval :: duration
  thc_Timeout :: duration
  thc_UnhealthyThreshold :: uint32
  thc_HealthyThreshold :: uint32

definition zero_TCPHealthCheckPolicy :: TCPHealthCheckPolicy where
  "zero_TCPHealthCheckPolicy = \<lparr>
     thc_Interval = 0, thc_Timeout = 0, thc_UnhealthyThreshold = 0, thc_HealthyThreshold = 0\<rparr>"

text \<open>A \<open>float64\<close> is its bit pattern: the code only stores it.\<close>

type_synonym float64 = "64 word"


record SlowStartConfig =
  ssc_Window :: duration
  ssc_Aggression :: float64
  ssc_MinWeightPercent :: uint32

definition zero_SlowStartConfig :: SlowStartConfig where
  "zero_SlowStartConfig = \<lparr>
     ssc_Window = 0, ssc_Aggression = 0, ssc_MinWeightPercent = 0\<rparr>"

record Cluster =
  cl_Upstream :: Service
  cl_Weight :: uint32
  cl_Protocol :: string
  cl_UpstreamValidation :: "PeerValidationContext option"
  cl_LoadBalancerPolicy :: string
  cl_HTTPHealthCheckPolicy :: "HTTPHealthCheckPolicy option"
  cl_TCPHealthCheckPolicy :: "TCPHealthCheckPolicy option"
  cl_RequestHeadersPolicy :: "HeadersPolicy option"
  cl_ResponseHeadersPolicy :: "HeadersPolicy option"
  cl_CookieRewritePolicies :: "CookieRewritePolicy list"
  cl_SNI :: string
  cl_DNSLookupFamily :: string
  cl_ClientCertificate :: "Secret option"
  cl_TimeoutPolicy :: ClusterTimeoutPolicy
  cl_SlowStartConfig :: "SlowStartConfig option"
  cl_MaxRequestsPerConnection :: "uint32 option"
  cl_PerConnectionBufferLimitBytes :: "uint32 option"
  cl_UpstreamTLS :: "UpstreamTLS option"

definition zero_Cluster :: Cluster where
  "zero_Cluster = \<lparr>
     cl_Upstream = zero_Service, cl_Weight = 0, cl_Protocol = '''', cl_UpstreamValidation = None,
     cl_LoadBalancerPolicy = '''', cl_HTTPHealthCheckPolicy = None, cl_TCPHealthCheckPolicy = None,
     cl_RequestHeadersPolicy = None, cl_ResponseHeadersPolicy = None,
     cl_CookieRewritePolicies = [], cl_SNI = '''', cl_DNSLookupFamily = '''',
     cl_ClientCertificate = None, cl_TimeoutPolicy = zero_ClusterTimeoutPolicy,
     cl_SlowStartConfig = None, cl_MaxRequestsPerConnection = None,
     cl_PerConnectionBufferLimitBytes = None, cl_UpstreamTLS = None\<rparr>"

record ExtensionCluster =
  ec_Name :: string
  ec_Upstream :: ServiceCluster
  ec_Protocol :: string
  ec_UpstreamValidation :: "PeerValidationContext option"
  ec_LoadBalancerPolicy :: string
  ec_RouteTimeoutPolicy :: RouteTimeoutPolicy
  ec_ClusterTimeoutPolicy :: ClusterTimeoutPolicy
  ec_SNI :: string
  ec_ClientCertificate :: "Secret option"
  ec_UpstreamTLS :: "UpstreamTLS option"
  ec_CircuitBreakers :: CircuitBreakers

definition zero_ExtensionCluster :: ExtensionCluster where
  "zero_ExtensionCluster = \<lparr>
     ec_Name = '''', ec_Upstream = zero_ServiceCluster, ec_Protocol = '''',
     ec_UpstreamValidation = None, ec_LoadBalancerPolicy = '''',
     ec_RouteTimeoutPolicy = zero_RouteTimeoutPolicy,
     ec_ClusterTimeoutPolicy = zero_ClusterTimeoutPolicy, ec_SNI = '''',
     ec_ClientCertificate = None, ec_UpstreamTLS = None, ec_CircuitBreakers = zero_CircuitBreakers\<rparr>"

record MirrorPolicy =
  mp_Cluster :: "Cluster option"
  mp_Weight :: int

definition zero_MirrorPolicy :: MirrorPolicy where
  "zero_MirrorPolicy = \<lparr>
     mp_Cluster = None, mp_Weight = 0\<rparr>"

section \<open>Routes and virtual hosts\<close>


record Route =
  rt_PathMatchCondition :: MatchCondition
  rt_HeaderMatchConditions :: "HeaderMatchCondition list"
  rt_QueryParamMatchConditions :: "QueryParamMatchCondition list"
  rt_Priority :: uint8
  rt_Clusters :: "Cluster list"
  rt_HTTPSUpgrade :: bool
  rt_AuthDisabled :: bool
  rt_AuthContext :: "(string, string) gomap"
  rt_Websocket :: bool
  rt_TimeoutPolicy :: RouteTimeoutPolicy
  rt_RetryPolicy :: "RetryPolicy option"
  rt_PathRewritePolicy :: "PathRewritePolicy option"
  rt_MirrorPolicies :: "MirrorPolicy list"
  rt_RequestHeadersPolicy :: "HeadersPolicy option"
  rt_ResponseHeadersPolicy :: "HeadersPolicy option"
  rt_CookieRewritePolicies :: "CookieRewritePolicy list"
  rt_RateLimitPolicy :: "RateLimitPolicy option"
  rt_RateLimitPerRoute :: "VhRateLimitsType option"
  rt_RequestHashPolicies :: "RequestHashPolicy list"
  rt_DirectResponse :: "DirectResponse option"
  rt_Redirect :: "Redirect option"
  rt_JWTProvider :: string
  rt_InternalRedirectPolicy :: "InternalRedirectPolicy option"
  rt_IPFilterAllow :: bool
  rt_IPFilterRules :: "IPFilterRule list"
  rt_Kind :: string
  rt_Namespace :: string
  rt_Name :: string

definition zero_Route :: Route where
  "zero_Route = \<lparr>
     rt_PathMatchCondition = PrefixMatchCondition '''' PrefixMatchString,
     rt_HeaderMatchConditions = [], rt_QueryParamMatchConditions = [], rt_Priority = 0,
     rt_Clusters = [], rt_HTTPSUpgrade = False, rt_AuthDisabled = False, rt_AuthContext = [],
     rt_Websocket = False, rt_TimeoutPolicy = zero_RouteTimeoutPolicy, rt_RetryPolicy = None,
     rt_PathRewritePolicy = None, rt_MirrorPolicies = [], rt_RequestHeadersPolicy = None,
     rt_ResponseHeadersPolicy = None, rt_CookieRewritePolicies = [], rt_RateLimitPolicy = None,
     rt_RateLimitPerRoute = None, rt_RequestHashPolicies = [], rt_DirectResponse = None,
     rt_Redirect = None, rt_JWTProvider = '''', rt_InternalRedirectPolicy = None,
     rt_IPFilterAllow = False, rt_IPFilterRules = [], rt_Kind = '''', rt_Namespace = '''',
     rt_Name = ''''\<rparr>"

record VirtualHost =
  vh_Name :: string
  vh_CORSPolicy :: "CORSPolicy option"
  vh_RateLimitPolicy :: "RateLimitPolicy option"
  vh_IPFilterAllow :: bool
  vh_IPFilterRules :: "IPFilterRule list"
  vh_Routes :: "(string, Route) gomap"

definition zero_VirtualHost :: VirtualHost where
  "zero_VirtualHost = \<lparr>
     vh_Name = '''', vh_CORSPolicy = None, vh_RateLimitPolicy = None, vh_IPFilterAllow = False,
     vh_IPFilterRules = [], vh_Routes = []\<rparr>"

record DNSNameCluster =
  dnc_Address :: string
  dnc_Scheme :: string
  dnc_Port :: int
  dnc_DNSLookupFamily :: string
  dnc_UpstreamValidation :: "PeerValidationContext option"
  dnc_UpstreamTLS :: "UpstreamTLS option"

definition zero_DNSNameCluster :: DNSNameCluster where
  "zero_DNSNameCluster = \<lparr>
     dnc_Address = '''', dnc_Scheme = '''', dnc_Port = 0, dnc_DNSLookupFamily = '''',
     dnc_UpstreamValidation = None, dnc_UpstreamTLS = None\<rparr>"

record RemoteJWKS =
  jwks_URI :: string
  jwks_Timeout :: duration
  jwks_Cluster :: DNSNameCluster
  jwks_CacheDuration :: "duration option"

definition zero_RemoteJWKS :: RemoteJWKS where
  "zero_RemoteJWKS = \<lparr>
     jwks_URI = '''', jwks_Timeout = 0, jwks_Cluster = zero_DNSNameCluster,
     jwks_CacheDuration = None\<rparr>"

record JWTProvider =
  jwt_Name :: string
  jwt_Issuer :: string
  jwt_Audiences :: "string list"
  jwt_RemoteJWKS :: RemoteJWKS
  jwt_ForwardJWT :: bool

definition zero_JWTProvider :: JWTProvider where
  "zero_JWTProvider = \<lparr>
     jwt_Name = '''', jwt_Issuer = '''', jwt_Audiences = [], jwt_RemoteJWKS = zero_RemoteJWKS,
     jwt_ForwardJWT = False\<rparr>"

record AuthorizationServerBufferSettings =
  asb_MaxRequestBytes :: uint32
  asb_AllowPartialMessage :: bool
  asb_PackAsBytes :: bool

definition zero_AuthorizationServerBufferSettings :: AuthorizationServerBufferSettings where
  "zero_AuthorizationServerBufferSettings = \<lparr>
     asb_MaxRequestBytes = 0, asb_AllowPartialMessage = False, asb_PackAsBytes = False\<rparr>"

record ExternalAuthorization =
  ea_AuthorizationService :: "ExtensionCluster option"
  ea_AuthorizationResponseTimeout :: Setting
  ea_AuthorizationFailOpen :: bool
  ea_AuthorizationServerWithRequestBody :: "AuthorizationServerBufferSettings option"

definition zero_ExternalAuthorization :: ExternalAuthorization where
  "zero_ExternalAuthorization = \<lparr>
     ea_AuthorizationService = None, ea_AuthorizationResponseTimeout = DefaultSetting,
     ea_AuthorizationFailOpen = False, ea_AuthorizationServerWithRequestBody = None\<rparr>"

record TCPProxy =
  tcp_Clusters :: "Cluster list"

definition zero_TCPProxy :: TCPProxy where
  "zero_TCPProxy = \<lparr>
     tcp_Clusters = []\<rparr>"

record SecureVirtualHost =
  svh_VirtualHost :: VirtualHost
  svh_MinTLSVersion :: string
  svh_MaxTLSVersion :: string
  svh_Secret :: "Secret option"
  svh_FallbackCertificate :: "Secret option"
  svh_TCPProxy :: "TCPProxy option"
  svh_DownstreamValidation :: "PeerValidationContext option"
  svh_ExternalAuthorization :: "ExternalAuthorization option"
  svh_JWTProviders :: "JWTProvider list"

definition zero_SecureVirtualHost :: SecureVirtualHost where
  "zero_SecureVirtualHost = \<lparr>
     svh_VirtualHost = zero_VirtualHost, svh_MinTLSVersion = '''', svh_MaxTLSVersion = '''',
     svh_Secret = None, svh_FallbackCertificate = None, svh_TCPProxy = None,
     svh_DownstreamValidation = None, svh_ExternalAuthorization = None, svh_JWTProviders = []\<rparr>"

text \<open>
  A listener keeps its virtual hosts in a slice and, by name, in a map to the same objects.  The
  pointer to a virtual host is its position in the slice, so a write through the pointer is seen
  through both.  The maps may be nil (None): a nil map reads as empty and a write to it panics.
\<close>


record Listener =
  ln_Name :: string
  ln_Protocol :: string
  ln_Address :: string
  ln_Port :: int
  ln_RouteConfigName :: string
  ln_FallbackCertRouteConfigName :: string
  ln_VirtualHosts :: "VirtualHost list"
  ln_SecureVirtualHosts :: "SecureVirtualHost list"
  ln_vhostsByName :: "(string, nat) gomap option"
  ln_svhostsByName :: "(string, nat) gomap option"
  ln_TCPProxy :: "TCPProxy option"
  ln_EnableWebsockets :: bool

definition zero_Listener :: Listener where
  "zero_Listener = \<lparr>
     ln_Name = '''', ln_Protocol = '''', ln_Address = '''', ln_Port = 0, ln_RouteConfigName = '''',
     ln_FallbackCertRouteConfigName = '''', ln_VirtualHosts = [], ln_SecureVirtualHosts = [],
     ln_vhostsByName = None, ln_svhostsByName = None, ln_TCPProxy = None, ln_EnableWebsockets = False\<rparr>"

lemmas zero_dag_defs =
  zero_ServicePort_def
  zero_CoreService_def
  zero_CoreSecret_def
  zero_HeaderMatchCondition_def
  zero_QueryParamMatchCondition_def
  zero_DirectResponse_def
  zero_PathRewritePolicy_def
  zero_Redirect_def
  zero_InternalRedirectPolicy_def
  zero_RouteTimeoutPolicy_def
  zero_ClusterTimeoutPolicy_def
  zero_RetryPolicy_def
  zero_HeadersPolicy_def
  zero_CookieRewritePolicy_def
  zero_LocalRateLimitPolicy_def
  zero_GenericKeyDescriptorEntry_def
  zero_HeaderMatchDescriptorEntry_def
  zero_HeaderValueMatchDescriptorEntry_def
  zero_RateLimitDescriptorEntry_def
  zero_GlobalRateLimitPolicy_def
  zero_RateLimitPolicy_def
  zero_CookieHashOptions_def
  zero_RequestHashPolicy_def
  zero_CORSAllowOriginMatch_def
  zero_CORSPolicy_def
  zero_IPFilterRule_def
  zero_Secret_def
  zero_ClientCertificateDetails_def
  zero_PeerValidationContext_def
  zero_UpstreamTLS_def
  zero_CircuitBreakers_def
  zero_WeightedService_def
  zero_Service_def
  zero_ServiceCluster_def
  zero_HTTPHealthCheckPolicy_def
  zero_TCPHealthCheckPolicy_def
  zero_SlowStartConfig_def
  zero_Cluster_def
  zero_ExtensionCluster_def
  zero_MirrorPolicy_def
  zero_Route_def
  zero_VirtualHost_def
  zero_DNSNameCluster_def
  zero_RemoteJWKS_def
  zero_JWTProvider_def
  zero_AuthorizationServerBufferSettings_def
  zero_ExternalAuthorization_def
  zero_TCPProxy_def
  zero_SecureVirtualHost_def
  zero_Listener_def

section \<open>Operations of \<open>dag.go\<close>\<close>

subsection \<open>Printing match conditions\<close>

definition prefixMatchTypeToName :: "PrefixMatchType \<Rightarrow> string" where
  "prefixMatchTypeToName t = (case t of PrefixMatchString \<Rightarrow> ''string'' | PrefixMatchSegment \<Rightarrow> ''segment'')"

fun MatchCondition_String :: "MatchCondition \<Rightarrow> string" where
  "MatchCondition_String (ExactMatchCondition path) = ''exact: '' @ path"
| "MatchCondition_String (PrefixMatchCondition p t) = (''prefix: '' @ p) @ '' type: '' @ prefixMatchTypeToName t"
| "MatchCondition_String (RegexMatchCondition re) = ''regex: '' @ re"

definition HeaderMatchCondition_String :: "HeaderMatchCondition \<Rightarrow> string" where
  "HeaderMatchCondition_String h =
     ''header: '' @ strings_Join [
       ''name='' @ hc_Name h,
       ''value='' @ hc_Value h,
       ''matchtype='', hc_MatchType h,
       ''TreatMissingAsEmpty='', strconv_FormatBool (hc_TreatMissingAsEmpty h),
       ''invert='', strconv_FormatBool (hc_Invert h),
       ''ignorecase='', strconv_FormatBool (hc_IgnoreCase h)] ''&''"

definition QueryParamMatchCondition_String :: "QueryParamMatchCondition \<Rightarrow> string" where
  "QueryParamMatchCondition_String q =
     ''queryparam: '' @ strings_Join [
       ''name='' @ qc_Name q,
       ''value='' @ qc_Value q,
       ''matchtype='', qc_MatchType q,
       ''ignorecase='', strconv_FormatBool (qc_IgnoreCase q)] ''&''"

definition HasPathPrefix :: "Route \<Rightarrow> bool" where
  "HasPathPrefix r = (case rt_PathMatchCondition r of PrefixMatchCondition _ _ \<Rightarrow> True | _ \<Rightarrow> False)"

definition HasPathExact :: "Route \<Rightarrow> bool" where
  "HasPathExact r = (case rt_PathMatchCondition r of ExactMatchCondition _ \<Rightarrow> True | _ \<Rightarrow> False)"

definition HasPathRegex :: "Route \<Rightarrow> bool" where
  "HasPathRegex r = (case rt_PathMatchCondition r of RegexMatchCondition _ \<Rightarrow> True | _ \<Rightarrow> False)"

subsection \<open>Virtual hosts\<close>

definition conditionsToString :: "Route \<Rightarrow> string" where
  "conditionsToString r =
     strings_Join
       ([MatchCondition_String (rt_PathMatchCondition r)]
        @ map HeaderMatchCondition_String (rt_HeaderMatchConditions r)
        @ map QueryParamMatchCondition_String (rt_QueryParamMatchConditions r)) '',''"

definition AddRoute :: "Route \<Rightarrow> VirtualHost \<Rightarrow> VirtualHost" where
  "AddRoute route v = v\<lparr>vh_Routes := put (conditionsToString route) route (vh_Routes v)\<rparr>"

definition HasConflictRoute :: "VirtualHost \<Rightarrow> Route \<Rightarrow> bool" where
  "HasConflictRoute v route =
     (case lookup (vh_Routes v) (conditionsToString route) of
        Some r \<Rightarrow> rt_Kind r = rt_Kind route
      | None \<Rightarrow> False)"

definition VirtualHost_Valid :: "VirtualHost \<Rightarrow> bool" where
  "VirtualHost_Valid v = (length (vh_Routes v) > 0)"

definition SecureVirtualHost_Valid :: "SecureVirtualHost \<Rightarrow> bool" where
  "SecureVirtualHost_Valid s =
     ((svh_Secret s \<noteq> None \<and> length (vh_Routes (svh_VirtualHost s)) > 0) \<or> svh_TCPProxy s \<noteq> None)"

subsection \<open>Peer validation\<close>

definition CACertificateKey :: string where "CACertificateKey = ''ca.crt''"
definition CRLKey :: string where "CRLKey = ''crl.pem''"

definition map_bytes :: "(string, string) gomap \<Rightarrow> string \<Rightarrow> string" where
  "map_bytes m k = (case lookup m k of Some v \<Rightarrow> v | None \<Rightarrow> [])"

definition GetCACertificate :: "PeerValidationContext option \<Rightarrow> string" where
  "GetCACertificate pvc =
     (case pvc of
        None \<Rightarrow> []
      | Some p \<Rightarrow>
          concat (map (\<lambda>cert. case cert of None \<Rightarrow> [] | Some c \<Rightarrow> map_bytes (csec_Data (sec_Object c)) CACertificateKey)
                   (pvc_CACertificates p)))"

definition GetSubjectNames :: "PeerValidationContext option \<Rightarrow> string list" where
  "GetSubjectNames pvc = (case pvc of None \<Rightarrow> [] | Some p \<Rightarrow> pvc_SubjectNames p)"

definition GetCRL :: "PeerValidationContext option \<Rightarrow> string" where
  "GetCRL pvc =
     (case pvc of
        None \<Rightarrow> []
      | Some p \<Rightarrow> (case pvc_CRL p of None \<Rightarrow> [] | Some c \<Rightarrow> map_bytes (csec_Data (sec_Object c)) CRLKey))"

subsection \<open>Service clusters\<close>

fun validate_services :: "nat \<Rightarrow> WeightedService list \<Rightarrow> unit result" where
  "validate_services i [] = Ok ()"
| "validate_services i (w # ws) =
     (if ws_ServiceName w = '''' then Err (''empty .Services['' @ strconv_Itoa (int i) @ ''].ServiceName field'')
      else if ws_ServiceNamespace w = '''' then Err (''empty .Services['' @ strconv_Itoa (int i) @ ''].ServiceNamespace field'')
      else validate_services (Suc i) ws)"

definition ServiceCluster_Validate :: "ServiceCluster \<Rightarrow> unit result" where
  "ServiceCluster_Validate s =
     (if sc_ClusterName s = '''' then Err ''missing .ClusterName field''
      else if length (sc_Services s) = 0 then Err ''empty .Services field''
      else validate_services 0 (sc_Services s))"

record NamespacedName =
  nn_Namespace :: string
  nn_Name :: string

definition AddWeightedService :: "uint32 \<Rightarrow> NamespacedName \<Rightarrow> ServicePort \<Rightarrow> ServiceCluster \<Rightarrow> ServiceCluster" where
  "AddWeightedService weight name port s =
     s\<lparr>sc_Services := sc_Services s @
         [zero_WeightedService\<lparr>ws_Weight := weight, ws_ServiceName := nn_Name name,
            ws_ServiceNamespace := nn_Namespace name, ws_ServicePort := port\<rparr>]\<rparr>"

definition AddService :: "NamespacedName \<Rightarrow> ServicePort \<Rightarrow> ServiceCluster \<Rightarrow> ServiceCluster" where
  "AddService name port s = AddWeightedService 1 name port s"

text \<open>The sum is a \<open>uint32\<close> and wraps around.\<close>

definition weight_sum :: "WeightedService list \<Rightarrow> uint32" where
  "weight_sum ws = fold (\<lambda>w sum. sum + ws_Weight w) ws 0"

definition Rebalance :: "ServiceCluster \<Rightarrow> ServiceCluster" where
  "Rebalance s =
     (if weight_sum (sc_Services s) = 0
      then s\<lparr>sc_Services := map (\<lambda>w. w\<lparr>ws_Weight := 1\<rparr>) (sc_Services s)\<rparr>
      else s)"

subsection \<open>Wildcard hosts\<close>

text \<open>\<open>regexp.QuoteMeta\<close> puts a backslash before each of the regular expression metacharacters.\<close>

definition QuoteMeta :: "string \<Rightarrow> string" where
  "QuoteMeta s =
     concat (map (\<lambda>c. if c \<in> set (CHR 0x5C # ''.+*?()|[]{}^$'') then [CHR 0x5C, c] else [c]) s)"

definition singleDNSLabelWildcardRegex :: string where
  "singleDNSLabelWildcardRegex = ''^[a-z0-9]([-a-z0-9]*[a-z0-9])?''"

definition ignorePortRegex :: string where
  "ignorePortRegex = ''(:[0-9]+)?''"

definition wildcardDomainHeaderMatch :: "string \<Rightarrow> HeaderMatchCondition" where
  "wildcardDomainHeaderMatch fqdn =
     zero_HeaderMatchCondition\<lparr>
       hc_Name := '':authority'',
       hc_MatchType := HeaderMatchTypeRegex,
       hc_Value := singleDNSLabelWildcardRegex @ QuoteMeta (drop 1 fqdn) @ ignorePortRegex\<rparr>"

section \<open>Facts\<close>

lemma HasPath_cases:
  "HasPathPrefix r \<longleftrightarrow> \<not> HasPathExact r \<and> \<not> HasPathRegex r"
  by (cases "rt_PathMatchCondition r") (simp_all add: HasPathPrefix_def HasPathExact_def HasPathRegex_def)

lemma lookup_AddRoute:
  "lookup (vh_Routes (AddRoute r v)) k = (if k = conditionsToString r then Some r else lookup (vh_Routes v) k)"
  by (simp add: AddRoute_def lookup_put)

lemma AddRoute_frame [frame]:
  "vh_Name (AddRoute r v) = vh_Name v" "vh_CORSPolicy (AddRoute r v) = vh_CORSPolicy v"
  "vh_RateLimitPolicy (AddRoute r v) = vh_RateLimitPolicy v"
  "vh_IPFilterAllow (AddRoute r v) = vh_IPFilterAllow v" "vh_IPFilterRules (AddRoute r v) = vh_IPFilterRules v"
  by (simp_all add: AddRoute_def)

lemma validate_services_ok:
  "is_ok (validate_services i ws) \<longleftrightarrow> (\<forall>w \<in> set ws. ws_ServiceName w \<noteq> '''' \<and> ws_ServiceNamespace w \<noteq> '''')"
  by (induction i ws rule: validate_services.induct) auto

lemma Validate_ok_iff:
  "is_ok (ServiceCluster_Validate s) \<longleftrightarrow>
     sc_ClusterName s \<noteq> '''' \<and> sc_Services s \<noteq> [] \<and>
     (\<forall>w \<in> set (sc_Services s). ws_ServiceName w \<noteq> '''' \<and> ws_ServiceNamespace w \<noteq> '''')"
  by (simp add: ServiceCluster_Validate_def validate_services_ok)

lemma Rebalance_frame [frame]:
  "sc_ClusterName (Rebalance s) = sc_ClusterName s"
  "length (sc_Services (Rebalance s)) = length (sc_Services s)"
  "map ws_ServiceName (sc_Services (Rebalance s)) = map ws_ServiceName (sc_Services s)"
  "map ws_ServiceNamespace (sc_Services (Rebalance s)) = map ws_ServiceNamespace (sc_Services s)"
  by (simp_all add: Rebalance_def comp_def)

lemma weight_sum_eq: "fold (\<lambda>w sum. sum + ws_Weight w) ws acc = acc + sum_list (map ws_Weight ws)"
  by (induction ws arbitrary: acc) (simp_all add: add.assoc)

lemma weight_sum_sum_list: "weight_sum ws = sum_list (map ws_Weight ws)"
  by (simp add: weight_sum_def weight_sum_eq)

lemma unat_sum_list_no_overflow:
  "(\<Sum>w\<leftarrow>ws. unat (ws_Weight w)) < 2 ^ 32 \<Longrightarrow> unat (sum_list (map ws_Weight ws)) = (\<Sum>w\<leftarrow>ws. unat (ws_Weight w))"
proof (induction ws)
  case (Cons w ws)
  then have "unat (sum_list (map ws_Weight ws)) = (\<Sum>w\<leftarrow>ws. unat (ws_Weight w))" by simp
  with Cons.prems show ?case by (simp add: unat_word_ariths)
qed simp

end
