(* ===== verification/Annotations.thy ===== *)
theory Annotations
  imports Dag_Types
begin

text \<open>
  Names, annotations and classes of Kubernetes objects: \<open>internal/k8s/objectmeta.go\<close>,
  \<open>internal/annotation/annotations.go\<close> and \<open>internal/ingressclass/ingressclass.go\<close>, with the Ingress type of the
  Kubernetes API as far as Contour reads it.
\<close>

section \<open>Ingress\<close>

record IngressServiceBackend =
  isb_Name :: string
  isb_PortName :: string
  isb_PortNumber :: int

text \<open>A backend is a service, or (\<open>None\<close>) a resource of some other kind.\<close>

record IngressBackend = ib_Service :: "IngressServiceBackend option"

record HTTPIngressPath =
  hip_Path :: string
  hip_PathType :: "string option"
  hip_Backend :: IngressBackend

record IngressRule =
  irl_Host :: string
  irl_HTTP :: "HTTPIngressPath list option"

record IngressTLS =
  itl_Hosts :: "string list"
  itl_SecretName :: string

record Ingress =
  ing_Name :: string
  ing_Namespace :: string
  ing_Annotations :: "(string, string) gomap"
  ing_IngressClassName :: "string option"
  ing_DefaultBackend :: "IngressBackend option"
  ing_TLS :: "IngressTLS list"
  ing_Rules :: "IngressRule list"

definition zero_Ingress :: Ingress where
  "zero_Ingress = \<lparr>ing_Name = '''', ing_Namespace = '''', ing_Annotations = [], ing_IngressClassName = None,
     ing_DefaultBackend = None, ing_TLS = [], ing_Rules = []\<rparr>"

section \<open>Object names\<close>

abbreviation NamespaceDefault :: string where "NamespaceDefault \<equiv> ''default''"

definition NamespacedNameOf :: "string \<Rightarrow> string \<Rightarrow> NamespacedName" where
  "NamespacedNameOf ns name = \<lparr>nn_Namespace = (if ns = '''' then NamespaceDefault else ns), nn_Name = name\<rparr>"

definition DefaultNamespace :: "string \<Rightarrow> NamespacedName \<Rightarrow> NamespacedName" where
  "DefaultNamespace ns name = (if nn_Namespace name = '''' then name\<lparr>nn_Namespace := ns\<rparr> else name)"

text \<open>\<open>strings.SplitN(s, "/", 2)\<close>.\<close>

definition split_slash :: "string \<Rightarrow> string list" where
  "split_slash s =
     (let v = takeWhile (\<lambda>c. c \<noteq> CHR ''/'') s in
      if v = s then [s] else [v, tl (dropWhile (\<lambda>c. c \<noteq> CHR ''/'') s)])"

definition NamespacedNameFrom :: "string \<Rightarrow> (NamespacedName \<Rightarrow> NamespacedName) list \<Rightarrow> NamespacedName" where
  "NamespacedNameFrom nameStr opts =
     (let v = split_slash nameStr;
          name = (if length v = 1 then \<lparr>nn_Namespace = '''', nn_Name = v ! 0\<rparr> else \<lparr>nn_Namespace = v ! 0, nn_Name = v ! 1\<rparr>);
          name = fold (\<lambda>o' n. o' n) opts name
      in if nn_Namespace name = '''' then name\<lparr>nn_Namespace := NamespaceDefault\<rparr> else name)"

section \<open>Annotations\<close>

definition annotation_value :: "(string, string) gomap \<Rightarrow> string \<Rightarrow> string" where
  "annotation_value a key = (case lookup a key of Some v \<Rightarrow> v | None \<Rightarrow> '''')"

definition IsKnown :: "string \<Rightarrow> bool" where
  "IsKnown key =
     (if strings_HasPrefix key ''projectcontour.io/'' then True
      else if strings_HasPrefix key ''ingress.kubernetes.io/'' then True
      else key = ''kubernetes.io/ingress.class'' \<or> key = ''kubernetes.io/ingress.allow-http''
           \<or> key = ''kubernetes.io/ingress.global-static-ip-name'')"

definition annotationsByKind :: "(string, string list) gomap" where
  "annotationsByKind =
     [(''Ingress'', [''ingress.kubernetes.io/force-ssl-redirect'', ''kubernetes.io/ingress.allow-http'',
         ''kubernetes.io/ingress.class'', ''projectcontour.io/ingress.class'', ''projectcontour.io/num-retries'',
         ''projectcontour.io/response-timeout'', ''projectcontour.io/retry-on'', ''projectcontour.io/tls-minimum-protocol-version'',
         ''projectcontour.io/tls-maximum-protocol-version'', ''projectcontour.io/tls-cert-namespace'',
         ''projectcontour.io/websocket-routes'']),
      (''Service'', [''projectcontour.io/max-connections'', ''projectcontour.io/max-pending-requests'',
         ''projectcontour.io/max-requests'', ''projectcontour.io/max-retries'', ''projectcontour.io/per-host-max-connections'',
         ''projectcontour.io/upstream-protocol.h2'', ''projectcontour.io/upstream-protocol.h2c'',
         ''projectcontour.io/upstream-protocol.tls'']),
      (''HTTPProxy'', [''kubernetes.io/ingress.class'', ''projectcontour.io/ingress.class'']),
      (''Secret'', [''projectcontour.io/generated-by-version''])]"

definition ValidForKind :: "string \<Rightarrow> string \<Rightarrow> bool" where
  "ValidForKind kind key =
     (case lookup annotationsByKind kind of
        Some a \<Rightarrow> key \<in> set a
      | None \<Rightarrow> if strings_HasPrefix key ''projectcontour.io/'' then False else True)"

definition ContourAnnotation :: "(string, string) gomap \<Rightarrow> string \<Rightarrow> string" where
  "ContourAnnotation a key = annotation_value a (''projectcontour.io/'' @ key)"

text \<open>\<open>strconv.ParseUint(s, 10, 32)\<close> and \<open>strconv.ParseInt(s, 10, 32)\<close>; None for an error.\<close>

definition digit_value :: "char \<Rightarrow> nat option" where
  "digit_value c = (let n = (of_char c :: nat) in if 48 \<le> n \<and> n \<le> 57 then Some (n - 48) else None)"

fun parse_digits :: "string \<Rightarrow> nat \<Rightarrow> nat option" where
  "parse_digits [] acc = Some acc"
| "parse_digits (c # s) acc = (case digit_value c of None \<Rightarrow> None | Some d \<Rightarrow> parse_digits s (10 * acc + d))"

definition strconv_ParseUint32 :: "string \<Rightarrow> nat option" where
  "strconv_ParseUint32 s =
     (if s = '''' then None
      else case parse_digits s 0 of None \<Rightarrow> None | Some n \<Rightarrow> if n < 2 ^ 32 then Some n else None)"

definition strconv_ParseInt32 :: "string \<Rightarrow> int option" where
  "strconv_ParseInt32 s =
     (let neg = (s \<noteq> '''' \<and> hd s = CHR ''-'');
          t = (if s \<noteq> '''' \<and> (hd s = CHR ''-'' \<or> hd s = CHR ''+'') then tl s else s)
      in if t = '''' then None
         else case parse_digits t 0 of
                None \<Rightarrow> None
              | Some n \<Rightarrow> let i = (if neg then - int n else int n) in
                          if - (2 ^ 31) \<le> i \<and> i < 2 ^ 31 then Some i else None)"

definition parseUInt32 :: "string \<Rightarrow> uint32" where
  "parseUInt32 s = (case strconv_ParseUint32 s of None \<Rightarrow> 0 | Some v \<Rightarrow> of_nat v)"

definition parseInt32 :: "string \<Rightarrow> int" where
  "parseInt32 s = (case strconv_ParseInt32 s of None \<Rightarrow> 0 | Some v \<Rightarrow> v)"

definition ParseUpstreamProtocols :: "(string, string) gomap \<Rightarrow> (string, string) gomap" where
  "ParseUpstreamProtocols m =
     fold (\<lambda>protocol up.
        fold (\<lambda>v up. let port = strings_TrimSpace v in if port \<noteq> '''' then put port protocol up else up)
          (strings_Split (annotation_value m (''projectcontour.io/upstream-protocol.'' @ protocol)) (CHR '','')) up)
       [''h2'', ''h2c'', ''tls''] []"

definition HTTPAllowed :: "Ingress \<Rightarrow> bool" where
  "HTTPAllowed i = (\<not> annotation_value (ing_Annotations i) ''kubernetes.io/ingress.allow-http'' = ''false'')"

definition TLSRequired :: "Ingress \<Rightarrow> bool" where
  "TLSRequired i = (annotation_value (ing_Annotations i) ''ingress.kubernetes.io/force-ssl-redirect'' = ''true'')"

definition TLSCertNamespace :: "Ingress \<Rightarrow> string" where
  "TLSCertNamespace i = ContourAnnotation (ing_Annotations i) ''tls-cert-namespace''"

definition TLSCertAnnotationNamespace :: "Ingress \<Rightarrow> NamespacedName \<Rightarrow> NamespacedName" where
  "TLSCertAnnotationNamespace i name =
     (if nn_Namespace name = '''' then name\<lparr>nn_Namespace := TLSCertNamespace i\<rparr> else name)"

definition WebsocketRoutes :: "Ingress \<Rightarrow> (string, bool) gomap" where
  "WebsocketRoutes i =
     fold (\<lambda>v routes. let route = strings_TrimSpace v in if route \<noteq> '''' then put route True routes else routes)
       (strings_Split (annotation_value (ing_Annotations i) ''projectcontour.io/websocket-routes'') (CHR '','')) []"

definition NumRetries :: "Ingress \<Rightarrow> uint32" where
  "NumRetries i =
     (let v = parseInt32 (ContourAnnotation (ing_Annotations i) ''num-retries'') in
      if v = -1 then 0 else if v = 1 \<or> v = 0 then 1 else if v < 0 then 1 else to_uint32 v)"

definition PerTryTimeout :: "(string \<Rightarrow> duration result) \<Rightarrow> Ingress \<Rightarrow> Setting result" where
  "PerTryTimeout ParseDuration i = timeout_Parse ParseDuration (ContourAnnotation (ing_Annotations i) ''per-try-timeout'')"

definition IngressClass :: "(string, string) gomap \<Rightarrow> string" where
  "IngressClass a =
     (case lookup a ''projectcontour.io/ingress.class'' of
        Some class \<Rightarrow> class
      | None \<Rightarrow> (case lookup a ''kubernetes.io/ingress.class'' of Some class \<Rightarrow> class | None \<Rightarrow> ''''))"

definition TLSVersion :: "string \<Rightarrow> string \<Rightarrow> string" where
  "TLSVersion version defaultVal = (if version = ''1.2'' \<or> version = ''1.3'' then version else defaultVal)"

definition MaxConnections :: "(string, string) gomap \<Rightarrow> uint32" where
  "MaxConnections a = parseUInt32 (ContourAnnotation a ''max-connections'')"

definition MaxPendingRequests :: "(string, string) gomap \<Rightarrow> uint32" where
  "MaxPendingRequests a = parseUInt32 (ContourAnnotation a ''max-pending-requests'')"

definition MaxRequests :: "(string, string) gomap \<Rightarrow> uint32" where
  "MaxRequests a = parseUInt32 (ContourAnnotation a ''max-requests'')"

definition MaxRetries :: "(string, string) gomap \<Rightarrow> uint32" where
  "MaxRetries a = parseUInt32 (ContourAnnotation a ''max-retries'')"

definition PerHostMaxConnections :: "(string, string) gomap \<Rightarrow> uint32" where
  "PerHostMaxConnections a = parseUInt32 (ContourAnnotation a ''per-host-max-connections'')"

section \<open>Ingress classes\<close>

abbreviation DefaultClassName :: string where "DefaultClassName \<equiv> ''contour''"

definition class_matches :: "string \<Rightarrow> string list \<Rightarrow> bool" where
  "class_matches objIngressClass contourIngressClasses =
     (if length contourIngressClasses = 0 then objIngressClass = '''' \<or> objIngressClass = DefaultClassName
      else objIngressClass \<in> set contourIngressClasses)"

definition MatchesIngress :: "Ingress \<Rightarrow> string list \<Rightarrow> bool" where
  "MatchesIngress obj ingressClassNames =
     (let annotationClass = IngressClass (ing_Annotations obj) in
      if annotationClass \<noteq> '''' then class_matches annotationClass ingressClassNames
      else class_matches (case ing_IngressClassName obj of Some c \<Rightarrow> c | None \<Rightarrow> '''') ingressClassNames)"

definition MatchesHTTPProxy :: "HTTPProxy \<Rightarrow> string list \<Rightarrow> bool" where
  "MatchesHTTPProxy obj ingressClassNames =
     (let annotationClass = IngressClass (px_Annotations obj) in
      if annotationClass \<noteq> '''' then class_matches annotationClass ingressClassNames
      else class_matches (spec_IngressClassName (px_Spec obj)) ingressClassNames)"

section \<open>Facts\<close>

lemma NamespacedNameOf_namespace [simp]: "nn_Namespace (NamespacedNameOf ns name) \<noteq> ''''" "nn_Name (NamespacedNameOf ns name) = name"
  by (simp_all add: NamespacedNameOf_def)

text \<open>A qualified name is read back, an unqualified one gets the namespace of the object that refers to it.\<close>

lemma split_slash_none: "CHR ''/'' \<notin> set s \<Longrightarrow> split_slash s = [s]"
  by (simp add: split_slash_def Let_def takeWhile_eq_all_conv)

lemma split_slash_some: "CHR ''/'' \<notin> set s \<Longrightarrow> split_slash (s @ ''/'' @ t) = [s, t]"
proof -
  assume "CHR ''/'' \<notin> set s"
  then have *: "\<And>c. c \<in> set s \<Longrightarrow> c \<noteq> CHR ''/''" by auto
  have "takeWhile (\<lambda>c. c \<noteq> CHR ''/'') (s @ ''/'' @ t) = s" "dropWhile (\<lambda>c. c \<noteq> CHR ''/'') (s @ ''/'' @ t) = ''/'' @ t"
    using * by (simp_all add: takeWhile_append2 dropWhile_append2)
  then show ?thesis by (simp add: split_slash_def)
qed

lemma NamespacedNameFrom_qualified:
  "CHR ''/'' \<notin> set ns \<Longrightarrow> ns \<noteq> '''' \<Longrightarrow>
   NamespacedNameFrom (ns @ ''/'' @ name) [DefaultNamespace ns'] = \<lparr>nn_Namespace = ns, nn_Name = name\<rparr>"
  by (simp add: NamespacedNameFrom_def split_slash_some DefaultNamespace_def del: append.simps)

lemma NamespacedNameFrom_local:
  "CHR ''/'' \<notin> set name \<Longrightarrow> NamespacedNameFrom name [DefaultNamespace ns] = NamespacedNameOf ns name"
  by (simp add: NamespacedNameFrom_def split_slash_none DefaultNamespace_def NamespacedNameOf_def)

text \<open>Numbers in annotations: what is printed is read back.\<close>

lemma digit_value_char_of: "n < 10 \<Longrightarrow> digit_value (char_of (48 + n)) = Some n"
  by (simp add: digit_value_def Let_def)

lemma parse_digits_append:
  "parse_digits (s @ t) acc = (case parse_digits s acc of None \<Rightarrow> None | Some n \<Rightarrow> parse_digits t n)"
  by (induction s arbitrary: acc) (auto split: option.splits)

lemma parse_digits_nat_digits: "parse_digits (nat_digits n) 0 = Some n"
proof (induction n rule: nat_digits.induct)
  case (1 n)
  show ?case
  proof (cases "n < 10")
    case True
    then have "nat_digits n = [char_of (48 + n)]" by (subst nat_digits.simps) (simp only: if_True)
    then show ?thesis using digit_value_char_of [OF True] by simp
  next
    case False
    then have eq: "nat_digits n = nat_digits (n div 10) @ [char_of (48 + n mod 10)]"
      by (subst nat_digits.simps) (simp only: if_False)
    have "digit_value (char_of (48 + n mod 10)) = Some (n mod 10)" by (rule digit_value_char_of) simp
    then show ?thesis unfolding eq parse_digits_append 1 [OF False] by simp
  qed
qed

lemma nat_digits_nonempty: "nat_digits n \<noteq> ''''"
  by (subst nat_digits.simps) (cases "n < 10"; simp only: if_True if_False; simp)

lemma parseUInt32_roundtrip: "parseUInt32 (strconv_Itoa (uint w)) = w"
proof -
  have "strconv_Itoa (uint w) = nat_digits (unat w)" using uint_ge_0 [of w] by (simp add: strconv_Itoa_def not_less)
  moreover have "unat w < 2 ^ 32" using unsigned_less [of w] by simp
  ultimately show ?thesis
    unfolding parseUInt32_def strconv_ParseUint32_def by (simp only: nat_digits_nonempty parse_digits_nat_digits if_False option.case) simp
qed

end
