(* ===== verification/Secrets.thy ===== *)
theory Secrets
  imports Annotations
begin

text \<open>
  \<open>internal/dag/secret.go\<close>: what Contour accepts as a serving certificate with its key, a CA bundle and a
  revocation list.  PEM decoding and the parsers of \<open>crypto/x509\<close> are parameters.  \<open>pem.Decode\<close> returns the next
  block and the remainder of the input; it is given by the block and the number of bytes it consumes past
  the first one, so that the remainder is a proper suffix, as documented.
\<close>

record Certificate =
  crt_CommonName :: string
  crt_DNSNames :: "string list"
  crt_IPAddresses :: "string list"

record crypto =
  PemDecode :: "string \<Rightarrow> ((string \<times> string) \<times> nat) option"
  ParseCertificate :: "string \<Rightarrow> Certificate result"
  ParsePKCS8PrivateKey :: "string \<Rightarrow> string option"
  ParsePKCS1PrivateKey :: "string \<Rightarrow> string option"
  ParseECPrivateKey :: "string \<Rightarrow> string option"

text \<open>\<open>bytes.Index\<close>; None for -1.\<close>

fun bytes_Index :: "string \<Rightarrow> string \<Rightarrow> nat option" where
  "bytes_Index [] sep = (if sep = [] then Some 0 else None)"
| "bytes_Index (c # s) sep = (if strings_HasPrefix (c # s) sep then Some 0 else map_option Suc (bytes_Index s sep))"

text \<open>The slice \<open>data[start:start+end]\<close> starts at the header, ten bytes before the text searched for the end token,
  so it leaves out the last ten bytes of the header line.\<close>

definition containsPEMHeader :: "string \<Rightarrow> bool" where
  "containsPEMHeader data =
     (case bytes_Index data ''-----BEGIN'' of
        None \<Rightarrow> False
      | Some start \<Rightarrow>
          (case bytes_Index (drop (start + 10) data) ''-----'' of
             None \<Rightarrow> False
           | Some end' \<Rightarrow>
               if strings_Contains (take end' (drop start data)) [CHR 0x0A] then False else True))"

lemma containsPEMHeader_nonempty: "containsPEMHeader data \<Longrightarrow> data \<noteq> ''''"
  by (auto simp: containsPEMHeader_def)

definition hasCommonName :: "Certificate \<Rightarrow> bool" where
  "hasCommonName c = (strings_TrimSpace (crt_CommonName c) \<noteq> '''')"

definition hasSubjectAltNames :: "Certificate \<Rightarrow> bool" where
  "hasSubjectAltNames c = (length (crt_DNSNames c) > 0 \<or> length (crt_IPAddresses c) > 0)"

definition unexpected_block :: "string \<Rightarrow> string" where
  "unexpected_block t = ''unexpected block type '' @ [CHR 0x27] @ t @ [CHR 0x27]"

function validateServingBundle_loop :: "crypto \<Rightarrow> string \<Rightarrow> nat \<Rightarrow> bool \<Rightarrow> string option" where
  "validateServingBundle_loop cr data i exists =
     (if containsPEMHeader data then
        (case PemDecode cr data of
           None \<Rightarrow> Some ''failed to parse PEM block''
         | Some ((typ, bytes), n) \<Rightarrow>
             if typ \<noteq> ''CERTIFICATE'' then Some (unexpected_block typ)
             else case ParseCertificate cr bytes of
               Inl err \<Rightarrow> Some err
             | Inr cert \<Rightarrow>
                 if i = 0 \<and> \<not> hasCommonName cert \<and> \<not> hasSubjectAltNames cert
                 then Some ''certificate has no common name or subject alt name''
                 else validateServingBundle_loop cr (drop (Suc n) data) (i + 1) True)
      else if \<not> exists then Some ''failed to locate certificate'' else None)"
  by pat_completeness auto
termination
  by (relation "measure (\<lambda>(cr, data, i, e). length data)") (auto dest: containsPEMHeader_nonempty)

function validateCABundle_loop :: "crypto \<Rightarrow> string \<Rightarrow> bool \<Rightarrow> string option" where
  "validateCABundle_loop cr data exists =
     (if containsPEMHeader data then
        (case PemDecode cr data of
           None \<Rightarrow> Some ''failed to parse PEM block''
         | Some ((typ, bytes), n) \<Rightarrow>
             if typ \<noteq> ''CERTIFICATE'' then Some (unexpected_block typ)
             else validateCABundle_loop cr (drop (Suc n) data) True)
      else if \<not> exists then Some ''failed to locate certificate'' else None)"
  by pat_completeness auto
termination
  by (relation "measure (\<lambda>(cr, data, e). length data)") (auto dest: containsPEMHeader_nonempty)

function validatePrivateKey_loop :: "crypto \<Rightarrow> string \<Rightarrow> nat \<Rightarrow> string option" where
  "validatePrivateKey_loop cr data keys =
     (if containsPEMHeader data then
        (case PemDecode cr data of
           None \<Rightarrow> Some ''failed to parse PEM block''
         | Some ((typ, bytes), n) \<Rightarrow>
             if typ = ''PRIVATE KEY'' then
               (case ParsePKCS8PrivateKey cr bytes of
                  Some err \<Rightarrow> Some err
                | None \<Rightarrow> validatePrivateKey_loop cr (drop (Suc n) data) (keys + 1))
             else if typ = ''RSA PRIVATE KEY'' then
               (case ParsePKCS1PrivateKey cr bytes of
                  Some err \<Rightarrow> Some err
                | None \<Rightarrow> validatePrivateKey_loop cr (drop (Suc n) data) (keys + 1))
             else if typ = ''EC PRIVATE KEY'' then
               (case ParseECPrivateKey cr bytes of
                  Some err \<Rightarrow> Some err
                | None \<Rightarrow> validatePrivateKey_loop cr (drop (Suc n) data) (keys + 1))
             else if typ = ''EC PARAMETERS'' then validatePrivateKey_loop cr (drop (Suc n) data) keys
             else Some (unexpected_block typ))
      else if keys = 0 then Some ''failed to locate private key''
      else if keys = 1 then None
      else Some ''multiple private keys'')"
  by pat_completeness auto
termination
  by (relation "measure (\<lambda>(cr, data, k). length data)") (auto dest: containsPEMHeader_nonempty)

function validateCRL :: "crypto \<Rightarrow> string \<Rightarrow> string option" where
  "validateCRL cr data =
     (if containsPEMHeader data then
        (case PemDecode cr data of
           None \<Rightarrow> Some ''failed to parse PEM block''
         | Some ((typ, bytes), n) \<Rightarrow>
             if typ = ''X509 CRL'' then None else validateCRL cr (drop (Suc n) data))
      else Some ''failed to locate CRL'')"
  by pat_completeness auto
termination
  by (relation "measure (\<lambda>(cr, data). length data)") (auto dest: containsPEMHeader_nonempty)

declare validateServingBundle_loop.simps [simp del] validateCABundle_loop.simps [simp del]
  validatePrivateKey_loop.simps [simp del] validateCRL.simps [simp del]

definition validateServingBundle :: "crypto \<Rightarrow> string \<Rightarrow> string option" where
  "validateServingBundle cr data = validateServingBundle_loop cr data 0 False"

definition validateCABundle :: "crypto \<Rightarrow> string \<Rightarrow> string option" where
  "validateCABundle cr data = validateCABundle_loop cr data False"

definition validatePrivateKey :: "crypto \<Rightarrow> string \<Rightarrow> string option" where
  "validatePrivateKey cr data = validatePrivateKey_loop cr data 0"

abbreviation SecretTypeTLS :: string where "SecretTypeTLS \<equiv> ''kubernetes.io/tls''"
abbreviation SecretTypeOpaque :: string where "SecretTypeOpaque \<equiv> ''Opaque''"

definition secret_type_error :: string where
  "secret_type_error = ''secret type is not '' @ go_quote SecretTypeTLS @ '' or '' @ go_quote SecretTypeOpaque"

definition validTLSSecret :: "crypto \<Rightarrow> CoreSecret \<Rightarrow> string option" where
  "validTLSSecret cr secret =
     (if csec_Type secret \<noteq> SecretTypeTLS \<and> csec_Type secret \<noteq> SecretTypeOpaque then Some secret_type_error
      else case lookup (csec_Data secret) ''tls.crt'' of
        None \<Rightarrow> Some ''missing TLS certificate''
      | Some data \<Rightarrow>
          (case validateServingBundle cr data of
             Some err \<Rightarrow> Some (''invalid TLS certificate: '' @ err)
           | None \<Rightarrow>
               (case lookup (csec_Data secret) ''tls.key'' of
                  None \<Rightarrow> Some ''missing TLS private key''
                | Some data \<Rightarrow>
                    (case validatePrivateKey cr data of
                       Some err \<Rightarrow> Some (''invalid TLS private key: '' @ err)
                     | None \<Rightarrow> None))))"

definition validCASecret :: "crypto \<Rightarrow> CoreSecret \<Rightarrow> string option" where
  "validCASecret cr secret =
     (if csec_Type secret \<noteq> SecretTypeTLS \<and> csec_Type secret \<noteq> SecretTypeOpaque then Some secret_type_error
      else if length (map_bytes (csec_Data secret) CACertificateKey) = 0 then Some (''empty '' @ go_quote CACertificateKey @ '' key'')
      else case validateCABundle cr (map_bytes (csec_Data secret) CACertificateKey) of
        Some err \<Rightarrow> Some (''invalid CA certificate bundle: '' @ err)
      | None \<Rightarrow> None)"

definition validCRLSecret :: "crypto \<Rightarrow> CoreSecret \<Rightarrow> string option" where
  "validCRLSecret cr secret =
     (if csec_Type secret \<noteq> SecretTypeTLS \<and> csec_Type secret \<noteq> SecretTypeOpaque then Some secret_type_error
      else if length (map_bytes (csec_Data secret) CRLKey) = 0 then Some (''empty '' @ go_quote CRLKey @ '' key'')
      else validateCRL cr (map_bytes (csec_Data secret) CRLKey))"

end
