(* ===== verification/Conditions.thy ===== *)
theory Conditions
  imports Dag_Types
begin

text \<open>
  \<open>internal/dag/conditions.go\<close>: how the match conditions of a route and of the includes above it
  are checked and merged into the path, header and query conditions of a DAG route.
  \<open>regexp.Compile\<close> is a parameter (\<open>ValidateRegex\<close>: the error it reports, if any).
\<close>

section \<open>Path conditions\<close>

text \<open>\<open>regexp.MustCompile(`//+`).ReplaceAllString(s, `/`)\<close>.\<close>

fun squeeze_slashes :: "string \<Rightarrow> string" where
  "squeeze_slashes (c # d # s) =
     (if c = CHR ''/'' \<and> d = CHR ''/'' then squeeze_slashes (d # s) else c # squeeze_slashes (d # s))"
| "squeeze_slashes s = s"

fun merge_paths :: "MatchCondition_v1 list \<Rightarrow> string \<Rightarrow> bool \<Rightarrow> string \<times> bool" where
  "merge_paths [] mergedPath isRegex = (mergedPath, isRegex)"
| "merge_paths (cond # conds) mergedPath isRegex =
     (if mc_Prefix cond \<noteq> '''' then merge_paths conds (mergedPath @ mc_Prefix cond) isRegex
      else if mc_Exact cond \<noteq> '''' then merge_paths conds (mergedPath @ mc_Exact cond) isRegex
      else if mc_Regex cond \<noteq> '''' then merge_paths conds (mergedPath @ mc_Regex cond) True
      else merge_paths conds mergedPath isRegex)"

definition mergePathMatchConditions :: "MatchCondition_v1 list \<Rightarrow> MatchCondition" where
  "mergePathMatchConditions conds =
     (let (mergedPath, isRegex) = merge_paths conds '''' False;
          mergedPath = squeeze_slashes mergedPath
      in if mergedPath = '''' \<or> length conds = 0 then PrefixMatchCondition ''/'' PrefixMatchString
         else let lastCondition = last conds in
           if isRegex then RegexMatchCondition mergedPath
           else if mc_Prefix lastCondition \<noteq> '''' then PrefixMatchCondition mergedPath PrefixMatchString
           else if mc_Exact lastCondition \<noteq> '''' then ExactMatchCondition mergedPath
           else PrefixMatchCondition mergedPath PrefixMatchString)"

fun count_path_conditions ::
  "(string \<Rightarrow> string option) \<Rightarrow> MatchCondition_v1 list \<Rightarrow> nat \<Rightarrow> nat \<Rightarrow> nat \<Rightarrow> (nat \<times> nat \<times> nat) result" where
  "count_path_conditions ValidateRegex [] p e r = Ok (p, e, r)"
| "count_path_conditions ValidateRegex (cond # conds) p e r =
     (if mc_Prefix cond \<noteq> '''' \<and> hd (mc_Prefix cond) \<noteq> CHR ''/''
      then Err (''prefix conditions must start with /, '' @ mc_Prefix cond @ '' was supplied'')
      else if mc_Exact cond \<noteq> '''' \<and> hd (mc_Exact cond) \<noteq> CHR ''/''
      then Err (''exact conditions must start with /, '' @ mc_Exact cond @ '' was supplied'')
      else if mc_Regex cond \<noteq> '''' \<and> hd (mc_Regex cond) \<noteq> CHR ''/''
      then Err (''regex conditions must start with /, '' @ mc_Regex cond @ '' was supplied'')
      else (case (if mc_Regex cond \<noteq> '''' then ValidateRegex (mc_Regex cond) else None) of
              Some err \<Rightarrow> Err (''supplied regex: '' @ mc_Regex cond @ '' invalid. error: '' @ err)
            | None \<Rightarrow>
                count_path_conditions ValidateRegex conds
                  (if mc_Prefix cond \<noteq> '''' then p + 1 else p)
                  (if mc_Exact cond \<noteq> '''' then e + 1 else e)
                  (if mc_Regex cond \<noteq> '''' then r + 1 else r)))"

definition pathMatchConditionsValid :: "(string \<Rightarrow> string option) \<Rightarrow> MatchCondition_v1 list \<Rightarrow> unit result" where
  "pathMatchConditionsValid ValidateRegex conds =
     (case count_path_conditions ValidateRegex conds 0 0 0 of
        Inl err \<Rightarrow> Err err
      | Inr (prefixCount, exactCount, regexCount) \<Rightarrow>
          if prefixCount > 1 \<or> exactCount > 1 \<or> regexCount > 1 \<or> prefixCount + exactCount + regexCount > 1
          then Err ''more than one prefix, exact or regex is not allowed in a condition block''
          else Ok ())"

fun includeMatchConditionsValid :: "MatchCondition_v1 list \<Rightarrow> unit result" where
  "includeMatchConditionsValid [] = Ok ()"
| "includeMatchConditionsValid (cond # conds) =
     (if mc_Exact cond \<noteq> '''' then Err ''exact conditions are not allowed in includes block''
      else if mc_Regex cond \<noteq> '''' then Err ''regex conditions are not allowed in includes block''
      else includeMatchConditionsValid conds)"

section \<open>Header and query conditions\<close>

text \<open>One element of the loop: a condition yields at most one DAG condition, by its first field that
  is set.\<close>

definition headerMatchCondition :: "HeaderMatchCondition_v1 \<Rightarrow> HeaderMatchCondition list" where
  "headerMatchCondition cond =
     (if hm1_Present cond then
        [zero_HeaderMatchCondition\<lparr>hc_Name := hm1_Name cond, hc_MatchType := HeaderMatchTypePresent\<rparr>]
      else if hm1_NotPresent cond then
        [zero_HeaderMatchCondition\<lparr>hc_Name := hm1_Name cond, hc_MatchType := HeaderMatchTypePresent,
           hc_Invert := True\<rparr>]
      else if hm1_Contains cond \<noteq> '''' then
        [zero_HeaderMatchCondition\<lparr>hc_Name := hm1_Name cond, hc_Value := hm1_Contains cond,
           hc_MatchType := HeaderMatchTypeContains, hc_IgnoreCase := hm1_IgnoreCase cond\<rparr>]
      else if hm1_NotContains cond \<noteq> '''' then
        [zero_HeaderMatchCondition\<lparr>hc_Name := hm1_Name cond, hc_Value := hm1_NotContains cond,
           hc_MatchType := HeaderMatchTypeContains, hc_Invert := True, hc_IgnoreCase := hm1_IgnoreCase cond,
           hc_TreatMissingAsEmpty := hm1_TreatMissingAsEmpty cond\<rparr>]
      else if hm1_Exact cond \<noteq> '''' then
        [zero_HeaderMatchCondition\<lparr>hc_Name := hm1_Name cond, hc_Value := hm1_Exact cond,
           hc_MatchType := HeaderMatchTypeExact, hc_IgnoreCase := hm1_IgnoreCase cond\<rparr>]
      else if hm1_NotExact cond \<noteq> '''' then
        [zero_HeaderMatchCondition\<lparr>hc_Name := hm1_Name cond, hc_Value := hm1_NotExact cond,
           hc_MatchType := HeaderMatchTypeExact, hc_Invert := True, hc_IgnoreCase := hm1_IgnoreCase cond,
           hc_TreatMissingAsEmpty := hm1_TreatMissingAsEmpty cond\<rparr>]
      else if hm1_Regex cond \<noteq> '''' then
        [zero_HeaderMatchCondition\<lparr>hc_Name := hm1_Name cond, hc_Value := hm1_Regex cond,
           hc_MatchType := HeaderMatchTypeRegex\<rparr>]
      else [])"

definition headerMatchConditions :: "HeaderMatchCondition_v1 list \<Rightarrow> HeaderMatchCondition list" where
  "headerMatchConditions conditions = concat (map headerMatchCondition conditions)"

definition queryParameterMatchCondition :: "QueryParameterMatchCondition_v1 \<Rightarrow> QueryParamMatchCondition list" where
  "queryParameterMatchCondition cond =
     (if qm1_Exact cond \<noteq> '''' then
        [\<lparr>qc_Name = qm1_Name cond, qc_Value = qm1_Exact cond, qc_MatchType = QueryParamMatchTypeExact,
          qc_IgnoreCase = qm1_IgnoreCase cond\<rparr>]
      else if qm1_Prefix cond \<noteq> '''' then
        [\<lparr>qc_Name = qm1_Name cond, qc_Value = qm1_Prefix cond, qc_MatchType = QueryParamMatchTypePrefix,
          qc_IgnoreCase = qm1_IgnoreCase cond\<rparr>]
      else if qm1_Suffix cond \<noteq> '''' then
        [\<lparr>qc_Name = qm1_Name cond, qc_Value = qm1_Suffix cond, qc_MatchType = QueryParamMatchTypeSuffix,
          qc_IgnoreCase = qm1_IgnoreCase cond\<rparr>]
      else if qm1_Regex cond \<noteq> '''' then
        [\<lparr>qc_Name = qm1_Name cond, qc_Value = qm1_Regex cond, qc_MatchType = QueryParamMatchTypeRegex,
          qc_IgnoreCase = False\<rparr>]
      else if qm1_Contains cond \<noteq> '''' then
        [\<lparr>qc_Name = qm1_Name cond, qc_Value = qm1_Contains cond, qc_MatchType = QueryParamMatchTypeContains,
          qc_IgnoreCase = qm1_IgnoreCase cond\<rparr>]
      else if qm1_Present cond then
        [\<lparr>qc_Name = qm1_Name cond, qc_Value = '''', qc_MatchType = QueryParamMatchTypePresent,
          qc_IgnoreCase = False\<rparr>]
      else [])"

definition queryParameterMatchConditions :: "QueryParameterMatchCondition_v1 list \<Rightarrow> QueryParamMatchCondition list" where
  "queryParameterMatchConditions conditions = concat (map queryParameterMatchCondition conditions)"

definition mergeHeaderMatchConditions :: "MatchCondition_v1 list \<Rightarrow> HeaderMatchCondition list" where
  "mergeHeaderMatchConditions conds = headerMatchConditions (List.map_filter mc_Header conds)"

definition mergeQueryParamMatchConditions :: "MatchCondition_v1 list \<Rightarrow> QueryParamMatchCondition list" where
  "mergeQueryParamMatchConditions conds = queryParameterMatchConditions (List.map_filter mc_QueryParameter conds)"

text \<open>The check of one header condition against what the loop has seen: \<open>seen\<close> is the set of the
  conditions before it (keyed by the whole struct, with the name in lower case), \<open>exacts\<close> the
  lower-case names that already have an exact match.\<close>

definition headerConditionError ::
  "(string \<Rightarrow> string option) \<Rightarrow> HeaderMatchCondition_v1 list \<Rightarrow> string list \<Rightarrow> HeaderMatchCondition_v1 \<Rightarrow> string option" where
  "headerConditionError ValidateRegex seen exacts h =
     (let headerName = strings_ToLower (hm1_Name h) in
      if hm1_Present h then
        (if zero_HeaderMatchCondition_v1\<lparr>hm1_Name := headerName, hm1_NotPresent := True\<rparr> \<in> set seen
         then Some ''cannot specify contradictory 'present' and 'notpresent' conditions for the same route and header''
         else None)
      else if hm1_NotPresent h then
        (if zero_HeaderMatchCondition_v1\<lparr>hm1_Name := headerName, hm1_Present := True\<rparr> \<in> set seen
         then Some ''cannot specify contradictory 'present' and 'notpresent' conditions for the same route and header''
         else None)
      else if hm1_Exact h \<noteq> '''' then
        (if headerName \<in> set exacts
         then Some ''cannot specify duplicate header 'exact match' conditions in the same route''
         else if zero_HeaderMatchCondition_v1\<lparr>hm1_Name := headerName, hm1_NotExact := hm1_Exact h\<rparr> \<in> set seen
         then Some ''cannot specify contradictory 'exact' and 'notexact' conditions for the same route and header''
         else None)
      else if hm1_NotExact h \<noteq> '''' then
        (if zero_HeaderMatchCondition_v1\<lparr>hm1_Name := headerName, hm1_Exact := hm1_NotExact h\<rparr> \<in> set seen
         then Some ''cannot specify contradictory 'exact' and 'notexact' conditions for the same route and header''
         else None)
      else if hm1_Contains h \<noteq> '''' then
        (if zero_HeaderMatchCondition_v1\<lparr>hm1_Name := headerName, hm1_NotContains := hm1_Contains h\<rparr> \<in> set seen
         then Some ''cannot specify contradictory 'contains' and 'notcontains' conditions for the same route and header''
         else None)
      else if hm1_NotContains h \<noteq> '''' then
        (if zero_HeaderMatchCondition_v1\<lparr>hm1_Name := headerName, hm1_Contains := hm1_NotContains h\<rparr> \<in> set seen
         then Some ''cannot specify contradictory 'contains' and 'notcontains' conditions for the same route and header''
         else None)
      else if hm1_Regex h \<noteq> '''' then
        (case ValidateRegex (hm1_Regex h) of
           Some err \<Rightarrow> Some ''invalid regular expression specified for 'regex' condition''
         | None \<Rightarrow> None)
      else None)"

text \<open>The case of the \<open>switch\<close> that records an exact match.\<close>

definition is_exact_case :: "HeaderMatchCondition_v1 \<Rightarrow> bool" where
  "is_exact_case h = (\<not> hm1_Present h \<and> \<not> hm1_NotPresent h \<and> hm1_Exact h \<noteq> '''')"

fun headerMatchConditionsValid_loop ::
  "(string \<Rightarrow> string option) \<Rightarrow> MatchCondition_v1 list \<Rightarrow> HeaderMatchCondition_v1 list \<Rightarrow> string list \<Rightarrow> unit result" where
  "headerMatchConditionsValid_loop ValidateRegex [] seen exacts = Ok ()"
| "headerMatchConditionsValid_loop ValidateRegex (v # vs) seen exacts =
     (case mc_Header v of
        None \<Rightarrow> headerMatchConditionsValid_loop ValidateRegex vs seen exacts
      | Some h \<Rightarrow>
          (case headerConditionError ValidateRegex seen exacts h of
             Some err \<Rightarrow> Err err
           | None \<Rightarrow>
               headerMatchConditionsValid_loop ValidateRegex vs
                 (h\<lparr>hm1_Name := strings_ToLower (hm1_Name h)\<rparr> # seen)
                 (if is_exact_case h then strings_ToLower (hm1_Name h) # exacts else exacts)))"

definition headerMatchConditionsValid :: "(string \<Rightarrow> string option) \<Rightarrow> MatchCondition_v1 list \<Rightarrow> unit result" where
  "headerMatchConditionsValid ValidateRegex conditions =
     headerMatchConditionsValid_loop ValidateRegex conditions [] []"

text \<open>The inner loop of \<open>queryParameterMatchConditionsValid\<close>: \<open>excluding\<close> is the same slice as
  \<open>matches\<close>, so clearing an element is seen by the iterations that follow.\<close>

fun exactly_one_loop :: "nat \<Rightarrow> nat \<Rightarrow> string list \<Rightarrow> bool" where
  "exactly_one_loop 0 i matches = True"
| "exactly_one_loop (Suc n) i matches =
     (if matches ! i = '''' then exactly_one_loop n (Suc i) matches
      else let excluding = matches[i := ''''] in
        if strings_Join excluding '''' \<noteq> '''' then False
        else exactly_one_loop n (Suc i) excluding)"

definition query_matches :: "QueryParameterMatchCondition_v1 \<Rightarrow> string list" where
  "query_matches q =
     [qm1_Exact q, qm1_Prefix q, qm1_Suffix q, qm1_Regex q, qm1_Contains q] @ (if qm1_Present q then [''true''] else [])"

fun queryParameterMatchConditionsValid_loop ::
  "(string \<Rightarrow> string option) \<Rightarrow> MatchCondition_v1 list \<Rightarrow> string list \<Rightarrow> unit result" where
  "queryParameterMatchConditionsValid_loop ValidateRegex [] exacts = Ok ()"
| "queryParameterMatchConditionsValid_loop ValidateRegex (v # vs) exacts =
     (case mc_QueryParameter v of
        None \<Rightarrow> queryParameterMatchConditionsValid_loop ValidateRegex vs exacts
      | Some q \<Rightarrow>
          let matches = query_matches q; queryParameterName = strings_ToLower (qm1_Name q) in
          if strings_Join matches '''' = '''' then Err ''must specify at least one query parameter condition''
          else if \<not> exactly_one_loop (length matches) 0 matches
          then Err ''cannot specify more than one condition in the same match condition branch''
          else if qm1_Exact q \<noteq> '''' \<and> queryParameterName \<in> set exacts
          then Err ''cannot specify duplicate query parameter 'exact match' conditions in the same route''
          else if qm1_Regex q \<noteq> '''' \<and> ValidateRegex (qm1_Regex q) \<noteq> None
          then Err ''invalid regular expression specified for 'regex' condition''
          else queryParameterMatchConditionsValid_loop ValidateRegex vs
                 (if qm1_Exact q \<noteq> '''' then queryParameterName # exacts else exacts))"

definition queryParameterMatchConditionsValid :: "(string \<Rightarrow> string option) \<Rightarrow> MatchCondition_v1 list \<Rightarrow> unit result" where
  "queryParameterMatchConditionsValid ValidateRegex conditions =
     queryParameterMatchConditionsValid_loop ValidateRegex conditions []"

section \<open>Paths that come out of the merge\<close>

definition path_of :: "MatchCondition \<Rightarrow> string" where
  "path_of m = (case m of PrefixMatchCondition p _ \<Rightarrow> p | ExactMatchCondition p \<Rightarrow> p | RegexMatchCondition r \<Rightarrow> r)"

text \<open>What one block contributes, and the concatenation the loop computes.\<close>

definition cond_path :: "MatchCondition_v1 \<Rightarrow> string" where
  "cond_path c = (if mc_Prefix c \<noteq> '''' then mc_Prefix c else if mc_Exact c \<noteq> '''' then mc_Exact c else mc_Regex c)"

definition regex_case :: "MatchCondition_v1 \<Rightarrow> bool" where
  "regex_case c = (mc_Prefix c = '''' \<and> mc_Exact c = '''' \<and> mc_Regex c \<noteq> '''')"

lemma merge_paths_eq:
  "merge_paths conds p r = (p @ concat (map cond_path conds), r \<or> (\<exists>c\<in>set conds. regex_case c))"
  by (induction conds arbitrary: p r) (auto simp: cond_path_def regex_case_def)

lemma squeeze_slashes_eq_Nil [simp]: "squeeze_slashes s = '''' \<longleftrightarrow> s = ''''"
  by (induction s rule: squeeze_slashes.induct) auto

lemma squeeze_slashes_hd [simp]: "s \<noteq> '''' \<Longrightarrow> hd (squeeze_slashes s) = hd s"
  by (induction s rule: squeeze_slashes.induct) auto

lemma squeeze_slashes_Cons: obtains u where "squeeze_slashes (d # s) = d # u"
  by (metis list.collapse list.discI list.sel(1) squeeze_slashes_eq_Nil squeeze_slashes_hd)

lemma squeeze_slashes_rooted: "s \<noteq> '''' \<Longrightarrow> hd s = CHR ''/'' \<Longrightarrow> strings_HasPrefix (squeeze_slashes s) ''/''"
proof (cases s)
  case (Cons d t)
  moreover obtain u where "squeeze_slashes (d # t) = d # u" by (rule squeeze_slashes_Cons)
  ultimately show "hd s = CHR ''/'' \<Longrightarrow> ?thesis" by simp
qed simp

lemma squeeze_slashes_no_double: "\<not> strings_Contains (squeeze_slashes s) ''//''"
proof (induction s rule: squeeze_slashes.induct)
  case (1 c d s)
  obtain u where "squeeze_slashes (d # s) = d # u" by (rule squeeze_slashes_Cons)
  then show ?case using 1 by auto
qed auto

lemma squeeze_slashes_id: "\<not> strings_Contains s ''//'' \<Longrightarrow> squeeze_slashes s = s"
  by (induction s rule: squeeze_slashes.induct) auto

lemma squeeze_slashes_idem [simp]: "squeeze_slashes (squeeze_slashes s) = squeeze_slashes s"
  by (simp add: squeeze_slashes_id squeeze_slashes_no_double)

lemma squeeze_slashes_append: "squeeze_slashes (s @ t) = squeeze_slashes (squeeze_slashes s @ t)"
proof (induction s rule: squeeze_slashes.induct)
  case (1 c d s)
  obtain u where "squeeze_slashes (d # s) = d # u" by (rule squeeze_slashes_Cons)
  then show ?case using 1 by auto
qed auto

lemma path_of_mergePathMatchConditions:
  "path_of (mergePathMatchConditions conds) =
     (let p = squeeze_slashes (concat (map cond_path conds)) in if p = '''' then ''/'' else p)"
  by (auto simp: mergePathMatchConditions_def merge_paths_eq path_of_def Let_def)

text \<open>A condition block accepted by \<open>pathMatchConditionsValid\<close>: at most one path is set in it, and every
  path starts with a slash.\<close>

definition path_rooted :: "MatchCondition_v1 \<Rightarrow> bool" where
  "path_rooted c = (\<forall>p\<in>{mc_Prefix c, mc_Exact c, mc_Regex c}. p \<noteq> '''' \<longrightarrow> hd p = CHR ''/'')"

definition path_count :: "MatchCondition_v1 \<Rightarrow> nat" where
  "path_count c = length (filter (\<lambda>p. p \<noteq> '''') [mc_Prefix c, mc_Exact c, mc_Regex c])"

lemma count_path_conditions_eq:
  "count_path_conditions VR conds p e r = Inr (p', e', r') \<longleftrightarrow>
     (\<forall>c\<in>set conds. path_rooted c \<and> (mc_Regex c \<noteq> '''' \<longrightarrow> VR (mc_Regex c) = None)) \<and>
     p' = p + length (filter (\<lambda>c. mc_Prefix c \<noteq> '''') conds) \<and>
     e' = e + length (filter (\<lambda>c. mc_Exact c \<noteq> '''') conds) \<and>
     r' = r + length (filter (\<lambda>c. mc_Regex c \<noteq> '''') conds)"
  by (induction conds arbitrary: p e r) (auto simp: path_rooted_def split: option.splits)

lemma sum_path_count:
  "sum_list (map path_count conds) =
     length (filter (\<lambda>c. mc_Prefix c \<noteq> '''') conds) + length (filter (\<lambda>c. mc_Exact c \<noteq> '''') conds)
       + length (filter (\<lambda>c. mc_Regex c \<noteq> '''') conds)"
  by (induction conds) (auto simp: path_count_def)

text \<open>\<open>pathMatchConditionsValid\<close> accepts exactly the blocks in which at most one of all the prefix, exact
  and regex fields is set, every path that is set starts with a slash, and every regex compiles.\<close>

lemma pathMatchConditionsValid_iff:
  "pathMatchConditionsValid VR conds = Ok () \<longleftrightarrow>
     sum_list (map path_count conds) \<le> 1 \<and>
     (\<forall>c\<in>set conds. path_rooted c \<and> (mc_Regex c \<noteq> '''' \<longrightarrow> VR (mc_Regex c) = None))"
proof (cases "count_path_conditions VR conds 0 0 0")
  case (Inl err)
  then have "\<not> (\<forall>c\<in>set conds. path_rooted c \<and> (mc_Regex c \<noteq> '''' \<longrightarrow> VR (mc_Regex c) = None))"
    using count_path_conditions_eq [of VR conds 0 0 0] by (metis old.sum.distinct(1))
  then show ?thesis using Inl by (auto simp: pathMatchConditionsValid_def)
next
  case (Inr t)
  moreover obtain p e r where "t = (p, e, r)" by (cases t)
  moreover note count_path_conditions_eq [of VR conds 0 0 0 p e r, THEN iffD1]
  ultimately show ?thesis
    by (simp add: pathMatchConditionsValid_def sum_path_count)
qed

lemma concat_cond_path_rooted:
  assumes "\<forall>c\<in>set conds. path_rooted c" and "concat (map cond_path conds) \<noteq> ''''"
  shows "hd (concat (map cond_path conds)) = CHR ''/''"
  using assms by (induction conds) (auto simp: path_rooted_def cond_path_def hd_append)

text \<open>
  C30. The conditions of a route are the concatenation of the condition blocks of the includes above it and
  its own block, each accepted by \<open>pathMatchConditionsValid\<close>. The path merged from them is never empty,
  starts with a slash and has no double slash, so it is always a path Envoy accepts; it is the
  concatenation of the paths of the blocks with runs of slashes collapsed, and \<open>/\<close> if no block has a path.
\<close>

theorem mergePathMatchConditions_path:
  assumes "\<forall>block\<in>set blocks. pathMatchConditionsValid VR block = Ok ()"
  shows "strings_HasPrefix (path_of (mergePathMatchConditions (concat blocks))) ''/'' \<and>
         \<not> strings_Contains (path_of (mergePathMatchConditions (concat blocks))) ''//'' \<and>
         path_of (mergePathMatchConditions (concat blocks)) =
           (if \<forall>c\<in>set (concat blocks). cond_path c = '''' then ''/''
            else squeeze_slashes (concat (map cond_path (concat blocks))))"
proof -
  let ?raw = "concat (map cond_path (concat blocks))"
  have "\<forall>c\<in>set (concat blocks). path_rooted c"
    using assms by (auto simp: pathMatchConditionsValid_iff)
  then have "?raw \<noteq> '''' \<Longrightarrow> hd ?raw = CHR ''/''" by (rule concat_cond_path_rooted)
  then have "?raw \<noteq> '''' \<Longrightarrow> strings_HasPrefix (squeeze_slashes ?raw) ''/''"
    by (intro squeeze_slashes_rooted) auto
  then show ?thesis
    by (simp add: path_of_mergePathMatchConditions squeeze_slashes_no_double del: concat_eq_Nil_conv)
       (simp add: concat_eq_Nil_conv)
qed

theorem mergePathMatchConditions_path_witness:
  "let b1 = [zero_MatchCondition_v1\<lparr>mc_Prefix := ''/api/''\<rparr>]; b2 = [zero_MatchCondition_v1\<lparr>mc_Exact := ''/v1''\<rparr>]
   in path_of (mergePathMatchConditions (concat [b1, b2])) = ''/api/v1''"
  using mergePathMatchConditions_path
    [of "[[zero_MatchCondition_v1\<lparr>mc_Prefix := ''/api/''\<rparr>], [zero_MatchCondition_v1\<lparr>mc_Exact := ''/v1''\<rparr>]]" "\<lambda>_. None"]
  by (simp add: pathMatchConditionsValid_def zero_v1_defs cond_path_def)

section \<open>What the validators accept\<close>

text \<open>The conditions that set one kind of match and no option, and the pairs of them that no request
  satisfies.\<close>

definition contradictory :: "HeaderMatchCondition_v1 \<Rightarrow> HeaderMatchCondition_v1 \<Rightarrow> bool" where
  "contradictory h g =
     (let n = strings_ToLower (hm1_Name h); z = zero_HeaderMatchCondition_v1 in
      strings_ToLower (hm1_Name g) = n \<and>
      (h = z\<lparr>hm1_Name := hm1_Name h, hm1_Present := True\<rparr> \<and>
         g = z\<lparr>hm1_Name := hm1_Name g, hm1_NotPresent := True\<rparr> \<or>
       hm1_Exact h \<noteq> '''' \<and> h = z\<lparr>hm1_Name := hm1_Name h, hm1_Exact := hm1_Exact h\<rparr> \<and>
         g = z\<lparr>hm1_Name := hm1_Name g, hm1_NotExact := hm1_Exact h\<rparr> \<or>
       hm1_Contains h \<noteq> '''' \<and> h = z\<lparr>hm1_Name := hm1_Name h, hm1_Contains := hm1_Contains h\<rparr> \<and>
         g = z\<lparr>hm1_Name := hm1_Name g, hm1_NotContains := hm1_Contains h\<rparr>))"

abbreviation headers_of :: "MatchCondition_v1 list \<Rightarrow> HeaderMatchCondition_v1 list" where
  "headers_of conds \<equiv> List.map_filter mc_Header conds"

definition lower_name :: "HeaderMatchCondition_v1 \<Rightarrow> HeaderMatchCondition_v1" where
  "lower_name h = h\<lparr>hm1_Name := strings_ToLower (hm1_Name h)\<rparr>"

lemma map_filter_Cons:
  "List.map_filter f (x # xs) = (case f x of None \<Rightarrow> List.map_filter f xs | Some y \<Rightarrow> y # List.map_filter f xs)"
  by (cases "f x") (simp_all add: List.map_filter_def)

lemma contradictory_lower: "contradictory (lower_name h) (lower_name g) \<longleftrightarrow> contradictory h g"
  by (cases h; cases g) (auto simp: contradictory_def lower_name_def zero_HeaderMatchCondition_v1_def ToLower_idem)

lemma contradictory_irrefl: "\<not> contradictory h h"
  by (cases h) (auto simp: contradictory_def zero_HeaderMatchCondition_v1_def)

lemma headerConditionError_seen:
  assumes "headerConditionError VR (map lower_name gs) exacts h = None" and "g \<in> set gs"
  shows "\<not> contradictory h g \<and> \<not> contradictory g h"
proof -
  have "lower_name g \<in> set (map lower_name gs)" using assms(2) by simp
  then show ?thesis
    using assms(1)
    by (cases h; cases g)
       (auto simp: contradictory_def lower_name_def zero_HeaderMatchCondition_v1_def headerConditionError_def
          Let_def split: if_splits option.splits)
qed

text \<open>The lower-case names of the conditions that the \<open>switch\<close> treats as exact matches.\<close>

abbreviation exact_names :: "HeaderMatchCondition_v1 list \<Rightarrow> string list" where
  "exact_names hs \<equiv> map (\<lambda>h. strings_ToLower (hm1_Name h)) (filter is_exact_case hs)"

lemma headerMatchConditionsValid_loop_ok:
  assumes "headerMatchConditionsValid_loop VR conds (map lower_name gs) (exact_names gs) = Ok ()"
    and "distinct (exact_names gs)"
  shows "distinct (exact_names (headers_of conds @ gs)) \<and>
         (\<forall>h\<in>set (headers_of conds). \<forall>g\<in>set (headers_of conds @ gs). \<not> contradictory h g \<and> \<not> contradictory g h)"
  using assms
proof (induction conds arbitrary: gs)
  case (Cons v vs)
  show ?case
  proof (cases "mc_Header v")
    case None
    then show ?thesis using Cons by (simp add: map_filter_Cons)
  next
    case (Some h)
    then have err: "headerConditionError VR (map lower_name gs) (exact_names gs) h = None"
      and ok: "headerMatchConditionsValid_loop VR vs (map lower_name (h # gs)) (exact_names (h # gs)) = Ok ()"
      using Cons.prems(1) by (auto simp: lower_name_def [symmetric] split: option.splits if_splits)
    have "is_exact_case h \<Longrightarrow> strings_ToLower (hm1_Name h) \<notin> set (exact_names gs)"
      using err by (simp add: headerConditionError_def is_exact_case_def [of h] Let_def split: if_splits)
    then have "distinct (exact_names (h # gs))" using Cons.prems(2) by simp
    then have "distinct (exact_names (headers_of vs @ h # gs)) \<and>
      (\<forall>k\<in>set (headers_of vs). \<forall>g\<in>set (headers_of vs @ h # gs). \<not> contradictory k g \<and> \<not> contradictory g k)"
      using Cons.IH [OF ok] by blast
    then show ?thesis
      using Some headerConditionError_seen [OF err] by (auto simp: map_filter_Cons contradictory_irrefl)
  qed
qed (simp add: List.map_filter_def)

text \<open>
  A set of conditions that \<open>headerMatchConditionsValid\<close> accepts has at most one exact match for each header
  name (names compared without case), and no pair of plain conditions for the same header that contradict
  each other: present and not present, exact and not exact, or contains and not contains with the same
  value, in whatever order they come and in whatever include they come from.
\<close>

theorem headerMatchConditionsValid_sound:
  assumes "headerMatchConditionsValid VR conds = Ok ()"
  shows "distinct (exact_names (headers_of conds)) \<and>
         (\<forall>h\<in>set (headers_of conds). \<forall>g\<in>set (headers_of conds). \<not> contradictory h g)"
  using headerMatchConditionsValid_loop_ok [of VR conds "[]"] assms
  by (simp add: headerMatchConditionsValid_def)

theorem headerMatchConditionsValid_sound_witness:
  "let cs = [zero_MatchCondition_v1\<lparr>mc_Header := Some (zero_HeaderMatchCondition_v1\<lparr>hm1_Name := ''X-Env'', hm1_Exact := ''a''\<rparr>)\<rparr>,
             zero_MatchCondition_v1\<lparr>mc_Header := Some (zero_HeaderMatchCondition_v1\<lparr>hm1_Name := ''x-env'', hm1_NotExact := ''b''\<rparr>)\<rparr>]
   in headerMatchConditionsValid (\<lambda>_. None) cs = Ok () \<and> distinct (exact_names (headers_of cs))"
proof -
  let ?cs = "[zero_MatchCondition_v1\<lparr>mc_Header := Some (zero_HeaderMatchCondition_v1\<lparr>hm1_Name := ''X-Env'', hm1_Exact := ''a''\<rparr>)\<rparr>,
             zero_MatchCondition_v1\<lparr>mc_Header := Some (zero_HeaderMatchCondition_v1\<lparr>hm1_Name := ''x-env'', hm1_NotExact := ''b''\<rparr>)\<rparr>]"
  have "headerMatchConditionsValid (\<lambda>_. None) ?cs = Ok ()" by code_simp
  then show ?thesis using headerMatchConditionsValid_sound [of "\<lambda>_. None" ?cs] by (simp add: Let_def)
qed

text \<open>
  The contradiction is not seen when the negative condition also sets \<open>TreatMissingAsEmpty\<close> (or
  \<open>IgnoreCase\<close>), because the set is keyed by the whole struct: an exact and a not-exact condition on the same header
  with the same value, which no request satisfies, are accepted together.
\<close>

theorem headerMatchConditionsValid_misses_options:
  "headerMatchConditionsValid VR
     [zero_MatchCondition_v1\<lparr>mc_Header := Some (zero_HeaderMatchCondition_v1\<lparr>hm1_Name := n, hm1_NotExact := v, hm1_TreatMissingAsEmpty := True\<rparr>)\<rparr>,
      zero_MatchCondition_v1\<lparr>mc_Header := Some (zero_HeaderMatchCondition_v1\<lparr>hm1_Name := n, hm1_Exact := v\<rparr>)\<rparr>] = Ok ()"
  by (simp add: headerMatchConditionsValid_def headerConditionError_def is_exact_case_def zero_v1_defs Let_def
      split: option.splits)

text \<open>One of the fields of a query parameter condition is set.\<close>

lemma strings_Join_Nil_iff: "strings_Join xs '''' = '''' \<longleftrightarrow> (\<forall>x\<in>set xs. x = '''')"
  by (induction xs "''''::string" rule: strings_Join.induct) auto

lemma exactly_one_loop_iff:
  "exactly_one_loop n i ms \<longleftrightarrow> length (filter (\<lambda>x. x \<noteq> '''') (take n (drop i ms))) \<le> 1"
  if "i + n = length ms" and "\<forall>x\<in>set (take i ms). x = ''''"
  using that
proof (induction n arbitrary: i ms)
  case (Suc n)
  have d: "drop i ms = ms ! i # drop (Suc i) ms" and t: "take (Suc i) ms = take i ms @ [ms ! i]"
    using Suc.prems by (auto simp: Cons_nth_drop_Suc take_Suc_conv_app_nth)
  show ?case
  proof (cases "ms ! i = ''''")
    case True
    then show ?thesis using Suc.IH [of "Suc i" ms] Suc.prems d t by simp
  next
    case False
    let ?ex = "ms[i := '''']"
    have "strings_Join ?ex '''' = '''' \<longleftrightarrow> (\<forall>x\<in>set (drop (Suc i) ms). x = '''')"
      using Suc.prems by (auto simp: strings_Join_Nil_iff upd_conv_take_nth_drop)
    moreover have "exactly_one_loop n (Suc i) ?ex \<longleftrightarrow> length (filter (\<lambda>x. x \<noteq> '''') (take n (drop (Suc i) ms))) \<le> 1"
      using Suc.IH [of "Suc i" ?ex] Suc.prems by (auto simp: take_Suc_conv_app_nth)
    moreover have "take n (drop (Suc i) ms) = drop (Suc i) ms" using Suc.prems by simp
    ultimately show ?thesis using False d
      by (auto simp: filter_empty_conv)
  qed
qed simp

definition query_fields_set :: "QueryParameterMatchCondition_v1 \<Rightarrow> nat" where
  "query_fields_set q = length (filter (\<lambda>x. x \<noteq> '''') (query_matches q))"

abbreviation queries_of :: "MatchCondition_v1 list \<Rightarrow> QueryParameterMatchCondition_v1 list" where
  "queries_of conds \<equiv> List.map_filter mc_QueryParameter conds"

abbreviation exact_query_names :: "QueryParameterMatchCondition_v1 list \<Rightarrow> string list" where
  "exact_query_names qs \<equiv> map (\<lambda>q. strings_ToLower (qm1_Name q)) (filter (\<lambda>q. qm1_Exact q \<noteq> '''') qs)"

lemma query_one_field:
  "strings_Join (query_matches q) '''' \<noteq> '''' \<and> exactly_one_loop (length (query_matches q)) 0 (query_matches q)
     \<longleftrightarrow> query_fields_set q = 1"
proof -
  have "strings_Join (query_matches q) '''' \<noteq> '''' \<longleftrightarrow> query_fields_set q \<noteq> 0"
    by (auto simp: strings_Join_Nil_iff query_fields_set_def filter_empty_conv)
  moreover have "exactly_one_loop (length (query_matches q)) 0 (query_matches q) \<longleftrightarrow> query_fields_set q \<le> 1"
    by (simp add: exactly_one_loop_iff query_fields_set_def)
  ultimately show ?thesis by linarith
qed

lemma queryParameterMatchConditionsValid_loop_iff:
  "distinct exacts \<Longrightarrow> queryParameterMatchConditionsValid_loop VR conds exacts = Ok () \<longleftrightarrow>
     (\<forall>q\<in>set (queries_of conds). query_fields_set q = 1 \<and> (qm1_Regex q \<noteq> '''' \<longrightarrow> VR (qm1_Regex q) = None)) \<and>
     distinct (exact_query_names (queries_of conds) @ exacts)"
proof (induction conds arbitrary: exacts)
  case (Cons v vs)
  show ?case
  proof (cases "mc_QueryParameter v")
    case None
    then show ?thesis using Cons by (simp add: map_filter_Cons)
  next
    case (Some q)
    then show ?thesis
      using Cons.IH [of exacts] Cons.IH [of "strings_ToLower (qm1_Name q) # exacts"] Cons.prems query_one_field [of q]
      by (auto simp: map_filter_Cons Let_def)
  qed
qed (simp add: List.map_filter_def)

text \<open>
  \<open>queryParameterMatchConditionsValid\<close> accepts exactly the lists in which every query parameter condition
  sets one and only one kind of match, no two exact conditions are for the same parameter (compared
  without case), and every regex compiles; the clearing of the shared slice in the inner loop does not
  change which lists are accepted.
\<close>

theorem queryParameterMatchConditionsValid_iff:
  "queryParameterMatchConditionsValid VR conds = Ok () \<longleftrightarrow>
     (\<forall>q\<in>set (queries_of conds). query_fields_set q = 1 \<and> (qm1_Regex q \<noteq> '''' \<longrightarrow> VR (qm1_Regex q) = None)) \<and>
     distinct (exact_query_names (queries_of conds))"
  using queryParameterMatchConditionsValid_loop_iff [of "[]" VR conds]
  by (simp add: queryParameterMatchConditionsValid_def)

theorem queryParameterMatchConditionsValid_iff_witness:
  "let q1 = zero_QueryParameterMatchCondition_v1\<lparr>qm1_Name := ''a'', qm1_Exact := ''1''\<rparr>;
       q2 = zero_QueryParameterMatchCondition_v1\<lparr>qm1_Name := ''A'', qm1_Prefix := ''x'', qm1_Present := True\<rparr>
   in queryParameterMatchConditionsValid (\<lambda>_. None) [zero_MatchCondition_v1\<lparr>mc_QueryParameter := Some q1\<rparr>] = Ok ()
    \<and> queryParameterMatchConditionsValid (\<lambda>_. None) [zero_MatchCondition_v1\<lparr>mc_QueryParameter := Some q2\<rparr>] \<noteq> Ok ()"
  by (simp add: queryParameterMatchConditionsValid_iff zero_v1_defs map_filter_Cons query_fields_set_def
      query_matches_def Let_def)

end
