(* ===== verification/Status.thy ===== *)
theory Status
  imports Annotations
begin

text \<open>
  The status that Contour writes back to the objects it reads: the detailed conditions of
  \<open>apis/projectcontour/v1/helpers.go\<close>, and the updates of HTTPProxy objects of
  \<open>internal/status/proxystatus.go\<close> and \<open>internal/status/cache.go\<close>.  A \<open>DetailedCondition\<close> pointer that is handed
  around and added to is a value that every function returns updated.  Times are numbers; the
  load balancer field of the status, which this code does not touch, is left out.
\<close>

section \<open>Detailed conditions\<close>

record SubCondition =
  sub_Type :: string
  sub_Status :: string
  sub_Reason :: string
  sub_Message :: string

record DetailedCondition =
  dc_Type :: string
  dc_Status :: string
  dc_ObservedGeneration :: int
  dc_LastTransitionTime :: int
  dc_Reason :: string
  dc_Message :: string
  dc_Errors :: "SubCondition list"
  dc_Warnings :: "SubCondition list"

abbreviation ConditionTrue :: string where "ConditionTrue \<equiv> ''True''"
abbreviation ConditionFalse :: string where "ConditionFalse \<equiv> ''False''"
abbreviation ValidConditionType :: string where "ValidConditionType \<equiv> ''Valid''"

abbreviation ConditionTypeAuthError :: string where "ConditionTypeAuthError \<equiv> ''AuthError''"
abbreviation ConditionTypeCORSError :: string where "ConditionTypeCORSError \<equiv> ''CORSError''"
abbreviation ConditionTypeIPFilterError :: string where "ConditionTypeIPFilterError \<equiv> ''IPFilterError''"
abbreviation ConditionTypeJWTVerificationError :: string where "ConditionTypeJWTVerificationError \<equiv> ''JWTVerificationError''"
abbreviation ConditionTypeIncludeError :: string where "ConditionTypeIncludeError \<equiv> ''IncludeError''"
abbreviation ConditionTypeOrphanedError :: string where "ConditionTypeOrphanedError \<equiv> ''Orphaned''"
abbreviation ConditionTypePrefixReplaceError :: string where "ConditionTypePrefixReplaceError \<equiv> ''PrefixReplaceError''"
abbreviation ConditionTypeRootNamespaceError :: string where "ConditionTypeRootNamespaceError \<equiv> ''RootNamespaceError''"
abbreviation ConditionTypeRouteError :: string where "ConditionTypeRouteError \<equiv> ''RouteError''"
abbreviation ConditionTypeServiceError :: string where "ConditionTypeServiceError \<equiv> ''ServiceError''"
abbreviation ConditionTypeSpecError :: string where "ConditionTypeSpecError \<equiv> ''SpecError''"
abbreviation ConditionTypeTCPProxyIncludeError :: string where "ConditionTypeTCPProxyIncludeError \<equiv> ''TCPProxyIncludeError''"
abbreviation ConditionTypeTCPProxyError :: string where "ConditionTypeTCPProxyError \<equiv> ''TCPProxyError''"
abbreviation ConditionTypeTLSError :: string where "ConditionTypeTLSError \<equiv> ''TLSError''"
abbreviation ConditionTypeVirtualHostError :: string where "ConditionTypeVirtualHostError \<equiv> ''VirtualHostError''"
abbreviation ConditionTypeListenerError :: string where "ConditionTypeListenerError \<equiv> ''ListenerError''"

definition LongMessageLength :: nat where "LongMessageLength = 32760"

definition truncateLongMessage :: "string \<Rightarrow> string" where
  "truncateLongMessage message =
     (if length message > LongMessageLength then take LongMessageLength message else message)"

definition IsPositivePolarity :: "DetailedCondition \<Rightarrow> bool" where
  "IsPositivePolarity dc = (dc_Type dc = ValidConditionType)"

definition AddError :: "string \<Rightarrow> string \<Rightarrow> string \<Rightarrow> DetailedCondition \<Rightarrow> DetailedCondition" where
  "AddError errorType reason message dc =
     dc\<lparr>dc_Status := (if IsPositivePolarity dc then ConditionFalse else ConditionTrue),
        dc_Reason := ''ErrorPresent'',
        dc_Message := ''At least one error present, see Errors for details'',
        dc_Errors := dc_Errors dc @ [\<lparr>sub_Type = errorType, sub_Status = ConditionTrue, sub_Reason = reason,
                                      sub_Message = truncateLongMessage message\<rparr>]\<rparr>"

definition AddWarning :: "string \<Rightarrow> string \<Rightarrow> string \<Rightarrow> DetailedCondition \<Rightarrow> DetailedCondition" where
  "AddWarning warnType reason message dc =
     dc\<lparr>dc_Warnings := dc_Warnings dc @ [\<lparr>sub_Type = warnType, sub_Status = ConditionTrue, sub_Reason = reason,
                                          sub_Message = truncateLongMessage message\<rparr>]\<rparr>"

text \<open>\<open>getIndex\<close> (None for -1), \<open>GetError\<close> and \<open>GetWarning\<close>.\<close>

fun getIndex :: "string \<Rightarrow> SubCondition list \<Rightarrow> nat option" where
  "getIndex condType [] = None"
| "getIndex condType (c # cs) = (if sub_Type c = condType then Some 0 else map_option Suc (getIndex condType cs))"

definition GetError :: "string \<Rightarrow> DetailedCondition \<Rightarrow> SubCondition option" where
  "GetError errorType dc = (case getIndex errorType (dc_Errors dc) of None \<Rightarrow> None | Some i \<Rightarrow> Some (dc_Errors dc ! i))"

definition GetWarning :: "string \<Rightarrow> DetailedCondition \<Rightarrow> SubCondition option" where
  "GetWarning warnType dc = (case getIndex warnType (dc_Warnings dc) of None \<Rightarrow> None | Some i \<Rightarrow> Some (dc_Warnings dc ! i))"

text \<open>The invariant that the documentation of \<open>DetailedCondition\<close> states: a \<open>Valid\<close> condition is \<open>True\<close> when
  it has no error and \<open>False\<close> when it has one; the other way round for every other type.  Messages fit
  the limit of the API server.\<close>

definition wf_condition :: "DetailedCondition \<Rightarrow> bool" where
  "wf_condition dc \<longleftrightarrow>
     dc_Status dc = (if (dc_Errors dc = []) = IsPositivePolarity dc then ConditionTrue else ConditionFalse) \<and>
     (\<forall>s\<in>set (dc_Errors dc @ dc_Warnings dc). length (sub_Message s) \<le> LongMessageLength)"

lemma truncateLongMessage_length [simp]: "length (truncateLongMessage m) \<le> LongMessageLength"
  by (simp add: truncateLongMessage_def)

lemma AddError_wf [wf_intro]: "wf_condition dc \<Longrightarrow> wf_condition (AddError t r m dc)"
  by (auto simp: wf_condition_def AddError_def IsPositivePolarity_def)

lemma AddWarning_wf [wf_intro]: "wf_condition dc \<Longrightarrow> wf_condition (AddWarning t r m dc)"
  by (auto simp: wf_condition_def AddWarning_def IsPositivePolarity_def)

lemma AddError_simps [simp]:
  "dc_Type (AddError t r m dc) = dc_Type dc"
  "dc_Warnings (AddError t r m dc) = dc_Warnings dc"
  "dc_Errors (AddError t r m dc) \<noteq> []"
  by (simp_all add: AddError_def)

lemma AddWarning_simps [simp]:
  "dc_Type (AddWarning t r m dc) = dc_Type dc"
  "dc_Status (AddWarning t r m dc) = dc_Status dc"
  "dc_Errors (AddWarning t r m dc) = dc_Errors dc"
  by (simp_all add: AddWarning_def)

lemma getIndex_iff:
  "(case getIndex t cs of None \<Rightarrow> \<forall>c\<in>set cs. sub_Type c \<noteq> t
    | Some i \<Rightarrow> i < length cs \<and> sub_Type (cs ! i) = t \<and> (\<forall>j<i. sub_Type (cs ! j) \<noteq> t))"
proof (induction cs)
  case (Cons c cs)
  then show ?case by (auto simp: nth_Cons split: option.splits nat.splits)
qed simp

lemma GetError_iff: "GetError t dc \<noteq> None \<longleftrightarrow> (\<exists>s\<in>set (dc_Errors dc). sub_Type s = t)"
  using getIndex_iff [where t = t and cs = "dc_Errors dc"] by (force simp: GetError_def split: option.splits)

section \<open>Updates of an HTTPProxy\<close>

record ProxyUpdate =
  pu_Fullname :: NamespacedName
  pu_Generation :: int
  pu_TransitionTime :: int
  pu_Vhost :: string
  pu_Conditions :: "(string, DetailedCondition) gomap"

abbreviation ValidCondition :: string where "ValidCondition \<equiv> ''Valid''"

definition new_condition :: "ProxyUpdate \<Rightarrow> string \<Rightarrow> DetailedCondition" where
  "new_condition pu cond =
     \<lparr>dc_Type = cond,
      dc_Status = (if cond = ValidCondition then ConditionTrue else ConditionFalse),
      dc_ObservedGeneration = pu_Generation pu,
      dc_LastTransitionTime = 0,
      dc_Reason = (if cond = ValidCondition then ''Valid'' else ''''),
      dc_Message = (if cond = ValidCondition then ''Valid HTTPProxy'' else ''''),
      dc_Errors = [], dc_Warnings = []\<rparr>"

definition ConditionFor :: "ProxyUpdate \<Rightarrow> string \<Rightarrow> DetailedCondition \<times> ProxyUpdate" where
  "ConditionFor pu cond =
     (case lookup (pu_Conditions pu) cond of
        Some dc \<Rightarrow> (dc, pu)
      | None \<Rightarrow> (let newDc = new_condition pu cond
                in (newDc, pu\<lparr>pu_Conditions := put cond newDc (pu_Conditions pu)\<rparr>)))"

record HTTPProxyStatus =
  hps_CurrentStatus :: string
  hps_Description :: string
  hps_Conditions :: "DetailedCondition list"

fun GetConditionFor :: "string \<Rightarrow> DetailedCondition list \<Rightarrow> nat option" where
  "GetConditionFor condType [] = None"
| "GetConditionFor condType (c # cs) = (if dc_Type c = condType then Some 0 else map_option Suc (GetConditionFor condType cs))"

text \<open>One iteration of the loop of \<open>Mutate\<close>, on a condition that has been stamped with the generation and
  the time of the update.\<close>

definition stamp :: "ProxyUpdate \<Rightarrow> DetailedCondition \<Rightarrow> DetailedCondition" where
  "stamp pu cond = cond\<lparr>dc_ObservedGeneration := pu_Generation pu, dc_LastTransitionTime := pu_TransitionTime pu\<rparr>"

definition mutate_condition :: "string \<Rightarrow> DetailedCondition \<Rightarrow> DetailedCondition list \<Rightarrow> DetailedCondition list" where
  "mutate_condition condType cond conditions =
     (case GetConditionFor condType conditions of
        None \<Rightarrow> conditions @ [cond]
      | Some i \<Rightarrow>
          if dc_ObservedGeneration (conditions ! i) > dc_ObservedGeneration cond then conditions
          else conditions[i := cond])"

fun mutate_conditions :: "(string, DetailedCondition) gomap \<Rightarrow> DetailedCondition list \<Rightarrow> DetailedCondition list" where
  "mutate_conditions [] conditions = conditions"
| "mutate_conditions ((condType, cond) # rest) conditions =
     mutate_conditions rest (mutate_condition condType cond conditions)"

text \<open>\<open>Mutate\<close> dereferences the \<open>Valid\<close> condition it looks up: with none it panics (None).\<close>

definition Mutate :: "ProxyUpdate \<Rightarrow> HTTPProxyStatus \<Rightarrow> (ProxyUpdate \<times> HTTPProxyStatus) option" where
  "Mutate pu status =
     (let stamped = map (\<lambda>(t, c). (t, stamp pu c)) (pu_Conditions pu);
          conditions = mutate_conditions stamped (hps_Conditions status);
          pu' = pu\<lparr>pu_Conditions := stamped\<rparr>
      in case GetConditionFor ValidConditionType conditions of
           None \<Rightarrow> None
         | Some i \<Rightarrow>
             let validCond = conditions ! i; status = status\<lparr>hps_Conditions := conditions\<rparr> in
             Some (pu',
               if dc_Status validCond = ConditionTrue then
                 status\<lparr>hps_CurrentStatus := ''valid'', hps_Description := dc_Message validCond\<rparr>
               else if dc_Status validCond = ConditionFalse then
                 (case GetError ConditionTypeOrphanedError validCond of
                    Some orphanCond \<Rightarrow>
                      status\<lparr>hps_CurrentStatus := ''orphaned'', hps_Description := sub_Message orphanCond\<rparr>
                  | None \<Rightarrow> status\<lparr>hps_CurrentStatus := ''invalid'', hps_Description := dc_Message validCond\<rparr>)
               else status))"

section \<open>The cache of updates\<close>

type_synonym proxyUpdates = "(NamespacedName, ProxyUpdate) gomap"

definition ProxyAccessor :: "int \<Rightarrow> HTTPProxy \<Rightarrow> ProxyUpdate" where
  "ProxyAccessor now proxy =
     \<lparr>pu_Fullname = NamespacedNameOf (px_Namespace proxy) (px_Name proxy),
      pu_Generation = px_Generation proxy, pu_TransitionTime = now, pu_Vhost = '''', pu_Conditions = []\<rparr>"

text \<open>Every update in the cache has a \<open>Valid\<close> condition (\<open>has_valid\<close> below): the commit reads its status.\<close>

definition valid_status :: "ProxyUpdate \<Rightarrow> string" where
  "valid_status pu = (case lookup (pu_Conditions pu) ValidCondition of Some dc \<Rightarrow> dc_Status dc | None \<Rightarrow> '''')"

definition ProxyAccessor_commit :: "ProxyUpdate \<Rightarrow> proxyUpdates \<Rightarrow> proxyUpdates" where
  "ProxyAccessor_commit pu updates =
     (if length (pu_Conditions pu) = 0 then updates
      else case lookup updates (pu_Fullname pu) of
             Some old \<Rightarrow>
               if valid_status old = ConditionFalse \<and> valid_status pu = ConditionTrue then updates
               else put (pu_Fullname pu) pu updates
           | None \<Rightarrow> put (pu_Fullname pu) pu updates)"

definition has_valid :: "ProxyUpdate \<Rightarrow> bool" where
  "has_valid pu \<longleftrightarrow> (\<exists>dc. lookup (pu_Conditions pu) ValidCondition = Some dc \<and> dc_Type dc = ValidCondition \<and> wf_condition dc)"

lemma has_valid_nonempty: "has_valid pu \<Longrightarrow> pu_Conditions pu \<noteq> []"
  by (auto simp: has_valid_def)

lemma valid_status_cases: "has_valid pu \<Longrightarrow> valid_status pu = ConditionTrue \<or> valid_status pu = ConditionFalse"
  by (auto simp: has_valid_def valid_status_def wf_condition_def split: if_splits)

lemma new_condition_wf [wf_intro]: "wf_condition (new_condition pu cond)"
  by (simp add: wf_condition_def new_condition_def IsPositivePolarity_def)

lemma commit_lookup:
  "has_valid pu \<Longrightarrow> lookup (ProxyAccessor_commit pu updates) n =
     (if n = pu_Fullname pu \<and> \<not> (\<exists>old. lookup updates n = Some old \<and> valid_status old = ConditionFalse \<and> valid_status pu = ConditionTrue)
      then Some pu else lookup updates n)"
  using has_valid_nonempty [of pu]
  by (auto simp: ProxyAccessor_commit_def lookup_put split: option.splits)

text \<open>
  C28. Over a whole rebuild of the DAG, in which a proxy may be visited and committed several times, the update
  that is left in the cache for a proxy is invalid if and only if some committed update was: an error is never
  overwritten by a later valid visit, and validity is never lost without an error.
\<close>

theorem commit_keeps_errors:
  assumes "\<forall>pu\<in>set pus. has_valid pu"
  shows "map_option valid_status (lookup (fold ProxyAccessor_commit pus []) n) =
           (if \<exists>pu\<in>set pus. pu_Fullname pu = n \<and> valid_status pu = ConditionFalse then Some ConditionFalse
            else if \<exists>pu\<in>set pus. pu_Fullname pu = n then Some ConditionTrue
            else None)"
  using assms
proof (induction pus rule: rev_induct)
  case (snoc pu pus)
  then show ?case
    using valid_status_cases [of pu] by (auto simp: commit_lookup split: if_splits)
qed simp

lemma ConditionFor_new:
  "lookup (pu_Conditions pu) cond = None \<Longrightarrow>
   ConditionFor pu cond = (new_condition pu cond, pu\<lparr>pu_Conditions := put cond (new_condition pu cond) (pu_Conditions pu)\<rparr>)"
  by (simp add: ConditionFor_def Let_def)

definition with_valid :: "DetailedCondition \<Rightarrow> ProxyUpdate \<Rightarrow> ProxyUpdate" where
  "with_valid vc pu = pu\<lparr>pu_Conditions := put ValidCondition vc (pu_Conditions pu)\<rparr>"

lemma has_valid_with_valid [simp]: "has_valid (with_valid vc pu) \<longleftrightarrow> dc_Type vc = ValidCondition \<and> wf_condition vc"
  by (simp add: has_valid_def with_valid_def lookup_put)

lemma valid_status_with_valid [simp]: "valid_status (with_valid vc pu) = dc_Status vc"
  by (simp add: valid_status_def with_valid_def lookup_put)

lemma Fullname_with_valid [simp]: "pu_Fullname (with_valid vc pu) = pu_Fullname pu"
  by (simp add: with_valid_def)

theorem commit_keeps_errors_witness:
  "let pu = ProxyAccessor 0 (zero_HTTPProxy\<lparr>px_Name := ''a'', px_Namespace := ''ns''\<rparr>); vc = new_condition pu ValidCondition
   in map_option valid_status (lookup (fold ProxyAccessor_commit
        [with_valid (AddError ''IncludeError'' ''x'' ''y'' vc) pu, with_valid vc pu] []) (pu_Fullname pu)) = Some ConditionFalse"
proof -
  let ?pu = "ProxyAccessor 0 (zero_HTTPProxy\<lparr>px_Name := ''a'', px_Namespace := ''ns''\<rparr>)"
  let ?vc = "new_condition ?pu ValidCondition"
  have "dc_Status (AddError ''IncludeError'' ''x'' ''y'' ?vc) = ConditionFalse"
    by (simp add: AddError_def IsPositivePolarity_def new_condition_def)
  moreover have "dc_Type ?vc = ValidCondition" by (simp add: new_condition_def)
  ultimately show ?thesis
    using commit_keeps_errors [of "[with_valid (AddError ''IncludeError'' ''x'' ''y'' ?vc) ?pu, with_valid ?vc ?pu]" "pu_Fullname ?pu"]
    by (simp add: AddError_wf new_condition_wf Let_def)
qed

section \<open>What an update leaves in the object\<close>

lemma GetConditionFor_iff:
  "(case GetConditionFor t cs of None \<Rightarrow> \<forall>c\<in>set cs. dc_Type c \<noteq> t
    | Some i \<Rightarrow> i < length cs \<and> dc_Type (cs ! i) = t)"
proof (induction cs)
  case (Cons c cs)
  then show ?case by (auto split: option.splits)
qed simp

lemma GetConditionFor_append:
  "GetConditionFor t (xs @ ys) =
     (case GetConditionFor t xs of Some i \<Rightarrow> Some i | None \<Rightarrow> map_option (\<lambda>i. length xs + i) (GetConditionFor t ys))"
proof (induction xs)
  case Nil
  then show ?case by (cases "GetConditionFor t ys") auto
next
  case (Cons x xs)
  then show ?case by (cases "GetConditionFor t ys") (auto split: option.splits)
qed

lemma GetConditionFor_update:
  "dc_Type c = dc_Type (cs ! i) \<Longrightarrow> GetConditionFor t (cs[i := c]) = GetConditionFor t cs"
proof (induction cs arbitrary: i)
  case (Cons x xs)
  then show ?case by (cases i) auto
qed simp

definition condition_of :: "string \<Rightarrow> DetailedCondition list \<Rightarrow> DetailedCondition option" where
  "condition_of t cs = map_option (\<lambda>i. cs ! i) (GetConditionFor t cs)"

lemma mutate_condition_other:
  assumes "dc_Type c = t" "t \<noteq> u"
  shows "condition_of u (mutate_condition t c cs) = condition_of u cs"
proof (cases "GetConditionFor t cs")
  case None
  then show ?thesis
    using assms GetConditionFor_iff [of cs u]
    by (auto simp: condition_of_def mutate_condition_def GetConditionFor_append nth_append split: option.splits)
next
  case (Some i)
  then have "i < length cs" "dc_Type (cs ! i) = t" using GetConditionFor_iff [of cs t] by auto
  then show ?thesis
    using assms Some GetConditionFor_iff [of cs u]
    by (auto simp: condition_of_def mutate_condition_def GetConditionFor_update nth_list_update split: option.splits)
qed

lemma mutate_condition_same:
  assumes "dc_Type c = t"
  shows "condition_of t (mutate_condition t c cs) =
    (case condition_of t cs of
       Some old \<Rightarrow> if dc_ObservedGeneration old > dc_ObservedGeneration c then Some old else Some c
     | None \<Rightarrow> Some c)"
proof (cases "GetConditionFor t cs")
  case None
  then show ?thesis
    using assms by (simp add: condition_of_def mutate_condition_def GetConditionFor_append)
next
  case (Some i)
  then have "i < length cs" "dc_Type (cs ! i) = t" using GetConditionFor_iff [of cs t] by auto
  then show ?thesis using assms Some by (simp add: condition_of_def mutate_condition_def GetConditionFor_update)
qed

lemma mutate_conditions_of:
  assumes "\<forall>(u, c)\<in>set m. dc_Type c = u" and "wf_gomap m"
  shows "condition_of t (mutate_conditions m cs) =
    (case lookup m t of
       None \<Rightarrow> condition_of t cs
     | Some c \<Rightarrow> (case condition_of t cs of
         Some old \<Rightarrow> if dc_ObservedGeneration old > dc_ObservedGeneration c then Some old else Some c
       | None \<Rightarrow> Some c))"
  using assms
proof (induction m arbitrary: cs)
  case (Cons p m)
  obtain u c where p: "p = (u, c)" by (cases p)
  have "lookup m u = None" using Cons.prems p by (simp add: map_of_eq_None_iff)
  then show ?case
    using Cons p by (cases "u = t") (auto simp: mutate_condition_same mutate_condition_other split: option.splits)
qed simp

lemma condition_of_iff: "condition_of t cs = None \<longleftrightarrow> GetConditionFor t cs = None"
  by (simp add: condition_of_def)

definition current_status :: "DetailedCondition \<Rightarrow> string" where
  "current_status dc =
     (if dc_Errors dc = [] then ''valid''
      else if \<exists>s\<in>set (dc_Errors dc). sub_Type s = ConditionTypeOrphanedError then ''orphaned'' else ''invalid'')"

lemma Mutate_eq:
  assumes "condition_of ValidConditionType (mutate_conditions (map (\<lambda>(t, c). (t, stamp pu c)) (pu_Conditions pu)) (hps_Conditions st)) = Some vc"
    and "dc_Type vc = ValidConditionType" "wf_condition vc"
  obtains pu' st' where "Mutate pu st = Some (pu', st')"
    "hps_Conditions st' = mutate_conditions (map (\<lambda>(t, c). (t, stamp pu c)) (pu_Conditions pu)) (hps_Conditions st)"
    "hps_CurrentStatus st' = current_status vc"
proof -
  let ?cs = "mutate_conditions (map (\<lambda>(t, c). (t, stamp pu c)) (pu_Conditions pu)) (hps_Conditions st)"
  obtain i where i: "GetConditionFor ValidConditionType ?cs = Some i" "?cs ! i = vc"
    using assms(1) by (auto simp: condition_of_def)
  have err: "GetError ConditionTypeOrphanedError vc = None \<longleftrightarrow> \<not> (\<exists>s\<in>set (dc_Errors vc). sub_Type s = ConditionTypeOrphanedError)"
    using GetError_iff [of ConditionTypeOrphanedError vc] by blast
  have "dc_Status vc = (if dc_Errors vc = [] then ConditionTrue else ConditionFalse)"
    using assms(2,3) by (simp add: wf_condition_def IsPositivePolarity_def)
  then show ?thesis
    using i err that
    by (cases "dc_Errors vc = []"; cases "GetError ConditionTypeOrphanedError vc")
       (auto simp: Mutate_def Let_def current_status_def)
qed

lemma stamped_map:
  "lookup (map (\<lambda>(t, c). (t, stamp pu c)) m) t = map_option (stamp pu) (lookup m t)"
  "wf_gomap (map (\<lambda>(t, c). (t, stamp pu c)) m) \<longleftrightarrow> wf_gomap m"
  by (induction m) (auto simp: image_image case_prod_beta)

lemma stamp_simps [simp]:
  "dc_Type (stamp pu c) = dc_Type c" "dc_Errors (stamp pu c) = dc_Errors c" "wf_condition (stamp pu c) = wf_condition c"
  "dc_ObservedGeneration (stamp pu c) = pu_Generation pu"
  by (simp_all add: stamp_def wf_condition_def IsPositivePolarity_def)

text \<open>
  Writing an update into the status of an object succeeds and leaves every condition of a type that is not
  in the update as it was, so conditions of other controllers are untouched. When the object carries no
  \<open>Valid\<close> condition, or one observed at a generation that is not newer, the \<open>Valid\<close> condition is the one of the update, stamped
  with its generation, and the current status is \<open>valid\<close>, \<open>orphaned\<close> or \<open>invalid\<close> according to its errors; a
  condition observed at a newer generation is never overwritten.
\<close>

theorem Mutate_correct:
  assumes "wf_gomap (pu_Conditions pu)" and "\<forall>(t, c)\<in>set (pu_Conditions pu). dc_Type c = t \<and> wf_condition c"
    and "lookup (pu_Conditions pu) ValidConditionType = Some vc"
    and "\<forall>c\<in>set (hps_Conditions st). dc_Type c = ValidConditionType \<longrightarrow> wf_condition c"
  shows "\<exists>pu' st'. Mutate pu st = Some (pu', st') \<and>
    (\<forall>t. lookup (pu_Conditions pu) t = None \<longrightarrow> condition_of t (hps_Conditions st') = condition_of t (hps_Conditions st)) \<and>
    (case condition_of ValidConditionType (hps_Conditions st) of
       Some old \<Rightarrow> if dc_ObservedGeneration old > pu_Generation pu
         then condition_of ValidConditionType (hps_Conditions st') = Some old \<and> hps_CurrentStatus st' = current_status old
         else condition_of ValidConditionType (hps_Conditions st') = Some (stamp pu vc) \<and> hps_CurrentStatus st' = current_status vc
     | None \<Rightarrow> condition_of ValidConditionType (hps_Conditions st') = Some (stamp pu vc) \<and> hps_CurrentStatus st' = current_status vc)"
proof -
  let ?m = "map (\<lambda>(t, c). (t, stamp pu c)) (pu_Conditions pu)"
  let ?new = "case condition_of ValidConditionType (hps_Conditions st) of
      Some old \<Rightarrow> if dc_ObservedGeneration old > pu_Generation pu then old else stamp pu vc | None \<Rightarrow> stamp pu vc"
  have "\<forall>(u, c)\<in>set ?m. dc_Type c = u" using assms(2) by auto
  then have cond: "condition_of t (mutate_conditions ?m (hps_Conditions st)) =
      (case map_option (stamp pu) (lookup (pu_Conditions pu) t) of
       None \<Rightarrow> condition_of t (hps_Conditions st)
     | Some c \<Rightarrow> (case condition_of t (hps_Conditions st) of
         Some old \<Rightarrow> if dc_ObservedGeneration old > dc_ObservedGeneration c then Some old else Some c
       | None \<Rightarrow> Some c))" for t
    unfolding stamped_map(1) [symmetric] using assms(1) by (intro mutate_conditions_of) (simp_all only: stamped_map(2))
  have vc: "dc_Type vc = ValidConditionType" "wf_condition vc" using assms(2,3) by (auto dest: map_of_SomeD)
  have old: "dc_Type old = ValidConditionType \<and> wf_condition old"
    if c: "condition_of ValidConditionType (hps_Conditions st) = Some old" for old
  proof -
    obtain i where "GetConditionFor ValidConditionType (hps_Conditions st) = Some i" "old = hps_Conditions st ! i"
      using c by (auto simp: condition_of_def)
    then show ?thesis
      using GetConditionFor_iff [of "hps_Conditions st" ValidConditionType] assms(4) by simp
  qed
  have "condition_of ValidConditionType (mutate_conditions ?m (hps_Conditions st)) = Some ?new"
    using cond [of ValidConditionType] assms(3) by (auto split: option.splits)
  moreover have "dc_Type ?new = ValidConditionType" "wf_condition ?new" using vc old by (auto split: option.splits)
  ultimately obtain pu' st' where "Mutate pu st = Some (pu', st')"
    "hps_Conditions st' = mutate_conditions ?m (hps_Conditions st)" "hps_CurrentStatus st' = current_status ?new"
    by (rule Mutate_eq)
  moreover have "current_status (stamp pu vc) = current_status vc" by (simp add: current_status_def)
  ultimately show ?thesis
    using cond assms(3) by (auto split: option.splits)
qed

theorem Mutate_correct_witness:
  "let pu = ProxyAccessor 7 (zero_HTTPProxy\<lparr>px_Name := ''a'', px_Generation := 3\<rparr>);
       pu = with_valid (AddError ConditionTypeOrphanedError ''Orphaned'' ''no root'' (new_condition pu ValidCondition)) pu;
       st = \<lparr>hps_CurrentStatus = ''valid'', hps_Description = '''', hps_Conditions = []\<rparr>
   in \<exists>pu' st'. Mutate pu st = Some (pu', st') \<and> hps_CurrentStatus st' = ''orphaned''"
proof -
  let ?pu0 = "ProxyAccessor 7 (zero_HTTPProxy\<lparr>px_Name := ''a'', px_Generation := 3\<rparr>)"
  let ?vc = "AddError ConditionTypeOrphanedError ''Orphaned'' ''no root'' (new_condition ?pu0 ValidCondition)"
  let ?st = "\<lparr>hps_CurrentStatus = ''valid'', hps_Description = '''', hps_Conditions = []\<rparr>"
  have conds: "pu_Conditions (with_valid ?vc ?pu0) = [(ValidCondition, ?vc)]"
    by (simp add: with_valid_def ProxyAccessor_def)
  have "wf_condition ?vc" by (intro AddError_wf new_condition_wf)
  moreover have "dc_Type ?vc = ValidCondition" by (simp add: new_condition_def)
  moreover have "current_status ?vc = ''orphaned''" by (simp add: current_status_def AddError_def new_condition_def)
  ultimately show ?thesis
    using Mutate_correct [of "with_valid ?vc ?pu0" ?vc ?st] by (simp add: conds Let_def condition_of_def) blast
qed

end
