(* ===== verification/Policy.thy ===== *)
theory Policy
  imports Conditions Status
begin

text \<open>
  \<open>internal/dag/policy.go\<close>: the translation of the policies of the API (headers, cookies, timeouts, retries, health
  checks, load balancing, rate limits) into those of the DAG.  Parameters stand for library code:
  \<open>IsHTTPHeaderName\<close> (the validation of Kubernetes, as the list of its messages) and \<open>ParseDuration\<close>.
\<close>

section \<open>HTTP header keys and values\<close>

text \<open>\<open>http.CanonicalHeaderKey\<close>: unchanged if some byte is not a token character, otherwise upper case at the
  start and after a hyphen, and lower case elsewhere.\<close>

definition is_digit :: "char \<Rightarrow> bool" where
  "is_digit c = (48 \<le> (of_char c :: nat) \<and> (of_char c :: nat) \<le> 57)"

definition is_token_char :: "char \<Rightarrow> bool" where
  "is_token_char c = (is_upper c \<or> is_lower c \<or> is_digit c \<or> c \<in> set ''!#$%&*+-.^_|~'' \<or> c = CHR 0x27 \<or> c = CHR 0x60)"

fun canonical_from :: "bool \<Rightarrow> string \<Rightarrow> string" where
  "canonical_from upper [] = []"
| "canonical_from upper (c # s) =
     (if upper then char_upper c else char_lower c) # canonical_from (c = CHR ''-'') s"

definition CanonicalHeaderKey :: "string \<Rightarrow> string" where
  "CanonicalHeaderKey s = (if \<forall>c\<in>set s. is_token_char c then canonical_from True s else s)"

text \<open>\<open>%v\<close> of a slice of strings.\<close>

definition go_list :: "string list \<Rightarrow> string" where
  "go_list msgs = ''['' @ strings_Join msgs '' '' @ '']''"

text \<open>The submatch of \<open>%REQ\(([A-Za-z0-9-]+)\)%\<close>, leftmost.\<close>

definition is_header_char :: "char \<Rightarrow> bool" where
  "is_header_char c = (is_upper c \<or> is_lower c \<or> is_digit c \<or> c = CHR ''-'')"

definition req_at :: "string \<Rightarrow> string option" where
  "req_at s =
     (if strings_HasPrefix s ''%REQ('' then
        (let rest = drop 5 s; name = takeWhile is_header_char rest in
         if name \<noteq> '''' \<and> strings_HasPrefix (dropWhile is_header_char rest) '')%'' then Some name else None)
      else None)"

fun find_req :: "string \<Rightarrow> string option" where
  "find_req [] = None"
| "find_req (c # s) = (case req_at (c # s) of Some name \<Rightarrow> Some name | None \<Rightarrow> find_req s)"

definition extractHostRewriteHeaderValue :: "string \<Rightarrow> string" where
  "extractHostRewriteHeaderValue s = (case find_req s of Some name \<Rightarrow> strings_TrimSpace name | None \<Rightarrow> '''')"

text \<open>The regular expression \<open>%(%REQ\(:?[\w-]+(\?:?[\w-]+)?\)(:\d+)?%)%\<close> at the start of a string: the submatch and
  what follows the match.  No character class overlaps the character after it, so one pass without
  backtracking is exact.\<close>

definition is_word_char :: "char \<Rightarrow> bool" where
  "is_word_char c = (is_upper c \<or> is_lower c \<or> is_digit c \<or> c = CHR ''_'' \<or> c = CHR ''-'')"

definition opt_colon :: "string \<Rightarrow> string" where
  "opt_colon s = (if strings_HasPrefix s '':'' then tl s else s)"

definition word_after_colon :: "string \<Rightarrow> string option" where
  "word_after_colon s =
     (let t = opt_colon s in if takeWhile is_word_char t = '''' then None else Some (dropWhile is_word_char t))"

definition query_rest :: "string \<Rightarrow> string option" where
  "query_rest t = (if strings_HasPrefix t ''?'' then word_after_colon (tl t) else Some t)"

definition close_rest :: "string \<Rightarrow> string option" where
  "close_rest t =
     (if \<not> strings_HasPrefix t '')'' then None
      else let t = tl t;
               t = (if strings_HasPrefix t '':'' \<and> takeWhile is_digit (tl t) \<noteq> ''''
                    then dropWhile is_digit (tl t) else t)
        in if strings_HasPrefix t ''%%'' then Some (drop 2 t) else None)"

definition req_var_rest :: "string \<Rightarrow> string option" where
  "req_var_rest s =
     (if \<not> strings_HasPrefix s ''%%REQ('' then None
      else Option.bind (word_after_colon (drop 6 s)) (\<lambda>t. Option.bind (query_rest t) close_rest))"

lemma word_after_colon_shorter: "word_after_colon s = Some t \<Longrightarrow> length t < length s"
proof -
  assume *: "word_after_colon s = Some t"
  let ?u = "opt_colon s"
  have "takeWhile is_word_char ?u \<noteq> []" "t = dropWhile is_word_char ?u"
    using * by (auto simp: word_after_colon_def Let_def split: if_splits)
  moreover have "length (takeWhile is_word_char ?u @ dropWhile is_word_char ?u) = length ?u"
    by (simp only: takeWhile_dropWhile_id)
  moreover have "length ?u \<le> length s" by (simp add: opt_colon_def)
  ultimately show ?thesis by (cases "takeWhile is_word_char ?u") auto
qed

lemma HasPrefix_tl_shorter: "strings_HasPrefix s (p # ps) \<Longrightarrow> length (tl s) < length s"
  by (cases s) auto

lemma query_rest_shorter: "query_rest s = Some t \<Longrightarrow> length t \<le> length s"
  using word_after_colon_shorter [of "tl s" t] by (auto simp: query_rest_def split: if_splits)

lemma close_rest_shorter: "close_rest s = Some t \<Longrightarrow> length t < length s"
  using HasPrefix_tl_shorter [of s "CHR '')''" "[]"] length_dropWhile_le [of is_digit "tl (tl s)"]
  by (auto simp: close_rest_def Let_def split: if_splits)

lemma req_var_rest_shorter: "req_var_rest s = Some t \<Longrightarrow> length t < length s"
  by (auto simp: req_var_rest_def bind_eq_Some_conv split: if_splits
      dest!: word_after_colon_shorter query_rest_shorter close_rest_shorter)

function replace_req_vars :: "string \<Rightarrow> string" where
  "replace_req_vars s =
     (case req_var_rest s of
        Some rest \<Rightarrow> butlast (tl (take (length s - length rest) s)) @ replace_req_vars rest
      | None \<Rightarrow> (case s of [] \<Rightarrow> [] | c # t \<Rightarrow> c # replace_req_vars t))"
  by pat_completeness auto
termination
  by (relation "measure length") (auto dest: req_var_rest_shorter)

declare replace_req_vars.simps [simp del]

definition envoy_vars :: "string list" where
  "envoy_vars = [''DOWNSTREAM_REMOTE_ADDRESS'', ''DOWNSTREAM_REMOTE_ADDRESS_WITHOUT_PORT'', ''DOWNSTREAM_LOCAL_ADDRESS'',
     ''DOWNSTREAM_LOCAL_ADDRESS_WITHOUT_PORT'', ''DOWNSTREAM_LOCAL_PORT'', ''DOWNSTREAM_LOCAL_URI_SAN'',
     ''DOWNSTREAM_PEER_URI_SAN'', ''DOWNSTREAM_LOCAL_SUBJECT'', ''DOWNSTREAM_PEER_SUBJECT'', ''DOWNSTREAM_PEER_ISSUER'',
     ''DOWNSTREAM_TLS_SESSION_ID'', ''DOWNSTREAM_TLS_CIPHER'', ''DOWNSTREAM_TLS_VERSION'', ''DOWNSTREAM_PEER_FINGERPRINT_256'',
     ''DOWNSTREAM_PEER_FINGERPRINT_1'', ''DOWNSTREAM_PEER_SERIAL'', ''DOWNSTREAM_PEER_CERT'', ''DOWNSTREAM_PEER_CERT_V_START'',
     ''DOWNSTREAM_PEER_CERT_V_END'', ''HOSTNAME'', ''PROTOCOL'', ''UPSTREAM_REMOTE_ADDRESS'', ''RESPONSE_FLAGS'',
     ''RESPONSE_CODE_DETAILS'']"

definition escapeHeaderValue :: "string \<Rightarrow> (string, string) gomap \<Rightarrow> string" where
  "escapeHeaderValue v dynamicHeaders =
     (if \<not> strings_Contains v ''%'' then v
      else let escapedValue = strings_ReplaceAll v ''%'' ''%%'';
               escapedValue = fold (\<lambda>(dynamicVar, dynamicVal) s. strings_ReplaceAll s (''%%'' @ dynamicVar @ ''%%'') dynamicVal)
                 dynamicHeaders escapedValue;
               escapedValue = fold (\<lambda>envoyVar s. strings_ReplaceAll s (''%%'' @ envoyVar @ ''%%'') (''%'' @ envoyVar @ ''%''))
                 envoy_vars escapedValue
           in replace_req_vars escapedValue)"

section \<open>Header policies\<close>

text \<open>The loops of \<open>headersPolicyRoute\<close>: \<open>hr\<close> and \<open>hrh\<close> are the host rewrite and the header it is read from.\<close>

fun headers_set_loop ::
  "(string \<Rightarrow> string list) \<Rightarrow> bool \<Rightarrow> (string, string) gomap \<Rightarrow> HeaderValue list \<Rightarrow> (string, string) gomap \<Rightarrow> string \<Rightarrow> string
     \<Rightarrow> ((string, string) gomap \<times> string \<times> string) result" where
  "headers_set_loop IsHTTPHeaderName allowHostRewrite dynamicHeaders [] m hr hrh = Ok (m, hr, hrh)"
| "headers_set_loop IsHTTPHeaderName allowHostRewrite dynamicHeaders (entry # es) m hr hrh =
     (let key = CanonicalHeaderKey (hv_Name entry) in
      if lookup m key \<noteq> None then Err (''duplicate header addition: '' @ go_quote key)
      else if key = ''Host'' then
        (if \<not> allowHostRewrite then Err (''rewriting '' @ go_quote key @ '' header is not supported'')
         else let extracted = extractHostRewriteHeaderValue (hv_Value entry) in
           if extracted \<noteq> ''''
           then headers_set_loop IsHTTPHeaderName allowHostRewrite dynamicHeaders es m hr (CanonicalHeaderKey extracted)
           else headers_set_loop IsHTTPHeaderName allowHostRewrite dynamicHeaders es m (hv_Value entry) hrh)
      else if length (IsHTTPHeaderName key) \<noteq> 0
      then Err (''invalid set header '' @ go_quote key @ '': '' @ go_list (IsHTTPHeaderName key))
      else headers_set_loop IsHTTPHeaderName allowHostRewrite dynamicHeaders es
             (put key (escapeHeaderValue (hv_Value entry) dynamicHeaders) m) hr hrh)"

fun headers_remove_loop :: "(string \<Rightarrow> string list) \<Rightarrow> string list \<Rightarrow> string list \<Rightarrow> string list result" where
  "headers_remove_loop IsHTTPHeaderName [] remove = Ok remove"
| "headers_remove_loop IsHTTPHeaderName (entry # es) remove =
     (let key = CanonicalHeaderKey entry in
      if key \<in> set remove then Err (''duplicate header removal: '' @ go_quote key)
      else if length (IsHTTPHeaderName key) \<noteq> 0
      then Err (''invalid remove header '' @ go_quote key @ '': '' @ go_list (IsHTTPHeaderName key))
      else headers_remove_loop IsHTTPHeaderName es (key # remove))"

definition headersPolicyRoute ::
  "(string \<Rightarrow> string list) \<Rightarrow> HeadersPolicy_v1 option \<Rightarrow> bool \<Rightarrow> (string, string) gomap \<Rightarrow> HeadersPolicy option result" where
  "headersPolicyRoute IsHTTPHeaderName policy allowHostRewrite dynamicHeaders =
     (case policy of
        None \<Rightarrow> Ok None
      | Some policy \<Rightarrow>
          (case headers_set_loop IsHTTPHeaderName allowHostRewrite dynamicHeaders (hp1_Set policy) [] '''' '''' of
             Inl err \<Rightarrow> Err err
           | Inr (m, hostRewrite, hostRewriteHeader) \<Rightarrow>
               (case headers_remove_loop IsHTTPHeaderName (hp1_Remove policy) [] of
                  Inl err \<Rightarrow> Err err
                | Inr remove \<Rightarrow>
                    Ok (Some (zero_HeadersPolicy\<lparr>hp_Set := m, hp_HostRewrite := hostRewrite,
                          hp_HostRewriteHeader := hostRewriteHeader, hp_Remove := sort remove\<rparr>)))))"

fun service_set_loop ::
  "(string \<Rightarrow> string list) \<Rightarrow> bool \<Rightarrow> (string, string) gomap \<Rightarrow> (string, string) gomap \<Rightarrow> HeadersPolicy \<Rightarrow> HeadersPolicy result" where
  "service_set_loop IsHTTPHeaderName allowHostRewrite dynamicHeaders [] userPolicy = Ok userPolicy"
| "service_set_loop IsHTTPHeaderName allowHostRewrite dynamicHeaders ((k, v) # kvs) userPolicy =
     (let key = CanonicalHeaderKey k in
      if key = ''Host'' then
        (if \<not> allowHostRewrite then Err (''rewriting '' @ go_quote key @ '' header is not supported'')
         else if length (hp_HostRewrite userPolicy) = 0 then
           (if extractHostRewriteHeaderValue v \<noteq> ''''
            then Err (''rewriting '' @ go_quote key @ '' host header with dynamic value is not supported on service'')
            else service_set_loop IsHTTPHeaderName allowHostRewrite dynamicHeaders kvs (userPolicy\<lparr>hp_HostRewrite := v\<rparr>))
         else service_set_loop IsHTTPHeaderName allowHostRewrite dynamicHeaders kvs userPolicy)
      else if length (IsHTTPHeaderName key) \<noteq> 0
      then Err (''invalid set header '' @ go_quote key @ '': '' @ go_list (IsHTTPHeaderName key))
      else service_set_loop IsHTTPHeaderName allowHostRewrite dynamicHeaders kvs
             (if lookup (hp_Set userPolicy) key = None
              then userPolicy\<lparr>hp_Set := put key (escapeHeaderValue v dynamicHeaders) (hp_Set userPolicy)\<rparr>
              else userPolicy))"

fun service_remove_loop :: "(string \<Rightarrow> string list) \<Rightarrow> string list \<Rightarrow> string list \<Rightarrow> HeadersPolicy \<Rightarrow> HeadersPolicy result" where
  "service_remove_loop IsHTTPHeaderName remove [] userPolicy = Ok userPolicy"
| "service_remove_loop IsHTTPHeaderName remove (entry # es) userPolicy =
     (let key = CanonicalHeaderKey entry in
      if length (IsHTTPHeaderName key) \<noteq> 0
      then Err (''invalid set header '' @ go_quote key @ '': '' @ go_list (IsHTTPHeaderName key))
      else service_remove_loop IsHTTPHeaderName remove es
             (if key \<notin> set remove then userPolicy\<lparr>hp_Remove := hp_Remove userPolicy @ [key]\<rparr> else userPolicy))"

definition headersPolicyService ::
  "(string \<Rightarrow> string list) \<Rightarrow> HeadersPolicy option \<Rightarrow> HeadersPolicy_v1 option \<Rightarrow> bool \<Rightarrow> (string, string) gomap
     \<Rightarrow> HeadersPolicy option result" where
  "headersPolicyService IsHTTPHeaderName defaultPolicy policy allowHostRewrite dynamicHeaders =
     (case defaultPolicy of
        None \<Rightarrow> headersPolicyRoute IsHTTPHeaderName policy allowHostRewrite dynamicHeaders
      | Some defaultPolicy \<Rightarrow>
          (case headersPolicyRoute IsHTTPHeaderName policy allowHostRewrite dynamicHeaders of
             Inl err \<Rightarrow> Err err
           | Inr up \<Rightarrow>
               let userPolicy = (case up of None \<Rightarrow> zero_HeadersPolicy | Some p \<Rightarrow> p) in
               (case service_set_loop IsHTTPHeaderName allowHostRewrite dynamicHeaders (hp_Set defaultPolicy) userPolicy of
                  Inl err \<Rightarrow> Err err
                | Inr userPolicy \<Rightarrow>
                    (case service_remove_loop IsHTTPHeaderName (hp_Remove userPolicy) (hp_Remove defaultPolicy) userPolicy of
                       Inl err \<Rightarrow> Err err
                     | Inr userPolicy \<Rightarrow> Ok (Some userPolicy)))))"

text \<open>\<open>headersPolicyGatewayAPI\<close> collects its errors instead of stopping; the policy is returned with them.
  \<open>HTTPHeaderFilter\<close> is the Gateway API type.\<close>

record HTTPHeaderFilter =
  hf_Set :: "HeaderValue list"
  hf_Add :: "HeaderValue list"
  hf_Remove :: "string list"

fun addOrSetHeader ::
  "(string \<Rightarrow> string list) \<Rightarrow> string \<Rightarrow> string \<Rightarrow> HeaderValue list \<Rightarrow> (string, string) gomap \<Rightarrow> string \<Rightarrow> string list
     \<Rightarrow> (string, string) gomap \<times> string \<times> string list" where
  "addOrSetHeader IsHTTPHeaderName headerPolicyType op [] m hostRewrite errlist = (m, hostRewrite, errlist)"
| "addOrSetHeader IsHTTPHeaderName headerPolicyType op (header # hs) m hostRewrite errlist =
     (let key = CanonicalHeaderKey (hv_Name header) in
      if lookup m key \<noteq> None then
        addOrSetHeader IsHTTPHeaderName headerPolicyType op hs m hostRewrite
          (errlist @ [''duplicate header addition: '' @ go_quote key])
      else if key = ''Host'' \<and> headerPolicyType = ''RequestHeaderModifier'' then
        addOrSetHeader IsHTTPHeaderName headerPolicyType op hs m (hv_Value header) errlist
      else if length (IsHTTPHeaderName key) \<noteq> 0 then
        addOrSetHeader IsHTTPHeaderName headerPolicyType op hs m hostRewrite
          (errlist @ [''invalid '' @ op @ '' header '' @ go_quote key @ '': '' @ go_list (IsHTTPHeaderName key)])
      else addOrSetHeader IsHTTPHeaderName headerPolicyType op hs (put key (escapeHeaderValue (hv_Value header) []) m)
             hostRewrite errlist)"

fun gateway_remove_loop :: "(string \<Rightarrow> string list) \<Rightarrow> string list \<Rightarrow> string list \<Rightarrow> string list \<Rightarrow> string list \<times> string list" where
  "gateway_remove_loop IsHTTPHeaderName [] remove errlist = (remove, errlist)"
| "gateway_remove_loop IsHTTPHeaderName (k # ks) remove errlist =
     (let key = CanonicalHeaderKey k in
      if key \<in> set remove then
        gateway_remove_loop IsHTTPHeaderName ks remove (errlist @ [''duplicate header removal: '' @ go_quote key])
      else if length (IsHTTPHeaderName key) \<noteq> 0 then
        gateway_remove_loop IsHTTPHeaderName ks remove
          (errlist @ [''invalid remove header '' @ go_quote key @ '': '' @ go_list (IsHTTPHeaderName key)])
      else gateway_remove_loop IsHTTPHeaderName ks (key # remove) errlist)"

definition headersPolicyGatewayAPI ::
  "(string \<Rightarrow> string list) \<Rightarrow> HTTPHeaderFilter \<Rightarrow> string \<Rightarrow> HeadersPolicy \<times> string list" where
  "headersPolicyGatewayAPI IsHTTPHeaderName hf headerPolicyType =
     (let (set', hostRewrite, errlist) = addOrSetHeader IsHTTPHeaderName headerPolicyType ''set'' (hf_Set hf) [] '''' [];
          (add, hostRewrite, errlist) =
            addOrSetHeader IsHTTPHeaderName headerPolicyType ''add'' (hf_Add hf) [] hostRewrite errlist;
          (remove, errlist) = gateway_remove_loop IsHTTPHeaderName (hf_Remove hf) [] errlist
      in (zero_HeadersPolicy\<lparr>hp_Add := add, hp_Set := set', hp_HostRewrite := hostRewrite, hp_Remove := sort remove\<rparr>,
          errlist))"

section \<open>Cookies, retries, timeouts and health checks\<close>

fun cookie_loop :: "CookieRewritePolicy_v1 list \<Rightarrow> string list \<Rightarrow> CookieRewritePolicy list \<Rightarrow> CookieRewritePolicy list result" where
  "cookie_loop [] cookieNames validPolicies = Ok validPolicies"
| "cookie_loop (p # ps) cookieNames validPolicies =
     (if crp1_Name p \<in> set cookieNames then Err (''duplicate cookie rewrite rule for cookie '' @ go_quote (crp1_Name p))
      else let policiesSet = (if crp1_PathRewrite p \<noteq> None then 1 else 0) + (if crp1_DomainRewrite p \<noteq> None then 1 else 0)
                 + (if crp1_Secure p \<noteq> None then 1 else 0) + (if crp1_SameSite p \<noteq> None then 1 else (0::nat));
               secure = (case crp1_Secure p of None \<Rightarrow> 0 | Some b \<Rightarrow> if b then 2 else 1)
        in if policiesSet = 0 then Err (''no attributes rewritten for cookie '' @ go_quote (crp1_Name p))
           else cookie_loop ps (crp1_Name p # cookieNames)
                  (validPolicies @ [\<lparr>crp_Name = crp1_Name p, crp_Path = crp1_PathRewrite p, crp_Domain = crp1_DomainRewrite p,
                                     crp_Secure = secure, crp_SameSite = crp1_SameSite p\<rparr>]))"

definition cookieRewritePolicies :: "CookieRewritePolicy_v1 list \<Rightarrow> CookieRewritePolicy list result" where
  "cookieRewritePolicies policies = cookie_loop policies [] []"

definition retryOn :: "string list \<Rightarrow> string" where
  "retryOn ron = (if length ron = 0 then ''5xx'' else strings_Join ron '','')"

definition retryPolicy :: "(string \<Rightarrow> duration result) \<Rightarrow> RetryPolicy_v1 option \<Rightarrow> RetryPolicy option" where
  "retryPolicy ParseDuration rp =
     (case rp of
        None \<Rightarrow> None
      | Some rp \<Rightarrow>
          let perTryTimeout = (case ParseDuration (rp1_PerTryTimeout rp) of
                                 Inr perTryDuration \<Rightarrow> DurationSetting perTryDuration | Inl _ \<Rightarrow> DefaultSetting);
              numRetries = (if rp1_NumRetries rp = -1 then 0
                            else if rp1_NumRetries rp = 1 \<or> rp1_NumRetries rp = 0 then 1 else rp1_NumRetries rp)
          in Some \<lparr>rp_RetryOn = retryOn (rp1_RetryOn rp), rp_RetriableStatusCodes = rp1_RetriableStatusCodes rp,
                   rp_NumRetries = to_uint32 numRetries, rp_PerTryTimeout = perTryTimeout\<rparr>)"

definition timeoutPolicy ::
  "(string \<Rightarrow> duration result) \<Rightarrow> TimeoutPolicy option \<Rightarrow> duration \<Rightarrow> (RouteTimeoutPolicy \<times> ClusterTimeoutPolicy) result" where
  "timeoutPolicy ParseDuration tp connectTimeout =
     (case tp of
        None \<Rightarrow> Ok (\<lparr>rto_ResponseTimeout = DefaultSetting, rto_IdleStreamTimeout = DefaultSetting\<rparr>,
                    \<lparr>cto_IdleConnectionTimeout = DefaultSetting, cto_ConnectTimeout = connectTimeout\<rparr>)
      | Some tp \<Rightarrow>
          (case timeout_Parse ParseDuration (tp_Response tp) of
             Inl err \<Rightarrow> Err (''error parsing response timeout: '' @ err)
           | Inr responseTimeout \<Rightarrow>
               (case timeout_Parse ParseDuration (tp_Idle tp) of
                  Inl err \<Rightarrow> Err (''error parsing idle timeout: '' @ err)
                | Inr idleStreamTimeout \<Rightarrow>
                    (case timeout_Parse ParseDuration (tp_IdleConnection tp) of
                       Inl err \<Rightarrow> Err (''error parsing idle connection timeout: '' @ err)
                     | Inr idleConnectionTimeout \<Rightarrow>
                         Ok (\<lparr>rto_ResponseTimeout = responseTimeout, rto_IdleStreamTimeout = idleStreamTimeout\<rparr>,
                             \<lparr>cto_IdleConnectionTimeout = idleConnectionTimeout, cto_ConnectTimeout = connectTimeout\<rparr>)))))"

text \<open>The policies an Ingress sets through annotations; parse errors are logged and the default is used.\<close>

definition ingressRetryPolicy :: "(string \<Rightarrow> duration result) \<Rightarrow> Ingress \<Rightarrow> RetryPolicy option" where
  "ingressRetryPolicy ParseDuration ingress =
     (let ron = ContourAnnotation (ing_Annotations ingress) ''retry-on'' in
      if length ron < 1 then None
      else let rp = zero_RetryPolicy\<lparr>rp_RetryOn := ron, rp_NumRetries := NumRetries ingress\<rparr> in
        case PerTryTimeout ParseDuration ingress of
          Inl err \<Rightarrow> Some rp
        | Inr perTryTimeout \<Rightarrow> Some (rp\<lparr>rp_PerTryTimeout := perTryTimeout\<rparr>))"

definition ingressTimeoutPolicy :: "(string \<Rightarrow> duration result) \<Rightarrow> Ingress \<Rightarrow> RouteTimeoutPolicy" where
  "ingressTimeoutPolicy ParseDuration ingress =
     (let response = ContourAnnotation (ing_Annotations ingress) ''response-timeout'';
          response = (if length response = 0 then ContourAnnotation (ing_Annotations ingress) ''request-timeout'' else response)
      in if length response = 0 then \<lparr>rto_ResponseTimeout = DefaultSetting, rto_IdleStreamTimeout = DefaultSetting\<rparr>
         else case timeoutPolicy ParseDuration (Some (zero_TimeoutPolicy\<lparr>tp_Response := response\<rparr>)) 0 of
           Inl err \<Rightarrow> zero_RouteTimeoutPolicy
         | Inr (tp, _) \<Rightarrow> tp)"

abbreviation time_Second :: duration where "time_Second \<equiv> 1000000000"

fun check_status_ranges :: "HTTPStatusRange list \<Rightarrow> HTTPStatusRange list \<Rightarrow> HTTPStatusRange list result" where
  "check_status_ranges [] expectedStatuses = Ok expectedStatuses"
| "check_status_ranges (statusRange # rs) expectedStatuses =
     (if hsr_Start statusRange < 100 \<or> hsr_Start statusRange > 599
      then Err ''invalid expected status range: start must be in the range [100, 599]''
      else if hsr_End statusRange < 101 \<or> hsr_End statusRange > 600
      then Err ''invalid expected status range: end must be in the range [101, 600]''
      else check_status_ranges rs
             (expectedStatuses @ [\<lparr>hsr_Start = hsr_Start statusRange, hsr_End = hsr_End statusRange\<rparr>]))"

definition httpHealthCheckPolicy :: "HTTPHealthCheckPolicy_v1 option \<Rightarrow> HTTPHealthCheckPolicy option result" where
  "httpHealthCheckPolicy hc =
     (case hc of
        None \<Rightarrow> Ok None
      | Some hc \<Rightarrow>
          (case check_status_ranges (hhc1_ExpectedStatuses hc) [] of
             Inl err \<Rightarrow> Err err
           | Inr expectedStatuses \<Rightarrow>
               Ok (Some \<lparr>hhc_Path = hhc1_Path hc, hhc_Host = hhc1_Host hc,
                  hhc_Interval = wrap_int64 (hhc1_IntervalSeconds hc * time_Second),
                  hhc_Timeout = wrap_int64 (hhc1_TimeoutSeconds hc * time_Second),
                  hhc_UnhealthyThreshold = to_uint32 (hhc1_UnhealthyThresholdCount hc),
                  hhc_HealthyThreshold = to_uint32 (hhc1_HealthyThresholdCount hc),
                  hhc_ExpectedStatuses = expectedStatuses\<rparr>)))"

definition tcpHealthCheckPolicy :: "TCPHealthCheckPolicy_v1 option \<Rightarrow> TCPHealthCheckPolicy option" where
  "tcpHealthCheckPolicy hc =
     (case hc of
        None \<Rightarrow> None
      | Some hc \<Rightarrow> Some \<lparr>thc_Interval = wrap_int64 (thc1_IntervalSeconds hc * time_Second),
          thc_Timeout = wrap_int64 (thc1_TimeoutSeconds hc * time_Second),
          thc_UnhealthyThreshold = thc1_UnhealthyThresholdCount hc, thc_HealthyThreshold = thc1_HealthyThresholdCount hc\<rparr>)"

fun prefixReplacementsAreValid_loop :: "ReplacePrefix list \<Rightarrow> string list \<Rightarrow> (string \<times> string) option" where
  "prefixReplacementsAreValid_loop [] seen = None"
| "prefixReplacementsAreValid_loop (r # rs) seen =
     (if rpx_Prefix r \<in> set seen then
        (if length (rpx_Prefix r) > 0
         then Some (''DuplicateReplacement'', ''duplicate replacement prefix '' @ [CHR 0x27] @ rpx_Prefix r @ [CHR 0x27])
         else Some (''AmbiguousReplacement'', ''ambiguous prefix replacement''))
      else prefixReplacementsAreValid_loop rs (rpx_Prefix r # seen))"

definition prefixReplacementsAreValid :: "ReplacePrefix list \<Rightarrow> (string \<times> string) option" where
  "prefixReplacementsAreValid replacements = prefixReplacementsAreValid_loop replacements []"

section \<open>Load balancing\<close>

abbreviation LoadBalancerPolicyWeightedLeastRequest :: string where "LoadBalancerPolicyWeightedLeastRequest \<equiv> ''WeightedLeastRequest''"
abbreviation LoadBalancerPolicyRandom :: string where "LoadBalancerPolicyRandom \<equiv> ''Random''"
abbreviation LoadBalancerPolicyRoundRobin :: string where "LoadBalancerPolicyRoundRobin \<equiv> ''RoundRobin''"
abbreviation LoadBalancerPolicyCookie :: string where "LoadBalancerPolicyCookie \<equiv> ''Cookie''"
abbreviation LoadBalancerPolicyRequestHash :: string where "LoadBalancerPolicyRequestHash \<equiv> ''RequestHash''"

definition loadBalancerPolicy :: "LoadBalancerPolicy option \<Rightarrow> string" where
  "loadBalancerPolicy lbp =
     (case lbp of
        None \<Rightarrow> ''''
      | Some lbp \<Rightarrow>
          if lbp_Strategy lbp \<in> {LoadBalancerPolicyWeightedLeastRequest, LoadBalancerPolicyRandom, LoadBalancerPolicyCookie,
                                 LoadBalancerPolicyRequestHash}
          then lbp_Strategy lbp else '''')"

text \<open>The state of the loop over the hash policies: what is built, the source IP flag, the header names and
  the parameter names used so far, and the condition warnings are added to.\<close>

record hash_state =
  hs_rhps :: "RequestHashPolicy list"
  hs_hashSourceIPSet :: bool
  hs_headers :: "string list"
  hs_queryParameters :: "string list"
  hs_validCond :: DetailedCondition

definition hash_warning :: "string \<Rightarrow> hash_state \<Rightarrow> hash_state" where
  "hash_warning msg st = st\<lparr>hs_validCond := AddWarning ConditionTypeSpecError ''IgnoredField'' msg (hs_validCond st)\<rparr>"

definition attrCounter :: "RequestHashPolicy_v1 \<Rightarrow> nat" where
  "attrCounter hashPolicy = (if rhp1_HashSourceIP hashPolicy then 1 else 0) + (if rhp1_HeaderHashOptions hashPolicy \<noteq> None then 1 else 0)
     + (if rhp1_QueryParameterHashOptions hashPolicy \<noteq> None then 1 else 0)"

text \<open>One iteration.  Exactly one attribute is set past the first check, so the three blocks exclude each
  other.\<close>

definition hash_step :: "(string \<Rightarrow> string list) \<Rightarrow> RequestHashPolicy_v1 \<Rightarrow> hash_state \<Rightarrow> hash_state" where
  "hash_step IsHTTPHeaderName hashPolicy st =
     (let rhp = zero_RequestHashPolicy\<lparr>rhp_Terminal := rhp1_Terminal hashPolicy\<rparr> in
      if attrCounter hashPolicy \<noteq> 1 then
        hash_warning ''ignoring invalid request hash policy, must set exactly one of hashSourceIP or headerHashOptions or queryParameterHashOptions'' st
      else if rhp1_HashSourceIP hashPolicy then
        (if hs_hashSourceIPSet st then
           hash_warning ''ignoring invalid request hash policy, hashSourceIP specified multiple times'' st
         else st\<lparr>hs_rhps := hs_rhps st @ [rhp\<lparr>rhp_HashSourceIP := True\<rparr>], hs_hashSourceIPSet := True\<rparr>)
      else case rhp1_HeaderHashOptions hashPolicy of
        Some hn \<Rightarrow>
          (let headerName = CanonicalHeaderKey hn; msgs = IsHTTPHeaderName headerName in
           if length msgs \<noteq> 0 then
             hash_warning (''ignoring invalid header hash policy options with invalid header name '' @ go_quote headerName
               @ '': '' @ go_list msgs) st
           else if headerName \<in> set (hs_headers st) then
             hash_warning (''ignoring invalid header hash policy options with duplicated header name '' @ headerName) st
           else st\<lparr>hs_rhps := hs_rhps st @ [rhp\<lparr>rhp_HeaderHashOptions := Some headerName\<rparr>],
                   hs_headers := headerName # hs_headers st\<rparr>)
      | None \<Rightarrow>
          (case rhp1_QueryParameterHashOptions hashPolicy of
             Some pn \<Rightarrow>
               (let queryParameter = strings_ToLower pn in
                if queryParameter = '''' then
                  hash_warning ''ignoring invalid query parameter hash policy options with an invalid empty query parameter name'' st
                else if queryParameter \<in> set (hs_queryParameters st) then
                  hash_warning (''ignoring invalid query parameter hash policy options with duplicated query parameter name ''
                    @ queryParameter) st
                else st\<lparr>hs_rhps := hs_rhps st @ [rhp\<lparr>rhp_QueryParameterHashOptions := Some queryParameter\<rparr>],
                        hs_queryParameters := queryParameter # hs_queryParameters st\<rparr>)
           | None \<Rightarrow> st))"

definition loadBalancerRequestHashPolicies ::
  "(string \<Rightarrow> string list) \<Rightarrow> LoadBalancerPolicy option \<Rightarrow> DetailedCondition \<Rightarrow> RequestHashPolicy list \<times> string \<times> DetailedCondition" where
  "loadBalancerRequestHashPolicies IsHTTPHeaderName lbp validCond =
     (case lbp of
        None \<Rightarrow> ([], '''', validCond)
      | Some p \<Rightarrow>
          let strategy = loadBalancerPolicy lbp in
          if strategy = LoadBalancerPolicyCookie then
            ([zero_RequestHashPolicy\<lparr>rhp_CookieHashOptions :=
                Some \<lparr>cho_CookieName = ''X-Contour-Session-Affinity'', cho_TTL = 0, cho_Path = ''/''\<rparr>\<rparr>],
             LoadBalancerPolicyCookie, validCond)
          else if strategy = LoadBalancerPolicyRequestHash then
            (let st = fold (hash_step IsHTTPHeaderName) (lbp_RequestHashPolicies p)
                        \<lparr>hs_rhps = [], hs_hashSourceIPSet = False, hs_headers = [], hs_queryParameters = [],
                         hs_validCond = validCond\<rparr>
             in if length (hs_rhps st) = 0 then
                  ([], LoadBalancerPolicyRoundRobin,
                   AddWarning ConditionTypeSpecError ''IgnoredField''
                     (''ignoring invalid request hash policy options, setting load balancer strategy to default ''
                        @ LoadBalancerPolicyRoundRobin) (hs_validCond st))
                else (hs_rhps st, strategy, hs_validCond st))
          else ([], strategy, validCond))"

section \<open>Rate limits and circuit breakers\<close>

abbreviation time_Minute :: duration where "time_Minute \<equiv> 60 * time_Second"
abbreviation time_Hour :: duration where "time_Hour \<equiv> 3600 * time_Second"

fun response_headers_loop ::
  "(string \<Rightarrow> string list) \<Rightarrow> HeaderValue list \<Rightarrow> (string, string) gomap \<Rightarrow> (string, string) gomap result" where
  "response_headers_loop IsHTTPHeaderName [] m = Ok m"
| "response_headers_loop IsHTTPHeaderName (header # hs) m =
     (let key = CanonicalHeaderKey (hv_Name header) in
      if lookup m key \<noteq> None then Err (''duplicate header addition: '' @ go_quote key)
      else if length (IsHTTPHeaderName key) \<noteq> 0
      then Err (''invalid header name '' @ go_quote key @ '': '' @ go_list (IsHTTPHeaderName key))
      else response_headers_loop IsHTTPHeaderName hs (put key (escapeHeaderValue (hv_Value header) []) m))"

definition fill_interval :: "string \<Rightarrow> duration option" where
  "fill_interval unit =
     (if unit = ''second'' then Some time_Second else if unit = ''minute'' then Some time_Minute
      else if unit = ''hour'' then Some time_Hour else None)"

definition localRateLimitPolicy ::
  "(string \<Rightarrow> string list) \<Rightarrow> LocalRateLimitPolicy_v1 option \<Rightarrow> LocalRateLimitPolicy option result" where
  "localRateLimitPolicy IsHTTPHeaderName in' =
     (case in' of
        None \<Rightarrow> Ok None
      | Some i \<Rightarrow>
          if lrl1_Requests i \<le> 0
          then Err (''invalid requests value '' @ strconv_Itoa (uint (lrl1_Requests i)) @ '' in local rate limit policy'')
          else case fill_interval (lrl1_Unit i) of
            None \<Rightarrow> Err (''invalid unit '' @ go_quote (lrl1_Unit i) @ '' in local rate limit policy'')
          | Some fillInterval \<Rightarrow>
              (case response_headers_loop IsHTTPHeaderName (lrl1_ResponseHeadersToAdd i) [] of
                 Inl err \<Rightarrow> Err err
               | Inr headers \<Rightarrow>
                   Ok (Some \<lparr>lrl_MaxTokens = lrl1_Requests i + lrl1_Burst i, lrl_TokensPerFill = lrl1_Requests i,
                      lrl_FillInterval = fillInterval, lrl_ResponseStatusCode = lrl1_ResponseStatusCode i,
                      lrl_ResponseHeadersToAdd = headers\<rparr>)))"

definition descriptor_entries :: "RateLimitDescriptorEntry_v1 \<Rightarrow> RateLimitDescriptorEntry list" where
  "descriptor_entries entry =
     (case rlde1_GenericKey entry of None \<Rightarrow> []
      | Some g \<Rightarrow> [zero_RateLimitDescriptorEntry\<lparr>rlde_GenericKey := Some \<lparr>gke_Key = gkd_Key g, gke_Value = gkd_Value g\<rparr>\<rparr>]) @
     (case rlde1_RequestHeader entry of None \<Rightarrow> []
      | Some h \<Rightarrow> [zero_RateLimitDescriptorEntry\<lparr>rlde_HeaderMatch :=
                     Some \<lparr>hme_HeaderName = rhd_HeaderName h, hme_Key = rhd_DescriptorKey h\<rparr>\<rparr>]) @
     (case rlde1_RequestHeaderValueMatch entry of None \<Rightarrow> []
      | Some v \<Rightarrow> [zero_RateLimitDescriptorEntry\<lparr>rlde_HeaderValueMatch :=
                     Some \<lparr>hvme_Headers = headerMatchConditions (rhvm_Headers v), hvme_ExpectMatch = rhvm_ExpectMatch v,
                           hvme_Value = rhvm_Value v\<rparr>\<rparr>]) @
     (case rlde1_RemoteAddress entry of None \<Rightarrow> []
      | Some _ \<Rightarrow> [zero_RateLimitDescriptorEntry\<lparr>rlde_RemoteAddress := Some ()\<rparr>])"

fun entries_loop :: "RateLimitDescriptorEntry_v1 list \<Rightarrow> RateLimitDescriptorEntry list \<Rightarrow> RateLimitDescriptorEntry list result" where
  "entries_loop [] rld = Ok rld"
| "entries_loop (entry # es) rld =
     (if length (descriptor_entries entry) \<noteq> 1
      then Err ''rate limit descriptor entry must have exactly one field set''
      else entries_loop es (rld @ descriptor_entries entry))"

fun descriptors_loop ::
  "RateLimitDescriptorEntry_v1 list list \<Rightarrow> RateLimitDescriptorEntry list list \<Rightarrow> RateLimitDescriptorEntry list list result" where
  "descriptors_loop [] res = Ok res"
| "descriptors_loop (d # ds) res =
     (case entries_loop d [] of Inl err \<Rightarrow> Err err | Inr rld \<Rightarrow> descriptors_loop ds (res @ [rld]))"

definition globalRateLimitPolicy :: "GlobalRateLimitPolicy_v1 option \<Rightarrow> GlobalRateLimitPolicy option result" where
  "globalRateLimitPolicy in' =
     (case in' of
        None \<Rightarrow> Ok None
      | Some i \<Rightarrow>
          if grl1_Disabled i then Ok None
          else case descriptors_loop (grl1_Descriptors i) [] of
            Inl err \<Rightarrow> Err err
          | Inr ds \<Rightarrow> Ok (Some \<lparr>grl_Descriptors = ds\<rparr>))"

definition rateLimitPolicy ::
  "(string \<Rightarrow> string list) \<Rightarrow> RateLimitPolicy_v1 option \<Rightarrow> RateLimitPolicy option result" where
  "rateLimitPolicy IsHTTPHeaderName in' =
     (case in' of
        None \<Rightarrow> Ok None
      | Some i \<Rightarrow>
          if rl1_Local i = None \<and> (case rl1_Global i of None \<Rightarrow> True | Some g \<Rightarrow> length (grl1_Descriptors g) = 0) then Ok None
          else case localRateLimitPolicy IsHTTPHeaderName (rl1_Local i) of
            Inl err \<Rightarrow> Err err
          | Inr l \<Rightarrow>
              (case globalRateLimitPolicy (rl1_Global i) of
                 Inl err \<Rightarrow> Err err
               | Inr g \<Rightarrow> Ok (Some \<lparr>rl_Local = l, rl_Global = g\<rparr>)))"

text \<open>The global circuit breaker defaults fill the limits that are zero on the service.\<close>

definition fill_limit ::
  "(CircuitBreakers \<Rightarrow> uint32) \<Rightarrow> ((uint32 \<Rightarrow> uint32) \<Rightarrow> CircuitBreakers \<Rightarrow> CircuitBreakers) \<Rightarrow> CircuitBreakers option
     \<Rightarrow> CircuitBreakers \<Rightarrow> CircuitBreakers" where
  "fill_limit sel upd cb c = (case cb of Some cb \<Rightarrow> if sel c = 0 then upd (\<lambda>_. sel cb) c else c | None \<Rightarrow> c)"

definition serviceCircuitBreakerPolicy :: "Service option \<Rightarrow> CircuitBreakers option \<Rightarrow> Service option" where
  "serviceCircuitBreakerPolicy s cb =
     (case s of
        None \<Rightarrow> None
      | Some s \<Rightarrow>
          let c = sv_CircuitBreakers s;
              c = fill_limit cb_MaxConnections cb_MaxConnections_update cb c;
              c = fill_limit cb_MaxPendingRequests cb_MaxPendingRequests_update cb c;
              c = fill_limit cb_MaxRequests cb_MaxRequests_update cb c;
              c = fill_limit cb_MaxRetries cb_MaxRetries_update cb c;
              c = fill_limit cb_PerHostMaxConnections cb_PerHostMaxConnections_update cb c
          in Some (s\<lparr>sv_CircuitBreakers := c\<rparr>))"

section \<open>Canonical keys\<close>

lemma char_case_nat:
  "(of_char (char_lower c) :: nat) = (if is_upper c then of_char c + 32 else of_char c)"
  "(of_char (char_upper c) :: nat) = (if is_lower c then of_char c - 32 else of_char c)"
  by (auto simp: char_lower_def char_upper_def is_upper_def is_lower_def)

lemma char_eq_iff_nat: "c = d \<longleftrightarrow> (of_char c :: nat) = of_char d"
  by (metis char_of_char)

lemma char_case_idem [simp]:
  "char_upper (char_upper c) = char_upper c" "char_lower (char_lower c) = char_lower c"
  by (auto simp: char_eq_iff_nat char_case_nat is_upper_def is_lower_def)

lemma char_case_hyphen [simp]: "char_upper c = CHR ''-'' \<longleftrightarrow> c = CHR ''-''" "char_lower c = CHR ''-'' \<longleftrightarrow> c = CHR ''-''"
  by (auto simp: char_eq_iff_nat char_case_nat is_upper_def is_lower_def)

lemma canonical_from_idem: "canonical_from b (canonical_from b s) = canonical_from b s"
  by (induction b s rule: canonical_from.induct) auto

lemma char_case_class: "is_lower c \<Longrightarrow> is_upper (char_upper c)" "is_upper c \<Longrightarrow> is_lower (char_lower c)"
  "\<not> is_lower c \<Longrightarrow> char_upper c = c" "\<not> is_upper c \<Longrightarrow> char_lower c = c"
proof -
  show "is_lower c \<Longrightarrow> is_upper (char_upper c)" "is_upper c \<Longrightarrow> is_lower (char_lower c)"
    using char_case_nat [of c] by (auto simp: is_upper_def is_lower_def)
  show "\<not> is_lower c \<Longrightarrow> char_upper c = c" "\<not> is_upper c \<Longrightarrow> char_lower c = c"
    by (simp_all add: char_upper_def char_lower_def)
qed

lemma is_token_char_case: "is_token_char c \<Longrightarrow> is_token_char (char_upper c) \<and> is_token_char (char_lower c)"
  by (cases "is_lower c"; cases "is_upper c") (simp_all add: is_token_char_def char_case_class)

lemma canonical_from_token: "\<forall>c\<in>set s. is_token_char c \<Longrightarrow> \<forall>c\<in>set (canonical_from b s). is_token_char c"
  by (induction b s rule: canonical_from.induct) (auto simp: is_token_char_case)

lemma CanonicalHeaderKey_idem [simp]: "CanonicalHeaderKey (CanonicalHeaderKey s) = CanonicalHeaderKey s"
  using canonical_from_token [of s True] by (simp add: CanonicalHeaderKey_def canonical_from_idem)

section \<open>What the header policies contain\<close>

abbreviation entry_key :: "HeaderValue \<Rightarrow> string" where
  "entry_key e \<equiv> CanonicalHeaderKey (hv_Name e)"

abbreviation plain_entries :: "HeaderValue list \<Rightarrow> HeaderValue list" where
  "plain_entries es \<equiv> filter (\<lambda>e. entry_key e \<noteq> ''Host'') es"

lemma put_new: "lookup m k = None \<Longrightarrow> put k v m = m @ [(k, v)]"
  by (induction m) (auto split: if_splits)

lemma headers_set_loop_wf:
  "headers_set_loop V allow dyn es m hr hrh = Ok (m', hr', hrh') \<Longrightarrow> wf_gomap m \<Longrightarrow> wf_gomap m'"
  by (induction es arbitrary: m hr hrh) (auto simp: Let_def distinct_update split: if_splits)

lemma headers_set_loop_ok:
  assumes "headers_set_loop V allow dyn es m hr hrh = Ok (m', hr', hrh')"
  shows "m' = m @ map (\<lambda>e. (entry_key e, escapeHeaderValue (hv_Value e) dyn)) (plain_entries es) \<and>
     (\<forall>e\<in>set (plain_entries es). V (entry_key e) = []) \<and> (\<not> allow \<longrightarrow> plain_entries es = es \<and> hr' = hr \<and> hrh' = hrh)"
  using assms
proof (induction es arbitrary: m hr hrh)
  case (Cons e es)
  show ?case
  proof (cases "entry_key e = ''Host''")
    case True
    then show ?thesis using Cons by (auto simp: Let_def split: if_splits)
  next
    case False
    then have "V (entry_key e) = []"
      and rest: "headers_set_loop V allow dyn es (m @ [(entry_key e, escapeHeaderValue (hv_Value e) dyn)]) hr hrh = Ok (m', hr', hrh')"
      using Cons.prems by (auto simp: Let_def put_new split: if_splits)
    then show ?thesis using Cons.IH [OF rest] False by auto
  qed
qed simp

lemma headers_remove_loop_ok:
  "headers_remove_loop V es remove = Ok r \<Longrightarrow> distinct remove \<Longrightarrow>
   distinct r \<and> set r = CanonicalHeaderKey ` set es \<union> set remove \<and> (\<forall>e\<in>set es. V (CanonicalHeaderKey e) = [])"
  by (induction es arbitrary: remove) (auto simp: Let_def split: if_splits)

text \<open>
  A header policy that \<open>headersPolicyRoute\<close> accepts sets each header once, under its canonical and valid name,
  to the escaped value of its entry, and removes the canonical names of the entries of \<open>Remove\<close> in sorted
  order without repetition; \<open>Host\<close> is never among the headers it sets, and where the host may not be
  rewritten no entry is for \<open>Host\<close> and no rewrite results.
\<close>

theorem headersPolicyRoute_ok:
  assumes "headersPolicyRoute V (Some policy) allow dyn = Ok (Some hp)"
  shows "hp_Set hp = map (\<lambda>e. (entry_key e, escapeHeaderValue (hv_Value e) dyn)) (plain_entries (hp1_Set policy)) \<and>
         wf_gomap (hp_Set hp) \<and> sorted (hp_Remove hp) \<and> distinct (hp_Remove hp) \<and>
         set (hp_Remove hp) = CanonicalHeaderKey ` set (hp1_Remove policy) \<and>
         (\<forall>k\<in>fst ` set (hp_Set hp) \<union> set (hp_Remove hp). CanonicalHeaderKey k = k \<and> V k = []) \<and>
         (\<not> allow \<longrightarrow> plain_entries (hp1_Set policy) = hp1_Set policy \<and> hp_HostRewrite hp = '''' \<and> hp_HostRewriteHeader hp = '''')"
proof -
  obtain m hr hrh r where
    set: "headers_set_loop V allow dyn (hp1_Set policy) [] '''' '''' = Ok (m, hr, hrh)" and
    remove: "headers_remove_loop V (hp1_Remove policy) [] = Ok r" and
    hp: "hp = zero_HeadersPolicy\<lparr>hp_Set := m, hp_HostRewrite := hr, hp_HostRewriteHeader := hrh, hp_Remove := sort r\<rparr>"
    using assms by (auto simp: headersPolicyRoute_def split: sum.splits)
  show ?thesis
    using headers_set_loop_ok [OF set] headers_set_loop_wf [OF set] headers_remove_loop_ok [OF remove] hp by auto
qed

theorem headersPolicyRoute_ok_witness:
  "let policy = \<lparr>hp1_Set = [\<lparr>hv_Name = ''x-a'', hv_Value = ''1''\<rparr>], hp1_Remove = [''z'', ''b'']\<rparr>;
       hp = zero_HeadersPolicy\<lparr>hp_Set := [(''X-A'', ''1'')], hp_Remove := [''B'', ''Z'']\<rparr>
   in headersPolicyRoute (\<lambda>_. []) (Some policy) False [] = Ok (Some hp) \<and> sorted (hp_Remove hp)"
proof -
  let ?policy = "\<lparr>hp1_Set = [\<lparr>hv_Name = ''x-a'', hv_Value = ''1''\<rparr>], hp1_Remove = [''z'', ''b'']\<rparr>"
  let ?hp = "zero_HeadersPolicy\<lparr>hp_Set := [(''X-A'', ''1'')], hp_Remove := [''B'', ''Z'']\<rparr>"
  have "headersPolicyRoute (\<lambda>_. []) (Some ?policy) False [] = Ok (Some ?hp)" by code_simp
  then show ?thesis using headersPolicyRoute_ok [of "\<lambda>_. []" ?policy False "[]" ?hp] by (simp add: Let_def)
qed

text \<open>The loop over the defaults only fills what the user left open.\<close>

lemma service_set_loop_lookup:
  assumes "service_set_loop V allow dyn kvs up = Ok up'"
  shows "lookup (hp_Set up) k = Some v \<Longrightarrow> lookup (hp_Set up') k = Some v"
    and "lookup (hp_Set up) k = None \<Longrightarrow>
         lookup (hp_Set up') k = (case find (\<lambda>(d, w). CanonicalHeaderKey d = k \<and> k \<noteq> ''Host'') kvs of
           Some (d, w) \<Rightarrow> Some (escapeHeaderValue w dyn) | None \<Rightarrow> None)"
    and "hp_Remove up' = hp_Remove up"
proof -
  have "(lookup (hp_Set up) k = Some v \<longrightarrow> lookup (hp_Set up') k = Some v) \<and>
      (lookup (hp_Set up) k = None \<longrightarrow>
         lookup (hp_Set up') k = (case find (\<lambda>(d, w). CanonicalHeaderKey d = k \<and> k \<noteq> ''Host'') kvs of
           Some (d, w) \<Rightarrow> Some (escapeHeaderValue w dyn) | None \<Rightarrow> None)) \<and> hp_Remove up' = hp_Remove up" for v
    using assms
  proof (induction kvs arbitrary: up v)
    case (Cons kv kvs)
    obtain d w where kv: "kv = (d, w)" by (cases kv)
    show ?case
      using Cons.prems Cons.IH unfolding kv
      by (fastforce simp: Let_def lookup_put split: if_splits option.splits)
  qed simp
  then show "lookup (hp_Set up) k = Some v \<Longrightarrow> lookup (hp_Set up') k = Some v"
    "lookup (hp_Set up) k = None \<Longrightarrow>
         lookup (hp_Set up') k = (case find (\<lambda>(d, w). CanonicalHeaderKey d = k \<and> k \<noteq> ''Host'') kvs of
           Some (d, w) \<Rightarrow> Some (escapeHeaderValue w dyn) | None \<Rightarrow> None)"
    "hp_Remove up' = hp_Remove up" by blast+
qed

lemma service_remove_loop_ok:
  "service_remove_loop V remove es up = Ok up' \<Longrightarrow>
   hp_Set up' = hp_Set up \<and>
   hp_Remove up' = hp_Remove up @ filter (\<lambda>k. k \<notin> set remove) (map CanonicalHeaderKey es)"
  by (induction es arbitrary: up) (auto simp: Let_def split: if_splits)

text \<open>
  The defaults that the operator configures never override what the user sets on a service: in the merged
  policy a header has the user's value if the user set it, and the escaped default otherwise; the headers
  removed are the user's followed by the defaults that the user does not remove already.
\<close>

theorem headersPolicyService_user_wins:
  assumes "headersPolicyRoute V policy allow dyn = Ok up" and "user = (case up of None \<Rightarrow> zero_HeadersPolicy | Some p \<Rightarrow> p)"
    and "headersPolicyService V (Some dflt) policy allow dyn = Ok (Some merged)"
  shows "lookup (hp_Set merged) k =
           (case lookup (hp_Set user) k of
              Some v \<Rightarrow> Some v
            | None \<Rightarrow> map_option (\<lambda>(d, w). escapeHeaderValue w dyn)
                        (find (\<lambda>(d, w). CanonicalHeaderKey d = k \<and> k \<noteq> ''Host'') (hp_Set dflt))) \<and>
         hp_Remove merged = hp_Remove user @ filter (\<lambda>k. k \<notin> set (hp_Remove user)) (map CanonicalHeaderKey (hp_Remove dflt))"
proof -
  obtain u where set: "service_set_loop V allow dyn (hp_Set dflt) user = Ok u"
    and remove: "service_remove_loop V (hp_Remove u) (hp_Remove dflt) u = Ok merged"
    using assms by (auto simp: headersPolicyService_def Let_def split: sum.splits)
  have "lookup (hp_Set u) k = (case lookup (hp_Set user) k of Some v \<Rightarrow> Some v
      | None \<Rightarrow> map_option (\<lambda>(d, w). escapeHeaderValue w dyn)
          (find (\<lambda>(d, w). CanonicalHeaderKey d = k \<and> k \<noteq> ''Host'') (hp_Set dflt)))"
    using service_set_loop_lookup(1,2) [OF set, where k = k] by (auto split: option.splits)
  then show ?thesis
    using service_remove_loop_ok [OF remove] service_set_loop_lookup(3) [OF set] by simp
qed

theorem headersPolicyService_user_wins_witness:
  "let user = \<lparr>hp1_Set = [\<lparr>hv_Name = ''x-a'', hv_Value = ''user''\<rparr>], hp1_Remove = []\<rparr>;
       dflt = zero_HeadersPolicy\<lparr>hp_Set := [(''X-A'', ''default''), (''X-B'', ''default'')]\<rparr>;
       merged = zero_HeadersPolicy\<lparr>hp_Set := [(''X-A'', ''user''), (''X-B'', ''default'')]\<rparr>
   in headersPolicyService (\<lambda>_. []) (Some dflt) (Some user) False [] = Ok (Some merged)
    \<and> lookup (hp_Set merged) ''X-A'' = Some ''user''"
proof -
  let ?user = "\<lparr>hp1_Set = [\<lparr>hv_Name = ''x-a'', hv_Value = ''user''\<rparr>], hp1_Remove = []\<rparr>"
  let ?dflt = "zero_HeadersPolicy\<lparr>hp_Set := [(''X-A'', ''default''), (''X-B'', ''default'')]\<rparr>"
  let ?merged = "zero_HeadersPolicy\<lparr>hp_Set := [(''X-A'', ''user''), (''X-B'', ''default'')]\<rparr>"
  have "headersPolicyRoute (\<lambda>_. []) (Some ?user) False [] = Ok (Some (zero_HeadersPolicy\<lparr>hp_Set := [(''X-A'', ''user'')]\<rparr>))"
    by code_simp
  moreover have "headersPolicyService (\<lambda>_. []) (Some ?dflt) (Some ?user) False [] = Ok (Some ?merged)" by code_simp
  ultimately show ?thesis
    using headersPolicyService_user_wins [of "\<lambda>_. []" "Some ?user" False "[]" "Some (zero_HeadersPolicy\<lparr>hp_Set := [(''X-A'', ''user'')]\<rparr>)"
        "zero_HeadersPolicy\<lparr>hp_Set := [(''X-A'', ''user'')]\<rparr>" ?dflt ?merged "''X-A''"]
    by (simp add: Let_def)
qed

section \<open>Cookies, hash policies and rate limits\<close>

definition cookie_attributes :: "CookieRewritePolicy_v1 \<Rightarrow> bool" where
  "cookie_attributes p \<longleftrightarrow> crp1_PathRewrite p \<noteq> None \<or> crp1_DomainRewrite p \<noteq> None \<or> crp1_Secure p \<noteq> None \<or> crp1_SameSite p \<noteq> None"

definition cookie_rewrite :: "CookieRewritePolicy_v1 \<Rightarrow> CookieRewritePolicy" where
  "cookie_rewrite p = \<lparr>crp_Name = crp1_Name p, crp_Path = crp1_PathRewrite p, crp_Domain = crp1_DomainRewrite p,
     crp_Secure = (case crp1_Secure p of None \<Rightarrow> 0 | Some b \<Rightarrow> if b then 2 else 1), crp_SameSite = crp1_SameSite p\<rparr>"

lemma cookie_loop_ok:
  "cookie_loop ps names acc = Ok r \<longleftrightarrow>
     distinct (map crp1_Name ps) \<and> set (map crp1_Name ps) \<inter> set names = {} \<and> (\<forall>p\<in>set ps. cookie_attributes p) \<and>
     r = acc @ map cookie_rewrite ps"
  by (induction ps arbitrary: names acc) (auto simp: cookie_attributes_def cookie_rewrite_def Let_def)

text \<open>
  Cookie rewrite rules are accepted exactly when no cookie has two rules and every rule rewrites some
  attribute; then each rule is translated in order, with \<open>Secure\<close> 0 for unset, 1 for false and 2 for true.
\<close>

theorem cookieRewritePolicies_iff:
  "cookieRewritePolicies ps = Ok r \<longleftrightarrow>
     distinct (map crp1_Name ps) \<and> list_all cookie_attributes ps \<and> r = map cookie_rewrite ps"
  by (auto simp: cookieRewritePolicies_def cookie_loop_ok list_all_iff)

definition hash_attributes :: "RequestHashPolicy \<Rightarrow> nat" where
  "hash_attributes r = (if rhp_HashSourceIP r then 1 else 0) + (if rhp_HeaderHashOptions r \<noteq> None then 1 else 0)
     + (if rhp_QueryParameterHashOptions r \<noteq> None then 1 else 0)"

definition hash_inv :: "hash_state \<Rightarrow> bool" where
  "hash_inv st \<longleftrightarrow>
     (\<forall>r\<in>set (hs_rhps st). hash_attributes r = 1 \<and> rhp_CookieHashOptions r = None) \<and>
     length (filter rhp_HashSourceIP (hs_rhps st)) = (if hs_hashSourceIPSet st then 1 else 0) \<and>
     List.map_filter rhp_HeaderHashOptions (hs_rhps st) = rev (hs_headers st) \<and> distinct (hs_headers st) \<and>
     List.map_filter rhp_QueryParameterHashOptions (hs_rhps st) = rev (hs_queryParameters st) \<and> distinct (hs_queryParameters st)"

text \<open>An iteration ends in one of four ways: with a warning, or with a policy of one of the three kinds.\<close>

lemma hash_step_cases:
  obtains (warn) msg where "hash_step V p st = hash_warning msg st"
  | (ip) "\<not> hs_hashSourceIPSet st"
      "hash_step V p st = st\<lparr>hs_rhps := hs_rhps st @ [zero_RequestHashPolicy\<lparr>rhp_Terminal := rhp1_Terminal p, rhp_HashSourceIP := True\<rparr>],
         hs_hashSourceIPSet := True\<rparr>"
  | (header) h where "h \<notin> set (hs_headers st)"
      "hash_step V p st = st\<lparr>hs_rhps := hs_rhps st @ [zero_RequestHashPolicy\<lparr>rhp_Terminal := rhp1_Terminal p, rhp_HeaderHashOptions := Some h\<rparr>],
         hs_headers := h # hs_headers st\<rparr>"
  | (query) q where "q \<notin> set (hs_queryParameters st)"
      "hash_step V p st = st\<lparr>hs_rhps := hs_rhps st @ [zero_RequestHashPolicy\<lparr>rhp_Terminal := rhp1_Terminal p, rhp_QueryParameterHashOptions := Some q\<rparr>],
         hs_queryParameters := q # hs_queryParameters st\<rparr>"
proof (cases "attrCounter p \<noteq> 1")
  case True
  then show ?thesis using warn by (simp add: hash_step_def)
next
  case one: False
  consider "rhp1_HashSourceIP p" | h where "\<not> rhp1_HashSourceIP p" "rhp1_HeaderHashOptions p = Some h"
    | q where "\<not> rhp1_HashSourceIP p" "rhp1_HeaderHashOptions p = None" "rhp1_QueryParameterHashOptions p = Some q"
    using one by (auto simp: attrCounter_def split: if_splits)
  then show ?thesis
  proof cases
    case 1
    then show ?thesis using one warn ip by (cases "hs_hashSourceIPSet st") (simp_all add: hash_step_def)
  next
    case 2
    then show ?thesis
      using one warn header [of "CanonicalHeaderKey h"]
      by (cases "V (CanonicalHeaderKey h) = []"; cases "CanonicalHeaderKey h \<in> set (hs_headers st)")
         (simp_all add: hash_step_def Let_def)
  next
    case 3
    then show ?thesis
      using one warn query [of "strings_ToLower q"]
      by (cases "strings_ToLower q = ''''"; cases "strings_ToLower q \<in> set (hs_queryParameters st)")
         (simp_all add: hash_step_def Let_def)
  qed
qed

lemma map_filter_snoc:
  "List.map_filter f (xs @ [x]) = List.map_filter f xs @ (case f x of None \<Rightarrow> [] | Some y \<Rightarrow> [y])"
  by (induction xs) (auto simp: map_filter_Cons split: option.splits)

lemma hash_step_inv: "hash_inv st \<Longrightarrow> hash_inv (hash_step V p st)"
  by (cases rule: hash_step_cases [of V p st])
     (simp_all add: hash_inv_def hash_warning_def hash_attributes_def zero_RequestHashPolicy_def map_filter_snoc)

lemma hash_fold_inv: "hash_inv st \<Longrightarrow> hash_inv (fold (hash_step V) ps st)"
  by (induction ps arbitrary: st) (auto simp: hash_step_inv)

lemma hash_fold_count:
  "length (hs_rhps (fold (hash_step V) ps st)) + length (dc_Warnings (hs_validCond (fold (hash_step V) ps st))) =
     length ps + length (hs_rhps st) + length (dc_Warnings (hs_validCond st))"
proof (induction ps arbitrary: st)
  case (Cons p ps)
  have "length (hs_rhps (hash_step V p st)) + length (dc_Warnings (hs_validCond (hash_step V p st))) =
      Suc (length (hs_rhps st) + length (dc_Warnings (hs_validCond st)))"
    by (cases rule: hash_step_cases [of V p st]) (simp_all add: hash_warning_def AddWarning_def)
  then show ?case using Cons [of "hash_step V p st"] by simp
qed simp

lemma hash_fold_frame:
  "length (dc_Warnings (hs_validCond st)) \<le> length (dc_Warnings (hs_validCond (fold (hash_step V) ps st))) \<and>
   dc_Errors (hs_validCond (fold (hash_step V) ps st)) = dc_Errors (hs_validCond st) \<and>
   dc_Status (hs_validCond (fold (hash_step V) ps st)) = dc_Status (hs_validCond st)"
proof (induction ps arbitrary: st)
  case (Cons p ps)
  have "length (dc_Warnings (hs_validCond st)) \<le> length (dc_Warnings (hs_validCond (hash_step V p st))) \<and>
      dc_Errors (hs_validCond (hash_step V p st)) = dc_Errors (hs_validCond st) \<and>
      dc_Status (hs_validCond (hash_step V p st)) = dc_Status (hs_validCond st)"
    by (cases rule: hash_step_cases [of V p st]) (simp_all add: hash_warning_def AddWarning_def)
  then show ?case using Cons [of "hash_step V p st"] by simp
qed simp

text \<open>
  For the \<open>RequestHash\<close> strategy the policies handed to Envoy each hash on exactly one attribute, no header or
  query parameter is hashed on twice and the source address at most once; the strategy falls back to
  \<open>RoundRobin\<close> exactly when no policy is left; and every policy of the spec that is left out is reported by
  a warning, without making the proxy invalid.
\<close>

theorem loadBalancerRequestHashPolicies_ok:
  assumes "lbp_Strategy p = LoadBalancerPolicyRequestHash"
    and "loadBalancerRequestHashPolicies V (Some p) vc = (rhps, strategy, vc')"
  shows "(\<forall>r\<in>set rhps. hash_attributes r = 1) \<and> length (filter rhp_HashSourceIP rhps) \<le> 1 \<and>
         distinct (List.map_filter rhp_HeaderHashOptions rhps) \<and> distinct (List.map_filter rhp_QueryParameterHashOptions rhps) \<and>
         strategy = (if rhps = [] then LoadBalancerPolicyRoundRobin else LoadBalancerPolicyRequestHash) \<and>
         length (dc_Warnings vc') = length (dc_Warnings vc) + (length (lbp_RequestHashPolicies p) - length rhps) + (if rhps = [] then 1 else 0) \<and>
         length rhps \<le> length (lbp_RequestHashPolicies p) \<and> dc_Errors vc' = dc_Errors vc \<and> dc_Status vc' = dc_Status vc"
proof -
  let ?init = "\<lparr>hs_rhps = [], hs_hashSourceIPSet = False, hs_headers = [], hs_queryParameters = [], hs_validCond = vc\<rparr>"
  let ?st = "fold (hash_step V) (lbp_RequestHashPolicies p) ?init"
  have inv: "hash_inv ?st" by (rule hash_fold_inv) (simp add: hash_inv_def List.map_filter_def)
  have count: "length (hs_rhps ?st) + length (dc_Warnings (hs_validCond ?st)) = length (lbp_RequestHashPolicies p) + length (dc_Warnings vc)"
    using hash_fold_count [of V "lbp_RequestHashPolicies p" ?init] by simp
  have "rhps = hs_rhps ?st"
    and "strategy = (if rhps = [] then LoadBalancerPolicyRoundRobin else LoadBalancerPolicyRequestHash)"
    and "length (dc_Warnings vc') = length (dc_Warnings (hs_validCond ?st)) + (if rhps = [] then 1 else 0)"
    and "dc_Errors vc' = dc_Errors (hs_validCond ?st)" "dc_Status vc' = dc_Status (hs_validCond ?st)"
    using assms by (auto simp: loadBalancerRequestHashPolicies_def loadBalancerPolicy_def Let_def AddWarning_def split: if_splits)
  then show ?thesis
    using inv count hash_fold_frame [of ?init V "lbp_RequestHashPolicies p"] by (auto simp: hash_inv_def)
qed

theorem loadBalancerRequestHashPolicies_ok_witness:
  "let h = zero_RequestHashPolicy_v1\<lparr>rhp1_HeaderHashOptions := Some ''x-user''\<rparr>;
       p = \<lparr>lbp_Strategy = LoadBalancerPolicyRequestHash, lbp_RequestHashPolicies = [h, h]\<rparr>;
       vc = new_condition (ProxyAccessor 0 zero_HTTPProxy) ValidCondition;
       (rhps, strategy, vc') = loadBalancerRequestHashPolicies (\<lambda>_. []) (Some p) vc
   in strategy = LoadBalancerPolicyRequestHash \<and> length rhps = 1 \<and> length (dc_Warnings vc') = 1 \<and> dc_Errors vc' = []"
proof -
  let ?h = "zero_RequestHashPolicy_v1\<lparr>rhp1_HeaderHashOptions := Some ''x-user''\<rparr>"
  let ?p = "\<lparr>lbp_Strategy = LoadBalancerPolicyRequestHash, lbp_RequestHashPolicies = [?h, ?h]\<rparr>"
  let ?vc = "new_condition (ProxyAccessor 0 zero_HTTPProxy) ValidCondition"
  obtain rhps strategy vc' where r: "loadBalancerRequestHashPolicies (\<lambda>_. []) (Some ?p) ?vc = (rhps, strategy, vc')"
    by (rule prod_cases3)
  have "length (fst (loadBalancerRequestHashPolicies (\<lambda>_. []) (Some ?p) ?vc)) = 1"
    by (simp add: loadBalancerRequestHashPolicies_def loadBalancerPolicy_def hash_step_def attrCounter_def zero_v1_defs Let_def
        hash_warning_def)
  then have "length rhps = 1" by (simp add: r)
  moreover have "dc_Warnings ?vc = []" "dc_Errors ?vc = []" by (simp_all add: new_condition_def)
  ultimately show ?thesis
    using loadBalancerRequestHashPolicies_ok [OF _ r] by (auto simp: Let_def r)
qed

text \<open>One entry of a rate limit descriptor sets exactly one field.\<close>

lemma entries_loop_ok:
  "entries_loop es acc = Ok r \<longleftrightarrow>
     (\<forall>e\<in>set es. length (descriptor_entries e) = 1) \<and> r = acc @ concat (map descriptor_entries es)"
  by (induction es arbitrary: acc) auto

lemma entries_loop_err: "entries_loop es acc = Inl x \<Longrightarrow> \<exists>e\<in>set es. length (descriptor_entries e) \<noteq> 1"
  by (induction es arbitrary: acc) (auto split: if_splits)

lemma descriptors_loop_ok:
  "descriptors_loop ds acc = Ok r \<longleftrightarrow>
     (\<forall>d\<in>set ds. \<forall>e\<in>set d. length (descriptor_entries e) = 1) \<and> r = acc @ map (\<lambda>d. concat (map descriptor_entries d)) ds"
  by (induction ds arbitrary: acc) (auto simp: entries_loop_ok dest: entries_loop_err split: sum.splits)

lemma length_concat_ones: "\<forall>e\<in>set d. length (f e) = 1 \<Longrightarrow> length (concat (map f d)) = length d"
  by (induction d) auto

text \<open>
  A rate limit policy that is accepted has a local part only with at least one request per interval of a
  second, a minute or an hour, whose bucket refills by the requests of the spec and holds at least that many tokens
  when requests and burst together fit in 32 bits; its global part has the descriptors of the spec, entry by
  entry.
\<close>

theorem rateLimitPolicy_ok:
  assumes "rateLimitPolicy V (Some i) = Ok (Some r)"
  shows "(case rl1_Local i of
            None \<Rightarrow> rl_Local r = None
          | Some l \<Rightarrow> (\<exists>d. rl_Local r = Some d \<and> lrl_TokensPerFill d = lrl1_Requests l \<and> unat (lrl_TokensPerFill d) > 0 \<and>
              lrl_FillInterval d \<in> {time_Second, time_Minute, time_Hour} \<and>
              (unat (lrl1_Requests l) + unat (lrl1_Burst l) < 2 ^ 32 \<longrightarrow>
                 unat (lrl_MaxTokens d) = unat (lrl1_Requests l) + unat (lrl1_Burst l) \<and> lrl_MaxTokens d \<ge> lrl_TokensPerFill d))) \<and>
         (case rl1_Global i of
            None \<Rightarrow> rl_Global r = None
          | Some g \<Rightarrow> if grl1_Disabled g then rl_Global r = None
              else \<exists>d. rl_Global r = Some d \<and> map length (grl_Descriptors d) = map length (grl1_Descriptors g))"
proof -
  obtain l g where lg: "localRateLimitPolicy V (rl1_Local i) = Ok l" "globalRateLimitPolicy (rl1_Global i) = Ok g"
    "r = \<lparr>rl_Local = l, rl_Global = g\<rparr>"
    using assms by (auto simp: rateLimitPolicy_def split: sum.splits if_splits)
  have "case rl1_Local i of None \<Rightarrow> l = None
     | Some x \<Rightarrow> (\<exists>d. l = Some d \<and> lrl_TokensPerFill d = lrl1_Requests x \<and> lrl1_Requests x > 0 \<and>
         lrl_FillInterval d \<in> {time_Second, time_Minute, time_Hour} \<and> lrl_MaxTokens d = lrl1_Requests x + lrl1_Burst x)"
    using lg(1) by (auto simp: localRateLimitPolicy_def fill_interval_def word_gt_0 split: option.splits sum.splits if_splits)
  moreover have "unat (a + b) = unat a + unat b \<and> a \<le> a + b" if "unat a + unat b < 2 ^ 32" for a b :: uint32
    using that by (simp add: unat_add_lem [THEN iffD1] word_le_nat_alt)
  moreover have "case rl1_Global i of None \<Rightarrow> g = None
     | Some x \<Rightarrow> if grl1_Disabled x then g = None
         else \<exists>d. g = Some d \<and> map length (grl_Descriptors d) = map length (grl1_Descriptors x)"
    using lg(2) by (auto simp: globalRateLimitPolicy_def descriptors_loop_ok length_concat_ones split: option.splits sum.splits if_splits)
  ultimately show ?thesis
    using lg(3) by (auto simp: unat_gt_0 word_gt_0 split: option.splits)
qed

theorem rateLimitPolicy_ok_witness:
  "let l = zero_LocalRateLimitPolicy_v1\<lparr>lrl1_Requests := 100, lrl1_Unit := ''minute'', lrl1_Burst := 20\<rparr>;
       i = \<lparr>rl1_Local = Some l, rl1_Global = None\<rparr>
   in \<exists>r d. rateLimitPolicy (\<lambda>_. []) (Some i) = Ok (Some r) \<and> rl_Local r = Some d \<and> unat (lrl_MaxTokens d) = 120"
proof -
  let ?l = "zero_LocalRateLimitPolicy_v1\<lparr>lrl1_Requests := 100, lrl1_Unit := ''minute'', lrl1_Burst := 20\<rparr>"
  let ?i = "\<lparr>rl1_Local = Some ?l, rl1_Global = None\<rparr>"
  obtain r where "rateLimitPolicy (\<lambda>_. []) (Some ?i) = Ok (Some r)"
    by (simp add: rateLimitPolicy_def localRateLimitPolicy_def globalRateLimitPolicy_def fill_interval_def zero_v1_defs)
  then show ?thesis using rateLimitPolicy_ok [of "\<lambda>_. []" ?i r] by (auto simp: zero_v1_defs)
qed


lemma HTTPStatusRange_eta [simp]: "\<lparr>hsr_Start = hsr_Start r, hsr_End = hsr_End r\<rparr> = r"
  by simp

lemma check_status_ranges_ok:
  "check_status_ranges rs acc = Ok r \<Longrightarrow>
   r = acc @ rs \<and> (\<forall>r\<in>set rs. 100 \<le> hsr_Start r \<and> hsr_Start r \<le> 599 \<and> 101 \<le> hsr_End r \<and> hsr_End r \<le> 600)"
proof (induction rs arbitrary: acc)
  case (Cons x rs)
  then show ?case using Cons.IH [of "acc @ [x]"] by (auto split: if_splits)
qed simp

text \<open>Zero limits of the service are filled with the defaults, the others are kept.\<close>

lemma fill_limit_same:
  "cb_MaxConnections (fill_limit cb_MaxConnections cb_MaxConnections_update (Some cb) c) = (if cb_MaxConnections c = 0 then cb_MaxConnections cb else cb_MaxConnections c)"
  "cb_MaxPendingRequests (fill_limit cb_MaxPendingRequests cb_MaxPendingRequests_update (Some cb) c) = (if cb_MaxPendingRequests c = 0 then cb_MaxPendingRequests cb else cb_MaxPendingRequests c)"
  "cb_MaxRequests (fill_limit cb_MaxRequests cb_MaxRequests_update (Some cb) c) = (if cb_MaxRequests c = 0 then cb_MaxRequests cb else cb_MaxRequests c)"
  "cb_MaxRetries (fill_limit cb_MaxRetries cb_MaxRetries_update (Some cb) c) = (if cb_MaxRetries c = 0 then cb_MaxRetries cb else cb_MaxRetries c)"
  "cb_PerHostMaxConnections (fill_limit cb_PerHostMaxConnections cb_PerHostMaxConnections_update (Some cb) c) = (if cb_PerHostMaxConnections c = 0 then cb_PerHostMaxConnections cb else cb_PerHostMaxConnections c)"
  by (simp_all add: fill_limit_def)

lemma fill_limit_other:
  "(\<And>f d. sel' (upd f d) = sel' d) \<Longrightarrow> sel' (fill_limit sel upd cb c) = sel' c"
  by (simp add: fill_limit_def split: option.splits)

lemma serviceCircuitBreakerPolicy_limits:
  assumes "serviceCircuitBreakerPolicy (Some s) (Some cb) = Some s'"
    and "sel \<in> {cb_MaxConnections, cb_MaxPendingRequests, cb_MaxRequests, cb_MaxRetries, cb_PerHostMaxConnections}"
  shows "sel (sv_CircuitBreakers s') = (if sel (sv_CircuitBreakers s) = 0 then sel cb else sel (sv_CircuitBreakers s))"
  using assms by (auto simp: serviceCircuitBreakerPolicy_def fill_limit_same fill_limit_other Let_def)

end
