(* ===== verification/Kube_Cache.thy ===== *)
theory Kube_Cache
  imports Secrets Policy
begin

text \<open>
  \<open>internal/dag/cache.go\<close>: the Kubernetes objects Contour knows, what is inserted and removed, which changes trigger a
  rebuild of the DAG, and the lookups of services and secrets.  The types of the Gateway API are records
  of the fields the cache reads.  A nil dereference in the code is the value None of an operation
  (\<open>panic\<close>); a secret carries the validation results the lookups store in it.
\<close>

section \<open>Objects\<close>

record ConfigMap =
  cm_Name :: string
  cm_Namespace :: string
  cm_Data :: "(string, string) gomap"

record CoreNamespace =
  cns_Name :: string
  cns_Labels :: "(string, string) gomap"

record CertificateDelegation =
  cd_SecretName :: string
  cd_TargetNamespaces :: "string list"

record TLSCertificateDelegation =
  tcd_Name :: string
  tcd_Namespace :: string
  tcd_Delegations :: "CertificateDelegation list"

record ExtensionServiceTarget =
  est_Name :: string
  est_Port :: int
  est_Weight :: uint32

record ExtensionServiceSpec =
  ess_Services :: "ExtensionServiceTarget list"
  ess_UpstreamValidation :: "UpstreamValidation option"
  ess_Protocol :: "string option"
  ess_LoadBalancerPolicy :: "LoadBalancerPolicy option"
  ess_TimeoutPolicy :: "TimeoutPolicy option"
  ess_ProtocolVersion :: string
  ess_CircuitBreakerPolicy :: "CircuitBreakers option"

record ExtensionService =
  ext_Name :: string
  ext_Namespace :: string
  ext_Generation :: int
  ext_Spec :: ExtensionServiceSpec

record ObjectReference =
  or_Group :: "string option"
  or_Kind :: "string option"
  or_Namespace :: "string option"
  or_Name :: string

record GatewayClass =
  gwc_Name :: string
  gwc_ControllerName :: string

record GatewayListener =
  gwl_Name :: string
  gwl_Hostname :: "string option"
  gwl_Port :: int
  gwl_Protocol :: string
  gwl_CertificateRefs :: "ObjectReference list option"

record Gateway =
  gw_Name :: string
  gw_Namespace :: string
  gw_GatewayClassName :: string
  gw_Listeners :: "GatewayListener list"

text \<open>An HTTPRoute, TLSRoute, GRPCRoute or TCPRoute: its parents and the backends of its rules.\<close>

record GatewayRoute =
  gr_Name :: string
  gr_Namespace :: string
  gr_ParentRefs :: "ObjectReference list"
  gr_Rules :: "ObjectReference list list"

record ReferenceGrant =
  rg_Name :: string
  rg_Namespace :: string

record PolicyTargetReference =
  ptr_Group :: string
  ptr_Kind :: string
  ptr_Name :: string
  ptr_SectionName :: "string option"

record BackendTLSPolicy =
  btp_Name :: string
  btp_Namespace :: string
  btp_TargetRefs :: "PolicyTargetReference list"
  btp_CACertificateRefs :: "PolicyTargetReference list"

datatype KubeObject =
    SecretObj CoreSecret
  | ConfigMapObj ConfigMap
  | ServiceObj CoreService
  | NamespaceObj CoreNamespace
  | IngressObj Ingress
  | HTTPProxyObj HTTPProxy
  | TLSCertificateDelegationObj TLSCertificateDelegation
  | GatewayClassObj GatewayClass
  | GatewayObj Gateway
  | HTTPRouteObj GatewayRoute
  | TLSRouteObj GatewayRoute
  | GRPCRouteObj GatewayRoute
  | TCPRouteObj GatewayRoute
  | ReferenceGrantObj ReferenceGrant
  | BackendTLSPolicyObj BackendTLSPolicy
  | ExtensionServiceObj ExtensionService
  | DeletedFinalStateUnknown KubeObject
  | UnknownObj

record KubernetesCache =
  kc_RootNamespaces :: "string list"
  kc_IngressClassNames :: "string list"
  kc_ConfiguredGatewayToCache :: "NamespacedName option"
  kc_ConfiguredSecretRefs :: "NamespacedName list"
  kc_ingresses :: "(NamespacedName, Ingress) gomap"
  kc_httpproxies :: "(NamespacedName, HTTPProxy) gomap"
  kc_secrets :: "(NamespacedName, Secret) gomap"
  kc_configmapsecrets :: "(NamespacedName, Secret) gomap"
  kc_tlscertificatedelegations :: "(NamespacedName, TLSCertificateDelegation) gomap"
  kc_services :: "(NamespacedName, CoreService) gomap"
  kc_namespaces :: "(string, CoreNamespace) gomap"
  kc_gatewayclass :: "GatewayClass option"
  kc_gateway :: "Gateway option"
  kc_httproutes :: "(NamespacedName, GatewayRoute) gomap"
  kc_tlsroutes :: "(NamespacedName, GatewayRoute) gomap"
  kc_grpcroutes :: "(NamespacedName, GatewayRoute) gomap"
  kc_tcproutes :: "(NamespacedName, GatewayRoute) gomap"
  kc_referencegrants :: "(NamespacedName, ReferenceGrant) gomap"
  kc_backendtlspolicies :: "(NamespacedName, BackendTLSPolicy) gomap"
  kc_extensions :: "(NamespacedName, ExtensionService) gomap"

definition empty_cache :: KubernetesCache where
  "empty_cache = \<lparr>kc_RootNamespaces = [], kc_IngressClassNames = [], kc_ConfiguredGatewayToCache = None,
     kc_ConfiguredSecretRefs = [], kc_ingresses = [], kc_httpproxies = [], kc_secrets = [], kc_configmapsecrets = [],
     kc_tlscertificatedelegations = [], kc_services = [], kc_namespaces = [], kc_gatewayclass = None, kc_gateway = None,
     kc_httproutes = [], kc_tlsroutes = [], kc_grpcroutes = [], kc_tcproutes = [], kc_referencegrants = [],
     kc_backendtlspolicies = [], kc_extensions = []\<rparr>"

section \<open>What triggers a rebuild\<close>

text \<open>The loops over the backends of an Ingress read \<open>backend.Service.Name\<close>: None when the backend is not a
  service.\<close>

fun any_backend :: "string \<Rightarrow> IngressBackend list \<Rightarrow> bool option" where
  "any_backend name [] = Some False"
| "any_backend name (b # bs) =
     (case ib_Service b of
        None \<Rightarrow> None
      | Some s \<Rightarrow> if isb_Name s = name then Some True else any_backend name bs)"

definition ingress_backends :: "Ingress \<Rightarrow> IngressBackend list" where
  "ingress_backends ingress =
     (case ing_DefaultBackend ingress of Some b \<Rightarrow> [b] | None \<Rightarrow> []) @
     concat (map (\<lambda>rule. case irl_HTTP rule of None \<Rightarrow> [] | Some paths \<Rightarrow> map hip_Backend paths) (ing_Rules ingress))"

fun any_ingress :: "CoreService \<Rightarrow> Ingress list \<Rightarrow> bool option" where
  "any_ingress service [] = Some False"
| "any_ingress service (ingress # is) =
     (if ing_Namespace ingress \<noteq> csv_Namespace service then any_ingress service is
      else case any_backend (csv_Name service) (ingress_backends ingress) of
        None \<Rightarrow> None
      | Some True \<Rightarrow> Some True
      | Some False \<Rightarrow> any_ingress service is)"

definition proxy_refers_to :: "CoreService \<Rightarrow> HTTPProxy \<Rightarrow> bool" where
  "proxy_refers_to service proxy =
     (px_Namespace proxy = csv_Namespace service \<and>
      ((\<exists>route\<in>set (spec_Routes (px_Spec proxy)). \<exists>s\<in>set (rt1_Services route). sv1_Name s = csv_Name service) \<or>
       (case spec_TCPProxy (px_Spec proxy) of
          None \<Rightarrow> False
        | Some tcpproxy \<Rightarrow> \<exists>s\<in>set (tcp1_Services tcpproxy). sv1_Name s = csv_Name service)))"

definition isRefToService :: "ObjectReference \<Rightarrow> CoreService \<Rightarrow> string \<Rightarrow> bool" where
  "isRefToService ref service routeNamespace =
     (or_Group ref = Some '''' \<and> or_Kind ref = Some ''Service'' \<and>
      (or_Namespace ref = Some (csv_Namespace service) \<or> or_Namespace ref = None \<and> routeNamespace = csv_Namespace service) \<and>
      or_Name ref = csv_Name service)"

definition route_refers_to :: "CoreService \<Rightarrow> GatewayRoute \<Rightarrow> bool" where
  "route_refers_to service route =
     (\<exists>rule\<in>set (gr_Rules route). \<exists>backend\<in>set rule. isRefToService backend service (gr_Namespace route))"

definition map_values :: "('k, 'v) gomap \<Rightarrow> 'v list" where
  "map_values m = map snd m"

definition serviceTriggersRebuild :: "KubernetesCache \<Rightarrow> CoreService \<Rightarrow> bool option" where
  "serviceTriggersRebuild kc service =
     (case any_ingress service (map_values (kc_ingresses kc)) of
        None \<Rightarrow> None
      | Some True \<Rightarrow> Some True
      | Some False \<Rightarrow>
          if \<exists>proxy\<in>set (map_values (kc_httpproxies kc)). proxy_refers_to service proxy then Some True
          else if \<exists>route\<in>set (map_values (kc_grpcroutes kc)). route_refers_to service route then Some True
          else if \<exists>route\<in>set (map_values (kc_httproutes kc)). route_refers_to service route then Some True
          else if \<exists>route\<in>set (map_values (kc_tlsroutes kc)). route_refers_to service route then Some True
          else if \<exists>route\<in>set (map_values (kc_tcproutes kc)). route_refers_to service route then Some True
          else Some False)"

definition isRefToSecret :: "ObjectReference \<Rightarrow> CoreSecret \<Rightarrow> string \<Rightarrow> bool" where
  "isRefToSecret ref secret gatewayNamespace =
     (or_Group ref = Some '''' \<and> or_Kind ref = Some ''Secret'' \<and>
      (or_Namespace ref = Some (csec_Namespace secret) \<or> or_Namespace ref = None \<and> gatewayNamespace = csec_Namespace secret) \<and>
      or_Name ref = csec_Name secret)"

definition proxy_secret_names :: "HTTPProxy \<Rightarrow> NamespacedName list" where
  "proxy_secret_names proxy =
     (case spec_VirtualHost (px_Spec proxy) of
        None \<Rightarrow> []
      | Some vh \<Rightarrow>
          (case vh1_TLS vh of
             None \<Rightarrow> []
           | Some tls \<Rightarrow>
               [NamespacedNameFrom (tls_SecretName tls) [DefaultNamespace (px_Namespace proxy)]] @
               (case tls_ClientValidation tls of
                  None \<Rightarrow> []
                | Some cv \<Rightarrow> [NamespacedNameFrom (dv1_CertificateRevocationList cv) [DefaultNamespace (px_Namespace proxy)]])))"

definition secretTriggersRebuild :: "KubernetesCache \<Rightarrow> CoreSecret \<Rightarrow> bool" where
  "secretTriggersRebuild kc secretObj =
     (let secret = \<lparr>nn_Namespace = csec_Namespace secretObj, nn_Name = csec_Name secretObj\<rparr> in
      if lookup (csec_Data secretObj) CACertificateKey \<noteq> None then True
      else if \<exists>ingress\<in>set (map_values (kc_ingresses kc)). \<exists>tls\<in>set (ing_TLS ingress).
                secret = NamespacedNameFrom (itl_SecretName tls)
                  [TLSCertAnnotationNamespace ingress, DefaultNamespace (ing_Namespace ingress)] then True
      else if \<exists>proxy\<in>set (map_values (kc_httpproxies kc)). secret \<in> set (proxy_secret_names proxy) then True
      else if secret \<in> set (kc_ConfiguredSecretRefs kc) then True
      else case kc_gateway kc of
        None \<Rightarrow> False
      | Some gateway \<Rightarrow>
          \<exists>listener\<in>set (gw_Listeners gateway).
            case gwl_CertificateRefs listener of
              None \<Rightarrow> False
            | Some refs \<Rightarrow> \<exists>certificateRef\<in>set refs. isRefToSecret certificateRef secretObj (gw_Namespace gateway))"

definition configMapTriggersRebuild :: "KubernetesCache \<Rightarrow> ConfigMap \<Rightarrow> bool" where
  "configMapTriggersRebuild kc configMapObj =
     (\<exists>policy\<in>set (map_values (kc_backendtlspolicies kc)). \<exists>caCertRef\<in>set (btp_CACertificateRefs policy).
        ptr_Group caCertRef = '''' \<and> ptr_Kind caCertRef = ''ConfigMap'' \<and>
        cm_Namespace configMapObj = btp_Namespace policy \<and> cm_Name configMapObj = ptr_Name caCertRef)"

definition IsRefToGateway :: "ObjectReference \<Rightarrow> NamespacedName \<Rightarrow> bool" where
  "IsRefToGateway parentRef gateway =
     (if (case or_Group parentRef of Some g \<Rightarrow> g \<noteq> ''gateway.networking.k8s.io'' | None \<Rightarrow> False) then False
      else if (case or_Kind parentRef of Some k \<Rightarrow> k \<noteq> ''Gateway'' | None \<Rightarrow> False) then False
      else if (case or_Namespace parentRef of Some n \<Rightarrow> n \<noteq> nn_Namespace gateway | None \<Rightarrow> False) then False
      else or_Name parentRef = nn_Name gateway)"

definition gateway_name :: "Gateway \<Rightarrow> NamespacedName" where
  "gateway_name g = NamespacedNameOf (gw_Namespace g) (gw_Name g)"

definition routeTriggersRebuild :: "KubernetesCache \<Rightarrow> ObjectReference list \<Rightarrow> bool" where
  "routeTriggersRebuild kc parentRefs =
     (case kc_gateway kc of
        None \<Rightarrow> False
      | Some gateway \<Rightarrow> \<exists>parentRef\<in>set parentRefs. IsRefToGateway parentRef (gateway_name gateway))"

section \<open>Insert and remove\<close>

definition convertCACertConfigMapToSecret :: "ConfigMap \<Rightarrow> CoreSecret option" where
  "convertCACertConfigMapToSecret configMap =
     (case lookup (cm_Data configMap) CACertificateKey of
        None \<Rightarrow> None
      | Some ca \<Rightarrow> Some \<lparr>csec_Name = cm_Name configMap, csec_Namespace = cm_Namespace configMap, csec_Type = SecretTypeOpaque,
                         csec_Data = [(CACertificateKey, ca)]\<rparr>)"

text \<open>A freshly inserted secret has no validation result stored.\<close>

definition new_secret :: "CoreSecret \<Rightarrow> Secret" where
  "new_secret obj = zero_Secret\<lparr>sec_Object := obj\<rparr>"

text \<open>\<open>Insert\<close>: the answer, the number of objects of the kind (for the metrics) and the new cache.  \<open>GetClass\<close> is the
  read of a GatewayClass from the API server.  The check of annotations that follows only logs.\<close>

definition maybeInsert ::
  "(string \<Rightarrow> GatewayClass option) \<Rightarrow> KubeObject \<Rightarrow> KubernetesCache \<Rightarrow> (bool \<times> nat \<times> KubernetesCache) option" where
  "maybeInsert GetClass obj kc =
     (case obj of
        SecretObj o' \<Rightarrow>
          let kc = kc\<lparr>kc_secrets := put (NamespacedNameOf (csec_Namespace o') (csec_Name o')) (new_secret o') (kc_secrets kc)\<rparr>
          in Some (secretTriggersRebuild kc o', length (kc_secrets kc), kc)
      | ConfigMapObj o' \<Rightarrow>
          (case convertCACertConfigMapToSecret o' of
             Some secret \<Rightarrow>
               let kc = kc\<lparr>kc_configmapsecrets := put (NamespacedNameOf (cm_Namespace o') (cm_Name o')) (new_secret secret)
                             (kc_configmapsecrets kc)\<rparr>
               in Some (configMapTriggersRebuild kc o', length (kc_configmapsecrets kc), kc)
           | None \<Rightarrow> Some (False, length (kc_configmapsecrets kc), kc))
      | ServiceObj o' \<Rightarrow>
          let kc = kc\<lparr>kc_services := put (NamespacedNameOf (csv_Namespace o') (csv_Name o')) o' (kc_services kc)\<rparr>
          in map_option (\<lambda>b. (b, length (kc_services kc), kc)) (serviceTriggersRebuild kc o')
      | NamespaceObj o' \<Rightarrow>
          let kc = kc\<lparr>kc_namespaces := put (cns_Name o') o' (kc_namespaces kc)\<rparr>
          in Some (True, length (kc_namespaces kc), kc)
      | IngressObj o' \<Rightarrow>
          if \<not> MatchesIngress o' (kc_IngressClassNames kc) then Some (False, length (kc_ingresses kc), kc)
          else let kc = kc\<lparr>kc_ingresses := put (NamespacedNameOf (ing_Namespace o') (ing_Name o')) o' (kc_ingresses kc)\<rparr>
               in Some (True, length (kc_ingresses kc), kc)
      | HTTPProxyObj o' \<Rightarrow>
          if \<not> MatchesHTTPProxy o' (kc_IngressClassNames kc) then Some (False, length (kc_httpproxies kc), kc)
          else let kc = kc\<lparr>kc_httpproxies := put (NamespacedNameOf (px_Namespace o') (px_Name o')) o' (kc_httpproxies kc)\<rparr>
               in Some (True, length (kc_httpproxies kc), kc)
      | TLSCertificateDelegationObj o' \<Rightarrow>
          let kc = kc\<lparr>kc_tlscertificatedelegations := put (NamespacedNameOf (tcd_Namespace o') (tcd_Name o')) o'
                        (kc_tlscertificatedelegations kc)\<rparr>
          in Some (True, length (kc_tlscertificatedelegations kc), kc)
      | GatewayClassObj o' \<Rightarrow>
          if kc_ConfiguredGatewayToCache kc \<noteq> None \<and>
             (case kc_gateway kc of None \<Rightarrow> True | Some g \<Rightarrow> gwc_Name o' \<noteq> gw_GatewayClassName g)
          then Some (False, if kc_gatewayclass kc = None then 0 else 1, kc)
          else Some (True, 1, kc\<lparr>kc_gatewayclass := Some o'\<rparr>)
      | GatewayObj o' \<Rightarrow>
          (case kc_ConfiguredGatewayToCache kc of
             Some configured \<Rightarrow>
               if gateway_name o' \<noteq> configured then Some (False, if kc_gateway kc = None then 0 else 1, kc)
               else let kc = kc\<lparr>kc_gateway := Some o'\<rparr> in
                 Some (True, 1, (case GetClass (gw_GatewayClassName o') of
                                   None \<Rightarrow> kc | Some gatewayClass \<Rightarrow> kc\<lparr>kc_gatewayclass := Some gatewayClass\<rparr>))
           | None \<Rightarrow> Some (True, 1, kc\<lparr>kc_gateway := Some o'\<rparr>))
      | HTTPRouteObj o' \<Rightarrow>
          let kc = kc\<lparr>kc_httproutes := put (NamespacedNameOf (gr_Namespace o') (gr_Name o')) o' (kc_httproutes kc)\<rparr>
          in Some (routeTriggersRebuild kc (gr_ParentRefs o'), length (kc_httproutes kc), kc)
      | TLSRouteObj o' \<Rightarrow>
          let kc = kc\<lparr>kc_tlsroutes := put (NamespacedNameOf (gr_Namespace o') (gr_Name o')) o' (kc_tlsroutes kc)\<rparr>
          in Some (routeTriggersRebuild kc (gr_ParentRefs o'), length (kc_tlsroutes kc), kc)
      | GRPCRouteObj o' \<Rightarrow>
          let kc = kc\<lparr>kc_grpcroutes := put (NamespacedNameOf (gr_Namespace o') (gr_Name o')) o' (kc_grpcroutes kc)\<rparr>
          in Some (routeTriggersRebuild kc (gr_ParentRefs o'), length (kc_grpcroutes kc), kc)
      | TCPRouteObj o' \<Rightarrow>
          let kc = kc\<lparr>kc_tcproutes := put (NamespacedNameOf (gr_Namespace o') (gr_Name o')) o' (kc_tcproutes kc)\<rparr>
          in Some (routeTriggersRebuild kc (gr_ParentRefs o'), length (kc_tcproutes kc), kc)
      | ReferenceGrantObj o' \<Rightarrow>
          let kc = kc\<lparr>kc_referencegrants := put (NamespacedNameOf (rg_Namespace o') (rg_Name o')) o' (kc_referencegrants kc)\<rparr>
          in Some (True, length (kc_referencegrants kc), kc)
      | BackendTLSPolicyObj o' \<Rightarrow>
          let kc = kc\<lparr>kc_backendtlspolicies := put (NamespacedNameOf (btp_Namespace o') (btp_Name o')) o' (kc_backendtlspolicies kc)\<rparr>
          in Some (True, length (kc_backendtlspolicies kc), kc)
      | ExtensionServiceObj o' \<Rightarrow>
          let kc = kc\<lparr>kc_extensions := put (NamespacedNameOf (ext_Namespace o') (ext_Name o')) o' (kc_extensions kc)\<rparr>
          in Some (True, length (kc_extensions kc), kc)
      | DeletedFinalStateUnknown _ \<Rightarrow> Some (False, 0, kc)
      | UnknownObj \<Rightarrow> Some (False, 0, kc))"

definition Insert :: "(string \<Rightarrow> GatewayClass option) \<Rightarrow> KubeObject \<Rightarrow> KubernetesCache \<Rightarrow> (bool \<times> KubernetesCache) option" where
  "Insert GetClass obj kc =
     (case maybeInsert GetClass obj kc of None \<Rightarrow> None | Some (ok, n, kc) \<Rightarrow> Some (ok, kc))"

definition del_key :: "'k \<Rightarrow> ('k, 'v) gomap \<Rightarrow> bool \<times> nat \<times> ('k, 'v) gomap" where
  "del_key k m = (let m' = del k m in (lookup m k \<noteq> None, length m', m'))"

definition cache_remove :: "KubeObject \<Rightarrow> KubernetesCache \<Rightarrow> (bool \<times> nat \<times> KubernetesCache) option" where
  "cache_remove obj kc =
     (case obj of
        SecretObj o' \<Rightarrow>
          let kc = kc\<lparr>kc_secrets := del (NamespacedNameOf (csec_Namespace o') (csec_Name o')) (kc_secrets kc)\<rparr>
          in Some (secretTriggersRebuild kc o', length (kc_secrets kc), kc)
      | ConfigMapObj o' \<Rightarrow>
          let kc = kc\<lparr>kc_configmapsecrets := del (NamespacedNameOf (cm_Namespace o') (cm_Name o')) (kc_configmapsecrets kc)\<rparr>
          in Some (configMapTriggersRebuild kc o', length (kc_configmapsecrets kc), kc)
      | ServiceObj o' \<Rightarrow>
          let kc = kc\<lparr>kc_services := del (NamespacedNameOf (csv_Namespace o') (csv_Name o')) (kc_services kc)\<rparr>
          in map_option (\<lambda>b. (b, length (kc_services kc), kc)) (serviceTriggersRebuild kc o')
      | NamespaceObj o' \<Rightarrow>
          let (ok, n, m) = del_key (cns_Name o') (kc_namespaces kc) in Some (ok, n, kc\<lparr>kc_namespaces := m\<rparr>)
      | IngressObj o' \<Rightarrow>
          let (ok, n, m) = del_key (NamespacedNameOf (ing_Namespace o') (ing_Name o')) (kc_ingresses kc)
          in Some (ok, n, kc\<lparr>kc_ingresses := m\<rparr>)
      | HTTPProxyObj o' \<Rightarrow>
          let (ok, n, m) = del_key (NamespacedNameOf (px_Namespace o') (px_Name o')) (kc_httpproxies kc)
          in Some (ok, n, kc\<lparr>kc_httpproxies := m\<rparr>)
      | TLSCertificateDelegationObj o' \<Rightarrow>
          let (ok, n, m) = del_key (NamespacedNameOf (tcd_Namespace o') (tcd_Name o')) (kc_tlscertificatedelegations kc)
          in Some (ok, n, kc\<lparr>kc_tlscertificatedelegations := m\<rparr>)
      | GatewayClassObj o' \<Rightarrow>
          if kc_ConfiguredGatewayToCache kc \<noteq> None then
            (case kc_gatewayclass kc of
               None \<Rightarrow> Some (False, 0, kc)
             | Some c \<Rightarrow> if gwc_Name o' \<noteq> gwc_Name c then Some (False, 1, kc) else Some (True, 0, kc\<lparr>kc_gatewayclass := None\<rparr>))
          else Some (True, 0, kc\<lparr>kc_gatewayclass := None\<rparr>)
      | GatewayObj o' \<Rightarrow>
          if kc_ConfiguredGatewayToCache kc \<noteq> None then
            (case kc_gateway kc of
               None \<Rightarrow> Some (False, 0, kc)
             | Some g \<Rightarrow> if gateway_name o' \<noteq> gateway_name g then Some (False, 1, kc) else Some (True, 0, kc\<lparr>kc_gateway := None\<rparr>))
          else Some (True, 0, kc\<lparr>kc_gateway := None\<rparr>)
      | HTTPRouteObj o' \<Rightarrow>
          let kc = kc\<lparr>kc_httproutes := del (NamespacedNameOf (gr_Namespace o') (gr_Name o')) (kc_httproutes kc)\<rparr>
          in Some (routeTriggersRebuild kc (gr_ParentRefs o'), length (kc_httproutes kc), kc)
      | TLSRouteObj o' \<Rightarrow>
          let kc = kc\<lparr>kc_tlsroutes := del (NamespacedNameOf (gr_Namespace o') (gr_Name o')) (kc_tlsroutes kc)\<rparr>
          in Some (routeTriggersRebuild kc (gr_ParentRefs o'), length (kc_tlsroutes kc), kc)
      | GRPCRouteObj o' \<Rightarrow>
          let kc = kc\<lparr>kc_grpcroutes := del (NamespacedNameOf (gr_Namespace o') (gr_Name o')) (kc_grpcroutes kc)\<rparr>
          in Some (routeTriggersRebuild kc (gr_ParentRefs o'), length (kc_grpcroutes kc), kc)
      | TCPRouteObj o' \<Rightarrow>
          let kc = kc\<lparr>kc_tcproutes := del (NamespacedNameOf (gr_Namespace o') (gr_Name o')) (kc_tcproutes kc)\<rparr>
          in Some (routeTriggersRebuild kc (gr_ParentRefs o'), length (kc_tcproutes kc), kc)
      | ReferenceGrantObj o' \<Rightarrow>
          let (ok, n, m) = del_key (NamespacedNameOf (rg_Namespace o') (rg_Name o')) (kc_referencegrants kc)
          in Some (ok, n, kc\<lparr>kc_referencegrants := m\<rparr>)
      | BackendTLSPolicyObj o' \<Rightarrow>
          let (ok, n, m) = del_key (NamespacedNameOf (btp_Namespace o') (btp_Name o')) (kc_backendtlspolicies kc)
          in Some (ok, n, kc\<lparr>kc_backendtlspolicies := m\<rparr>)
      | ExtensionServiceObj o' \<Rightarrow>
          let (ok, n, m) = del_key (NamespacedNameOf (ext_Namespace o') (ext_Name o')) (kc_extensions kc)
          in Some (ok, n, kc\<lparr>kc_extensions := m\<rparr>)
      | DeletedFinalStateUnknown _ \<Rightarrow> Some (False, 0, kc)
      | UnknownObj \<Rightarrow> Some (False, 0, kc))"

fun cache_Remove :: "KubeObject \<Rightarrow> KubernetesCache \<Rightarrow> (bool \<times> KubernetesCache) option" where
  "cache_Remove (DeletedFinalStateUnknown obj) kc = cache_Remove obj kc"
| "cache_Remove obj kc = (case cache_remove obj kc of None \<Rightarrow> None | Some (ok, n, kc) \<Rightarrow> Some (ok, kc))"

section \<open>Lookups\<close>

datatype lookup_error = DelegationNotPermitted string | LookupError string

fun lookup_error_message :: "lookup_error \<Rightarrow> string" where
  "lookup_error_message (DelegationNotPermitted m) = m"
| "lookup_error_message (LookupError m) = m"

definition contains_namespace :: "string list \<Rightarrow> string \<Rightarrow> bool" where
  "contains_namespace haystack needle =
     (if length haystack = 1 \<and> haystack ! 0 = ''*'' then True else needle \<in> set haystack)"

definition delegationPermitted :: "KubernetesCache \<Rightarrow> NamespacedName \<Rightarrow> string \<Rightarrow> bool" where
  "delegationPermitted kc secret targetNamespace =
     (if nn_Namespace secret = targetNamespace then True
      else \<exists>d\<in>set (map_values (kc_tlscertificatedelegations kc)).
             tcd_Namespace d = nn_Namespace secret \<and>
             (\<exists>e\<in>set (tcd_Delegations d). contains_namespace (cd_TargetNamespaces e) targetNamespace \<and> nn_Name secret = cd_SecretName e))"

text \<open>The validation result of a secret is computed once and stored in it.\<close>

definition memo :: "string option option \<Rightarrow> string option \<Rightarrow> string option" where
  "memo stored computed = (case stored of Some e \<Rightarrow> e | None \<Rightarrow> computed)"

definition LookupTLSSecretInsecure ::
  "crypto \<Rightarrow> NamespacedName \<Rightarrow> KubernetesCache \<Rightarrow> (lookup_error + Secret) \<times> KubernetesCache" where
  "LookupTLSSecretInsecure cr name kc =
     (case lookup (kc_secrets kc) name of
        None \<Rightarrow> (Inl (LookupError ''Secret not found''), kc)
      | Some sec \<Rightarrow>
          let err = memo (sec_ValidTLSSecret sec) (validTLSSecret cr (sec_Object sec));
              sec = sec\<lparr>sec_ValidTLSSecret := Some err\<rparr>;
              kc = kc\<lparr>kc_secrets := put name sec (kc_secrets kc)\<rparr>
          in ((case err of Some e \<Rightarrow> Inl (LookupError e) | None \<Rightarrow> Inr sec), kc))"

definition LookupTLSSecret ::
  "crypto \<Rightarrow> NamespacedName \<Rightarrow> string \<Rightarrow> KubernetesCache \<Rightarrow> (lookup_error + Secret) \<times> KubernetesCache" where
  "LookupTLSSecret cr name targetNamespace kc =
     (if \<not> delegationPermitted kc name targetNamespace
      then (Inl (DelegationNotPermitted ''Certificate delegation not permitted''), kc)
      else LookupTLSSecretInsecure cr name kc)"

definition LookupCASecret ::
  "crypto \<Rightarrow> NamespacedName \<Rightarrow> string \<Rightarrow> KubernetesCache \<Rightarrow> (lookup_error + Secret) \<times> KubernetesCache" where
  "LookupCASecret cr name targetNamespace kc =
     (if \<not> delegationPermitted kc name targetNamespace
      then (Inl (DelegationNotPermitted ''Certificate delegation not permitted''), kc)
      else case lookup (kc_secrets kc) name of
        None \<Rightarrow> (Inl (LookupError ''Secret not found''), kc)
      | Some sec \<Rightarrow>
          let err = memo (sec_ValidCASecret sec) (validCASecret cr (sec_Object sec));
              sec = sec\<lparr>sec_ValidCASecret := Some err\<rparr>;
              kc = kc\<lparr>kc_secrets := put name sec (kc_secrets kc)\<rparr>
          in ((case err of Some e \<Rightarrow> Inl (LookupError e) | None \<Rightarrow> Inr sec), kc))"

definition LookupCAConfigMap :: "crypto \<Rightarrow> NamespacedName \<Rightarrow> KubernetesCache \<Rightarrow> (lookup_error + Secret) \<times> KubernetesCache" where
  "LookupCAConfigMap cr name kc =
     (case lookup (kc_configmapsecrets kc) name of
        None \<Rightarrow> (Inl (LookupError ''ConfigMap not found''), kc)
      | Some sec \<Rightarrow>
          let err = memo (sec_ValidCASecret sec) (validCASecret cr (sec_Object sec));
              sec = sec\<lparr>sec_ValidCASecret := Some err\<rparr>;
              kc = kc\<lparr>kc_configmapsecrets := put name sec (kc_configmapsecrets kc)\<rparr>
          in ((case err of Some e \<Rightarrow> Inl (LookupError e) | None \<Rightarrow> Inr sec), kc))"

definition LookupCRLSecret ::
  "crypto \<Rightarrow> NamespacedName \<Rightarrow> string \<Rightarrow> KubernetesCache \<Rightarrow> (lookup_error + Secret) \<times> KubernetesCache" where
  "LookupCRLSecret cr name targetNamespace kc =
     (if \<not> delegationPermitted kc name targetNamespace
      then (Inl (DelegationNotPermitted ''Certificate delegation not permitted''), kc)
      else case lookup (kc_secrets kc) name of
        None \<Rightarrow> (Inl (LookupError ''Secret not found''), kc)
      | Some sec \<Rightarrow>
          let err = memo (sec_ValidCRLSecret sec) (validCRLSecret cr (sec_Object sec));
              sec = sec\<lparr>sec_ValidCRLSecret := Some err\<rparr>;
              kc = kc\<lparr>kc_secrets := put name sec (kc_secrets kc)\<rparr>
          in ((case err of Some e \<Rightarrow> Inl (LookupError e) | None \<Rightarrow> Inr sec), kc))"

definition nn_String :: "NamespacedName \<Rightarrow> string" where
  "nn_String n = nn_Namespace n @ ''/'' @ nn_Name n"

definition LookupUpstreamValidation ::
  "crypto \<Rightarrow> UpstreamValidation option \<Rightarrow> NamespacedName \<Rightarrow> string \<Rightarrow> KubernetesCache
     \<Rightarrow> (lookup_error + PeerValidationContext option) \<times> KubernetesCache" where
  "LookupUpstreamValidation cr uv caCertificate targetNamespace kc =
     (case uv of
        None \<Rightarrow> (Inr None, kc)
      | Some uv \<Rightarrow>
          let (r, kc) = LookupCASecret cr caCertificate targetNamespace kc in
          (case r of
             Inl (DelegationNotPermitted e) \<Rightarrow> Inl (DelegationNotPermitted e)
           | Inl (LookupError e) \<Rightarrow> Inl (LookupError (''invalid CA Secret '' @ go_quote (nn_String caCertificate) @ '': '' @ e))
           | Inr cacert \<Rightarrow>
               if uv_SubjectName uv = '''' then Inl (LookupError ''missing subject alternative name'')
               else let pvc = zero_PeerValidationContext\<lparr>pvc_CACertificates := [Some cacert]\<rparr> in
                 if length (uv_SubjectNames uv) = 0 then Inr (Some (pvc\<lparr>pvc_SubjectNames := [uv_SubjectName uv]\<rparr>))
                 else if uv_SubjectName uv \<noteq> uv_SubjectNames uv ! 0
                 then Inl (LookupError (''first entry of SubjectNames ('' @ uv_SubjectNames uv ! 0
                        @ '') does not match SubjectName ('' @ uv_SubjectName uv @ '')''))
                 else Inr (Some (pvc\<lparr>pvc_SubjectNames := uv_SubjectNames uv\<rparr>)), kc))"

datatype IntOrString = FromInt int | FromString string

text \<open>\<open>strconv.Atoi\<close> returns a value with its error: 0 for a syntax error and the nearest bound for a number beyond 64 bits.\<close>

definition strconv_Atoi :: "string \<Rightarrow> int \<times> string option" where
  "strconv_Atoi s =
     (let neg = (s \<noteq> '''' \<and> hd s = CHR ''-'');
          t = (if s \<noteq> '''' \<and> (hd s = CHR ''-'' \<or> hd s = CHR ''+'') then tl s else s);
          err = (\<lambda>e. Some (''strconv.Atoi: parsing '' @ go_quote s @ '': '' @ e))
      in case (if t = '''' then None else parse_digits t 0) of
           None \<Rightarrow> (0, err ''invalid syntax'')
         | Some n \<Rightarrow>
             let i = (if neg then - int n else int n) in
             if i < - (2 ^ 63) then (- (2 ^ 63), err ''value out of range'')
             else if i \<ge> 2 ^ 63 then (2 ^ 63 - 1, err ''value out of range'')
             else (i, None))"

fun IntValue :: "IntOrString \<Rightarrow> int" where
  "IntValue (FromInt i) = i"
| "IntValue (FromString s) = fst (strconv_Atoi s)"

fun IntOrString_String :: "IntOrString \<Rightarrow> string" where
  "IntOrString_String (FromInt i) = strconv_Itoa i"
| "IntOrString_String (FromString s) = s"

fun match_port :: "IntOrString \<Rightarrow> ServicePort list \<Rightarrow> ServicePort option result" where
  "match_port port [] = Ok None"
| "match_port port (p # ps) =
     (if port_Port p = IntValue port \<or> IntOrString_String port = port_Name p then
        (if port_Protocol p = '''' \<or> port_Protocol p = ''TCP'' then Ok (Some p)
         else Err (''unsupported service protocol '' @ go_quote (port_Protocol p)))
      else match_port port ps)"

definition LookupService :: "KubernetesCache \<Rightarrow> NamespacedName \<Rightarrow> IntOrString \<Rightarrow> (CoreService \<times> ServicePort) result" where
  "LookupService kc meta port =
     (case lookup (kc_services kc) meta of
        None \<Rightarrow> Err (''service '' @ go_quote (nn_String meta) @ '' not found'')
      | Some svc \<Rightarrow>
          (case match_port port (csv_Ports svc) of
             Inl err \<Rightarrow> Err err
           | Inr (Some p) \<Rightarrow> Ok (svc, p)
           | Inr None \<Rightarrow> Err (''port '' @ go_quote (IntOrString_String port) @ '' on service '' @ go_quote (nn_String meta)
                              @ '' not matched'')))"

text \<open>The policy for a backend: one whose target has the section name asked for, otherwise the last one seen that
  has no section name.\<close>

fun target_refs_loop ::
  "PolicyTargetReference \<Rightarrow> BackendTLSPolicy \<Rightarrow> PolicyTargetReference list \<Rightarrow> BackendTLSPolicy option
     \<Rightarrow> BackendTLSPolicy option + BackendTLSPolicy" where
  "target_refs_loop targetRef v [] fallback = Inl fallback"
| "target_refs_loop targetRef v (tr # trs) fallback =
     (if ptr_Group tr = ptr_Group targetRef \<and> ptr_Kind tr = ptr_Kind targetRef \<and> ptr_Name tr = ptr_Name targetRef then
        (if ptr_SectionName tr \<noteq> None \<and> ptr_SectionName tr = ptr_SectionName targetRef then Inr v
         else target_refs_loop targetRef v trs (if ptr_SectionName tr = None then Some v else fallback))
      else target_refs_loop targetRef v trs fallback)"

fun policies_loop :: "PolicyTargetReference \<Rightarrow> string \<Rightarrow> BackendTLSPolicy list \<Rightarrow> BackendTLSPolicy option \<Rightarrow> BackendTLSPolicy option" where
  "policies_loop targetRef ns [] fallback = fallback"
| "policies_loop targetRef ns (v # vs) fallback =
     (if btp_Namespace v \<noteq> ns then policies_loop targetRef ns vs fallback
      else case target_refs_loop targetRef v (btp_TargetRefs v) fallback of
        Inr found \<Rightarrow> Some found
      | Inl fallback \<Rightarrow> policies_loop targetRef ns vs fallback)"

definition LookupBackendTLSPolicyByTargetRef ::
  "KubernetesCache \<Rightarrow> PolicyTargetReference \<Rightarrow> string \<Rightarrow> BackendTLSPolicy option" where
  "LookupBackendTLSPolicyByTargetRef kc targetRef ns =
     policies_loop targetRef ns (map_values (kc_backendtlspolicies kc)) None"

section \<open>The stored validation results are invisible\<close>

text \<open>Every stored result is the one validation would compute now; \<open>erase\<close> forgets the stored results.\<close>

definition memo_ok_secret :: "crypto \<Rightarrow> Secret \<Rightarrow> bool" where
  "memo_ok_secret cr s \<longleftrightarrow>
     (sec_ValidTLSSecret s = None \<or> sec_ValidTLSSecret s = Some (validTLSSecret cr (sec_Object s))) \<and>
     (sec_ValidCASecret s = None \<or> sec_ValidCASecret s = Some (validCASecret cr (sec_Object s))) \<and>
     (sec_ValidCRLSecret s = None \<or> sec_ValidCRLSecret s = Some (validCRLSecret cr (sec_Object s)))"

definition memo_ok :: "crypto \<Rightarrow> KubernetesCache \<Rightarrow> bool" where
  "memo_ok cr kc \<longleftrightarrow> (\<forall>s\<in>set (map_values (kc_secrets kc)) \<union> set (map_values (kc_configmapsecrets kc)). memo_ok_secret cr s)"

definition erase :: "KubernetesCache \<Rightarrow> KubernetesCache" where
  "erase kc = kc\<lparr>kc_secrets := map (\<lambda>(n, s). (n, new_secret (sec_Object s))) (kc_secrets kc),
                 kc_configmapsecrets := map (\<lambda>(n, s). (n, new_secret (sec_Object s))) (kc_configmapsecrets kc)\<rparr>"

text \<open>What a lookup promises: a secret that the namespace may use, that exists and is valid.\<close>

definition lookup_spec ::
  "(CoreSecret \<Rightarrow> string option) \<Rightarrow> KubernetesCache \<Rightarrow> NamespacedName \<Rightarrow> string \<Rightarrow> lookup_error + CoreSecret" where
  "lookup_spec valid kc name targetNamespace =
     (if \<not> delegationPermitted kc name targetNamespace then Inl (DelegationNotPermitted ''Certificate delegation not permitted'')
      else case lookup (kc_secrets kc) name of
        None \<Rightarrow> Inl (LookupError ''Secret not found'')
      | Some s \<Rightarrow> (case valid (sec_Object s) of Some e \<Rightarrow> Inl (LookupError e) | None \<Rightarrow> Inr (sec_Object s)))"

locale delegated_lookup =
  fixes cr :: crypto
    and get :: "NamespacedName \<Rightarrow> string \<Rightarrow> KubernetesCache \<Rightarrow> (lookup_error + Secret) \<times> KubernetesCache"
    and valid :: "CoreSecret \<Rightarrow> string option"
  assumes get_memo_ok: "memo_ok cr kc \<Longrightarrow> memo_ok cr (snd (get name ns kc))"
    and get_erase: "erase (snd (get name ns kc)) = erase kc"
    and get_spec: "memo_ok cr kc \<Longrightarrow> map_sum id sec_Object (fst (get name ns kc)) = lookup_spec valid (erase kc) name ns"
begin

text \<open>The answer depends on the objects only, not on which lookups came before.\<close>

lemma get_stable:
  "memo_ok cr kc \<Longrightarrow> memo_ok cr kc' \<Longrightarrow> erase kc = erase kc' \<Longrightarrow>
   map_sum id sec_Object (fst (get name ns kc)) = map_sum id sec_Object (fst (get name ns kc'))"
  by (simp add: get_spec)

lemma get_sound:
  assumes "memo_ok cr kc" "fst (get name ns kc) = Inr s"
  shows "delegationPermitted kc name ns \<and> valid (sec_Object s) = None \<and>
         map_option sec_Object (lookup (kc_secrets kc) name) = Some (sec_Object s)"
  using get_spec [OF assms(1), of name ns] assms(2)
  by (auto simp: lookup_spec_def erase_def delegationPermitted_def map_of_map new_secret_def split: if_splits option.splits)

end

lemma put_same_keys: "lookup m k = Some v \<Longrightarrow> f v' = f v \<Longrightarrow> map (\<lambda>(n, s). (n, f s)) (put k v' m) = map (\<lambda>(n, s). (n, f s)) m"
  by (induction m) (auto split: if_splits)

lemma map_values_put: "set (map_values (put k v m)) \<subseteq> insert v (set (map_values m))"
  by (induction m) (auto simp: map_values_def)


lemma lookup_map_values: "lookup m k = Some v \<Longrightarrow> v \<in> set (map_values m)"
  by (force simp: map_values_def dest: map_of_SomeD)

text \<open>Storing a result of validation in a secret keeps the invariant and the objects.\<close>

lemma store_result:
  assumes "lookup (kc_secrets kc) name = Some sec" and "sec_Object sec' = sec_Object sec"
  shows "erase (kc\<lparr>kc_secrets := put name sec' (kc_secrets kc)\<rparr>) = erase kc"
proof -
  have "map (\<lambda>(n, s). (n, new_secret (sec_Object s))) (put name sec' (kc_secrets kc)) =
        map (\<lambda>(n, s). (n, new_secret (sec_Object s))) (kc_secrets kc)"
    by (rule put_same_keys [OF assms(1)]) (simp add: assms(2))
  then show ?thesis by (simp add: erase_def)
qed

lemma memo_ok_put:
  "memo_ok cr kc \<Longrightarrow> memo_ok_secret cr s \<Longrightarrow> memo_ok cr (kc\<lparr>kc_secrets := put name s (kc_secrets kc)\<rparr>)"
  "memo_ok cr kc \<Longrightarrow> memo_ok_secret cr s \<Longrightarrow> memo_ok cr (kc\<lparr>kc_configmapsecrets := put name s (kc_configmapsecrets kc)\<rparr>)"
  using map_values_put by (fastforce simp: memo_ok_def)+

lemma memo_ok_lookup:
  "memo_ok cr kc \<Longrightarrow> lookup (kc_secrets kc) name = Some s \<Longrightarrow> memo_ok_secret cr s"
  "memo_ok cr kc \<Longrightarrow> lookup (kc_configmapsecrets kc) name = Some s \<Longrightarrow> memo_ok_secret cr s"
  by (auto simp: memo_ok_def dest: lookup_map_values)

lemma erase_lookup:
  "lookup (kc_secrets (erase kc)) name = map_option (\<lambda>s. new_secret (sec_Object s)) (lookup (kc_secrets kc) name)"
  "delegationPermitted (erase kc) name ns = delegationPermitted kc name ns"
  by (simp_all add: erase_def map_of_map delegationPermitted_def)

lemma memo_valid: "stored = None \<or> stored = Some v \<Longrightarrow> memo stored v = v"
  by (auto simp: memo_def)

lemma new_secret_Object [simp]: "sec_Object (new_secret obj) = obj"
  by (simp add: new_secret_def)

lemmas lookup_defs = LookupTLSSecret_def LookupTLSSecretInsecure_def LookupCASecret_def LookupCRLSecret_def

interpretation tls: delegated_lookup cr "LookupTLSSecret cr" "validTLSSecret cr" for cr
proof unfold_locales
  fix kc name ns
  show "erase (snd (LookupTLSSecret cr name ns kc)) = erase kc"
    by (auto simp: lookup_defs Let_def intro: store_result split: option.splits)
  assume ok: "memo_ok cr kc"
  show "memo_ok cr (snd (LookupTLSSecret cr name ns kc))"
    using ok memo_ok_lookup(1) [OF ok, of name]
    by (auto simp: lookup_defs Let_def memo_ok_secret_def memo_valid intro!: memo_ok_put(1) split: option.splits)
  show "map_sum id sec_Object (fst (LookupTLSSecret cr name ns kc)) = lookup_spec (validTLSSecret cr) (erase kc) name ns"
    using memo_ok_lookup(1) [OF ok, of name]
    by (auto simp: lookup_defs lookup_spec_def erase_lookup Let_def memo_ok_secret_def memo_valid split: option.splits)
qed

interpretation ca: delegated_lookup cr "LookupCASecret cr" "validCASecret cr" for cr
proof unfold_locales
  fix kc name ns
  show "erase (snd (LookupCASecret cr name ns kc)) = erase kc"
    by (auto simp: lookup_defs Let_def intro: store_result split: option.splits)
  assume ok: "memo_ok cr kc"
  show "memo_ok cr (snd (LookupCASecret cr name ns kc))"
    using ok memo_ok_lookup(1) [OF ok, of name]
    by (auto simp: lookup_defs Let_def memo_ok_secret_def memo_valid intro!: memo_ok_put(1) split: option.splits)
  show "map_sum id sec_Object (fst (LookupCASecret cr name ns kc)) = lookup_spec (validCASecret cr) (erase kc) name ns"
    using memo_ok_lookup(1) [OF ok, of name]
    by (auto simp: lookup_defs lookup_spec_def erase_lookup Let_def memo_ok_secret_def memo_valid split: option.splits)
qed

interpretation crl: delegated_lookup cr "LookupCRLSecret cr" "validCRLSecret cr" for cr
proof unfold_locales
  fix kc name ns
  show "erase (snd (LookupCRLSecret cr name ns kc)) = erase kc"
    by (auto simp: lookup_defs Let_def intro: store_result split: option.splits)
  assume ok: "memo_ok cr kc"
  show "memo_ok cr (snd (LookupCRLSecret cr name ns kc))"
    using ok memo_ok_lookup(1) [OF ok, of name]
    by (auto simp: lookup_defs Let_def memo_ok_secret_def memo_valid intro!: memo_ok_put(1) split: option.splits)
  show "map_sum id sec_Object (fst (LookupCRLSecret cr name ns kc)) = lookup_spec (validCRLSecret cr) (erase kc) name ns"
    using memo_ok_lookup(1) [OF ok, of name]
    by (auto simp: lookup_defs lookup_spec_def erase_lookup Let_def memo_ok_secret_def memo_valid split: option.splits)
qed


lemma lookup_spec_erase: "lookup_spec valid (erase kc) name ns = lookup_spec valid kc name ns"
  by (auto simp: lookup_spec_def erase_lookup split: option.splits)

text \<open>The life of the cache: objects come and go, and secrets are looked up.\<close>

inductive cache_step :: "crypto \<Rightarrow> KubernetesCache \<Rightarrow> KubernetesCache \<Rightarrow> bool" for cr where
  insert: "Insert GetClass obj kc = Some (changed, kc') \<Longrightarrow> cache_step cr kc kc'"
| remove: "cache_Remove obj kc = Some (changed, kc') \<Longrightarrow> cache_step cr kc kc'"
| tls: "cache_step cr kc (snd (LookupTLSSecret cr name ns kc))"
| tls_insecure: "cache_step cr kc (snd (LookupTLSSecretInsecure cr name kc))"
| ca: "cache_step cr kc (snd (LookupCASecret cr name ns kc))"
| crl: "cache_step cr kc (snd (LookupCRLSecret cr name ns kc))"
| configmap: "cache_step cr kc (snd (LookupCAConfigMap cr name kc))"

lemma memo_ok_new [simp]: "memo_ok_secret cr (new_secret obj)"
  by (simp add: memo_ok_secret_def new_secret_def zero_Secret_def)

lemma map_values_del: "set (map_values (del k m)) \<subseteq> set (map_values m)"
  by (auto simp: map_values_def AList.delete_eq)

text \<open>What an insertion or a removal does to the two maps of secrets.\<close>

definition secrets_grow :: "(NamespacedName, Secret) gomap \<Rightarrow> (NamespacedName, Secret) gomap \<Rightarrow> bool" where
  "secrets_grow m m' \<longleftrightarrow> m' = m \<or> (\<exists>name obj. m' = put name (new_secret obj) m) \<or> (\<exists>name. m' = del name m)"

lemma secrets_grow_intros [simp]:
  "secrets_grow m m" "secrets_grow m (put name (new_secret obj) m)" "secrets_grow m (del name m)"
  by (auto simp: secrets_grow_def)

lemma maybeInsert_secrets:
  "maybeInsert GetClass obj kc = Some (b, n, kc') \<Longrightarrow>
   secrets_grow (kc_secrets kc) (kc_secrets kc') \<and> secrets_grow (kc_configmapsecrets kc) (kc_configmapsecrets kc')"
  unfolding maybeInsert_def Let_def
  by (cases obj) (auto split: if_splits option.splits)

lemma cache_remove_secrets:
  "cache_remove obj kc = Some (b, n, kc') \<Longrightarrow>
   secrets_grow (kc_secrets kc) (kc_secrets kc') \<and> secrets_grow (kc_configmapsecrets kc) (kc_configmapsecrets kc')"
  unfolding cache_remove_def del_key_def Let_def
  by (cases obj) (auto split: if_splits option.splits)

lemma secrets_grow_values:
  assumes "secrets_grow m m'" "\<forall>s\<in>set (map_values m). memo_ok_secret cr s" "s \<in> set (map_values m')"
  shows "memo_ok_secret cr s"
proof -
  consider "m' = m" | name obj where "m' = put name (new_secret obj) m" | name where "m' = del name m"
    using assms(1) by (auto simp: secrets_grow_def)
  then have "s \<in> set (map_values m) \<or> (\<exists>obj. s = new_secret obj)"
    using assms(3) subsetD [OF map_values_put] subsetD [OF map_values_del] by cases fastforce+
  then show ?thesis using assms(2) by auto
qed

lemma secrets_grow_memo_ok:
  assumes "memo_ok cr kc"
    and "secrets_grow (kc_secrets kc) (kc_secrets kc') \<and> secrets_grow (kc_configmapsecrets kc) (kc_configmapsecrets kc')"
  shows "memo_ok cr kc'"
proof -
  have s: "\<forall>s\<in>set (map_values (kc_secrets kc)). memo_ok_secret cr s"
    and c: "\<forall>s\<in>set (map_values (kc_configmapsecrets kc)). memo_ok_secret cr s"
    using assms(1) by (simp_all add: memo_ok_def)
  show ?thesis
    unfolding memo_ok_def
    using secrets_grow_values [OF conjunct1 [OF assms(2)] s] secrets_grow_values [OF conjunct2 [OF assms(2)] c] by blast
qed

lemma Insert_memo_ok:
  assumes "Insert GetClass obj kc = Some (b, kc')" "memo_ok cr kc"
  shows "memo_ok cr kc'"
proof -
  obtain n where "maybeInsert GetClass obj kc = Some (b, n, kc')"
    using assms(1) by (auto simp: Insert_def split: option.splits)
  then show ?thesis by (rule secrets_grow_memo_ok [OF assms(2) maybeInsert_secrets])
qed

lemma cache_Remove_cases:
  "cache_Remove obj kc = Some (b, kc') \<Longrightarrow> \<exists>obj n. cache_remove obj kc = Some (b, n, kc')"
  by (induction obj) (auto split: option.splits)

lemma cache_Remove_memo_ok:
  assumes "cache_Remove obj kc = Some (b, kc')" "memo_ok cr kc"
  shows "memo_ok cr kc'"
proof -
  obtain obj n where "cache_remove obj kc = Some (b, n, kc')" using cache_Remove_cases [OF assms(1)] by (elim exE)
  then show ?thesis by (rule secrets_grow_memo_ok [OF assms(2) cache_remove_secrets])
qed

lemma configmap_memo_ok: "memo_ok cr kc \<Longrightarrow> memo_ok cr (snd (LookupCAConfigMap cr name kc))"
  using memo_ok_lookup(2) [of cr kc name]
  by (auto simp: LookupCAConfigMap_def Let_def memo_ok_secret_def memo_valid intro!: memo_ok_put(2) split: option.splits)

lemma insecure_memo_ok: "memo_ok cr kc \<Longrightarrow> memo_ok cr (snd (LookupTLSSecretInsecure cr name kc))"
  using memo_ok_lookup(1) [of cr kc name]
  by (auto simp: LookupTLSSecretInsecure_def Let_def memo_ok_secret_def memo_valid intro!: memo_ok_put(1) split: option.splits)

lemma cache_step_memo_ok: "cache_step cr kc kc' \<Longrightarrow> memo_ok cr kc \<Longrightarrow> memo_ok cr kc'"
  by (induction rule: cache_step.induct)
     (auto intro: Insert_memo_ok cache_Remove_memo_ok tls.get_memo_ok ca.get_memo_ok crl.get_memo_ok configmap_memo_ok insecure_memo_ok)

definition fresh_cache :: "KubernetesCache \<Rightarrow> bool" where
  "fresh_cache kc \<longleftrightarrow> kc_secrets kc = [] \<and> kc_configmapsecrets kc = []"

lemma reachable_memo_ok: "(cache_step cr)\<^sup>*\<^sup>* kc0 kc \<Longrightarrow> fresh_cache kc0 \<Longrightarrow> memo_ok cr kc"
proof (induction rule: rtranclp_induct)
  case base
  then show ?case by (simp add: fresh_cache_def memo_ok_def map_values_def)
qed (simp add: cache_step_memo_ok)


definition sample_crypto :: crypto where
  "sample_crypto = \<lparr>PemDecode = (\<lambda>data. Some ((if strings_Contains data ''CERT'' then ''CERTIFICATE'' else ''PRIVATE KEY'', ''''), length data)),
     ParseCertificate = (\<lambda>_. Ok \<lparr>crt_CommonName = ''a.example.com'', crt_DNSNames = [], crt_IPAddresses = []\<rparr>),
     ParsePKCS8PrivateKey = (\<lambda>_. None), ParsePKCS1PrivateKey = (\<lambda>_. None), ParseECPrivateKey = (\<lambda>_. None)\<rparr>"

definition sample_secret :: CoreSecret where
  "sample_secret = \<lparr>csec_Name = ''cert'', csec_Namespace = ''certs'', csec_Type = SecretTypeTLS,
     csec_Data = [(''tls.crt'', ''-----BEGIN CERT-----''), (''tls.key'', ''-----BEGIN KEY-----'')]\<rparr>"

definition sample_delegation :: TLSCertificateDelegation where
  "sample_delegation = \<lparr>tcd_Name = ''d'', tcd_Namespace = ''certs'',
     tcd_Delegations = [\<lparr>cd_SecretName = ''cert'', cd_TargetNamespaces = [''team'']\<rparr>]\<rparr>"

definition sample_cache :: KubernetesCache where
  "sample_cache = empty_cache\<lparr>kc_secrets := [(NamespacedNameOf ''certs'' ''cert'', new_secret sample_secret)],
     kc_tlscertificatedelegations := [(NamespacedNameOf ''certs'' ''d'', sample_delegation)]\<rparr>"


section \<open>Changes of services\<close>

lemma any_backend_False: "any_backend name bs = Some False \<Longrightarrow> \<forall>b\<in>set bs. \<exists>s. ib_Service b = Some s \<and> isb_Name s \<noteq> name"
  by (induction bs) (auto split: option.splits if_splits)

lemma any_ingress_False:
  "any_ingress service is = Some False \<Longrightarrow>
   \<forall>i\<in>set is. ing_Namespace i = csv_Namespace service \<longrightarrow>
     (\<forall>b\<in>set (ingress_backends i). \<exists>s. ib_Service b = Some s \<and> isb_Name s \<noteq> csv_Name service)"
  by (induction "is") (auto dest: any_backend_False split: option.splits if_splits bool.splits)




text \<open>
  An Ingress whose default backend is a resource and not a service makes the next insertion of a service of its
  namespace dereference a nil pointer.
\<close>

theorem service_insert_panics:
  "Insert GetClass (ServiceObj (zero_CoreService\<lparr>csv_Name := s, csv_Namespace := ns\<rparr>))
     (empty_cache\<lparr>kc_ingresses := [(n, zero_Ingress\<lparr>ing_Namespace := ns, ing_DefaultBackend := Some \<lparr>ib_Service = None\<rparr>\<rparr>)]\<rparr>) = None"
  by (simp add: Insert_def maybeInsert_def serviceTriggersRebuild_def empty_cache_def map_values_def zero_Ingress_def
      ingress_backends_def Let_def)

lemma match_port_ok:
  "match_port port ps = Ok (Some p) \<Longrightarrow> p \<in> set ps \<and> (port_Port p = IntValue port \<or> IntOrString_String port = port_Name p) \<and>
     (port_Protocol p = '''' \<or> port_Protocol p = ''TCP'')"
  by (induction ps) (auto split: if_splits)

lemma LookupService_ok:
  "LookupService kc meta port = Ok (svc, p) \<Longrightarrow>
   lookup (kc_services kc) meta = Some svc \<and> p \<in> set (csv_Ports svc) \<and>
   (port_Port p = IntValue port \<or> IntOrString_String port = port_Name p) \<and> (port_Protocol p = '''' \<or> port_Protocol p = ''TCP'')"
  by (auto simp: LookupService_def split: option.splits sum.splits dest!: match_port_ok)

end
