(* ===== verification/Gateway_Listeners.thy ===== *)
theory Gateway_Listeners
  imports Kube_Cache
begin

text \<open>
  \<open>internal/gatewayapi/listeners.go\<close>: which listeners of a Gateway are accepted, and the ports Envoy listens on for
  them.  The syntax checks of \<open>net\<close> and of \<open>k8s.io/apimachinery\<close> on host names are the parameters of \<open>hostnames\<close>.
  Port numbers are those of the Gateway API, 1 to 65535, so the \<open>int32\<close> sums do not wrap.
\<close>

record hostnames =
  ParseIP :: "string \<Rightarrow> bool"
  IsWildcardDNS1123Subdomain :: "string \<Rightarrow> string list"
  IsDNS1123Subdomain :: "string \<Rightarrow> string list"

record MetaCondition =
  mcn_Type :: string
  mcn_Status :: string
  mcn_Reason :: string
  mcn_Message :: string

record ListenerPort =
  lp_Name :: string
  lp_Port :: int
  lp_ContainerPort :: int
  lp_Protocol :: string

record ValidateListenersResult =
  vlr_ListenerNames :: "(string, string) gomap"
  vlr_Ports :: "ListenerPort list"
  vlr_InvalidListenerConditions :: "(string, MetaCondition) gomap"

abbreviation HTTPProtocolType :: string where "HTTPProtocolType \<equiv> ''HTTP''"
abbreviation HTTPSProtocolType :: string where "HTTPSProtocolType \<equiv> ''HTTPS''"
abbreviation TLSProtocolType :: string where "TLSProtocolType \<equiv> ''TLS''"
abbreviation TCPProtocolType :: string where "TCPProtocolType \<equiv> ''TCP''"
abbreviation ContourHTTPSProtocolType :: string where "ContourHTTPSProtocolType \<equiv> ''projectcontour.io/https''"

definition conflictedCondition :: "string \<Rightarrow> string \<Rightarrow> MetaCondition" where
  "conflictedCondition reason msg =
     \<lparr>mcn_Type = ''Conflicted'', mcn_Status = ''True'', mcn_Reason = reason, mcn_Message = msg\<rparr>"

definition toContainerPort :: "int \<Rightarrow> int" where
  "toContainerPort listenerPort =
     (let containerPort = listenerPort + 8000;
          containerPort = (if containerPort > 65535 then containerPort - 65535 else containerPort);
          containerPort = (if containerPort \<le> 1023 then containerPort + 1023 else containerPort)
      in containerPort)"

definition IsValidHostname :: "hostnames \<Rightarrow> string \<Rightarrow> string option" where
  "IsValidHostname hn hostname =
     (if ParseIP hn hostname
      then Some (''invalid hostname '' @ go_quote hostname @ '': must be a DNS name, not an IP address'')
      else let errs = (if strings_Contains hostname ''*'' then IsWildcardDNS1123Subdomain hn hostname
                       else IsDNS1123Subdomain hn hostname)
           in if errs \<noteq> [] then Some (''invalid hostname '' @ go_quote hostname @ '': '' @ go_list errs) else None)"

definition compatibleTLSProtocols :: "string list" where
  "compatibleTLSProtocols = [HTTPSProtocolType, TLSProtocolType, ContourHTTPSProtocolType]"

definition deref :: "string option \<Rightarrow> string" where
  "deref s = (case s of Some x \<Rightarrow> x | None \<Rightarrow> '''')"

text \<open>The body of the loop over the earlier listeners: the condition to set, None to go on with the next one.\<close>

definition listener_conflict :: "GatewayListener \<Rightarrow> GatewayListener \<Rightarrow> MetaCondition option" where
  "listener_conflict listener otherListener =
     (if gwl_Port listener \<noteq> gwl_Port otherListener then
        (if toContainerPort (gwl_Port listener) = toContainerPort (gwl_Port otherListener)
         then Some \<lparr>mcn_Type = ''Accepted'', mcn_Status = ''False'', mcn_Reason = ''PortUnavailable'',
                     mcn_Message = ''Listener port conflicts with a previous Listener'' @ [CHR 0x27] @ ''s port''\<rparr>
         else None)
      else
        let conflict = conflictedCondition ''ProtocolConflict'' ''All Listener protocols for a given port must be compatible'';
            hostname = (if deref (gwl_Hostname listener) = deref (gwl_Hostname otherListener)
                        then Some (conflictedCondition ''HostnameConflict'' ''All Listener hostnames for a given port must be unique'')
                        else None)
        in if gwl_Protocol listener = HTTPProtocolType then
             (if gwl_Protocol otherListener \<noteq> HTTPProtocolType then Some conflict else hostname)
           else if gwl_Protocol listener \<in> set compatibleTLSProtocols then
             (if gwl_Protocol otherListener \<notin> set compatibleTLSProtocols then Some conflict else hostname)
           else if gwl_Protocol listener = TCPProtocolType then
             (if gwl_Protocol otherListener \<noteq> TCPProtocolType then Some conflict else hostname)
           else hostname)"

fun listener_conflicts :: "GatewayListener \<Rightarrow> GatewayListener list \<Rightarrow> MetaCondition option" where
  "listener_conflicts listener [] = None"
| "listener_conflicts listener (other # others) =
     (case listener_conflict listener other of Some c \<Rightarrow> Some c | None \<Rightarrow> listener_conflicts listener others)"

definition supported_protocols :: "string list" where
  "supported_protocols =
     [HTTPProtocolType, HTTPSProtocolType, TLSProtocolType, TCPProtocolType, ContourHTTPSProtocolType]"

definition envoy_protocol :: "string \<Rightarrow> string" where
  "envoy_protocol protocol =
     (if protocol = HTTPProtocolType then ''http''
      else if protocol \<in> {HTTPSProtocolType, TLSProtocolType, ContourHTTPSProtocolType} then ''https''
      else if protocol = TCPProtocolType then ''tcp'' else '''')"

text \<open>The checks on one listener, after the earlier ones \<open>prev\<close>: the condition of an invalid listener.\<close>

definition listener_invalid :: "hostnames \<Rightarrow> GatewayListener list \<Rightarrow> GatewayListener \<Rightarrow> MetaCondition option" where
  "listener_invalid hn prev listener =
     (let hostname = deref (gwl_Hostname listener) in
      case (if length hostname > 0 then IsValidHostname hn hostname else None) of
        Some err \<Rightarrow> Some \<lparr>mcn_Type = ''Programmed'', mcn_Status = ''False'', mcn_Reason = ''Invalid'', mcn_Message = err\<rparr>
      | None \<Rightarrow>
          if gwl_Protocol listener \<notin> set supported_protocols
          then Some \<lparr>mcn_Type = ''Accepted'', mcn_Status = ''False'', mcn_Reason = ''UnsupportedProtocol'',
                      mcn_Message = ''Listener protocol '' @ go_quote (gwl_Protocol listener)
                        @ '' is unsupported, must be one of HTTP, HTTPS, TLS, TCP or projectcontour.io/https''\<rparr>
          else listener_conflicts listener prev)"

definition listener_port :: "GatewayListener \<Rightarrow> ListenerPort" where
  "listener_port listener =
     (let protocol = envoy_protocol (gwl_Protocol listener) in
      \<lparr>lp_Name = protocol @ ''-'' @ strconv_Itoa (gwl_Port listener), lp_Port = gwl_Port listener,
       lp_ContainerPort = toContainerPort (gwl_Port listener), lp_Protocol = protocol\<rparr>)"

definition add_port :: "ListenerPort \<Rightarrow> ListenerPort list \<Rightarrow> ListenerPort list" where
  "add_port port ports = (if \<exists>p\<in>set ports. lp_Name p = lp_Name port then ports else ports @ [port])"

definition validate_listener ::
  "hostnames \<Rightarrow> GatewayListener list \<Rightarrow> GatewayListener \<Rightarrow> ValidateListenersResult \<Rightarrow> ValidateListenersResult" where
  "validate_listener hn prev listener result =
     (case listener_invalid hn prev listener of
        Some cond \<Rightarrow>
          result\<lparr>vlr_InvalidListenerConditions := put (gwl_Name listener) cond (vlr_InvalidListenerConditions result)\<rparr>
      | None \<Rightarrow>
          result\<lparr>vlr_ListenerNames := put (gwl_Name listener) (lp_Name (listener_port listener)) (vlr_ListenerNames result),
                 vlr_Ports := add_port (listener_port listener) (vlr_Ports result)\<rparr>)"

fun validate_listeners ::
  "hostnames \<Rightarrow> GatewayListener list \<Rightarrow> GatewayListener list \<Rightarrow> ValidateListenersResult \<Rightarrow> ValidateListenersResult" where
  "validate_listeners hn prev [] result = result"
| "validate_listeners hn prev (l # ls) result = validate_listeners hn (prev @ [l]) ls (validate_listener hn prev l result)"

definition ValidateListeners :: "hostnames \<Rightarrow> GatewayListener list \<Rightarrow> ValidateListenersResult" where
  "ValidateListeners hn listeners =
     validate_listeners hn [] listeners
       \<lparr>vlr_ListenerNames = [], vlr_Ports = [], vlr_InvalidListenerConditions = []\<rparr>"

section \<open>Accepted listeners\<close>

text \<open>The listeners the loop accepts, in order.\<close>

fun accepted_listeners :: "hostnames \<Rightarrow> GatewayListener list \<Rightarrow> GatewayListener list \<Rightarrow> GatewayListener list" where
  "accepted_listeners hn prev [] = []"
| "accepted_listeners hn prev (l # ls) =
     (if listener_invalid hn prev l = None then [l] else []) @ accepted_listeners hn (prev @ [l]) ls"

lemma listener_conflicts_None: "listener_conflicts l ls = None \<longleftrightarrow> (\<forall>o'\<in>set ls. listener_conflict l o' = None)"
  by (induction ls) (auto split: option.splits)

lemma accepted_subset: "set (accepted_listeners hn prev ls) \<subseteq> set ls"
  by (induction hn prev ls rule: accepted_listeners.induct) auto

lemma listener_valid_sound:
  assumes "listener_invalid hn prev l = None"
  shows "gwl_Protocol l \<in> set supported_protocols" "\<forall>a\<in>set prev. listener_conflict l a = None"
proof -
  have "gwl_Protocol l \<in> set supported_protocols \<and> listener_conflicts l prev = None"
    using assms unfolding listener_invalid_def Let_def by (simp split: option.splits if_splits)
  then show "gwl_Protocol l \<in> set supported_protocols" "\<forall>a\<in>set prev. listener_conflict l a = None"
    by (simp_all add: listener_conflicts_None)
qed

lemma accepted_sound:
  "b \<in> set (accepted_listeners hn prev ls) \<Longrightarrow>
   gwl_Protocol b \<in> set supported_protocols \<and> (\<forall>a\<in>set prev. listener_conflict b a = None)"
proof (induction hn prev ls rule: accepted_listeners.induct)
  case (2 hn prev l ls)
  then consider "b = l" "listener_invalid hn prev l = None" | "b \<in> set (accepted_listeners hn (prev @ [l]) ls)"
    by (auto split: if_splits)
  then show ?case
  proof cases
    case 1
    then show ?thesis using listener_valid_sound [of hn prev l] by simp
  next
    case 2
    then show ?thesis using "2.IH" by simp
  qed
qed simp

lemma accepted_pairwise:
  "sorted_wrt (\<lambda>a b. listener_conflict b a = None) (accepted_listeners hn prev ls)"
proof (induction hn prev ls rule: accepted_listeners.induct)
  case (2 hn prev l ls)
  moreover have "\<forall>b\<in>set (accepted_listeners hn (prev @ [l]) ls). listener_conflict b l = None"
    using accepted_sound [of _ hn "prev @ [l]" ls] by simp
  ultimately show ?case by simp
qed simp

lemma protocol_class:
  assumes "p \<in> set supported_protocols"
  obtains "p = HTTPProtocolType" "p \<notin> set compatibleTLSProtocols" "envoy_protocol p = ''http''"
  | "p \<noteq> HTTPProtocolType" "p \<in> set compatibleTLSProtocols" "envoy_protocol p = ''https''"
  | "p \<noteq> HTTPProtocolType" "p \<notin> set compatibleTLSProtocols" "p = TCPProtocolType" "envoy_protocol p = ''tcp''"
proof -
  have "p = HTTPProtocolType \<or> p = HTTPSProtocolType \<or> p = TLSProtocolType \<or> p = TCPProtocolType \<or> p = ContourHTTPSProtocolType"
    using assms by (simp add: supported_protocols_def)
  then show ?thesis
    by (elim disjE; simp add: that compatibleTLSProtocols_def envoy_protocol_def)
qed

lemma no_conflict_other_port: "listener_conflict b a = None \<Longrightarrow> gwl_Port a \<noteq> gwl_Port b \<Longrightarrow>
   toContainerPort (gwl_Port a) \<noteq> toContainerPort (gwl_Port b)"
  by (auto simp: listener_conflict_def)

lemma no_conflict_same_port:
  assumes "listener_conflict b a = None" "gwl_Port a = gwl_Port b"
    and "gwl_Protocol a \<in> set supported_protocols" "gwl_Protocol b \<in> set supported_protocols"
  shows "envoy_protocol (gwl_Protocol a) = envoy_protocol (gwl_Protocol b) \<and> deref (gwl_Hostname a) \<noteq> deref (gwl_Hostname b)"
  using assms(1,2)
  by (cases rule: protocol_class [OF assms(3)]; cases rule: protocol_class [OF assms(4)])
     (simp_all add: listener_conflict_def Let_def split: if_splits)

lemma accepted_compatible:
  assumes "a \<in> set (accepted_listeners hn prev ls)" "b \<in> set (accepted_listeners hn prev ls)" "a \<noteq> b"
  shows "gwl_Port a = gwl_Port b \<Longrightarrow> envoy_protocol (gwl_Protocol a) = envoy_protocol (gwl_Protocol b)"
    and "gwl_Port a = gwl_Port b \<Longrightarrow> deref (gwl_Hostname a) \<noteq> deref (gwl_Hostname b)"
    and "gwl_Port a \<noteq> gwl_Port b \<Longrightarrow> toContainerPort (gwl_Port a) \<noteq> toContainerPort (gwl_Port b)"
proof -
  let ?xs = "accepted_listeners hn prev ls"
  obtain i j where ij: "i < length ?xs" "j < length ?xs" "?xs ! i = a" "?xs ! j = b"
    using assms(1,2) by (metis in_set_conv_nth)
  have sup: "gwl_Protocol a \<in> set supported_protocols" "gwl_Protocol b \<in> set supported_protocols"
    using accepted_sound assms(1,2) by blast+
  have nth: "listener_conflict (?xs ! q) (?xs ! p) = None" if "p < q" "q < length ?xs" for p q
    using sorted_wrt_nth_less [OF accepted_pairwise that] .
  have "i \<noteq> j" using ij assms(3) by blast
  then have conflict: "listener_conflict b a = None \<or> listener_conflict a b = None"
    using nth [of i j] nth [of j i] ij by (metis linorder_neqE_nat)
  show "gwl_Port a = gwl_Port b \<Longrightarrow> envoy_protocol (gwl_Protocol a) = envoy_protocol (gwl_Protocol b)"
    using conflict no_conflict_same_port [OF _ _ sup] no_conflict_same_port [OF _ _ sup(2,1)] by metis
  show "gwl_Port a = gwl_Port b \<Longrightarrow> deref (gwl_Hostname a) \<noteq> deref (gwl_Hostname b)"
    using conflict no_conflict_same_port [OF _ _ sup] no_conflict_same_port [OF _ _ sup(2,1)] by metis
  show "gwl_Port a \<noteq> gwl_Port b \<Longrightarrow> toContainerPort (gwl_Port a) \<noteq> toContainerPort (gwl_Port b)"
    using conflict no_conflict_other_port [of b a] no_conflict_other_port [of a b] by metis
qed

section \<open>The result\<close>

lemma validate_listeners_eq:
  "vlr_Ports (validate_listeners hn prev ls r) = fold (add_port \<circ> listener_port) (accepted_listeners hn prev ls) (vlr_Ports r)"
  "vlr_ListenerNames (validate_listeners hn prev ls r) =
     fold (\<lambda>l. put (gwl_Name l) (lp_Name (listener_port l))) (accepted_listeners hn prev ls) (vlr_ListenerNames r)"
  by (induction hn prev ls r rule: validate_listeners.induct)
     (simp_all add: validate_listener_def split: option.splits)

lemma validate_listeners_invalid_other:
  "n \<notin> gwl_Name ` set ls \<Longrightarrow>
   lookup (vlr_InvalidListenerConditions (validate_listeners hn prev ls r)) n = lookup (vlr_InvalidListenerConditions r) n"
  by (induction hn prev ls r rule: validate_listeners.induct)
     (simp_all add: validate_listener_def lookup_put split: option.splits)

lemma validate_listeners_invalid:
  "distinct (map gwl_Name ls) \<Longrightarrow> l \<in> set ls \<Longrightarrow> lookup (vlr_InvalidListenerConditions r) (gwl_Name l) = None \<Longrightarrow>
   (lookup (vlr_InvalidListenerConditions (validate_listeners hn prev ls r)) (gwl_Name l) = None \<longleftrightarrow>
    l \<in> set (accepted_listeners hn prev ls))"
proof (induction hn prev ls r rule: validate_listeners.induct)
  case (2 hn prev k ls r)
  show ?case
  proof (cases "l = k")
    case True
    then have "gwl_Name l \<notin> gwl_Name ` set ls" "l \<notin> set (accepted_listeners hn (prev @ [k]) ls)"
      using 2 accepted_subset [of hn "prev @ [k]" ls] by auto
    with True 2 show ?thesis
      by (auto simp: validate_listeners_invalid_other validate_listener_def lookup_put split: option.splits)
  next
    case False
    then have "gwl_Name l \<noteq> gwl_Name k" using 2 by (auto simp: image_iff)
    then have "lookup (vlr_InvalidListenerConditions (validate_listener hn prev k r)) (gwl_Name l) = None"
      using 2 by (simp add: validate_listener_def lookup_put split: option.splits)
    with False 2 show ?thesis by simp
  qed
qed simp

lemma add_port_names: "lp_Name ` set (add_port p ps) = insert (lp_Name p) (lp_Name ` set ps)"
proof (cases "\<exists>q\<in>set ps. lp_Name q = lp_Name p")
  case True
  then have "lp_Name p \<in> lp_Name ` set ps" by (metis imageI)
  with True show ?thesis by (auto simp: add_port_def)
qed (auto simp: add_port_def)

lemma add_ports_names:
  "lp_Name ` set (fold (add_port \<circ> listener_port) ls ps) = lp_Name ` set ps \<union> lp_Name ` listener_port ` set ls"
  by (induction ls arbitrary: ps) (auto simp: add_port_names)

lemma add_ports_subset: "set (fold (add_port \<circ> listener_port) ls ps) \<subseteq> set ps \<union> listener_port ` set ls"
proof (induction ls arbitrary: ps)
  case (Cons l ls)
  then have "set (fold (add_port \<circ> listener_port) ls (add_port (listener_port l) ps))
               \<subseteq> set (add_port (listener_port l) ps) \<union> listener_port ` set ls" by blast
  also have "\<dots> \<subseteq> set ps \<union> listener_port ` set (l # ls)" by (auto simp: add_port_def)
  finally show ?case by (simp add: comp_def)
qed simp

lemma add_ports_distinct:
  "distinct (map lp_Name ps) \<Longrightarrow> distinct (map lp_Name (fold (add_port \<circ> listener_port) ls ps))"
proof (induction ls arbitrary: ps)
  case (Cons l ls)
  then have "distinct (map lp_Name (add_port (listener_port l) ps))" by (auto simp: add_port_def)
  with Cons show ?case by simp
qed simp

lemma fold_names_other:
  "n \<notin> gwl_Name ` set ls \<Longrightarrow> lookup (fold (\<lambda>l. put (gwl_Name l) (f l)) ls m) n = lookup m n"
  by (induction ls arbitrary: m) (auto simp: lookup_put)

lemma fold_names:
  "distinct (map gwl_Name ls) \<Longrightarrow> l \<in> set ls \<Longrightarrow>
   lookup (fold (\<lambda>l. put (gwl_Name l) (f l)) ls m) (gwl_Name l) = Some (f l)"
  by (induction ls arbitrary: m) (auto simp: lookup_put fold_names_other)

lemma accepted_distinct:
  "distinct (map gwl_Name ls) \<Longrightarrow> distinct (map gwl_Name (accepted_listeners hn prev ls))"
  by (induction hn prev ls rule: accepted_listeners.induct) (use accepted_subset in \<open>auto simp: image_iff, blast+\<close>)

lemma toContainerPort_bounds:
  "1 \<le> p \<Longrightarrow> p \<le> 65535 \<Longrightarrow> 1024 \<le> toContainerPort p \<and> toContainerPort p \<le> 65535"
  by (simp add: toContainerPort_def Let_def)

lemma nat_digits_inj: "nat_digits m = nat_digits n \<Longrightarrow> m = n"
  by (metis option.inject parse_digits_nat_digits)

lemma nat_digits_no_minus: "nat_digits n \<noteq> CHR ''-'' # s"
proof
  assume "nat_digits n = CHR ''-'' # s"
  then have "parse_digits (CHR ''-'' # s) 0 = Some n" by (metis parse_digits_nat_digits)
  then show False by (simp add: digit_value_def)
qed

lemma Itoa_neg: "i < 0 \<Longrightarrow> strconv_Itoa i = CHR ''-'' # nat_digits (nat (- i))"
  unfolding strconv_Itoa_def by simp

lemma Itoa_nonneg: "0 \<le> i \<Longrightarrow> strconv_Itoa i = nat_digits (nat i)"
  unfolding strconv_Itoa_def by simp

lemma Itoa_inj:
  assumes "strconv_Itoa i = strconv_Itoa j"
  shows "i = j"
proof (cases "i < 0"; cases "j < 0")
  assume "i < 0" "j < 0"
  with assms have "nat (- i) = nat (- j)" by (auto simp only: Itoa_neg list.inject intro: nat_digits_inj)
  with \<open>i < 0\<close> \<open>j < 0\<close> show ?thesis by linarith
next
  assume "\<not> i < 0" "\<not> j < 0"
  then have "nat i = nat j" using assms Itoa_nonneg [of i] Itoa_nonneg [of j] by (metis linorder_not_less nat_digits_inj)
  with \<open>\<not> i < 0\<close> \<open>\<not> j < 0\<close> show ?thesis by linarith
qed (metis assms Itoa_neg Itoa_nonneg linorder_not_less nat_digits_no_minus)+

lemma Itoa_eq_iff: "strconv_Itoa i = strconv_Itoa j \<longleftrightarrow> i = j"
  using Itoa_inj by blast

text \<open>The name of a port determines it.\<close>

lemma listener_port_name:
  assumes "gwl_Protocol l \<in> set supported_protocols" "gwl_Protocol l' \<in> set supported_protocols"
    and "lp_Name (listener_port l) = lp_Name (listener_port l')"
  shows "listener_port l = listener_port l'"
  using assms(3)
  by (cases rule: protocol_class [OF assms(1)]; cases rule: protocol_class [OF assms(2)])
     (simp_all add: listener_port_def Let_def Itoa_eq_iff)

lemma ports_of_accepted:
  "set (vlr_Ports (ValidateListeners hn ls)) = listener_port ` set (accepted_listeners hn [] ls)"
proof -
  let ?acc = "accepted_listeners hn [] ls" and ?ports = "vlr_Ports (ValidateListeners hn ls)"
  have ports: "?ports = fold (add_port \<circ> listener_port) ?acc []" by (simp add: ValidateListeners_def validate_listeners_eq)
  have sub: "set ?ports \<subseteq> listener_port ` set ?acc" using add_ports_subset [of ?acc "[]"] by (simp add: ports)
  have "listener_port l \<in> set ?ports" if l: "l \<in> set ?acc" for l
  proof -
    have "lp_Name (listener_port l) \<in> lp_Name ` set ?ports" using l by (simp add: ports add_ports_names)
    then obtain p where p: "p \<in> set ?ports" "lp_Name (listener_port l) = lp_Name p" by blast
    with sub obtain l' where l': "l' \<in> set ?acc" "p = listener_port l'" by blast
    then show ?thesis using p l listener_port_name [of l l'] accepted_sound [where ls = ls] by metis
  qed
  with sub show ?thesis by blast
qed

lemma container_port_unique:
  assumes "p \<in> set (vlr_Ports (ValidateListeners hn ls))" "q \<in> set (vlr_Ports (ValidateListeners hn ls))"
    and "lp_ContainerPort p = lp_ContainerPort q"
  shows "p = q"
proof -
  obtain l l' where l: "l \<in> set (accepted_listeners hn [] ls)" "p = listener_port l"
      "l' \<in> set (accepted_listeners hn [] ls)" "q = listener_port l'"
    using assms by (auto simp: ports_of_accepted)
  have "toContainerPort (gwl_Port l) = toContainerPort (gwl_Port l')" using assms l by (simp add: listener_port_def Let_def)
  then have "gwl_Port l = gwl_Port l' \<and> envoy_protocol (gwl_Protocol l) = envoy_protocol (gwl_Protocol l')"
    using accepted_compatible [OF l(1,3)] by metis
  then show ?thesis using l by (simp add: listener_port_def Let_def)
qed

lemma ports_distinct:
  fixes hn ls
  defines "ports \<equiv> vlr_Ports (ValidateListeners hn ls)"
  shows "distinct (map lp_Name ports)" "distinct (map lp_ContainerPort ports)" "distinct (map lp_Port ports)"
proof -
  show names: "distinct (map lp_Name ports)"
    by (simp add: ports_def ValidateListeners_def validate_listeners_eq add_ports_distinct)
  then have list: "distinct ports" by (simp add: distinct_map)
  then show "distinct (map lp_ContainerPort ports)"
    using container_port_unique by (auto simp: distinct_map inj_on_def ports_def)
  have "lp_ContainerPort p = toContainerPort (lp_Port p)" if "p \<in> set ports" for p
    using that by (auto simp: ports_def ports_of_accepted listener_port_def Let_def)
  then show "distinct (map lp_Port ports)"
    using list container_port_unique by (auto simp: distinct_map inj_on_def ports_def)
qed

lemma accepted_iff_valid:
  "distinct (map gwl_Name ls) \<Longrightarrow> l \<in> set ls \<Longrightarrow>
   lookup (vlr_InvalidListenerConditions (ValidateListeners hn ls)) (gwl_Name l) = None \<longleftrightarrow> l \<in> set (accepted_listeners hn [] ls)"
  using validate_listeners_invalid [of ls l _ hn "[]"] by (simp add: ValidateListeners_def)

lemma accepted_names:
  assumes "distinct (map gwl_Name ls)" "l \<in> set ls"
  shows "lookup (vlr_ListenerNames (ValidateListeners hn ls)) (gwl_Name l) =
           (if l \<in> set (accepted_listeners hn [] ls) then Some (lp_Name (listener_port l)) else None)"
proof (cases "l \<in> set (accepted_listeners hn [] ls)")
  case True
  then show ?thesis
    using fold_names [OF accepted_distinct [OF assms(1)]] by (simp add: ValidateListeners_def validate_listeners_eq)
next
  case False
  then have "gwl_Name l \<notin> gwl_Name ` set (accepted_listeners hn [] ls)"
    using assms accepted_subset [of hn "[]" ls] by (auto simp: distinct_map inj_on_def)
  with False show ?thesis by (simp add: ValidateListeners_def validate_listeners_eq fold_names_other)
qed

text \<open>
  C31. \<open>ValidateListeners\<close> on the listeners of a Gateway, whose names are distinct.  The ports Envoy is to listen on have
  distinct names, distinct port numbers and distinct ports in the container, and each is the port of a valid listener;
  a listener is valid (has no condition set) exactly when it was given a name, and the name is that of a port in the
  list with its port number and protocol; and two valid listeners on one port have different host names.  A container
  port is never privileged.
\<close>

theorem ValidateListeners_correct:
  assumes "distinct (map gwl_Name listeners)" "r = ValidateListeners hn listeners"
  shows "distinct (map lp_Name (vlr_Ports r)) \<and> distinct (map lp_Port (vlr_Ports r)) \<and>
         distinct (map lp_ContainerPort (vlr_Ports r)) \<and>
         (\<forall>p\<in>set (vlr_Ports r). \<exists>l\<in>set listeners.
            lookup (vlr_InvalidListenerConditions r) (gwl_Name l) = None \<and> p = listener_port l) \<and>
         (\<forall>l\<in>set listeners. lookup (vlr_InvalidListenerConditions r) (gwl_Name l) = None \<longleftrightarrow>
            (\<exists>p\<in>set (vlr_Ports r). lookup (vlr_ListenerNames r) (gwl_Name l) = Some (lp_Name p) \<and>
               lp_Port p = gwl_Port l \<and> lp_Protocol p = envoy_protocol (gwl_Protocol l))) \<and>
         (\<forall>l\<in>set listeners. \<forall>l'\<in>set listeners.
            lookup (vlr_InvalidListenerConditions r) (gwl_Name l) = None \<longrightarrow>
            lookup (vlr_InvalidListenerConditions r) (gwl_Name l') = None \<longrightarrow>
            gwl_Port l = gwl_Port l' \<longrightarrow> l \<noteq> l' \<longrightarrow> deref (gwl_Hostname l) \<noteq> deref (gwl_Hostname l')) \<and>
         (\<forall>p\<in>set (vlr_Ports r). 1 \<le> lp_Port p \<and> lp_Port p \<le> 65535 \<longrightarrow>
            1024 \<le> lp_ContainerPort p \<and> lp_ContainerPort p \<le> 65535)"
proof (intro conjI)
  have r: "r = ValidateListeners hn listeners" by fact
  note valid = accepted_iff_valid [OF assms(1), where hn = hn, folded r]
  note names = accepted_names [OF assms(1), where hn = hn, folded r]
  note ports = ports_of_accepted [where hn = hn and ls = listeners, folded r]
  have sub: "set (accepted_listeners hn [] listeners) \<subseteq> set listeners" by (rule accepted_subset)
  show "distinct (map lp_Name (vlr_Ports r))" "distinct (map lp_Port (vlr_Ports r))"
    "distinct (map lp_ContainerPort (vlr_Ports r))"
    by (simp_all add: r ports_distinct)
  show "\<forall>p\<in>set (vlr_Ports r). \<exists>l\<in>set listeners.
          lookup (vlr_InvalidListenerConditions r) (gwl_Name l) = None \<and> p = listener_port l"
  proof
    fix p
    assume "p \<in> set (vlr_Ports r)"
    then obtain l where "l \<in> set (accepted_listeners hn [] listeners)" "p = listener_port l" unfolding ports by blast
    then show "\<exists>l\<in>set listeners. lookup (vlr_InvalidListenerConditions r) (gwl_Name l) = None \<and> p = listener_port l"
      using sub valid by blast
  qed
  show "\<forall>l\<in>set listeners. lookup (vlr_InvalidListenerConditions r) (gwl_Name l) = None \<longleftrightarrow>
          (\<exists>p\<in>set (vlr_Ports r). lookup (vlr_ListenerNames r) (gwl_Name l) = Some (lp_Name p) \<and>
             lp_Port p = gwl_Port l \<and> lp_Protocol p = envoy_protocol (gwl_Protocol l))"
  proof
    fix l
    assume l: "l \<in> set listeners"
    have "lp_Port (listener_port l) = gwl_Port l \<and> lp_Protocol (listener_port l) = envoy_protocol (gwl_Protocol l)"
      by (simp add: listener_port_def Let_def)
    with valid [OF l] names [OF l] show "lookup (vlr_InvalidListenerConditions r) (gwl_Name l) = None \<longleftrightarrow>
          (\<exists>p\<in>set (vlr_Ports r). lookup (vlr_ListenerNames r) (gwl_Name l) = Some (lp_Name p) \<and>
             lp_Port p = gwl_Port l \<and> lp_Protocol p = envoy_protocol (gwl_Protocol l))"
      unfolding ports by (cases "l \<in> set (accepted_listeners hn [] listeners)") auto
  qed
  show "\<forall>l\<in>set listeners. \<forall>l'\<in>set listeners. lookup (vlr_InvalidListenerConditions r) (gwl_Name l) = None \<longrightarrow>
          lookup (vlr_InvalidListenerConditions r) (gwl_Name l') = None \<longrightarrow> gwl_Port l = gwl_Port l' \<longrightarrow> l \<noteq> l' \<longrightarrow>
          deref (gwl_Hostname l) \<noteq> deref (gwl_Hostname l')"
    using accepted_compatible(2) [where hn = hn and prev = "[]" and ls = listeners] valid by blast
  show "\<forall>p\<in>set (vlr_Ports r). 1 \<le> lp_Port p \<and> lp_Port p \<le> 65535 \<longrightarrow>
          1024 \<le> lp_ContainerPort p \<and> lp_ContainerPort p \<le> 65535"
    using toContainerPort_bounds unfolding ports by (simp add: listener_port_def Let_def)
qed

definition sample_listener :: "string \<Rightarrow> string \<Rightarrow> int \<Rightarrow> GatewayListener" where
  "sample_listener name protocol port =
     \<lparr>gwl_Name = name, gwl_Hostname = None, gwl_Port = port, gwl_Protocol = protocol, gwl_CertificateRefs = None\<rparr>"

definition sample_hostnames :: hostnames where
  "sample_hostnames = \<lparr>ParseIP = (\<lambda>_. False), IsWildcardDNS1123Subdomain = (\<lambda>_. []), IsDNS1123Subdomain = (\<lambda>_. [])\<rparr>"

theorem ValidateListeners_correct_witness:
  "distinct (map lp_ContainerPort (vlr_Ports (ValidateListeners sample_hostnames
     [sample_listener ''a'' ''HTTP'' 57536, sample_listener ''b'' ''HTTP'' 58559, sample_listener ''c'' ''HTTPS'' 443])))"
  using ValidateListeners_correct [of "[sample_listener ''a'' ''HTTP'' 57536, sample_listener ''b'' ''HTTP'' 58559,
      sample_listener ''c'' ''HTTPS'' 443]" _ sample_hostnames]
  by (simp add: sample_listener_def)

end
