(* ===== verification/Go_Sort.thy ===== *)
theory Go_Sort
  imports Prelude "HOL-Library.Product_Lexorder"
begin

text \<open>
  Go's \<open>sort.Stable\<close> and \<open>sort.SliceStable\<close>, and what their callers may rely on.

  The library sorts blocks of twenty elements with the insertion sort below and merges the blocks.
  For a comparator that is a strict weak order every stable sort returns the same list, so the
  insertion sort stands for the library on inputs of any length; for a comparator that is not one
  it is exact on up to twenty elements.  The interface of a comparator is a hierarchy of locales:
  \<open>refines_order\<close> (a comparator that respects a coarser order), \<open>strict_weak\<close> (what
  \<open>sort.Interface\<close> asks of \<open>Less\<close>) and \<open>key_order\<close> (comparison of keys).
\<close>

section \<open>Insertion sort as in the Go library\<close>

text \<open>\<open>insertionSort\<close> swaps the element at \<open>j\<close> to the left while \<open>Less(j, j-1)\<close>.  The prefix that
  is already sorted is kept reversed, so the element next to \<open>j\<close> is its head.\<close>

fun insert_back :: "('a \<Rightarrow> 'a \<Rightarrow> bool) \<Rightarrow> 'a \<Rightarrow> 'a list \<Rightarrow> 'a list" where
  "insert_back Less x [] = [x]"
| "insert_back Less x (y # ys) = (if Less x y then y # insert_back Less x ys else x # y # ys)"

definition sort_Stable :: "('a \<Rightarrow> 'a \<Rightarrow> bool) \<Rightarrow> 'a list \<Rightarrow> 'a list" where
  "sort_Stable Less xs = rev (fold (insert_back Less) xs [])"

lemma mset_insert_back [simp]: "mset (insert_back Less x ys) = add_mset x (mset ys)"
  by (induction ys) auto

lemma set_insert_back [simp]: "set (insert_back Less x ys) = insert x (set ys)"
  by (induction ys) auto

lemma mset_fold_insert_back: "mset (fold (insert_back Less) xs acc) = mset xs + mset acc"
  by (induction xs arbitrary: acc) auto

lemma mset_sort_Stable [simp]: "mset (sort_Stable Less xs) = mset xs"
  by (simp add: sort_Stable_def mset_fold_insert_back)

lemma set_sort_Stable [simp]: "set (sort_Stable Less xs) = set xs"
  by (metis mset_sort_Stable set_mset_mset)

lemma length_sort_Stable [simp]: "length (sort_Stable Less xs) = length xs"
  by (metis mset_sort_Stable size_mset)

lemma distinct_sort_Stable [simp]: "distinct (sort_Stable Less xs) = distinct xs"
  by (metis mset_sort_Stable mset_eq_imp_distinct_iff)

lemma sort_Stable_simps [go_eval]:
  "sort_Stable Less [] = []"
  "sort_Stable Less [x] = [x]"
  "sort_Stable Less [x, y] = (if Less y x then [y, x] else [x, y])"
  by (auto simp: sort_Stable_def)

section \<open>Comparators\<close>

locale refines_order =
  fixes lt Less :: "'a \<Rightarrow> 'a \<Rightarrow> bool" and A :: "'a set"
  assumes lt_asym: "a \<in> A \<Longrightarrow> b \<in> A \<Longrightarrow> lt a b \<Longrightarrow> \<not> lt b a"
    and lt_neg_trans: "a \<in> A \<Longrightarrow> b \<in> A \<Longrightarrow> c \<in> A \<Longrightarrow> \<not> lt a b \<Longrightarrow> \<not> lt b c \<Longrightarrow> \<not> lt a c"
    and less_of_lt: "a \<in> A \<Longrightarrow> b \<in> A \<Longrightarrow> lt a b \<Longrightarrow> Less a b"
    and not_lt_of_less: "a \<in> A \<Longrightarrow> b \<in> A \<Longrightarrow> Less a b \<Longrightarrow> \<not> lt b a"
begin

lemma lt_trans: "a \<in> A \<Longrightarrow> b \<in> A \<Longrightarrow> c \<in> A \<Longrightarrow> lt a b \<Longrightarrow> lt b c \<Longrightarrow> lt a c"
  by (meson lt_asym lt_neg_trans)

lemma insert_back_sorted:
  assumes "x \<in> A" "set ys \<subseteq> A" "sorted_wrt (\<lambda>a b. \<not> lt a b) ys"
  shows "sorted_wrt (\<lambda>a b. \<not> lt a b) (insert_back Less x ys)"
  using assms
proof (induction ys)
  case (Cons y ys)
  show ?case
  proof (cases "Less x y")
    case True
    with Cons show ?thesis using not_lt_of_less [of x y] by auto
  next
    case False
    with Cons.prems have "\<not> lt x y" using less_of_lt by auto
    moreover have "\<not> lt x z" if "z \<in> set ys" for z
      using that Cons.prems \<open>\<not> lt x y\<close> lt_neg_trans [of x y z] by auto
    ultimately show ?thesis using False Cons.prems by auto
  qed
qed simp

lemma fold_insert_back_sorted:
  "set xs \<subseteq> A \<Longrightarrow> set acc \<subseteq> A \<Longrightarrow> sorted_wrt (\<lambda>a b. \<not> lt a b) acc \<Longrightarrow>
   sorted_wrt (\<lambda>a b. \<not> lt a b) (fold (insert_back Less) xs acc)"
  by (induction xs arbitrary: acc) (auto simp: insert_back_sorted)

theorem sort_Stable_respects:
  assumes "set xs \<subseteq> A"
  shows "sorted_wrt (\<lambda>a b. \<not> lt b a) (sort_Stable Less xs)"
  using fold_insert_back_sorted [of xs "[]"] assms by (simp add: sort_Stable_def sorted_wrt_rev)

text \<open>Where the coarser order already decides every pair, the sorted list does not depend on the order
  of the input.\<close>

lemma sorted_lists_equal:
  assumes "sorted_wrt (\<lambda>a b. \<not> lt b a) xs" "sorted_wrt (\<lambda>a b. \<not> lt b a) ys" "mset xs = mset ys"
    and "\<forall>a\<in>set xs. \<forall>b\<in>set xs. a \<noteq> b \<longrightarrow> lt a b \<or> lt b a"
  shows "xs = ys"
  using assms
proof (induction xs arbitrary: ys)
  case (Cons x xs)
  then obtain y zs where ys: "ys = y # zs" by (cases ys) auto
  have "x \<in> set ys" "y \<in> set (x # xs)" using Cons.prems(3) ys by (metis list.set_intros(1) set_mset_mset)+
  then have "x = y" using Cons.prems(1,2,4) ys by (metis list.set_intros(1) set_ConsD sorted_wrt.simps(2))
  moreover have "xs = zs" using Cons.IH [of zs] Cons.prems ys \<open>x = y\<close> by simp
  ultimately show ?case using ys by simp
qed simp

theorem sort_Stable_determined:
  assumes "set xs \<subseteq> A" "mset xs = mset ys" "\<forall>a\<in>set xs. \<forall>b\<in>set xs. a \<noteq> b \<longrightarrow> lt a b \<or> lt b a"
  shows "sort_Stable Less xs = sort_Stable Less ys"
proof -
  have "set xs = set ys" using assms(2) by (metis set_mset_mset)
  then show ?thesis using assms by (intro sorted_lists_equal sort_Stable_respects) simp_all
qed

end

locale strict_weak =
  fixes Less :: "'a \<Rightarrow> 'a \<Rightarrow> bool" and A :: "'a set"
  assumes less_asym: "a \<in> A \<Longrightarrow> b \<in> A \<Longrightarrow> Less a b \<Longrightarrow> \<not> Less b a"
    and less_neg_trans:
      "a \<in> A \<Longrightarrow> b \<in> A \<Longrightarrow> c \<in> A \<Longrightarrow> \<not> Less a b \<Longrightarrow> \<not> Less b c \<Longrightarrow> \<not> Less a c"

sublocale strict_weak \<subseteq> refines_order Less Less A
  by unfold_locales (use less_asym less_neg_trans in blast)+

context strict_weak
begin

definition equivalent :: "'a \<Rightarrow> 'a \<Rightarrow> bool" where
  "equivalent a b \<longleftrightarrow> \<not> Less a b \<and> \<not> Less b a"

lemma filter_insert_back:
  assumes "x \<in> A" "z \<in> A" "set ys \<subseteq> A"
  shows "filter (equivalent x) (insert_back Less z ys) = filter (equivalent x) (z # ys)"
  using assms
proof (induction ys)
  case (Cons y ys)
  have "\<not> equivalent x y" if "Less z y" "equivalent x z"
    using that Cons.prems less_neg_trans [of z x y] by (auto simp: equivalent_def)
  with Cons show ?case by auto
qed simp

lemma filter_fold_insert_back:
  "x \<in> A \<Longrightarrow> set xs \<subseteq> A \<Longrightarrow> set acc \<subseteq> A \<Longrightarrow>
   filter (equivalent x) (fold (insert_back Less) xs acc) = rev (filter (equivalent x) xs) @ filter (equivalent x) acc"
  by (induction xs arbitrary: acc) (auto simp: filter_insert_back)

theorem sort_Stable_stable:
  assumes "x \<in> A" "set xs \<subseteq> A"
  shows "filter (equivalent x) (sort_Stable Less xs) = filter (equivalent x) xs"
  using filter_fold_insert_back [of x xs "[]"] assms
  by (simp add: sort_Stable_def rev_filter [symmetric] del: rev_filter)

end

locale key_order =
  fixes Less :: "'a \<Rightarrow> 'a \<Rightarrow> bool" and key :: "'a \<Rightarrow> 'k::linorder" and A :: "'a set"
  assumes less_key: "a \<in> A \<Longrightarrow> b \<in> A \<Longrightarrow> Less a b \<longleftrightarrow> key a < key b"

sublocale key_order \<subseteq> strict_weak Less A
  by unfold_locales (auto simp: less_key)

context key_order
begin

theorem sort_Stable_sorted:
  assumes "set xs \<subseteq> A"
  shows "sorted (map key (sort_Stable Less xs))"
proof -
  have "sorted_wrt (\<lambda>a b. \<not> Less b a) (sort_Stable Less xs)"
    using assms by (rule sort_Stable_respects)
  then have "sorted_wrt (\<lambda>a b. key a \<le> key b) (sort_Stable Less xs)"
    by (rule sorted_wrt_mono_rel [rotated]) (use assms less_key in \<open>force simp: not_less\<close>)
  then show ?thesis by (simp add: sorted_wrt_map)
qed

text \<open>The sorted list does not depend on the order of the input when no two elements share a key:
  Contour iterates Go maps in an unspecified order and sorts afterwards.\<close>

theorem sort_Stable_deterministic:
  assumes A: "set xs \<subseteq> A" and perm: "mset xs = mset ys" and inj: "inj_on key (set xs)"
  shows "sort_Stable Less xs = sort_Stable Less ys"
proof -
  have set_eq: "set xs = set ys" using perm by (metis set_mset_mset)
  have "map key (sort_Stable Less xs) = map key (sort_Stable Less ys)"
  proof (rule properties_for_sort [symmetric, THEN trans])
    show "sorted (map key (sort_Stable Less xs))" using A by (rule sort_Stable_sorted)
    show "mset (map key (sort_Stable Less xs)) = mset (map key (sort_Stable Less ys))"
      using perm by simp
    show "sort (map key (sort_Stable Less ys)) = map key (sort_Stable Less ys)"
      using A set_eq by (intro sorted_sort_id sort_Stable_sorted) simp
  qed
  moreover have "inj_on key (set (sort_Stable Less xs) \<union> set (sort_Stable Less ys))"
    using inj set_eq by simp
  ultimately show ?thesis by (rule map_inj_on)
qed

end

end
