(* ===== verification/Dag_Build.thy ===== *)
theory Dag_Build
  imports Gateway_Listeners Go_Sort
begin

text \<open>
  The DAG under construction: \<open>internal/dag/accessors.go\<close>, \<open>internal/dag/builder.go\<close>,
  \<open>internal/dag/listener_processor.go\<close> and \<open>internal/xds/util.go\<close>.  An accessor that writes returns the new DAG.  A
  pointer to a virtual host is its position in the slice of its listener; None is a panic (a listener that does not
  exist, or a write to a nil map).
\<close>

section \<open>The DAG\<close>

record ExtensionCacheEntry =
  ece_Conditions :: "(string, DetailedCondition) gomap"
  ece_Name :: NamespacedName
  ece_Generation :: int
  ece_TransitionTime :: int

text \<open>Of the status cache, the updates of HTTPProxy objects and the entries by kind, which only extension services use.\<close>

record StatusCache =
  stc_gatewayRef :: NamespacedName
  stc_gatewayController :: string
  stc_proxyUpdates :: proxyUpdates
  stc_entries :: "(string, (NamespacedName, ExtensionCacheEntry) gomap) gomap"

definition NewCache :: "NamespacedName \<Rightarrow> string \<Rightarrow> StatusCache" where
  "NewCache gateway gatewayController =
     \<lparr>stc_gatewayRef = gateway, stc_gatewayController = gatewayController, stc_proxyUpdates = [], stc_entries = []\<rparr>"

record DAG =
  dag_StatusCache :: StatusCache
  dag_Listeners :: "(string, Listener) gomap"
  dag_ExtensionClusters :: "ExtensionCluster list"
  dag_HasDynamicListeners :: bool

section \<open>Services\<close>

definition ClusterLoadAssignmentName :: "NamespacedName \<Rightarrow> string \<Rightarrow> string" where
  "ClusterLoadAssignmentName service portName =
     (let name = [nn_Namespace service, nn_Name service, portName] in
      if portName = '''' then strings_Join (take 2 name) ''/'' else strings_Join name ''/'')"

definition externalName :: "CoreService \<Rightarrow> string" where
  "externalName svc = (if csv_Type svc \<noteq> ''ExternalName'' then '''' else csv_ExternalName svc)"

definition localhostNames :: "string list" where
  "localhostNames = [''localhost'', ''localhost.localdomain'', ''local.projectcontour.io'']"

definition validateExternalName :: "CoreService \<Rightarrow> bool \<Rightarrow> unit result" where
  "validateExternalName svc enableExternalNameSvc =
     (let en = externalName svc in
      if en = '''' then Ok ()
      else if \<not> enableExternalNameSvc
      then Err (csv_Namespace svc @ ''/'' @ csv_Name svc @ '' is an ExternalName service, these are not currently enabled. See the config.enableExternalNameService config file setting'')
      else if en \<in> set localhostNames
      then Err (csv_Namespace svc @ ''/'' @ csv_Name svc @ '' is an ExternalName service that points to localhost, this is not allowed'')
      else Ok ())"

definition toContourProtocol :: "string \<Rightarrow> string \<times> bool" where
  "toContourProtocol appProtocol =
     (case lookup [(''kubernetes.io/ws'', ''''), (''kubernetes.io/h2c'', ''h2c''), (''http'', ''''), (''https'', ''tls'')] appProtocol of
        Some proto \<Rightarrow> (proto, True)
      | None \<Rightarrow> ('''', False))"

definition upstreamProtocol :: "CoreService \<Rightarrow> ServicePort \<Rightarrow> string" where
  "upstreamProtocol svc port =
     (case port_AppProtocol port of
        Some appProtocol \<Rightarrow> fst (toContourProtocol appProtocol)
      | None \<Rightarrow>
          let up = ParseUpstreamProtocols (csv_Annotations svc);
              proto = map_bytes up (port_Name port)
          in if proto = '''' then map_bytes up (strconv_Itoa (port_Port port)) else proto)"

definition dag_Service :: "CoreService \<Rightarrow> ServicePort \<Rightarrow> ServicePort \<Rightarrow> Service" where
  "dag_Service svc svcPort healthSvcPort =
     \<lparr>sv_Weighted = \<lparr>ws_Weight = 1, ws_ServiceName = csv_Name svc, ws_ServiceNamespace = csv_Namespace svc,
                     ws_ServicePort = svcPort, ws_HealthPort = healthSvcPort\<rparr>,
      sv_Protocol = upstreamProtocol svc svcPort,
      sv_CircuitBreakers = \<lparr>cb_MaxConnections = MaxConnections (csv_Annotations svc),
         cb_MaxPendingRequests = MaxPendingRequests (csv_Annotations svc), cb_MaxRequests = MaxRequests (csv_Annotations svc),
         cb_MaxRetries = MaxRetries (csv_Annotations svc), cb_PerHostMaxConnections = PerHostMaxConnections (csv_Annotations svc)\<rparr>,
      sv_ExternalName = externalName svc\<rparr>"

definition EnsureService :: "KubernetesCache \<Rightarrow> NamespacedName \<Rightarrow> int \<Rightarrow> int \<Rightarrow> bool \<Rightarrow> Service result" where
  "EnsureService cache meta port healthPort enableExternalNameSvc =
     (case LookupService cache meta (FromInt port) of
        Inl err \<Rightarrow> Err err
      | Inr (svc, svcPort) \<Rightarrow>
          (case (if healthPort \<noteq> 0 \<and> healthPort \<noteq> port then map_sum id snd (LookupService cache meta (FromInt healthPort))
                 else Ok svcPort) of
             Inl err \<Rightarrow> Err err
           | Inr healthSvcPort \<Rightarrow>
               (case validateExternalName svc enableExternalNameSvc of
                  Inl err \<Rightarrow> Err err
                | Inr () \<Rightarrow> Ok (dag_Service svc svcPort healthSvcPort))))"

section \<open>Listeners and virtual hosts\<close>

fun single_listener :: "string \<Rightarrow> Listener list \<Rightarrow> Listener option \<Rightarrow> Listener result" where
  "single_listener protocol [] res =
     (case res of
        None \<Rightarrow> Err (''no '' @ strings_ToUpper protocol @ '' listener configured'')
      | Some l \<Rightarrow> Ok l)"
| "single_listener protocol (listener # ls) res =
     (if ln_Protocol listener \<noteq> protocol then single_listener protocol ls res
      else if res \<noteq> None then Err (''more than one '' @ strings_ToUpper protocol @ '' listener configured'')
      else single_listener protocol ls (Some listener))"

definition GetSingleListener :: "string \<Rightarrow> DAG \<Rightarrow> Listener result" where
  "GetSingleListener protocol d = single_listener protocol (map_values (dag_Listeners d)) None"

text \<open>A nil map reads as the empty one.\<close>

definition nil_lookup :: "('k, 'v) gomap option \<Rightarrow> 'k \<Rightarrow> 'v option" where
  "nil_lookup m k = (case m of None \<Rightarrow> None | Some m \<Rightarrow> lookup m k)"

definition listener_EnsureVirtualHost :: "string \<Rightarrow> Listener \<Rightarrow> (nat \<times> Listener) option" where
  "listener_EnsureVirtualHost hostname l =
     (case nil_lookup (ln_vhostsByName l) hostname of
        Some i \<Rightarrow> Some (i, l)
      | None \<Rightarrow>
          let vhost = zero_VirtualHost\<lparr>vh_Name := hostname\<rparr>; i = length (ln_VirtualHosts l) in
          (case ln_vhostsByName l of
             None \<Rightarrow> None
           | Some m \<Rightarrow> Some (i, l\<lparr>ln_VirtualHosts := ln_VirtualHosts l @ [vhost], ln_vhostsByName := Some (put hostname i m)\<rparr>)))"

definition listener_EnsureSecureVirtualHost :: "string \<Rightarrow> Listener \<Rightarrow> (nat \<times> Listener) option" where
  "listener_EnsureSecureVirtualHost hostname l =
     (case nil_lookup (ln_svhostsByName l) hostname of
        Some i \<Rightarrow> Some (i, l)
      | None \<Rightarrow>
          let svh = zero_SecureVirtualHost\<lparr>svh_VirtualHost := zero_VirtualHost\<lparr>vh_Name := hostname\<rparr>\<rparr>;
              i = length (ln_SecureVirtualHosts l) in
          (case ln_svhostsByName l of
             None \<Rightarrow> None
           | Some m \<Rightarrow> Some (i, l\<lparr>ln_SecureVirtualHosts := ln_SecureVirtualHosts l @ [svh], ln_svhostsByName := Some (put hostname i m)\<rparr>)))"

definition on_listener :: "(Listener \<Rightarrow> ('a \<times> Listener) option) \<Rightarrow> string \<Rightarrow> DAG \<Rightarrow> ('a \<times> DAG) option" where
  "on_listener f listener d =
     (case lookup (dag_Listeners d) listener of
        None \<Rightarrow> None
      | Some l \<Rightarrow> map_option (\<lambda>(i, l'). (i, d\<lparr>dag_Listeners := put listener l' (dag_Listeners d)\<rparr>)) (f l))"

definition EnsureVirtualHost :: "string \<Rightarrow> string \<Rightarrow> DAG \<Rightarrow> (nat \<times> DAG) option" where
  "EnsureVirtualHost listener hostname d = on_listener (listener_EnsureVirtualHost hostname) listener d"

definition EnsureSecureVirtualHost :: "string \<Rightarrow> string \<Rightarrow> DAG \<Rightarrow> (nat \<times> DAG) option" where
  "EnsureSecureVirtualHost listener hostname d = on_listener (listener_EnsureSecureVirtualHost hostname) listener d"

definition GetVirtualHost :: "string \<Rightarrow> string \<Rightarrow> DAG \<Rightarrow> nat option option" where
  "GetVirtualHost listener hostname d =
     map_option (\<lambda>l. nil_lookup (ln_vhostsByName l) hostname) (lookup (dag_Listeners d) listener)"

definition GetSecureVirtualHost :: "string \<Rightarrow> string \<Rightarrow> DAG \<Rightarrow> nat option option" where
  "GetSecureVirtualHost listener hostname d =
     map_option (\<lambda>l. nil_lookup (ln_svhostsByName l) hostname) (lookup (dag_Listeners d) listener)"

text \<open>Writes through the pointer that one of the two accessors returned.\<close>

definition write_vhost :: "string \<Rightarrow> nat \<Rightarrow> (VirtualHost \<Rightarrow> VirtualHost) \<Rightarrow> DAG \<Rightarrow> DAG" where
  "write_vhost listener i f d =
     (case lookup (dag_Listeners d) listener of
        None \<Rightarrow> d
      | Some l \<Rightarrow> d\<lparr>dag_Listeners := put listener
                    (l\<lparr>ln_VirtualHosts := (ln_VirtualHosts l)[i := f (ln_VirtualHosts l ! i)]\<rparr>) (dag_Listeners d)\<rparr>)"

definition write_svhost :: "string \<Rightarrow> nat \<Rightarrow> (SecureVirtualHost \<Rightarrow> SecureVirtualHost) \<Rightarrow> DAG \<Rightarrow> DAG" where
  "write_svhost listener i f d =
     (case lookup (dag_Listeners d) listener of
        None \<Rightarrow> d
      | Some l \<Rightarrow> d\<lparr>dag_Listeners := put listener
                    (l\<lparr>ln_SecureVirtualHosts := (ln_SecureVirtualHosts l)[i := f (ln_SecureVirtualHosts l ! i)]\<rparr>) (dag_Listeners d)\<rparr>)"

section \<open>What the DAG contains\<close>

definition route_clusters :: "(string, Route) gomap \<Rightarrow> Cluster list" where
  "route_clusters routes =
     concat (map (\<lambda>route. rt_Clusters route @ List.map_filter mp_Cluster (rt_MirrorPolicies route)) (map_values routes))"

definition tcp_clusters :: "TCPProxy option \<Rightarrow> Cluster list" where
  "tcp_clusters p = (case p of None \<Rightarrow> [] | Some p \<Rightarrow> tcp_Clusters p)"

definition listener_clusters :: "Listener \<Rightarrow> Cluster list" where
  "listener_clusters listener =
     tcp_clusters (ln_TCPProxy listener)
     @ concat (map (\<lambda>vhost. route_clusters (vh_Routes vhost)) (ln_VirtualHosts listener))
     @ concat (map (\<lambda>vhost. route_clusters (vh_Routes (svh_VirtualHost vhost)) @ tcp_clusters (svh_TCPProxy vhost))
                (ln_SecureVirtualHosts listener))"

definition GetClusters :: "DAG \<Rightarrow> Cluster list" where
  "GetClusters d = concat (map listener_clusters (map_values (dag_Listeners d)))"

definition GetDNSNameClusters :: "DAG \<Rightarrow> DNSNameCluster list" where
  "GetDNSNameClusters d =
     concat (map (\<lambda>listener. concat (map (\<lambda>svhost. map (\<lambda>provider. jwks_Cluster (jwt_RemoteJWKS provider)) (svh_JWTProviders svhost))
                                     (ln_SecureVirtualHosts listener)))
              (map_values (dag_Listeners d)))"

definition service_cluster :: "Cluster \<Rightarrow> ServiceCluster" where
  "service_cluster cluster =
     (let w = sv_Weighted (cl_Upstream cluster) in
      \<lparr>sc_ClusterName = ClusterLoadAssignmentName \<lparr>nn_Namespace = ws_ServiceNamespace w, nn_Name = ws_ServiceName w\<rparr>
         (port_Name (ws_ServicePort w)),
       sc_Services = [w]\<rparr>)"

definition GetServiceClusters :: "DAG \<Rightarrow> ServiceCluster list" where
  "GetServiceClusters d =
     map service_cluster (filter (\<lambda>cluster. \<not> length (sv_ExternalName (cl_Upstream cluster)) > 0) (GetClusters d))
     @ map ec_Upstream (dag_ExtensionClusters d)"

definition GetExtensionClusters :: "DAG \<Rightarrow> (string, ExtensionCluster) gomap" where
  "GetExtensionClusters d = fold (\<lambda>ec. put (ec_Name ec) ec) (dag_ExtensionClusters d) []"

definition option_list :: "'a option \<Rightarrow> 'a list" where
  "option_list x = (case x of None \<Rightarrow> [] | Some y \<Rightarrow> [y])"

definition GetSecrets :: "DAG \<Rightarrow> Secret list" where
  "GetSecrets d =
     concat (map (\<lambda>l. concat (map (\<lambda>svh. option_list (svh_Secret svh) @ option_list (svh_FallbackCertificate svh))
                             (ln_SecureVirtualHosts l)))
              (map_values (dag_Listeners d)))
     @ List.map_filter cl_ClientCertificate (GetClusters d)"

definition GetExtensionCluster :: "string \<Rightarrow> DAG \<Rightarrow> ExtensionCluster option" where
  "GetExtensionCluster name d = find (\<lambda>ec. ec_Name ec = name) (dag_ExtensionClusters d)"

text \<open>The keys of the two maps are pointers: a listener and a position.\<close>

definition host_routes :: "string \<Rightarrow> (string, Route) gomap list \<Rightarrow> ((string \<times> nat) \<times> Route list) list" where
  "host_routes listener hosts =
     filter (\<lambda>(_, routes). length routes > 0)
       (map (\<lambda>(i, routes). ((listener, i), map_values routes)) (enumerate 0 hosts))"

definition GetVirtualHostRoutes :: "DAG \<Rightarrow> (string \<times> nat, Route list) gomap" where
  "GetVirtualHostRoutes d = concat (map (\<lambda>(n, l). host_routes n (map vh_Routes (ln_VirtualHosts l))) (dag_Listeners d))"

definition GetSecureVirtualHostRoutes :: "DAG \<Rightarrow> (string \<times> nat, Route list) gomap" where
  "GetSecureVirtualHostRoutes d =
     concat (map (\<lambda>(n, l). host_routes n (map (vh_Routes \<circ> svh_VirtualHost) (ln_SecureVirtualHosts l))) (dag_Listeners d))"

section \<open>The builder\<close>

type_synonym Processor = "KubernetesCache \<Rightarrow> DAG \<Rightarrow> DAG"

definition prune_listener :: "Listener \<Rightarrow> Listener" where
  "prune_listener listener =
     (let listener = listener\<lparr>ln_VirtualHosts := filter VirtualHost_Valid (ln_VirtualHosts listener),
                              ln_SecureVirtualHosts := filter SecureVirtualHost_Valid (ln_SecureVirtualHosts listener)\<rparr>
      in if length (ln_VirtualHosts listener) > 0 \<or> length (ln_SecureVirtualHosts listener) > 0
         then listener\<lparr>ln_VirtualHosts := sort_Stable (\<lambda>a b. vh_Name a < vh_Name b) (ln_VirtualHosts listener),
                       ln_SecureVirtualHosts :=
                         sort_Stable (\<lambda>a b. vh_Name (svh_VirtualHost a) < vh_Name (svh_VirtualHost b)) (ln_SecureVirtualHosts listener),
                       ln_vhostsByName := None, ln_svhostsByName := None\<rparr>
         else listener)"

definition keep_listener :: "Listener \<Rightarrow> bool" where
  "keep_listener listener \<longleftrightarrow>
     length (ln_VirtualHosts listener) > 0 \<or> length (ln_SecureVirtualHosts listener) > 0 \<or> ln_TCPProxy listener \<noteq> None"

definition prune :: "(string, Listener) gomap \<Rightarrow> (string, Listener) gomap" where
  "prune ls =
     fold (\<lambda>listener listeners. let listener = prune_listener listener in
             if keep_listener listener then put (ln_Name listener) listener listeners else listeners)
       (map_values ls) []"

definition new_DAG :: "KubernetesCache \<Rightarrow> DAG" where
  "new_DAG source =
     (let gatewayNSName = (case kc_gateway source of None \<Rightarrow> \<lparr>nn_Namespace = '''', nn_Name = ''''\<rparr> | Some g \<Rightarrow> gateway_name g);
          gatewayController = (case kc_gatewayclass source of None \<Rightarrow> '''' | Some c \<Rightarrow> gwc_ControllerName c)
      in \<lparr>dag_StatusCache = NewCache gatewayNSName gatewayController, dag_Listeners = [], dag_ExtensionClusters = [],
          dag_HasDynamicListeners = False\<rparr>)"

definition Build :: "Processor list \<Rightarrow> KubernetesCache \<Rightarrow> DAG" where
  "Build processors source =
     (let dag = fold (\<lambda>p dag. p source dag) processors (new_DAG source)
      in dag\<lparr>dag_Listeners := prune (dag_Listeners dag)\<rparr>)"

section \<open>The listener processor\<close>

record ListenerProcessor =
  lpr_HTTPAddress :: string
  lpr_HTTPPort :: int
  lpr_HTTPSAddress :: string
  lpr_HTTPSPort :: int

definition intOrDefault :: "int \<Rightarrow> int \<Rightarrow> int" where
  "intOrDefault i dflt = (if i > 0 then i else dflt)"

definition gateway_listener :: "ListenerProcessor \<Rightarrow> ListenerPort \<Rightarrow> Listener" where
  "gateway_listener p port =
     zero_Listener\<lparr>ln_Name := lp_Name port, ln_Protocol := lp_Protocol port,
       ln_Address := (if lp_Protocol port = ''https'' then lpr_HTTPSAddress p else lpr_HTTPAddress p),
       ln_Port := lp_ContainerPort port, ln_EnableWebsockets := True,
       ln_vhostsByName := Some [], ln_svhostsByName := Some []\<rparr>"

definition http_listener :: "ListenerProcessor \<Rightarrow> Listener" where
  "http_listener p =
     zero_Listener\<lparr>ln_Name := ''ingress_http'', ln_Protocol := ''http'', ln_Address := lpr_HTTPAddress p,
       ln_Port := intOrDefault (lpr_HTTPPort p) 8080, ln_RouteConfigName := ''ingress_http'', ln_vhostsByName := Some []\<rparr>"

definition https_listener :: "ListenerProcessor \<Rightarrow> Listener" where
  "https_listener p =
     zero_Listener\<lparr>ln_Name := ''ingress_https'', ln_Protocol := ''https'', ln_Address := lpr_HTTPSAddress p,
       ln_Port := intOrDefault (lpr_HTTPSPort p) 8443, ln_RouteConfigName := ''https'',
       ln_FallbackCertRouteConfigName := ''ingress_fallbackcert'', ln_svhostsByName := Some []\<rparr>"

definition ListenerProcessor_Run :: "hostnames \<Rightarrow> ListenerProcessor \<Rightarrow> Processor" where
  "ListenerProcessor_Run hn p cache dag =
     (case kc_gateway cache of
        Some gateway \<Rightarrow>
          dag\<lparr>dag_HasDynamicListeners := True,
              dag_Listeners := fold (\<lambda>port. put (lp_Name port) (gateway_listener p port))
                                 (vlr_Ports (ValidateListeners hn (gw_Listeners gateway))) (dag_Listeners dag)\<rparr>
      | None \<Rightarrow>
          dag\<lparr>dag_Listeners := put ''ingress_https'' (https_listener p) (put ''ingress_http'' (http_listener p) (dag_Listeners dag))\<rparr>)"

section \<open>Virtual hosts by name\<close>

text \<open>The slice of hosts and the map from names to positions in it, as plain and as secure virtual hosts use them: a
  host is found in the map exactly where the slice has it.\<close>

definition wf_table :: "('v \<Rightarrow> string) \<Rightarrow> 'v list \<Rightarrow> (string, nat) gomap option \<Rightarrow> bool" where
  "wf_table host_name hosts index \<longleftrightarrow>
     (\<forall>h i. nil_lookup index h = Some i \<longleftrightarrow> i < length hosts \<and> host_name (hosts ! i) = h)"

locale host_table =
  fixes hosts :: "Listener \<Rightarrow> 'v list"
    and index :: "Listener \<Rightarrow> (string, nat) gomap option"
    and host_name :: "'v \<Rightarrow> string"
    and fresh :: "string \<Rightarrow> 'v"
    and ensure :: "string \<Rightarrow> Listener \<Rightarrow> (nat \<times> Listener) option"
  assumes fresh_name: "host_name (fresh h) = h"
    and ensure_found: "nil_lookup (index l) h = Some i \<Longrightarrow> ensure h l = Some (i, l)"
    and ensure_nil: "nil_lookup (index l) h = None \<Longrightarrow> index l = None \<Longrightarrow> ensure h l = None"
    and ensure_new: "nil_lookup (index l) h = None \<Longrightarrow> index l = Some m \<Longrightarrow>
      \<exists>l'. ensure h l = Some (length (hosts l), l') \<and> hosts l' = hosts l @ [fresh h] \<and>
           index l' = Some (put h (length (hosts l)) m)"
begin

abbreviation wf :: "Listener \<Rightarrow> bool" where
  "wf l \<equiv> wf_table host_name (hosts l) (index l)"

lemma names_distinct: "wf l \<Longrightarrow> distinct (map host_name (hosts l))"
  unfolding distinct_conv_nth wf_table_def by (metis length_map nth_map option.inject)

lemma ensure_wf:
  assumes "wf l" "ensure h l = Some (i, l')"
  shows "wf l'"
proof (cases "nil_lookup (index l) h")
  case None
  then obtain m where m: "index l = Some m" using ensure_nil assms(2) by (cases "index l") auto
  with None assms(2) ensure_new [of l h m]
  have l': "hosts l' = hosts l @ [fresh h]" "index l' = Some (put h (length (hosts l)) m)" by auto
  have "\<not> (j < length (hosts l) \<and> host_name (hosts l ! j) = h)" for j
    using assms(1) None unfolding wf_table_def by (metis option.distinct(1))
  then show ?thesis
    using assms(1) m by (auto simp: wf_table_def l' nil_lookup_def lookup_put nth_append fresh_name less_Suc_eq)
next
  case (Some j)
  then show ?thesis using ensure_found assms by auto
qed

lemma ensure_get:
  assumes "wf l" "ensure h l = Some (i, l')"
  shows "i < length (hosts l')" "host_name (hosts l' ! i) = h" "nil_lookup (index l') h = Some i"
proof -
  show get: "nil_lookup (index l') h = Some i"
  proof (cases "nil_lookup (index l) h")
    case None
    then obtain m where "index l = Some m" using ensure_nil assms(2) by (cases "index l") auto
    with None assms(2) ensure_new [of l h m] show ?thesis by (auto simp: nil_lookup_def lookup_put)
  next
    case (Some j)
    then show ?thesis using ensure_found assms by auto
  qed
  then show "i < length (hosts l')" "host_name (hosts l' ! i) = h"
    using ensure_wf [OF assms] by (simp_all add: wf_table_def)
qed

text \<open>Asking twice gives the same host and changes nothing.\<close>

lemma ensure_idempotent: "wf l \<Longrightarrow> ensure h l = Some (i, l') \<Longrightarrow> ensure h l' = Some (i, l')"
  using ensure_get(3) ensure_found by blast

text \<open>The hosts that were there are still there, at the same place.\<close>

lemma ensure_keeps: "ensure h l = Some (i, l') \<Longrightarrow> prefix (hosts l) (hosts l')"
proof (cases "nil_lookup (index l) h")
  case None
  assume e: "ensure h l = Some (i, l')"
  with None obtain m where "index l = Some m" using ensure_nil by (cases "index l") auto
  with None e ensure_new [of l h m] show ?thesis by auto
qed (auto dest: ensure_found)

end

interpretation vhosts: host_table ln_VirtualHosts ln_vhostsByName vh_Name "\<lambda>h. zero_VirtualHost\<lparr>vh_Name := h\<rparr>"
  listener_EnsureVirtualHost
  by unfold_locales (simp_all add: listener_EnsureVirtualHost_def nil_lookup_def Let_def)

interpretation svhosts: host_table ln_SecureVirtualHosts ln_svhostsByName "\<lambda>s. vh_Name (svh_VirtualHost s)"
  "\<lambda>h. zero_SecureVirtualHost\<lparr>svh_VirtualHost := zero_VirtualHost\<lparr>vh_Name := h\<rparr>\<rparr>"
  listener_EnsureSecureVirtualHost
  by unfold_locales (simp_all add: listener_EnsureSecureVirtualHost_def nil_lookup_def Let_def)

lemma wf_table_write:
  "wf_table name hosts index \<Longrightarrow> name v = name (hosts ! i) \<Longrightarrow> wf_table name (hosts[i := v]) index"
proof -
  assume wf: "wf_table name hosts index" and v: "name v = name (hosts ! i)"
  have "name (hosts[i := v] ! j) = name (hosts ! j)" for j
    using v by (cases "i < length hosts") (auto simp: nth_list_update list_update_beyond)
  with wf show ?thesis by (simp add: wf_table_def)
qed

section \<open>Well-formed DAGs\<close>

definition wf_listener :: "Listener \<Rightarrow> bool" where
  "wf_listener l \<longleftrightarrow> vhosts.wf l \<and> svhosts.wf l"

definition wf_dag :: "DAG \<Rightarrow> bool" where
  "wf_dag d \<longleftrightarrow>
     wf_gomap (dag_Listeners d) \<and> (\<forall>n l. lookup (dag_Listeners d) n = Some l \<longrightarrow> ln_Name l = n \<and> wf_listener l)"

lemma wf_dag_put:
  "wf_dag d \<Longrightarrow> ln_Name l = n \<Longrightarrow> wf_listener l \<Longrightarrow> wf_dag (d\<lparr>dag_Listeners := put n l (dag_Listeners d)\<rparr>)"
  by (simp add: wf_dag_def lookup_put distinct_update)

lemma wf_dag_listener: "wf_dag d \<Longrightarrow> lookup (dag_Listeners d) n = Some l \<Longrightarrow> ln_Name l = n \<and> wf_listener l"
  by (simp add: wf_dag_def)

lemma EnsureVirtualHost_frame [frame]:
  "listener_EnsureVirtualHost h l = Some (i, l') \<Longrightarrow>
   ln_Name l' = ln_Name l \<and> ln_Protocol l' = ln_Protocol l \<and> ln_SecureVirtualHosts l' = ln_SecureVirtualHosts l \<and>
   ln_svhostsByName l' = ln_svhostsByName l"
  by (auto simp: listener_EnsureVirtualHost_def Let_def split: option.splits)

lemma EnsureSecureVirtualHost_frame [frame]:
  "listener_EnsureSecureVirtualHost h l = Some (i, l') \<Longrightarrow>
   ln_Name l' = ln_Name l \<and> ln_Protocol l' = ln_Protocol l \<and> ln_VirtualHosts l' = ln_VirtualHosts l \<and>
   ln_vhostsByName l' = ln_vhostsByName l"
  by (auto simp: listener_EnsureSecureVirtualHost_def Let_def split: option.splits)

lemma on_listener_Some:
  assumes "on_listener f n d = Some (i, d')"
  obtains l l' where "lookup (dag_Listeners d) n = Some l" "f l = Some (i, l')"
    "d' = d\<lparr>dag_Listeners := put n l' (dag_Listeners d)\<rparr>"
  using assms by (auto simp: on_listener_def split: option.splits)

lemma EnsureVirtualHost_wf [wf_intro]:
  assumes "wf_dag d" "EnsureVirtualHost n h d = Some (i, d')"
  shows "wf_dag d'"
  using assms(2) unfolding EnsureVirtualHost_def
proof (rule on_listener_Some)
  fix l l'
  assume l: "lookup (dag_Listeners d) n = Some l" "listener_EnsureVirtualHost h l = Some (i, l')"
    and d': "d' = d\<lparr>dag_Listeners := put n l' (dag_Listeners d)\<rparr>"
  have wf: "ln_Name l = n" "vhosts.wf l" "svhosts.wf l" using wf_dag_listener [OF assms(1) l(1)] by (simp_all add: wf_listener_def)
  have "wf_listener l'"
    unfolding wf_listener_def using vhosts.ensure_wf [OF wf(2) l(2)] wf(3) EnsureVirtualHost_frame [OF l(2)] by simp
  then show ?thesis unfolding d' using EnsureVirtualHost_frame [OF l(2)] wf(1) by (intro wf_dag_put [OF assms(1)]) simp_all
qed

lemma EnsureSecureVirtualHost_wf [wf_intro]:
  assumes "wf_dag d" "EnsureSecureVirtualHost n h d = Some (i, d')"
  shows "wf_dag d'"
  using assms(2) unfolding EnsureSecureVirtualHost_def
proof (rule on_listener_Some)
  fix l l'
  assume l: "lookup (dag_Listeners d) n = Some l" "listener_EnsureSecureVirtualHost h l = Some (i, l')"
    and d': "d' = d\<lparr>dag_Listeners := put n l' (dag_Listeners d)\<rparr>"
  have wf: "ln_Name l = n" "vhosts.wf l" "svhosts.wf l" using wf_dag_listener [OF assms(1) l(1)] by (simp_all add: wf_listener_def)
  have "wf_listener l'"
    unfolding wf_listener_def using svhosts.ensure_wf [OF wf(3) l(2)] wf(2) EnsureSecureVirtualHost_frame [OF l(2)] by simp
  then show ?thesis unfolding d' using EnsureSecureVirtualHost_frame [OF l(2)] wf(1) by (intro wf_dag_put [OF assms(1)]) simp_all
qed

lemma write_vhost_wf [wf_intro]:
  assumes "wf_dag d" "\<And>v. vh_Name (f v) = vh_Name v"
  shows "wf_dag (write_vhost n i f d)"
proof (cases "lookup (dag_Listeners d) n")
  case (Some l)
  then have "wf_listener (l\<lparr>ln_VirtualHosts := (ln_VirtualHosts l)[i := f (ln_VirtualHosts l ! i)]\<rparr>)"
    using wf_dag_listener [OF assms(1)] assms(2) by (auto simp: wf_listener_def intro: wf_table_write)
  with Some show ?thesis using wf_dag_listener [OF assms(1) Some] by (simp add: write_vhost_def wf_dag_put [OF assms(1)])
qed (use assms in \<open>simp add: write_vhost_def\<close>)

lemma write_svhost_wf [wf_intro]:
  assumes "wf_dag d" "\<And>v. vh_Name (svh_VirtualHost (f v)) = vh_Name (svh_VirtualHost v)"
  shows "wf_dag (write_svhost n i f d)"
proof (cases "lookup (dag_Listeners d) n")
  case (Some l)
  then have "wf_listener (l\<lparr>ln_SecureVirtualHosts := (ln_SecureVirtualHosts l)[i := f (ln_SecureVirtualHosts l ! i)]\<rparr>)"
    using wf_dag_listener [OF assms(1)] assms(2) by (auto simp: wf_listener_def intro: wf_table_write)
  with Some show ?thesis using wf_dag_listener [OF assms(1) Some] by (simp add: write_svhost_def wf_dag_put [OF assms(1)])
qed (use assms in \<open>simp add: write_svhost_def\<close>)

text \<open>
  The accessors of virtual hosts keep the DAG well formed: every listener is stored under its name, and in
  each listener the map of hosts by name finds exactly the hosts of the slice, so no two of them share a name.
  \<open>EnsureVirtualHost\<close> returns the host with the name asked for, which \<open>GetVirtualHost\<close> then finds and a second call returns
  again without changing anything; hosts that were there before keep their place and content.
\<close>

theorem EnsureVirtualHost_correct:
  assumes "wf_dag d" and "EnsureVirtualHost n h d = Some (i, d')" and "lookup (dag_Listeners d) n = Some l"
  shows "wf_dag d' \<and> GetVirtualHost n h d' = Some (Some i) \<and> EnsureVirtualHost n h d' = Some (i, d') \<and>
         (\<exists>l'. lookup (dag_Listeners d') n = Some l' \<and> distinct (map vh_Name (ln_VirtualHosts l')) \<and>
               i < length (ln_VirtualHosts l') \<and> vh_Name (ln_VirtualHosts l' ! i) = h \<and>
               prefix (ln_VirtualHosts l) (ln_VirtualHosts l')) \<and>
         (\<forall>m. m \<noteq> n \<longrightarrow> lookup (dag_Listeners d') m = lookup (dag_Listeners d) m)"
proof -
  obtain l' where e: "listener_EnsureVirtualHost h l = Some (i, l')"
    and d': "d' = d\<lparr>dag_Listeners := put n l' (dag_Listeners d)\<rparr>"
    using assms(2,3) unfolding EnsureVirtualHost_def by (auto elim: on_listener_Some)
  have wf: "vhosts.wf l" using wf_dag_listener [OF assms(1,3)] by (simp add: wf_listener_def)
  have l': "lookup (dag_Listeners d') n = Some l'" by (simp add: d' lookup_put)
  have "put n l' (put n l' m) = put n l' m" for m :: "(string, Listener) gomap" by (rule update_last)
  then have again: "EnsureVirtualHost n h d' = Some (i, d')"
    using vhosts.ensure_idempotent [OF wf e] l'
    by (simp add: EnsureVirtualHost_def on_listener_def d')
  show ?thesis
    using EnsureVirtualHost_wf [OF assms(1,2)] again l' vhosts.ensure_get [OF wf e]
      vhosts.names_distinct [OF vhosts.ensure_wf [OF wf e]] vhosts.ensure_keeps [OF e]
    by (simp add: GetVirtualHost_def d' lookup_put)
qed

section \<open>Single listeners\<close>

lemma single_listener_iff:
  "single_listener p ls res = Ok l \<longleftrightarrow> option_list res @ filter (\<lambda>l. ln_Protocol l = p) ls = [l]"
proof (induction p ls res rule: single_listener.induct)
  case (2 p listener ls res)
  then show ?case by (cases res) (auto simp: option_list_def)
qed (auto simp: option_list_def split: option.splits)

lemma GetSingleListener_iff:
  "GetSingleListener p d = Ok l \<longleftrightarrow> filter (\<lambda>l. ln_Protocol l = p) (map_values (dag_Listeners d)) = [l]"
  by (simp add: GetSingleListener_def single_listener_iff option_list_def)

lemma GetSingleListener_lookup:
  assumes "wf_dag d" "GetSingleListener p d = Ok l"
  shows "lookup (dag_Listeners d) (ln_Name l) = Some l" "ln_Protocol l = p"
proof -
  have "l \<in> set (filter (\<lambda>l. ln_Protocol l = p) (map_values (dag_Listeners d)))"
    using assms(2) by (simp add: GetSingleListener_iff)
  then have l: "ln_Protocol l = p" "l \<in> set (map_values (dag_Listeners d))" by auto
  then obtain n where "(n, l) \<in> set (dag_Listeners d)" by (auto simp: map_values_def)
  then show "lookup (dag_Listeners d) (ln_Name l) = Some l"
    using assms(1) by (auto simp: wf_dag_def lookup_eq_iff)
  show "ln_Protocol l = p" by (rule l)
qed

section \<open>Pruning\<close>

interpretation vhost_by_name: key_order "\<lambda>a b. vh_Name a < vh_Name b" vh_Name UNIV
  by unfold_locales simp

interpretation svhost_by_name: key_order "\<lambda>a b. vh_Name (svh_VirtualHost a) < vh_Name (svh_VirtualHost b)"
  "\<lambda>s. vh_Name (svh_VirtualHost s)" UNIV
  by unfold_locales simp

lemma prune_listener_sets:
  "set (ln_VirtualHosts (prune_listener l)) = {v \<in> set (ln_VirtualHosts l). VirtualHost_Valid v}"
  "set (ln_SecureVirtualHosts (prune_listener l)) = {v \<in> set (ln_SecureVirtualHosts l). SecureVirtualHost_Valid v}"
  "ln_Name (prune_listener l) = ln_Name l" "ln_TCPProxy (prune_listener l) = ln_TCPProxy l"
  by (auto simp: prune_listener_def Let_def filter_empty_conv)

lemma distinct_map_filter_sort:
  "distinct (map f xs) \<Longrightarrow> distinct (map f (sort_Stable Less (filter P xs)))"
proof -
  assume "distinct (map f xs)"
  then have "distinct (map f (filter P xs))" by (simp add: distinct_map_filter)
  moreover have "mset (map f (sort_Stable Less (filter P xs))) = mset (map f (filter P xs))" by simp
  ultimately show ?thesis by (metis mset_eq_imp_distinct_iff)
qed

lemma prune_listener_sorted:
  assumes "wf_listener l"
  shows "sorted_wrt (<) (map vh_Name (ln_VirtualHosts (prune_listener l)))"
    and "sorted_wrt (<) (map (\<lambda>s. vh_Name (svh_VirtualHost s)) (ln_SecureVirtualHosts (prune_listener l)))"
proof -
  have d: "distinct (map vh_Name (ln_VirtualHosts l))" "distinct (map (\<lambda>s. vh_Name (svh_VirtualHost s)) (ln_SecureVirtualHosts l))"
    using assms vhosts.names_distinct svhosts.names_distinct by (auto simp: wf_listener_def)
  show "sorted_wrt (<) (map vh_Name (ln_VirtualHosts (prune_listener l)))"
    using vhost_by_name.sort_Stable_sorted [of "filter VirtualHost_Valid (ln_VirtualHosts l)"]
      distinct_map_filter_sort [OF d(1)]
    by (auto simp: prune_listener_def Let_def strict_sorted_iff)
  show "sorted_wrt (<) (map (\<lambda>s. vh_Name (svh_VirtualHost s)) (ln_SecureVirtualHosts (prune_listener l)))"
    using svhost_by_name.sort_Stable_sorted [of "filter SecureVirtualHost_Valid (ln_SecureVirtualHosts l)"]
      distinct_map_filter_sort [OF d(2)]
    by (auto simp: prune_listener_def Let_def strict_sorted_iff)
qed

lemma prune_fold:
  assumes "distinct (map ln_Name ls)"
  shows "lookup (fold (\<lambda>l acc. let l = prune_listener l in if keep_listener l then put (ln_Name l) l acc else acc) ls acc) n =
         (case find (\<lambda>l. ln_Name l = n) ls of
            Some l \<Rightarrow> if keep_listener (prune_listener l) then Some (prune_listener l) else lookup acc n
          | None \<Rightarrow> lookup acc n)"
  using assms
proof (induction ls arbitrary: acc)
  case (Cons l ls)
  have other: "find (\<lambda>k. ln_Name k = n) ls = None" if "n = ln_Name l"
    using Cons.prems that by (auto simp: find_None_iff image_iff)
  show ?case
    using Cons other by (auto simp: Let_def lookup_put prune_listener_sets(3) split: option.splits)
qed simp

lemma wf_dag_values:
  assumes "wf_dag d"
  shows "map ln_Name (map_values (dag_Listeners d)) = map fst (dag_Listeners d)"
    and "find (\<lambda>l. ln_Name l = n) (map_values (dag_Listeners d)) = lookup (dag_Listeners d) n"
proof -
  have *: "ln_Name l = k" if "(k, l) \<in> set (dag_Listeners d)" for k l
    using assms that by (auto simp: wf_dag_def lookup_eq_iff)
  then show "map ln_Name (map_values (dag_Listeners d)) = map fst (dag_Listeners d)"
    by (auto simp: map_values_def)
  have "find (\<lambda>l. ln_Name l = n) (map_values ls) = lookup ls n" if "\<forall>(k, l)\<in>set ls. ln_Name l = k" for ls
    using that by (induction ls) (auto simp: map_values_def)
  then show "find (\<lambda>l. ln_Name l = n) (map_values (dag_Listeners d)) = lookup (dag_Listeners d) n"
    using * by auto
qed

lemma lookup_prune:
  assumes "wf_dag d"
  shows "lookup (prune (dag_Listeners d)) n =
         (case lookup (dag_Listeners d) n of
            Some l \<Rightarrow> if keep_listener (prune_listener l) then Some (prune_listener l) else None
          | None \<Rightarrow> None)"
proof -
  have "distinct (map ln_Name (map_values (dag_Listeners d)))"
    using assms by (simp add: wf_dag_values(1) wf_dag_def)
  then show ?thesis using wf_dag_values(2) [OF assms, of n] by (simp add: prune_def prune_fold split: option.splits)
qed

text \<open>The contract of a processor: it keeps the DAG well formed.\<close>

locale dag_processor =
  fixes run :: Processor
  assumes run_wf: "wf_dag d \<Longrightarrow> wf_dag (run kc d)"

lemma new_DAG_wf: "wf_dag (new_DAG kc)"
  by (simp add: new_DAG_def wf_dag_def Let_def)

lemma processors_wf:
  "list_all dag_processor ps \<Longrightarrow> wf_dag d \<Longrightarrow> wf_dag (fold (\<lambda>p d. p kc d) ps d)"
  by (induction ps arbitrary: d) (simp_all add: dag_processor_def)

lemma wf_table_empty: "wf_table name [] (Some [])" "wf_table name [] None"
  by (simp_all add: wf_table_def nil_lookup_def)

lemma gateway_listeners_wf:
  "wf_dag d \<Longrightarrow> wf_dag (d\<lparr>dag_Listeners := fold (\<lambda>port. put (lp_Name port) (gateway_listener p port)) ports (dag_Listeners d)\<rparr>)"
proof (induction ports arbitrary: d)
  case (Cons port ports)
  then have "wf_dag (d\<lparr>dag_Listeners := put (lp_Name port) (gateway_listener p port) (dag_Listeners d)\<rparr>)"
    by (intro wf_dag_put) (simp_all add: gateway_listener_def wf_listener_def wf_table_empty zero_Listener_def)
  from Cons.IH [OF this] show ?case by simp
qed simp

lemma wf_dag_dynamic: "wf_dag (d\<lparr>dag_HasDynamicListeners := b\<rparr>) \<longleftrightarrow> wf_dag d"
  by (simp add: wf_dag_def)

interpretation listener_run: dag_processor "ListenerProcessor_Run hn p" for hn p
proof unfold_locales
  fix d kc
  assume wf: "wf_dag d"
  show "wf_dag (ListenerProcessor_Run hn p kc d)"
  proof (cases "kc_gateway kc")
    case None
    have "wf_dag (d\<lparr>dag_Listeners := put ''ingress_http'' (http_listener p) (dag_Listeners d)\<rparr>)" (is "wf_dag ?d")
      by (rule wf_dag_put [OF wf]) (simp_all add: http_listener_def wf_listener_def wf_table_empty zero_Listener_def)
    then have "wf_dag (?d\<lparr>dag_Listeners := put ''ingress_https'' (https_listener p) (dag_Listeners ?d)\<rparr>)"
      by (rule wf_dag_put) (simp_all add: https_listener_def wf_listener_def wf_table_empty zero_Listener_def)
    with None show ?thesis by (simp add: ListenerProcessor_Run_def)
  next
    case (Some g)
    have "wf_dag (d\<lparr>dag_HasDynamicListeners := True\<rparr>)" using wf by (simp add: wf_dag_dynamic)
    from gateway_listeners_wf [OF this] Some show ?thesis by (simp add: ListenerProcessor_Run_def)
  qed
qed

text \<open>
  C23. What \<open>Build\<close> hands to the translation to Envoy, for any list of processors that keep the DAG well formed: a listener
  is in the DAG exactly when the processors left it with a valid virtual host, a valid secure virtual host or
  a TCP proxy; its hosts are exactly the valid ones, in strictly increasing order of their names, so no name occurs
  twice.
\<close>

theorem Build_prunes:
  assumes "list_all dag_processor ps" and "d = fold (\<lambda>p d. p kc d) ps (new_DAG kc)"
  shows "case lookup (dag_Listeners (Build ps kc)) n of
           None \<Rightarrow>
             (case lookup (dag_Listeners d) n of
                None \<Rightarrow> True
              | Some l \<Rightarrow> filter VirtualHost_Valid (ln_VirtualHosts l) = [] \<and>
                         filter SecureVirtualHost_Valid (ln_SecureVirtualHosts l) = [] \<and> ln_TCPProxy l = None)
         | Some l' \<Rightarrow>
             (\<exists>l. lookup (dag_Listeners d) n = Some l \<and>
                (ln_VirtualHosts l' \<noteq> [] \<or> ln_SecureVirtualHosts l' \<noteq> [] \<or> ln_TCPProxy l \<noteq> None) \<and>
                set (ln_VirtualHosts l') = {v \<in> set (ln_VirtualHosts l). VirtualHost_Valid v} \<and>
                set (ln_SecureVirtualHosts l') = {s \<in> set (ln_SecureVirtualHosts l). SecureVirtualHost_Valid s} \<and>
                sorted_wrt (<) (map vh_Name (ln_VirtualHosts l')) \<and>
                sorted_wrt (<) (map (\<lambda>s. vh_Name (svh_VirtualHost s)) (ln_SecureVirtualHosts l')))"
proof -
  have wf: "wf_dag d" using processors_wf [OF assms(1) new_DAG_wf] assms(2) by simp
  have eq: "lookup (dag_Listeners (Build ps kc)) n =
         (case lookup (dag_Listeners d) n of
            Some l \<Rightarrow> if keep_listener (prune_listener l) then Some (prune_listener l) else None
          | None \<Rightarrow> None)"
    using lookup_prune [OF wf] assms(2) by (simp add: Build_def Let_def)
  have drop: "filter VirtualHost_Valid (ln_VirtualHosts l) = [] \<and>
      filter SecureVirtualHost_Valid (ln_SecureVirtualHosts l) = [] \<and> ln_TCPProxy l = None" if "\<not> keep_listener (prune_listener l)" for l
    using that prune_listener_sets [of l] by (auto simp: keep_listener_def filter_empty_conv)
  show ?thesis
  proof (cases "lookup (dag_Listeners d) n")
    case (Some l)
    have "wf_listener l" using wf_dag_listener [OF wf Some] by simp
    then show ?thesis
      using Some drop [of l] prune_listener_sorted [of l] by (auto simp: eq prune_listener_sets keep_listener_def)
  qed (simp add: eq)
qed

definition sample_listeners :: ListenerProcessor where
  "sample_listeners = \<lparr>lpr_HTTPAddress = ''0.0.0.0'', lpr_HTTPPort = 0, lpr_HTTPSAddress = ''0.0.0.0'', lpr_HTTPSPort = 0\<rparr>"

definition sample_dag :: DAG where
  "sample_dag = ListenerProcessor_Run sample_hostnames sample_listeners empty_cache (new_DAG empty_cache)"

lemma sample_dag_listeners:
  "lookup (dag_Listeners sample_dag) ''ingress_http'' = Some (http_listener sample_listeners)"
  "lookup (dag_Listeners sample_dag) ''ingress_https'' = Some (https_listener sample_listeners)"
  by (simp_all add: sample_dag_def ListenerProcessor_Run_def empty_cache_def lookup_put)

theorem Build_prunes_witness:
  "lookup (dag_Listeners (Build [ListenerProcessor_Run sample_hostnames sample_listeners] empty_cache)) ''ingress_http'' = None"
proof -
  have "list_all dag_processor [ListenerProcessor_Run sample_hostnames sample_listeners]"
    by (simp add: listener_run.dag_processor_axioms)
  from Build_prunes [OF this refl, of empty_cache "''ingress_http''"] show ?thesis
    using sample_dag_listeners(1)
    by (auto simp: sample_dag_def http_listener_def zero_Listener_def split: option.splits)
qed

theorem EnsureVirtualHost_correct_witness:
  "case EnsureVirtualHost ''ingress_http'' ''a.com'' sample_dag of
     None \<Rightarrow> False
   | Some (i, d') \<Rightarrow> wf_dag d' \<and> GetVirtualHost ''ingress_http'' ''a.com'' d' = Some (Some i)"
proof -
  have wf: "wf_dag sample_dag" unfolding sample_dag_def by (intro listener_run.run_wf new_DAG_wf)
  have "listener_EnsureVirtualHost ''a.com'' (http_listener sample_listeners) \<noteq> None"
    by (simp add: listener_EnsureVirtualHost_def nil_lookup_def http_listener_def zero_Listener_def Let_def)
  then have some: "EnsureVirtualHost ''ingress_http'' ''a.com'' sample_dag \<noteq> None"
    unfolding EnsureVirtualHost_def on_listener_def sample_dag_listeners(1) by simp
  show ?thesis
  proof (cases "EnsureVirtualHost ''ingress_http'' ''a.com'' sample_dag")
    case (Some r)
    obtain i d' where r: "r = (i, d')" by (rule prod.exhaust)
    from EnsureVirtualHost_correct [OF wf Some [unfolded r] sample_dag_listeners(1)] show ?thesis
      unfolding Some r by simp
  qed (use some in simp)
qed

end
