(* ===== verification/Extension.thy ===== *)
theory Extension
  imports Dag_Build
begin

text \<open>
  \<open>internal/dag/extension_processor.go\<close> and \<open>internal/status/extensionstatus.go\<close>: the clusters of extension services
  (external authorization and rate limiting) and the status of their objects.  \<open>pd\<close> is \<open>time.ParseDuration\<close>, \<open>cr\<close> the
  certificate library and \<open>now\<close> the time of the run.  Secret lookups store validation results in the cache; since these
  never show in a later answer (\<open>secret_lookups_refine_spec\<close>), the answers are taken from the cache the run started with.
\<close>

section \<open>Status entries\<close>

definition ConditionCache_ConditionFor :: "string \<Rightarrow> ExtensionCacheEntry \<Rightarrow> DetailedCondition \<times> ExtensionCacheEntry" where
  "ConditionCache_ConditionFor condType c =
     (case lookup (ece_Conditions c) condType of
        Some cond \<Rightarrow> (cond, c)
      | None \<Rightarrow>
          let cond = \<lparr>dc_Type = condType, dc_Status = ''Unknown'', dc_ObservedGeneration = 0, dc_LastTransitionTime = 0,
                      dc_Reason = '''', dc_Message = '''', dc_Errors = [], dc_Warnings = []\<rparr>
          in (cond, c\<lparr>ece_Conditions := put condType cond (ece_Conditions c)\<rparr>))"

definition entries_of_kind :: "string \<Rightarrow> StatusCache \<Rightarrow> (NamespacedName, ExtensionCacheEntry) gomap" where
  "entries_of_kind kind c = (case lookup (stc_entries c) kind of None \<Rightarrow> [] | Some m \<Rightarrow> m)"

definition Cache_Get :: "string \<Rightarrow> NamespacedName \<Rightarrow> StatusCache \<Rightarrow> ExtensionCacheEntry option" where
  "Cache_Get kind name c = lookup (entries_of_kind kind c) name"

definition Cache_Put :: "string \<Rightarrow> NamespacedName \<Rightarrow> ExtensionCacheEntry \<Rightarrow> StatusCache \<Rightarrow> StatusCache" where
  "Cache_Put kind name e c = c\<lparr>stc_entries := put kind (put name e (entries_of_kind kind c)) (stc_entries c)\<rparr>"

definition ext_name :: "ExtensionService \<Rightarrow> NamespacedName" where
  "ext_name ext = NamespacedNameOf (ext_Namespace ext) (ext_Name ext)"

definition ExtensionAccessor :: "int \<Rightarrow> ExtensionService \<Rightarrow> StatusCache \<Rightarrow> ExtensionCacheEntry" where
  "ExtensionAccessor now ext c =
     (case Cache_Get ''ExtensionService'' (ext_name ext) c of
        Some entry \<Rightarrow> entry
      | None \<Rightarrow> \<lparr>ece_Conditions = [], ece_Name = ext_name ext, ece_Generation = ext_Generation ext, ece_TransitionTime = now\<rparr>)"

text \<open>\<open>AsStatusUpdate\<close>: the effect of the mutator on the conditions of the object.\<close>

definition ExtensionCacheEntry_mutate :: "ExtensionCacheEntry \<Rightarrow> DetailedCondition list \<Rightarrow> DetailedCondition list" where
  "ExtensionCacheEntry_mutate e conditions =
     mutate_conditions
       (map (\<lambda>(t, c). (t, c\<lparr>dc_ObservedGeneration := ece_Generation e, dc_LastTransitionTime := ece_TransitionTime e\<rparr>)) (ece_Conditions e))
       conditions"

section \<open>The processor\<close>

record ExtensionServiceProcessor =
  esp_ClientCertificate :: "NamespacedName option"
  esp_ConnectTimeout :: duration
  esp_UpstreamTLS :: "UpstreamTLS option"
  esp_GlobalCircuitBreakerDefaults :: "CircuitBreakers option"

definition ExtensionClusterName :: "NamespacedName \<Rightarrow> string" where
  "ExtensionClusterName meta = strings_Join [''extension'', nn_Namespace meta, nn_Name meta] ''/''"

definition stringOrDefault :: "string \<Rightarrow> string \<Rightarrow> string" where
  "stringOrDefault s dflt = (if s = '''' then dflt else s)"

text \<open>\<open>path.Join\<close> joins the elements that are not empty and cleans the result: empty and \<open>.\<close> elements are dropped and
  \<open>..\<close> removes the element before it.\<close>

fun clean_step :: "bool \<Rightarrow> string \<Rightarrow> string list \<Rightarrow> string list" where
  "clean_step rooted seg acc =
     (if seg = '''' \<or> seg = ''.'' then acc
      else if seg = ''..'' then
        (case acc of [] \<Rightarrow> if rooted then [] else [''..''] | x # xs \<Rightarrow> if x = ''..'' then ''..'' # acc else xs)
      else seg # acc)"

definition path_Clean :: "string \<Rightarrow> string" where
  "path_Clean p =
     (let rooted = (p \<noteq> '''' \<and> hd p = CHR ''/'');
          out = (if rooted then ''/'' else '''') @ strings_Join (rev (fold (clean_step rooted) (strings_Split p CHR ''/'') [])) ''/''
      in if out = '''' then ''.'' else out)"

definition path_Join :: "string list \<Rightarrow> string" where
  "path_Join elems = (let es = filter (\<lambda>e. e \<noteq> '''') elems in if es = [] then '''' else path_Clean (strings_Join es ''/''))"

fun extension_targets ::
  "KubernetesCache \<Rightarrow> string \<Rightarrow> ExtensionServiceTarget list \<Rightarrow> ServiceCluster \<times> DetailedCondition \<Rightarrow> ServiceCluster \<times> DetailedCondition" where
  "extension_targets cache ns [] (upstream, vc) = (upstream, vc)"
| "extension_targets cache ns (target # targets) (upstream, vc) =
     (let svcName = \<lparr>nn_Namespace = ns, nn_Name = est_Name target\<rparr> in
      case LookupService cache svcName (FromInt (est_Port target)) of
        Inl err \<Rightarrow>
          extension_targets cache ns targets (upstream,
            AddError ConditionTypeServiceError ''ServiceUnresolvedReference''
              (''unresolved service '' @ go_quote (nn_String svcName) @ '': '' @ err) vc)
      | Inr (svc, port) \<Rightarrow>
          if csv_ExternalName svc \<noteq> '''' then
            extension_targets cache ns targets (upstream,
              AddError ConditionTypeServiceError ''UnsupportedServiceType''
                (''Service '' @ go_quote (nn_String svcName) @ '' is of unsupported type '' @ go_quote ''ExternalName'' @ ''.'') vc)
          else extension_targets cache ns targets (AddWeightedService (est_Weight target) svcName port upstream, vc))"

text \<open>The part of \<open>buildExtensionService\<close> before the upstream validation: the cluster without it and without its services, and
  the condition so far.\<close>

definition extension_base ::
  "(string \<Rightarrow> duration result) \<Rightarrow> crypto \<Rightarrow> ExtensionServiceProcessor \<Rightarrow> KubernetesCache \<Rightarrow> ExtensionService \<Rightarrow> DetailedCondition
     \<Rightarrow> ExtensionCluster \<times> DetailedCondition" where
  "extension_base pd cr p cache ext vc =
     (let spec = ext_Spec ext;
          (rtp, ctp, vc) =
            (case timeoutPolicy pd (ess_TimeoutPolicy spec) (esp_ConnectTimeout p) of
               Inr (rtp, ctp) \<Rightarrow> (rtp, ctp, vc)
             | Inl err \<Rightarrow> (zero_RouteTimeoutPolicy, zero_ClusterTimeoutPolicy,
                 AddError ConditionTypeSpecError ''TimeoutPolicyNotValid'' (''spec.timeoutPolicy failed to parse: '' @ err) vc));
          (clientCertSecret, vc) =
            (case esp_ClientCertificate p of
               None \<Rightarrow> (None, vc)
             | Some name \<Rightarrow>
                 (case fst (LookupTLSSecretInsecure cr name cache) of
                    Inr s \<Rightarrow> (Some s, vc)
                  | Inl err \<Rightarrow> (None, AddError ConditionTypeTLSError ''SecretNotValid''
                      (''tls.envoy-client-certificate Secret '' @ go_quote (nn_String name) @ '' is invalid: '' @ lookup_error_message err) vc)));
          extension = zero_ExtensionCluster\<lparr>
            ec_Name := ExtensionClusterName (ext_name ext),
            ec_Upstream := zero_ServiceCluster\<lparr>sc_ClusterName := path_Join [''extension'', ClusterLoadAssignmentName (ext_name ext) '''']\<rparr>,
            ec_Protocol := ''h2'', ec_RouteTimeoutPolicy := rtp, ec_ClusterTimeoutPolicy := ctp,
            ec_ClientCertificate := clientCertSecret, ec_UpstreamTLS := esp_UpstreamTLS p\<rparr>;
          extension = (case esp_GlobalCircuitBreakerDefaults p of None \<Rightarrow> extension | Some cb \<Rightarrow> extension\<lparr>ec_CircuitBreakers := cb\<rparr>);
          extension = (case ess_CircuitBreakerPolicy spec of None \<Rightarrow> extension | Some cb \<Rightarrow> extension\<lparr>ec_CircuitBreakers := cb\<rparr>);
          lbPolicy = loadBalancerPolicy (ess_LoadBalancerPolicy spec);
          ignored = lbPolicy \<in> {LoadBalancerPolicyCookie, LoadBalancerPolicyRequestHash};
          vc = (if ignored then AddWarning ConditionTypeSpecError ''IgnoredField''
                  (''ignoring field '' @ go_quote ''.Spec.LoadBalancerPolicy'' @ ''; '' @ lbPolicy
                    @ '' load balancer policy is not supported for ExtensionClusters'') vc else vc);
          extension = extension\<lparr>ec_LoadBalancerPolicy := (if ignored then '''' else lbPolicy)\<rparr>;
          vc = (case ess_TimeoutPolicy spec of
                  Some timeouts \<Rightarrow>
                    if tp_Idle timeouts \<noteq> '''' then AddWarning ''SpecError'' ''IgnoredField''
                      (''ignoring field '' @ go_quote ''.Spec.TimeoutPolicy.Idle'' @ ''; idle timeouts are not supported for ExtensionClusters'') vc
                    else vc
                | None \<Rightarrow> vc);
          extension = (case ess_Protocol spec of None \<Rightarrow> extension
                       | Some proto \<Rightarrow> extension\<lparr>ec_Protocol := stringOrDefault proto (ec_Protocol extension)\<rparr>)
      in (extension, vc))"

definition buildExtensionService ::
  "(string \<Rightarrow> duration result) \<Rightarrow> crypto \<Rightarrow> ExtensionServiceProcessor \<Rightarrow> KubernetesCache \<Rightarrow> ExtensionService \<Rightarrow> DetailedCondition
     \<Rightarrow> ExtensionCluster option \<times> DetailedCondition" where
  "buildExtensionService pd cr p cache ext vc =
     (let (extension, vc) = extension_base pd cr p cache ext vc;
          finish = (\<lambda>extension vc. let (upstream, vc) = extension_targets cache (ext_Namespace ext) (ess_Services (ext_Spec ext))
                                                       (ec_Upstream extension, vc)
                                  in (Some (extension\<lparr>ec_Upstream := upstream\<rparr>), vc))
      in case ess_UpstreamValidation (ext_Spec ext) of
           None \<Rightarrow> finish extension vc
         | Some v \<Rightarrow>
             let caCertNamespacedName = NamespacedNameFrom (uv_CACertificate v) [DefaultNamespace (ext_Namespace ext)] in
             (case fst (LookupUpstreamValidation cr (Some v) caCertNamespacedName (ext_Namespace ext) cache) of
                Inl (DelegationNotPermitted _) \<Rightarrow>
                  (None, AddError ConditionTypeTLSError ''CACertificateNotDelegated''
                     (''service.UpstreamValidation.CACertificate Secret '' @ go_quote (nn_String caCertNamespacedName)
                       @ '' is not configured for certificate delegation'') vc)
              | Inl (LookupError e) \<Rightarrow>
                  (None, AddError ConditionTypeSpecError ''TLSUpstreamValidation'' (''TLS upstream validation policy error: '' @ e) vc)
              | Inr uv \<Rightarrow>
                  let extension = extension\<lparr>ec_UpstreamValidation := uv, ec_SNI := hd (GetSubjectNames uv)\<rparr>;
                      vc = (if ec_Protocol extension \<noteq> ''h2'' then AddError ConditionTypeSpecError ''InconsistentProtocol''
                              (''upstream TLS validation not supported for '' @ go_quote (ec_Protocol extension) @ '' protocol'') vc
                            else vc)
                  in finish extension vc))"

definition extension_step ::
  "(string \<Rightarrow> duration result) \<Rightarrow> crypto \<Rightarrow> int \<Rightarrow> ExtensionServiceProcessor \<Rightarrow> KubernetesCache \<Rightarrow> ExtensionService \<Rightarrow> DAG \<Rightarrow> DAG" where
  "extension_step pd cr now p cache e dag =
     (let extStatus = ExtensionAccessor now e (dag_StatusCache dag);
          (validCondition, extStatus) = ConditionCache_ConditionFor ValidCondition extStatus;
          (ext, validCondition) = buildExtensionService pd cr p cache e validCondition;
          dag = (case ext of
                   Some ext \<Rightarrow> if length (dc_Errors validCondition) = 0
                                then dag\<lparr>dag_ExtensionClusters := dag_ExtensionClusters dag @ [ext]\<rparr> else dag
                 | None \<Rightarrow> dag);
          validCondition = (if length (dc_Errors validCondition) = 0
                            then validCondition\<lparr>dc_Status := ConditionTrue, dc_Reason := ''Valid'', dc_Message := ''Valid ExtensionService''\<rparr>
                            else validCondition);
          extStatus = extStatus\<lparr>ece_Conditions := put ValidCondition validCondition (ece_Conditions extStatus)\<rparr>
      in dag\<lparr>dag_StatusCache := Cache_Put ''ExtensionService'' (ext_name e) extStatus (dag_StatusCache dag)\<rparr>)"

definition ExtensionServiceProcessor_Run ::
  "(string \<Rightarrow> duration result) \<Rightarrow> crypto \<Rightarrow> int \<Rightarrow> ExtensionServiceProcessor \<Rightarrow> Processor" where
  "ExtensionServiceProcessor_Run pd cr now p cache dag =
     fold (extension_step pd cr now p cache) (map_values (kc_extensions cache)) dag"

section \<open>Extension services in the DAG are the valid ones\<close>

text \<open>A condition under construction: its status is \<open>False\<close> as soon as it has an error.\<close>

definition ext_cond :: "DetailedCondition \<Rightarrow> bool" where
  "ext_cond vc \<longleftrightarrow> dc_Type vc = ValidCondition \<and> (dc_Errors vc = [] \<or> dc_Status vc = ConditionFalse)"

lemma ext_cond_intros [wf_intro]:
  "ext_cond vc \<Longrightarrow> ext_cond (AddError t r m vc)"
  "ext_cond vc \<Longrightarrow> ext_cond (AddWarning t r m vc)"
  by (auto simp: ext_cond_def AddError_def IsPositivePolarity_def)

lemma extension_base_frame [frame]:
  "ec_Name (fst (extension_base pd cr p kc e vc)) = ExtensionClusterName (ext_name e)"
  "sc_Services (ec_Upstream (fst (extension_base pd cr p kc e vc))) = []"
  by (simp_all add: extension_base_def Let_def zero_ExtensionCluster_def zero_ServiceCluster_def
      split: sum.splits option.splits prod.splits)

lemma extension_base_cond: "ext_cond vc \<Longrightarrow> ext_cond (snd (extension_base pd cr p kc e vc))"
  by (simp add: extension_base_def Let_def ext_cond_intros split: sum.splits option.splits prod.splits)

text \<open>What the cluster has for a target of the spec.\<close>

definition target_resolved :: "KubernetesCache \<Rightarrow> string \<Rightarrow> ExtensionServiceTarget \<Rightarrow> WeightedService \<Rightarrow> bool" where
  "target_resolved kc ns t w \<longleftrightarrow>
     (\<exists>svc. LookupService kc \<lparr>nn_Namespace = ns, nn_Name = est_Name t\<rparr> (FromInt (est_Port t)) = Ok (svc, ws_ServicePort w) \<and>
            csv_ExternalName svc = '''') \<and>
     ws_Weight w = est_Weight t \<and> ws_ServiceName w = est_Name t \<and> ws_ServiceNamespace w = ns"

lemma extension_targets_cond:
  "extension_targets kc ns ts (u, vc) = (u', vc') \<Longrightarrow> ext_cond vc \<Longrightarrow> ext_cond vc' \<and> (dc_Errors vc' = [] \<longrightarrow> dc_Errors vc = [])"
proof (induction ts arbitrary: u vc)
  case (Cons t ts)
  then obtain u1 vc1 where "extension_targets kc ns ts (u1, vc1) = (u', vc')" "ext_cond vc1" "dc_Errors vc1 = [] \<longrightarrow> dc_Errors vc = []"
    by (auto simp: Let_def split: sum.splits prod.splits if_splits intro: ext_cond_intros AddError_simps(3) [THEN notE])
  with Cons.IH show ?case by blast
qed simp

lemma extension_targets_services:
  "extension_targets kc ns ts (u, vc) = (u', vc') \<Longrightarrow> ext_cond vc \<Longrightarrow> dc_Errors vc' = [] \<Longrightarrow>
   \<exists>ws. sc_Services u' = sc_Services u @ ws \<and> list_all2 (target_resolved kc ns) ts ws"
proof (induction ts arbitrary: u vc)
  case (Cons t ts)
  let ?name = "\<lparr>nn_Namespace = ns, nn_Name = est_Name t\<rparr>"
  obtain svc port where l: "LookupService kc ?name (FromInt (est_Port t)) = Ok (svc, port)" "csv_ExternalName svc = ''''"
    and rest: "extension_targets kc ns ts (AddWeightedService (est_Weight t) ?name port u, vc) = (u', vc')"
    using Cons.prems extension_targets_cond [of kc ns ts u _ u' vc'] ext_cond_intros(1) [OF Cons.prems(2)]
    by (fastforce simp: Let_def split: sum.splits prod.splits if_splits)
  from Cons.IH [OF rest Cons.prems(2,3)] obtain ws where
    ws: "sc_Services u' = sc_Services (AddWeightedService (est_Weight t) ?name port u) @ ws" "list_all2 (target_resolved kc ns) ts ws"
    by blast
  have "\<exists>w. sc_Services (AddWeightedService (est_Weight t) ?name port u) = sc_Services u @ [w] \<and> target_resolved kc ns t w"
    using l by (simp add: AddWeightedService_def target_resolved_def zero_WeightedService_def)
  with ws show ?case by auto
qed simp

lemma buildExtensionService_cond:
  assumes "ext_cond vc" "buildExtensionService pd cr p kc e vc = (ext, vc')"
  shows "ext_cond vc'" "ext = None \<Longrightarrow> dc_Errors vc' \<noteq> []"
    "ext = Some ec \<Longrightarrow> ec_Name ec = ExtensionClusterName (ext_name e)"
    "ext = Some ec \<Longrightarrow> dc_Errors vc' = [] \<Longrightarrow>
       list_all2 (target_resolved kc (ext_Namespace e)) (ess_Services (ext_Spec e)) (sc_Services (ec_Upstream ec))"
proof -
  obtain base vb where base: "extension_base pd cr p kc e vc = (base, vb)" by fastforce
  have vb: "ext_cond vb" using extension_base_cond [OF assms(1), of pd cr p kc e] base by simp
  have fr: "ec_Name base = ExtensionClusterName (ext_name e)" "sc_Services (ec_Upstream base) = []"
    using extension_base_frame [of pd cr p kc e vc] base by simp_all
  have "(ext = None \<and> ext_cond vc' \<and> dc_Errors vc' \<noteq> []) \<or>
        (\<exists>b vb' u. ext = Some (b\<lparr>ec_Upstream := u\<rparr>) \<and> ext_cond vb' \<and> ec_Name b = ec_Name base \<and> ec_Upstream b = ec_Upstream base \<and>
           extension_targets kc (ext_Namespace e) (ess_Services (ext_Spec e)) (ec_Upstream b, vb') = (u, vc'))" (is "?none \<or> ?some")
  proof (cases "ess_UpstreamValidation (ext_Spec e)")
    case None
    then have ?some using assms(2) vb unfolding buildExtensionService_def base
      by (simp add: Let_def split: prod.splits) metis
    then show ?thesis ..
  next
    case (Some v)
    let ?ca = "NamespacedNameFrom (uv_CACertificate v) [DefaultNamespace (ext_Namespace e)]"
    show ?thesis
    proof (cases "fst (LookupUpstreamValidation cr (Some v) ?ca (ext_Namespace e) kc)")
      case (Inl err)
      then have ?none using assms(2) vb Some unfolding buildExtensionService_def base
        by (cases err) (auto simp: Let_def ext_cond_intros)
      then show ?thesis ..
    next
      case (Inr uv)
      let ?b = "base\<lparr>ec_UpstreamValidation := uv, ec_SNI := hd (GetSubjectNames uv)\<rparr>"
      let ?vc = "if ec_Protocol ?b \<noteq> ''h2'' then AddError ConditionTypeSpecError ''InconsistentProtocol''
                   (''upstream TLS validation not supported for '' @ go_quote (ec_Protocol ?b) @ '' protocol'') vb else vb"
      obtain u w where t: "extension_targets kc (ext_Namespace e) (ess_Services (ext_Spec e)) (ec_Upstream ?b, ?vc) = (u, w)"
        by fastforce
      have "ext = Some (?b\<lparr>ec_Upstream := u\<rparr>)" "vc' = w"
        using assms(2) Some Inr t unfolding buildExtensionService_def base by (simp_all add: Let_def)
      moreover have "ext_cond ?vc" using vb by (simp add: ext_cond_intros)
      moreover have "ec_Name ?b = ec_Name base" "ec_Upstream ?b = ec_Upstream base" by simp_all
      ultimately have ?some using t by blast
      then show ?thesis ..
    qed
  qed
  then show "ext_cond vc'" "ext = None \<Longrightarrow> dc_Errors vc' \<noteq> []"
    "ext = Some ec \<Longrightarrow> ec_Name ec = ExtensionClusterName (ext_name e)"
    "ext = Some ec \<Longrightarrow> dc_Errors vc' = [] \<Longrightarrow>
       list_all2 (target_resolved kc (ext_Namespace e)) (ess_Services (ext_Spec e)) (sc_Services (ec_Upstream ec))"
    using extension_targets_cond extension_targets_services fr by fastforce+
qed


text \<open>The condition every extension service starts with, and whether it ends without an error.\<close>

definition unknown_condition :: DetailedCondition where
  "unknown_condition = \<lparr>dc_Type = ValidCondition, dc_Status = ''Unknown'', dc_ObservedGeneration = 0, dc_LastTransitionTime = 0,
     dc_Reason = '''', dc_Message = '''', dc_Errors = [], dc_Warnings = []\<rparr>"

definition extension_valid ::
  "(string \<Rightarrow> duration result) \<Rightarrow> crypto \<Rightarrow> ExtensionServiceProcessor \<Rightarrow> KubernetesCache \<Rightarrow> ExtensionService \<Rightarrow> bool" where
  "extension_valid pd cr p kc e \<longleftrightarrow> dc_Errors (snd (buildExtensionService pd cr p kc e unknown_condition)) = []"

definition entry_status :: "ExtensionService \<Rightarrow> DAG \<Rightarrow> string option" where
  "entry_status e d =
     (case Cache_Get ''ExtensionService'' (ext_name e) (dag_StatusCache d) of
        None \<Rightarrow> None
      | Some entry \<Rightarrow> map_option dc_Status (lookup (ece_Conditions entry) ValidCondition))"

lemma unknown_condition_cond: "ext_cond unknown_condition"
  by (simp add: ext_cond_def unknown_condition_def)

lemma Cache_Get_Put:
  "Cache_Get k n (Cache_Put k' m e c) = (if k = k' \<and> n = m then Some e else Cache_Get k n c)"
  by (auto simp: Cache_Get_def Cache_Put_def entries_of_kind_def lookup_put split: option.splits)

lemma extension_step_effect:
  assumes "Cache_Get ''ExtensionService'' (ext_name e) (dag_StatusCache d) = None"
    and "buildExtensionService pd cr p kc e unknown_condition = (ext, vc)"
  shows "dag_ExtensionClusters (extension_step pd cr now p kc e d) =
           dag_ExtensionClusters d @ (if dc_Errors vc = [] then option_list ext else [])"
    and "entry_status e (extension_step pd cr now p kc e d) = Some (if dc_Errors vc = [] then ConditionTrue else dc_Status vc)"
    and "ext_name e' \<noteq> ext_name e \<Longrightarrow>
           Cache_Get ''ExtensionService'' (ext_name e') (dag_StatusCache (extension_step pd cr now p kc e d)) =
           Cache_Get ''ExtensionService'' (ext_name e') (dag_StatusCache d)"
    and "dag_Listeners (extension_step pd cr now p kc e d) = dag_Listeners d"
proof -
  have acc: "ConditionCache_ConditionFor ValidCondition (ExtensionAccessor now e (dag_StatusCache d)) =
     (unknown_condition, \<lparr>ece_Conditions = [(ValidCondition, unknown_condition)], ece_Name = ext_name e,
        ece_Generation = ext_Generation e, ece_TransitionTime = now\<rparr>)"
    using assms(1) by (simp add: ConditionCache_ConditionFor_def ExtensionAccessor_def unknown_condition_def Let_def)
  note simps = extension_step_def acc assms(2) Let_def prod.case length_0_conv Cache_Get_Put option_list_def entry_status_def
  show "dag_ExtensionClusters (extension_step pd cr now p kc e d) =
           dag_ExtensionClusters d @ (if dc_Errors vc = [] then option_list ext else [])"
    by (cases ext) (simp_all add: simps)
  show "entry_status e (extension_step pd cr now p kc e d) = Some (if dc_Errors vc = [] then ConditionTrue else dc_Status vc)"
    by (simp add: simps)
  show "ext_name e' \<noteq> ext_name e \<Longrightarrow>
           Cache_Get ''ExtensionService'' (ext_name e') (dag_StatusCache (extension_step pd cr now p kc e d)) =
           Cache_Get ''ExtensionService'' (ext_name e') (dag_StatusCache d)"
    by (cases ext) (simp_all add: simps)
  show "dag_Listeners (extension_step pd cr now p kc e d) = dag_Listeners d"
    by (cases ext) (simp_all add: simps)
qed

definition resolved_cluster :: "KubernetesCache \<Rightarrow> ExtensionService \<Rightarrow> ExtensionCluster \<Rightarrow> bool" where
  "resolved_cluster kc e ec \<longleftrightarrow>
     ec_Name ec = ExtensionClusterName (ext_name e) \<and>
     list_all2 (target_resolved kc (ext_Namespace e)) (ess_Services (ext_Spec e)) (sc_Services (ec_Upstream ec))"

lemma extension_step_valid:
  assumes "Cache_Get ''ExtensionService'' (ext_name e) (dag_StatusCache d) = None"
  shows "if extension_valid pd cr p kc e
         then (\<exists>ec. dag_ExtensionClusters (extension_step pd cr now p kc e d) = dag_ExtensionClusters d @ [ec] \<and> resolved_cluster kc e ec) \<and>
              entry_status e (extension_step pd cr now p kc e d) = Some ConditionTrue
         else dag_ExtensionClusters (extension_step pd cr now p kc e d) = dag_ExtensionClusters d \<and>
              entry_status e (extension_step pd cr now p kc e d) = Some ConditionFalse"
proof -
  obtain ext vc where b: "buildExtensionService pd cr p kc e unknown_condition = (ext, vc)" by fastforce
  note eff = extension_step_effect [OF assms b, where now = now]
  note cond = buildExtensionService_cond [OF unknown_condition_cond b]
  show ?thesis
  proof (cases "dc_Errors vc = []")
    case True
    then obtain ec where "ext = Some ec" using cond(2) by blast
    with True eff(1,2) cond(3,4) b show ?thesis by (simp add: extension_valid_def option_list_def resolved_cluster_def)
  next
    case False
    with eff(1,2) cond(1) b show ?thesis by (simp add: extension_valid_def ext_cond_def)
  qed
qed


lemma entry_status_cong:
  "Cache_Get ''ExtensionService'' (ext_name e) (dag_StatusCache d') = Cache_Get ''ExtensionService'' (ext_name e) (dag_StatusCache d) \<Longrightarrow>
   entry_status e d' = entry_status e d"
  by (simp add: entry_status_def)

lemma extension_steps_other:
  "ext_name e' \<notin> ext_name ` set es \<Longrightarrow> distinct (map ext_name es) \<Longrightarrow>
   \<forall>e\<in>set es. Cache_Get ''ExtensionService'' (ext_name e) (dag_StatusCache d) = None \<Longrightarrow>
   entry_status e' (fold (extension_step pd cr now p kc) es d) = entry_status e' d"
proof (induction es arbitrary: d)
  case (Cons e es)
  obtain ext vc where b: "buildExtensionService pd cr p kc e unknown_condition = (ext, vc)" by fastforce
  have none: "Cache_Get ''ExtensionService'' (ext_name e) (dag_StatusCache d) = None" using Cons.prems(3) by simp
  note eff = extension_step_effect(3) [OF none b, where now = now]
  have "\<forall>x\<in>set es. Cache_Get ''ExtensionService'' (ext_name x) (dag_StatusCache (extension_step pd cr now p kc e d)) = None"
    using Cons.prems(2,3) by (auto simp: eff image_iff)
  then have "entry_status e' (fold (extension_step pd cr now p kc) (e # es) d) = entry_status e' (extension_step pd cr now p kc e d)"
    using Cons by simp
  also have "\<dots> = entry_status e' d" using Cons.prems(1) by (intro entry_status_cong eff) auto
  finally show ?case .
qed simp

lemma extension_steps:
  "distinct (map ext_name es) \<Longrightarrow> \<forall>e\<in>set es. Cache_Get ''ExtensionService'' (ext_name e) (dag_StatusCache d) = None \<Longrightarrow>
   (\<exists>ecs. dag_ExtensionClusters (fold (extension_step pd cr now p kc) es d) = dag_ExtensionClusters d @ ecs \<and>
          list_all2 (resolved_cluster kc) (filter (extension_valid pd cr p kc) es) ecs) \<and>
   (\<forall>e\<in>set es. entry_status e (fold (extension_step pd cr now p kc) es d) =
      Some (if extension_valid pd cr p kc e then ConditionTrue else ConditionFalse))"
proof (induction es arbitrary: d)
  case (Cons e es)
  obtain ext vc where b: "buildExtensionService pd cr p kc e unknown_condition = (ext, vc)" by fastforce
  let ?d = "extension_step pd cr now p kc e d"
  have none: "Cache_Get ''ExtensionService'' (ext_name e) (dag_StatusCache d) = None" using Cons.prems(2) by simp
  have rest: "\<forall>x\<in>set es. Cache_Get ''ExtensionService'' (ext_name x) (dag_StatusCache ?d) = None"
    using Cons.prems by (auto simp: extension_step_effect(3) [OF none b] image_iff)
  note v = extension_step_valid [OF none, of pd cr p kc now]
  have own: "entry_status e (fold (extension_step pd cr now p kc) es ?d) = entry_status e ?d"
    using Cons.prems(1) by (intro extension_steps_other rest) auto
  obtain ecs where ecs: "dag_ExtensionClusters (fold (extension_step pd cr now p kc) es ?d) = dag_ExtensionClusters ?d @ ecs"
    "list_all2 (resolved_cluster kc) (filter (extension_valid pd cr p kc) es) ecs"
    and st: "\<forall>x\<in>set es. entry_status x (fold (extension_step pd cr now p kc) es ?d) =
      Some (if extension_valid pd cr p kc x then ConditionTrue else ConditionFalse)"
    using Cons.IH [OF _ rest] Cons.prems(1) by auto
  show ?case
  proof (cases "extension_valid pd cr p kc e")
    case True
    with v ecs st own show ?thesis by auto
  next
    case False
    with v ecs st own show ?thesis by auto
  qed
qed simp

lemma extension_step_listeners: "dag_Listeners (extension_step pd cr now p kc e d) = dag_Listeners d"
  by (simp add: extension_step_def Let_def split: prod.splits option.splits)

lemma extension_run_listeners: "dag_Listeners (ExtensionServiceProcessor_Run pd cr now p kc d) = dag_Listeners d"
  unfolding ExtensionServiceProcessor_Run_def
  by (rule fold_invariant [where P = "\<lambda>x. dag_Listeners x = dag_Listeners d" and Q = "\<lambda>_. True"]) (simp_all add: extension_step_listeners)

interpretation extension_run: dag_processor "ExtensionServiceProcessor_Run pd cr now p" for pd cr now p
  by unfold_locales (simp add: wf_dag_def extension_run_listeners)

text \<open>
  C24. A run of the extension service processor over the services of the cache: the clusters it adds to the DAG are, in
  order, those of the extension services without an error, each under the name of its service and with one
  endpoint group per target of the spec, in the order of the spec and with its weight, resolved in the namespace of the
  extension service and never to an \<open>ExternalName\<close> service; and the \<open>Valid\<close> condition reported for an extension service is true
  exactly when its cluster is in the DAG.  Listeners are not touched.
\<close>

theorem ExtensionServiceProcessor_Run_correct:
  assumes "distinct (map ext_name (map_values (kc_extensions kc)))"
    and "stc_entries (dag_StatusCache d) = []" and "dag_ExtensionClusters d = []"
    and "d' = ExtensionServiceProcessor_Run pd cr now p kc d"
  shows "list_all2 (resolved_cluster kc) (filter (extension_valid pd cr p kc) (map_values (kc_extensions kc))) (dag_ExtensionClusters d') \<and>
         (\<forall>e\<in>set (map_values (kc_extensions kc)).
            entry_status e d' = Some (if extension_valid pd cr p kc e then ConditionTrue else ConditionFalse)) \<and>
         dag_Listeners d' = dag_Listeners d"
proof -
  have none: "\<forall>e\<in>set (map_values (kc_extensions kc)). Cache_Get ''ExtensionService'' (ext_name e) (dag_StatusCache d) = None"
    using assms(2) by (simp add: Cache_Get_def entries_of_kind_def)
  from extension_steps [OF assms(1) none, of pd cr now p kc] assms(3,4) extension_run_listeners [of pd cr now p kc d] show ?thesis
    by (auto simp: ExtensionServiceProcessor_Run_def)
qed

definition sample_extension :: "string \<Rightarrow> string \<Rightarrow> ExtensionService" where
  "sample_extension name service =
     \<lparr>ext_Name = name, ext_Namespace = ''ns'', ext_Generation = 1, ext_Spec = \<lparr>ess_Services = [\<lparr>est_Name = service, est_Port = 80, est_Weight = 1\<rparr>],
        ess_UpstreamValidation = None, ess_Protocol = None, ess_LoadBalancerPolicy = None, ess_TimeoutPolicy = None, ess_ProtocolVersion = ''v3'',
        ess_CircuitBreakerPolicy = None\<rparr>\<rparr>"

definition sample_extensions :: KubernetesCache where
  "sample_extensions = empty_cache\<lparr>
     kc_services := [(\<lparr>nn_Namespace = ''ns'', nn_Name = ''auth''\<rparr>,
        zero_CoreService\<lparr>csv_Name := ''auth'', csv_Namespace := ''ns'', csv_Ports := [zero_ServicePort\<lparr>port_Port := 80\<rparr>]\<rparr>)],
     kc_extensions := [(\<lparr>nn_Namespace = ''ns'', nn_Name = ''good''\<rparr>, sample_extension ''good'' ''auth''),
                       (\<lparr>nn_Namespace = ''ns'', nn_Name = ''bad''\<rparr>, sample_extension ''bad'' ''missing'')]\<rparr>"

theorem ExtensionServiceProcessor_Run_correct_witness:
  "let p = \<lparr>esp_ClientCertificate = None, esp_ConnectTimeout = 0, esp_UpstreamTLS = None, esp_GlobalCircuitBreakerDefaults = None\<rparr>;
       d' = ExtensionServiceProcessor_Run (\<lambda>_. Err []) sample_crypto 0 p sample_extensions (new_DAG sample_extensions)
   in list_all2 (resolved_cluster sample_extensions) (filter (extension_valid (\<lambda>_. Err []) sample_crypto p sample_extensions) (map_values (kc_extensions sample_extensions)))
        (dag_ExtensionClusters d')"
proof -
  have "distinct (map ext_name (map_values (kc_extensions sample_extensions)))"
    by (simp add: sample_extensions_def sample_extension_def map_values_def ext_name_def NamespacedNameOf_def)
  moreover have "stc_entries (dag_StatusCache (new_DAG sample_extensions)) = []" "dag_ExtensionClusters (new_DAG sample_extensions) = []"
    by (simp_all add: new_DAG_def NewCache_def Let_def)
  ultimately show ?thesis using ExtensionServiceProcessor_Run_correct [OF _ _ _ refl] unfolding Let_def by blast
qed

end
