(* ===== verification/Proxy_Policies.thy ===== *)
theory Proxy_Policies
  imports Extension
begin

text \<open>
  The helpers of \<open>internal/dag/httpproxy_processor.go\<close>: how the parts of an HTTPProxy become DAG policies (IP filters, CORS,
  redirects, SNI, slow start, external authorization, rate limits) and the comparison of include conditions.
  The library functions the processor calls (durations, regular expressions, addresses, URLs, numbers, certificates,
  the clock) are the fields of a record \<open>library\<close>.  \<open>validCond\<close> is passed in and returned; a \<open>return nil\<close> or \<open>return false\<close> of
  the source is None.
\<close>

section \<open>The libraries\<close>

record URL =
  url_Scheme :: string
  url_Host :: string
  url_Hostname :: string
  url_Port :: string

record library =
  lib_ParseDuration :: "string \<Rightarrow> duration result"
  lib_Compile :: "string \<Rightarrow> string option"
  lib_IsHTTPHeaderName :: "string \<Rightarrow> string list"
  lib_crypto :: crypto
  lib_ParseCIDR :: "string \<Rightarrow> IPNet result"
  lib_url_Parse :: "string \<Rightarrow> URL result"
  lib_ParseFloat :: "string \<Rightarrow> float64 option"
  lib_now :: int

text \<open>The step after a fallible one: an error is recorded in the condition and ends the function.\<close>

definition or_fail ::
  "string \<Rightarrow> string \<Rightarrow> (string \<Rightarrow> string) \<Rightarrow> DetailedCondition \<Rightarrow> 'a result \<Rightarrow> ('a \<Rightarrow> DetailedCondition \<times> 'b option)
     \<Rightarrow> DetailedCondition \<times> 'b option" where
  "or_fail errorType reason msg vc r k =
     (case r of Inl err \<Rightarrow> (AddError errorType reason (msg err) vc, None) | Inr x \<Rightarrow> k x)"

section \<open>The processor\<close>

record RateLimitServiceConfig =
  rlsc_ExtensionService :: NamespacedName
  rlsc_Domain :: string
  rlsc_FailOpen :: "bool option"
  rlsc_EnableXRateLimitHeaders :: "bool option"
  rlsc_EnableResourceExhaustedCode :: "bool option"
  rlsc_DefaultGlobalRateLimitPolicy :: "GlobalRateLimitPolicy_v1 option"

text \<open>The configuration of the processor; its three working fields (the DAG, the source and the orphans) are passed
  explicitly.\<close>

record HTTPProxyProcessor =
  hpp_DisablePermitInsecure :: bool
  hpp_FallbackCertificate :: "NamespacedName option"
  hpp_EnableExternalNameService :: bool
  hpp_DNSLookupFamily :: string
  hpp_ClientCertificate :: "NamespacedName option"
  hpp_RequestHeadersPolicy :: "HeadersPolicy option"
  hpp_ResponseHeadersPolicy :: "HeadersPolicy option"
  hpp_GlobalExternalAuthorization :: "AuthorizationServer option"
  hpp_ConnectTimeout :: duration
  hpp_MaxRequestsPerConnection :: "uint32 option"
  hpp_PerConnectionBufferLimitBytes :: "uint32 option"
  hpp_GlobalRateLimitService :: "RateLimitServiceConfig option"
  hpp_SetSourceMetadataOnRoutes :: bool
  hpp_GlobalCircuitBreakerDefaults :: "CircuitBreakers option"
  hpp_UpstreamTLS :: "UpstreamTLS option"

section \<open>Small policies\<close>

definition contour_v1alpha1_GroupVersion :: string where
  "contour_v1alpha1_GroupVersion = ''projectcontour.io/v1alpha1''"

definition defaultExtensionRef :: "ExtensionServiceReference \<Rightarrow> ExtensionServiceReference" where
  "defaultExtensionRef ref =
     (if esr_APIVersion ref = '''' then ref\<lparr>esr_APIVersion := contour_v1alpha1_GroupVersion\<rparr> else ref)"

definition isBlank :: "string \<Rightarrow> bool" where
  "isBlank s = (length (strings_TrimSpace s) = 0)"

definition routeEnforceTLS :: "bool \<Rightarrow> bool \<Rightarrow> bool" where
  "routeEnforceTLS enforceTLS permitInsecure = (enforceTLS \<and> \<not> permitInsecure)"

definition directResponse :: "uint32 \<Rightarrow> string \<Rightarrow> DirectResponse option" where
  "directResponse statusCode body = Some \<lparr>dr_StatusCode = statusCode, dr_Body = body\<rparr>"

definition routeActionCountValid :: "Route_v1 \<Rightarrow> unit result" where
  "routeActionCountValid route =
     (let routeActionCount = (0 :: nat);
          routeActionCount = (if length (rt1_Services route) > 0 then routeActionCount + 1 else routeActionCount);
          routeActionCount = (if rt1_RequestRedirectPolicy route \<noteq> None then routeActionCount + 1 else routeActionCount);
          routeActionCount = (if rt1_DirectResponsePolicy route \<noteq> None then routeActionCount + 1 else routeActionCount)
      in if routeActionCount \<noteq> 1
         then Err ''must set exactly one of route.services or route.requestRedirectPolicy or route.directResponsePolicy''
         else Ok ())"

definition redirectRoutePolicy :: "HTTPRequestRedirectPolicy option \<Rightarrow> Redirect option result" where
  "redirectRoutePolicy redirect =
     (case redirect of
        None \<Rightarrow> Ok None
      | Some redirect \<Rightarrow>
          if rrp_Path redirect \<noteq> None \<and> rrp_Prefix redirect \<noteq> None
          then Err ''cannot specify both redirect path and redirect prefix''
          else
            let pathRewritePolicy =
                  (case rrp_Path redirect of
                     None \<Rightarrow> None
                   | Some p \<Rightarrow> Some (zero_PathRewritePolicy\<lparr>prp_FullPathRewrite := p\<rparr>));
                pathRewritePolicy =
                  (case rrp_Prefix redirect of
                     None \<Rightarrow> pathRewritePolicy
                   | Some p \<Rightarrow>
                       Some ((case pathRewritePolicy of None \<Rightarrow> zero_PathRewritePolicy | Some q \<Rightarrow> q)\<lparr>prp_PrefixRewrite := p\<rparr>))
            in Ok (Some \<lparr>
                 rd_Hostname = (case rrp_Hostname redirect of None \<Rightarrow> '''' | Some h \<Rightarrow> h),
                 rd_Scheme = (case rrp_Scheme redirect of None \<Rightarrow> '''' | Some s \<Rightarrow> s),
                 rd_PortNumber = (case rrp_Port redirect of None \<Rightarrow> 0 | Some p \<Rightarrow> to_uint32 p),
                 rd_StatusCode = (case rrp_StatusCode redirect of None \<Rightarrow> 0 | Some c \<Rightarrow> c),
                 rd_PathRewritePolicy = pathRewritePolicy\<rparr>))"

definition directResponsePolicy :: "HTTPDirectResponsePolicy option \<Rightarrow> DirectResponse option" where
  "directResponsePolicy direct =
     (case direct of None \<Rightarrow> None | Some d \<Rightarrow> directResponse (to_uint32 (drp_StatusCode d)) (drp_Body d))"

definition internalRedirectPolicy :: "HTTPInternalRedirectPolicy option \<Rightarrow> InternalRedirectPolicy option" where
  "internalRedirectPolicy internal =
     (case internal of
        None \<Rightarrow> None
      | Some i \<Rightarrow> Some \<lparr>
          irp_MaxInternalRedirects = irp1_MaxInternalRedirects i,
          irp_RedirectResponseCodes = irp1_RedirectResponseCodes i,
          irp_AllowCrossSchemeRedirect =
            (if irp1_AllowCrossSchemeRedirect i = ''Always'' then ''always''
             else if irp1_AllowCrossSchemeRedirect i = ''SafeOnly'' then ''safeOnly''
             else ''never''),
          irp_DenyRepeatedRouteRedirect = irp1_DenyRepeatedRouteRedirect i\<rparr>)"

text \<open>The bit pattern of \<open>float64(1.0)\<close>.\<close>

definition float64_one :: float64 where "float64_one = 0x3FF0000000000000"

definition slowStartConfig :: "library \<Rightarrow> SlowStartPolicy \<Rightarrow> SlowStartConfig result" where
  "slowStartConfig lib slowStart =
     (case lib_ParseDuration lib (ssp_Window slowStart) of
        Inl err \<Rightarrow> Err (''error parsing window: '' @ err)
      | Inr window \<Rightarrow>
          (case (if ssp_Aggression slowStart \<noteq> '''' then lib_ParseFloat lib (ssp_Aggression slowStart) else Some float64_one) of
             None \<Rightarrow> Err (''error parsing aggression: '' @ [CHR 0x22] @ ssp_Aggression slowStart @ [CHR 0x22] @ '' is not a decimal number'')
           | Some aggression \<Rightarrow>
               Ok \<lparr>ssc_Window = window, ssc_Aggression = aggression, ssc_MinWeightPercent = ssp_MinimumWeightPercent slowStart\<rparr>))"

definition rateLimitPerRoute :: "RateLimitPolicy_v1 option \<Rightarrow> VhRateLimitsType option" where
  "rateLimitPerRoute in' =
     (case in' of
        None \<Rightarrow> None
      | Some i \<Rightarrow>
          (case rl1_Global i of
             None \<Rightarrow> None
           | Some g \<Rightarrow> if grl1_Disabled g then Some VhRateLimitsIgnore else None))"

definition getProtocol :: "Service_v1 \<Rightarrow> Service \<Rightarrow> string result" where
  "getProtocol service s =
     (case sv1_Protocol service of
        Some protocol \<Rightarrow>
          if protocol \<in> {''h2c'', ''h2'', ''tls''} then Ok protocol else Err (''unsupported protocol: '' @ protocol)
      | None \<Rightarrow> Ok (sv_Protocol s))"

definition determineSNI :: "HeadersPolicy option \<Rightarrow> HeadersPolicy option \<Rightarrow> Service \<Rightarrow> string" where
  "determineSNI routeRequestHeaders clusterRequestHeaders service =
     (let rewrite = (\<lambda>hp. case hp of None \<Rightarrow> '''' | Some p \<Rightarrow> hp_HostRewrite p) in
      if rewrite clusterRequestHeaders \<noteq> '''' then rewrite clusterRequestHeaders
      else if rewrite routeRequestHeaders \<noteq> '''' then rewrite routeRequestHeaders
      else sv_ExternalName service)"

section \<open>CORS\<close>

definition toAllowOriginMatch :: "library \<Rightarrow> string \<Rightarrow> CORSAllowOriginMatch result" where
  "toAllowOriginMatch lib ao =
     (if ao = ''*'' then Ok \<lparr>cao_Type = CORSAllowOriginMatchExact, cao_Value = ao\<rparr>
      else
        let notExact = (case lib_url_Parse lib ao of
                          Inl _ \<Rightarrow> True
                        | Inr u \<Rightarrow> url_Scheme u = '''' \<or> url_Host u = '''' \<or> url_Scheme u @ ''://'' @ url_Host u \<noteq> ao)
        in if notExact then
             (case lib_Compile lib ao of
                Some _ \<Rightarrow> Err ''allowed origin is invalid exact match and invalid regex match''
              | None \<Rightarrow> Ok \<lparr>cao_Type = CORSAllowOriginMatchRegex, cao_Value = ao\<rparr>)
           else Ok \<lparr>cao_Type = CORSAllowOriginMatchExact, cao_Value = ao\<rparr>)"

fun allow_origins :: "library \<Rightarrow> string list \<Rightarrow> CORSAllowOriginMatch list \<Rightarrow> CORSAllowOriginMatch list result" where
  "allow_origins lib [] acc = Ok acc"
| "allow_origins lib (ao # aos) acc =
     (case toAllowOriginMatch lib ao of
        Inl err \<Rightarrow> Err (''invalid allowed origin '' @ go_quote ao @ '': '' @ err)
      | Inr m \<Rightarrow> allow_origins lib aos (acc @ [m]))"

definition toCORSPolicy :: "library \<Rightarrow> CORSPolicy_v1 option \<Rightarrow> CORSPolicy option result" where
  "toCORSPolicy lib policy =
     (case policy of
        None \<Rightarrow> Ok None
      | Some policy \<Rightarrow>
          if length (cors1_AllowOrigin policy) = 0 then Err ''invalid allowed origin configuration with length 0''
          else case allow_origins lib (cors1_AllowOrigin policy) [] of
            Inl err \<Rightarrow> Err err
          | Inr allowOriginMatches \<Rightarrow>
              if length (cors1_AllowMethods policy) = 0 then Err ''invalid allowed methods configuration with length 0''
              else case ParseMaxAge (lib_ParseDuration lib) (cors1_MaxAge policy) of
                Inl err \<Rightarrow> Err err
              | Inr maxAge \<Rightarrow>
                  if Duration maxAge < 0 then Err (''invalid max age value '' @ go_quote (cors1_MaxAge policy))
                  else Ok (Some \<lparr>
                    cors_AllowCredentials = cors1_AllowCredentials policy,
                    cors_AllowOrigin = allowOriginMatches,
                    cors_AllowMethods = cors1_AllowMethods policy,
                    cors_AllowHeaders = cors1_AllowHeaders policy,
                    cors_ExposeHeaders = cors1_ExposeHeaders policy,
                    cors_MaxAge = maxAge,
                    cors_AllowPrivateNetwork = cors1_AllowPrivateNetwork policy\<rparr>))"

section \<open>IP filters\<close>

text \<open>A bare address is a network of one host.\<close>

definition unparsedCIDR :: "string \<Rightarrow> string" where
  "unparsedCIDR cidr =
     (if \<not> strings_Contains cidr ''/'' then
        (if strings_Contains cidr '':'' then cidr @ ''/128'' else cidr @ ''/32'')
      else cidr)"

text \<open>The loop: the rules so far, the error of the last iteration, and the condition.\<close>

fun ip_filter_loop ::
  "library \<Rightarrow> IPFilterPolicy list \<Rightarrow> IPFilterRule list \<times> string option \<times> DetailedCondition
     \<Rightarrow> IPFilterRule list \<times> string option \<times> DetailedCondition" where
  "ip_filter_loop lib [] st = st"
| "ip_filter_loop lib (p # ps) (filters, err, vc) =
     (case lib_ParseCIDR lib (unparsedCIDR (ipf1_CIDR p)) of
        Inl err \<Rightarrow>
          ip_filter_loop lib ps (filters, Some err,
            AddError ConditionTypeIPFilterError ''InvalidCIDR'' (ipf1_CIDR p @ '' failed to parse: '' @ err) vc)
      | Inr cidr \<Rightarrow>
          ip_filter_loop lib ps (filters @ [\<lparr>ipf_Remote = (ipf1_Source p = ''Remote''), ipf_CIDR = cidr\<rparr>], None, vc))"

definition toIPFilterRules ::
  "library \<Rightarrow> IPFilterPolicy list \<Rightarrow> IPFilterPolicy list \<Rightarrow> DetailedCondition
     \<Rightarrow> (bool \<times> IPFilterRule list \<times> string option) \<times> DetailedCondition" where
  "toIPFilterRules lib allowPolicy denyPolicy validCond =
     (if length allowPolicy > 0 \<and> length denyPolicy > 0 then
        ((False, [], Some ''invalid ip filter''),
         AddError ConditionTypeIPFilterError ''IncompatibleIPAddressFilters''
           ''cannot specify both `ipAllowPolicy` and `ipDenyPolicy`'' validCond)
      else
        let allow = (length allowPolicy > 0);
            ipPolicies = (if length allowPolicy > 0 then allowPolicy else denyPolicy)
        in if ipPolicies = [] then ((allow, [], None), validCond)
           else let (filters, err, vc) = ip_filter_loop lib ipPolicies ([], None, validCond) in
             if err \<noteq> None then ((False, [], err), vc) else ((allow, filters, err), vc))"

section \<open>Duplicate include conditions\<close>

record matchConditionAggregate =
  mca_headerConds :: "HeaderMatchCondition list"
  mca_queryParamConds :: "QueryParamMatchCondition list"

definition include_header_Less :: "HeaderMatchCondition \<Rightarrow> HeaderMatchCondition \<Rightarrow> bool" where
  "include_header_Less i j =
     (if hc_MatchType i \<noteq> hc_MatchType j then hc_MatchType i < hc_MatchType j
      else if hc_IgnoreCase i \<noteq> hc_IgnoreCase j then hc_IgnoreCase i
      else if hc_Invert i \<noteq> hc_Invert j then hc_Invert i
      else if hc_TreatMissingAsEmpty i \<noteq> hc_TreatMissingAsEmpty j then hc_TreatMissingAsEmpty i
      else if hc_Name i \<noteq> hc_Name j then hc_Name i < hc_Name j
      else if hc_Value i \<noteq> hc_Value j then hc_Value i < hc_Value j
      else False)"

definition include_query_Less :: "QueryParamMatchCondition \<Rightarrow> QueryParamMatchCondition \<Rightarrow> bool" where
  "include_query_Less i j =
     (if qc_MatchType i \<noteq> qc_MatchType j then qc_MatchType i < qc_MatchType j
      else if qc_IgnoreCase i \<noteq> qc_IgnoreCase j then qc_IgnoreCase i
      else if qc_Name i \<noteq> qc_Name j then qc_Name i < qc_Name j
      else if qc_Value i \<noteq> qc_Value j then qc_Value i < qc_Value j
      else False)"

text \<open>The element-by-element comparison of two slices of the same length.\<close>

fun slices_identical :: "'a list \<Rightarrow> 'a list \<Rightarrow> bool" where
  "slices_identical (x # xs) (y # ys) = (if x \<noteq> y then False else slices_identical xs ys)"
| "slices_identical _ _ = True"

fun aggregate_seen :: "HeaderMatchCondition list \<Rightarrow> QueryParamMatchCondition list \<Rightarrow> matchConditionAggregate list \<Rightarrow> bool" where
  "aggregate_seen hs qs [] = False"
| "aggregate_seen hs qs (ag # ags) =
     (if length (mca_headerConds ag) \<noteq> length hs \<or> length (mca_queryParamConds ag) \<noteq> length qs then aggregate_seen hs qs ags
      else if \<not> slices_identical (mca_headerConds ag) hs then aggregate_seen hs qs ags
      else if \<not> slices_identical (mca_queryParamConds ag) qs then aggregate_seen hs qs ags
      else True)"

type_synonym seenConds = "(string, matchConditionAggregate list) gomap"

definition includeMatchConditionsIdentical :: "MatchCondition_v1 list \<Rightarrow> seenConds \<Rightarrow> bool \<times> seenConds" where
  "includeMatchConditionsIdentical includeConds seenConds =
     (case mergePathMatchConditions includeConds of
        PrefixMatchCondition pathPrefix _ \<Rightarrow>
          let includeHeaderConds = mergeHeaderMatchConditions includeConds;
              includeQueryParamConds = mergeQueryParamMatchConditions includeConds
          in if pathPrefix = ''/'' \<and> length includeHeaderConds = 0 \<and> length includeQueryParamConds = 0
             then (False, seenConds)
             else
               let includeHeaderConds = sort_Stable include_header_Less includeHeaderConds;
                   includeQueryParamConds = sort_Stable include_query_Less includeQueryParamConds;
                   ag = \<lparr>mca_headerConds = includeHeaderConds, mca_queryParamConds = includeQueryParamConds\<rparr>
               in (case lookup seenConds pathPrefix of
                     None \<Rightarrow> (False, put pathPrefix [ag] seenConds)
                   | Some condAggregates \<Rightarrow>
                       if aggregate_seen includeHeaderConds includeQueryParamConds condAggregates then (True, seenConds)
                       else (False, put pathPrefix (condAggregates @ [ag]) seenConds))
      | _ \<Rightarrow> (True, seenConds))"

section \<open>Authorization\<close>

definition validateExternalAuthExtensionService ::
  "ExtensionServiceReference \<Rightarrow> DetailedCondition \<Rightarrow> HTTPProxy \<Rightarrow> (string \<Rightarrow> ExtensionCluster option)
     \<Rightarrow> DetailedCondition \<times> ExtensionCluster option" where
  "validateExternalAuthExtensionService ref validCond httpproxy getExtensionCluster =
     (if esr_APIVersion ref \<noteq> contour_v1alpha1_GroupVersion
      then (AddError ConditionTypeAuthError ''AuthBadResourceVersion''
              (''Spec.Virtualhost.Authorization.extensionRef specifies an unsupported resource version ''
                @ go_quote (esr_APIVersion ref)) validCond, None)
      else
        let extensionName = \<lparr>nn_Namespace = stringOrDefault (esr_Namespace ref) (px_Namespace httpproxy), nn_Name = esr_Name ref\<rparr> in
        (case getExtensionCluster (ExtensionClusterName extensionName) of
           None \<Rightarrow> (AddError ConditionTypeAuthError ''ExtensionServiceNotFound''
                      (''Spec.Virtualhost.Authorization.ServiceRef extension service '' @ go_quote (nn_String extensionName)
                        @ '' not found'') validCond, None)
         | Some ext \<Rightarrow> (validCond, Some ext)))"

definition determineExternalAuthTimeout ::
  "library \<Rightarrow> string \<Rightarrow> DetailedCondition \<Rightarrow> ExtensionCluster \<Rightarrow> DetailedCondition \<times> Setting option" where
  "determineExternalAuthTimeout lib responseTimeout validCond ext =
     or_fail ConditionTypeAuthError ''AuthResponseTimeoutInvalid''
       (\<lambda>err. ''Spec.Virtualhost.Authorization.ResponseTimeout is invalid: '' @ err) validCond
       (timeout_Parse (lib_ParseDuration lib) responseTimeout)
       (\<lambda>tout. (validCond, Some (if UseDefault tout then rto_ResponseTimeout (ec_RouteTimeoutPolicy ext) else tout)))"

definition defaultMaxRequestBytes :: uint32 where "defaultMaxRequestBytes = 1024"

definition computeVirtualHostAuthorization ::
  "library \<Rightarrow> AuthorizationServer \<Rightarrow> DetailedCondition \<Rightarrow> HTTPProxy \<Rightarrow> DAG \<Rightarrow> DetailedCondition \<times> ExternalAuthorization option" where
  "computeVirtualHostAuthorization lib auth validCond httpproxy dag =
     (let (validCond, ext) = validateExternalAuthExtensionService (defaultExtensionRef (as_ExtensionServiceRef auth)) validCond
                               httpproxy (\<lambda>name. GetExtensionCluster name dag)
      in case ext of
           None \<Rightarrow> (validCond, None)
         | Some ext \<Rightarrow>
             let (validCond, respTimeout) = determineExternalAuthTimeout lib (as_ResponseTimeout auth) validCond ext in
             (case respTimeout of
                None \<Rightarrow> (validCond, None)
              | Some respTimeout \<Rightarrow>
                  (validCond, Some \<lparr>
                     ea_AuthorizationService = Some ext,
                     ea_AuthorizationResponseTimeout = respTimeout,
                     ea_AuthorizationFailOpen = as_FailOpen auth,
                     ea_AuthorizationServerWithRequestBody =
                       map_option (\<lambda>b. \<lparr>asb_MaxRequestBytes = (if asb1_MaxRequestBytes b \<noteq> 0 then asb1_MaxRequestBytes b else defaultMaxRequestBytes),
                                       asb_AllowPartialMessage = asb1_AllowPartialMessage b,
                                       asb_PackAsBytes = asb1_PackAsBytes b\<rparr>) (as_WithRequestBody auth)\<rparr>)))"

text \<open>The write to the secure virtual host is returned: the outer None is \<open>return false\<close>, the inner None no write.\<close>

definition computeSecureVirtualHostAuthorization ::
  "library \<Rightarrow> HTTPProxyProcessor \<Rightarrow> DetailedCondition \<Rightarrow> HTTPProxy \<Rightarrow> VirtualHost_v1 \<Rightarrow> DAG
     \<Rightarrow> DetailedCondition \<times> ExternalAuthorization option option" where
  "computeSecureVirtualHostAuthorization lib p validCond httpproxy vh dag =
     (let configured = (case vh1_Authorization vh of
                          Some auth \<Rightarrow> if \<not> DisableAuthorization vh \<and> IsConfigured (as_ExtensionServiceRef auth) then Some auth else None
                        | None \<Rightarrow> None)
      in case (case configured of Some auth \<Rightarrow> Some auth | None \<Rightarrow> hpp_GlobalExternalAuthorization p) of
           None \<Rightarrow> (validCond, Some None)
         | Some auth \<Rightarrow>
             let (validCond, authorization) = computeVirtualHostAuthorization lib auth validCond httpproxy dag in
             (case authorization of
                None \<Rightarrow> (validCond, None)
              | Some a \<Rightarrow> (validCond, Some (Some a))))"

definition GlobalAuthorizationConfigured :: "HTTPProxyProcessor \<Rightarrow> bool" where
  "GlobalAuthorizationConfigured p = (hpp_GlobalExternalAuthorization p \<noteq> None)"

definition GlobalAuthorizationContext :: "HTTPProxyProcessor \<Rightarrow> (string, string) gomap" where
  "GlobalAuthorizationContext p =
     (case hpp_GlobalExternalAuthorization p of
        Some auth \<Rightarrow> (case as_AuthPolicy auth of Some policy \<Rightarrow> ap_Context policy | None \<Rightarrow> [])
      | None \<Rightarrow> [])"

section \<open>Rate limits of a virtual host\<close>

definition computeVirtualHostRateLimitPolicy ::
  "library \<Rightarrow> VirtualHost_v1 \<Rightarrow> RateLimitServiceConfig option \<Rightarrow> DetailedCondition \<Rightarrow> DetailedCondition \<times> RateLimitPolicy option option" where
  "computeVirtualHostRateLimitPolicy lib vh rls validCond =
     or_fail ConditionTypeVirtualHostError ''RateLimitPolicyNotValid''
       (\<lambda>err. ''Spec.VirtualHost.RateLimitPolicy is invalid: '' @ err) validCond
       (rateLimitPolicy (lib_IsHTTPHeaderName lib) (vh1_RateLimitPolicy vh))
       (\<lambda>rlp.
          if (case rlp of None \<Rightarrow> False | Some r \<Rightarrow> rl_Global r \<noteq> None) then (validCond, Some rlp)
          else
            let optedOut = (case vh1_RateLimitPolicy vh of
                              None \<Rightarrow> False
                            | Some r \<Rightarrow> (case rl1_Global r of None \<Rightarrow> False | Some g \<Rightarrow> grl1_Disabled g))
            in (case rls of
                  None \<Rightarrow> (validCond, Some rlp)
                | Some rls \<Rightarrow>
                    (case rlsc_DefaultGlobalRateLimitPolicy rls of
                       None \<Rightarrow> (validCond, Some rlp)
                     | Some dflt \<Rightarrow>
                         if optedOut then (validCond, Some rlp)
                         else
                           let r = (case rlp of None \<Rightarrow> zero_RateLimitPolicy | Some r \<Rightarrow> r) in
                           or_fail ConditionTypeVirtualHostError ''RateLimitPolicyNotValid''
                             (\<lambda>err. ''Default Global RateLimit Policy is invalid: '' @ err) validCond
                             (globalRateLimitPolicy (Some dflt))
                             (\<lambda>g. (validCond, Some (Some (r\<lparr>rl_Global := g\<rparr>)))))))"

section \<open>Upstream validation\<close>

text \<open>Errors of the lookup of a CA certificate for a service; the outer None is an error.\<close>

definition upstream_validation ::
  "library \<Rightarrow> KubernetesCache \<Rightarrow> string \<Rightarrow> Service_v1 \<Rightarrow> DetailedCondition \<Rightarrow> DetailedCondition \<times> PeerValidationContext option option" where
  "upstream_validation lib cache ns service validCond =
     (case sv1_UpstreamValidation service of
        None \<Rightarrow> (validCond, Some None)
      | Some v \<Rightarrow>
          let caCertNamespacedName = NamespacedNameFrom (uv_CACertificate v) [DefaultNamespace ns] in
          (case fst (LookupUpstreamValidation (lib_crypto lib) (Some v) caCertNamespacedName ns cache) of
             Inl (DelegationNotPermitted _) \<Rightarrow>
               (AddError ConditionTypeTLSError ''CACertificateNotDelegated''
                  (''service.UpstreamValidation.CACertificate Secret '' @ go_quote (nn_String caCertNamespacedName)
                    @ '' is not configured for certificate delegation'') validCond, None)
           | Inl (LookupError err) \<Rightarrow>
               (AddError ConditionTypeServiceError ''TLSUpstreamValidation''
                  (''Service ['' @ sv1_Name service @ '':'' @ strconv_Itoa (sv1_Port service)
                    @ ''] TLS upstream validation policy error: '' @ err) validCond, None)
           | Inr uv \<Rightarrow> (validCond, Some uv)))"

definition peerValidationContext ::
  "library \<Rightarrow> KubernetesCache \<Rightarrow> DetailedCondition \<Rightarrow> HTTPProxy \<Rightarrow> Service_v1 \<Rightarrow> DetailedCondition \<times> PeerValidationContext option" where
  "peerValidationContext lib cache validCond httpproxy service =
     (case upstream_validation lib cache (px_Namespace httpproxy) service validCond of
        (vc, Some uv) \<Rightarrow> (vc, uv)
      | (vc, None) \<Rightarrow> (vc, None))"

text \<open>The validation context of a service, when it speaks TLS and asks for validation.\<close>

definition service_validation ::
  "library \<Rightarrow> KubernetesCache \<Rightarrow> HTTPProxy \<Rightarrow> Service_v1 \<Rightarrow> string \<Rightarrow> DetailedCondition \<Rightarrow> DetailedCondition \<times> PeerValidationContext option option" where
  "service_validation lib cache proxy service protocol validCond =
     (if (protocol = ''tls'' \<or> protocol = ''h2'') \<and> sv1_UpstreamValidation service \<noteq> None
      then upstream_validation lib cache (px_Namespace proxy) service validCond
      else (validCond, Some None))"

text \<open>The client certificate of the upstream connections, configured by the operator.\<close>

definition client_certificate ::
  "library \<Rightarrow> KubernetesCache \<Rightarrow> HTTPProxyProcessor \<Rightarrow> DetailedCondition \<Rightarrow> DetailedCondition \<times> Secret option option" where
  "client_certificate lib cache p validCond =
     (case hpp_ClientCertificate p of
        None \<Rightarrow> (validCond, Some None)
      | Some name \<Rightarrow>
          (case fst (LookupTLSSecretInsecure (lib_crypto lib) name cache) of
             Inl err \<Rightarrow>
               (AddError ConditionTypeTLSError ''SecretNotValid''
                  (''tls.envoy-client-certificate Secret '' @ go_quote (nn_String name) @ '' is invalid: '' @ lookup_error_message err) validCond, None)
           | Inr s \<Rightarrow> (validCond, Some (Some s))))"

section \<open>Conditions only grow\<close>

text \<open>What every step does to the condition it is handed: errors and warnings are only added, well-formedness is
  kept, and a step that ends the function has added an error.\<close>

definition cond_grows :: "DetailedCondition \<Rightarrow> DetailedCondition \<Rightarrow> bool" where
  "cond_grows vc vc' \<longleftrightarrow>
     dc_Type vc' = dc_Type vc \<and> prefix (dc_Errors vc) (dc_Errors vc') \<and> prefix (dc_Warnings vc) (dc_Warnings vc') \<and>
     (wf_condition vc \<longrightarrow> wf_condition vc')"

definition sound_step :: "DetailedCondition \<Rightarrow> DetailedCondition \<times> 'a option \<Rightarrow> bool" where
  "sound_step vc res \<longleftrightarrow>
     cond_grows vc (fst res) \<and> (snd res = None \<longrightarrow> length (dc_Errors vc) < length (dc_Errors (fst res)))"

lemma cond_grows_refl [simp]: "cond_grows vc vc"
  by (simp add: cond_grows_def)

lemma cond_grows_trans: "cond_grows a b \<Longrightarrow> cond_grows b c \<Longrightarrow> cond_grows a c"
  by (auto simp: cond_grows_def intro: prefix_order.trans)

lemma cond_grows_AddError [wf_intro]: "cond_grows vc vc' \<Longrightarrow> cond_grows vc (AddError t r m vc')"
  by (auto simp: cond_grows_def AddError_wf) (auto simp: AddError_def intro: prefix_prefix)

lemma cond_grows_AddWarning [wf_intro]: "cond_grows vc vc' \<Longrightarrow> cond_grows vc (AddWarning t r m vc')"
  by (auto simp: cond_grows_def AddWarning_wf) (auto simp: AddWarning_def intro: prefix_prefix)

lemma cond_grows_after_error: "cond_grows (AddError t r m vc) vc' \<Longrightarrow> cond_grows vc vc'"
  using cond_grows_trans cond_grows_AddError cond_grows_refl by blast

lemma cond_grows_length: "cond_grows a b \<Longrightarrow> length (dc_Errors a) \<le> length (dc_Errors b)"
  by (auto simp: cond_grows_def prefix_length_le)

lemma AddError_length: "length (dc_Errors (AddError t r m vc)) = Suc (length (dc_Errors vc))"
  by (simp add: AddError_def)

lemma sound_step_error [wf_intro]: "cond_grows vc vc' \<Longrightarrow> sound_step vc (AddError t r m vc', None)"
  by (auto simp: sound_step_def AddError_length intro: cond_grows_AddError dest: cond_grows_length)

lemma sound_step_ok [wf_intro]: "cond_grows vc vc' \<Longrightarrow> sound_step vc (vc', Some x)"
  by (simp add: sound_step_def)

lemma sound_step_trans: "cond_grows vc vc' \<Longrightarrow> sound_step vc' res \<Longrightarrow> sound_step vc res"
  unfolding sound_step_def by (meson cond_grows_length cond_grows_trans le_less_trans)

lemma sound_step_none: "sound_step vc (vc', None) \<Longrightarrow> sound_step vc (vc', None :: 'b option)"
  by (simp add: sound_step_def)

lemma sound_step_grows: "sound_step vc (vc', x) \<Longrightarrow> cond_grows vc vc'"
  by (simp add: sound_step_def)

lemma or_fail_sound [wf_intro]:
  "cond_grows vc vc' \<Longrightarrow> (\<And>x. r = Inr x \<Longrightarrow> sound_step vc (k x)) \<Longrightarrow> sound_step vc (or_fail t rs m vc' r k)"
  by (auto simp: or_fail_def sound_step_error split: sum.splits)

lemma or_fail_Some: "or_fail t rs m vc r k = (vc', Some y) \<longleftrightarrow> (\<exists>x. r = Inr x \<and> k x = (vc', Some y))"
  by (auto simp: or_fail_def split: sum.splits)

lemma validateExternalAuth_sound: "sound_step vc (validateExternalAuthExtensionService ref vc p get)"
  by (auto simp: validateExternalAuthExtensionService_def Let_def split: option.splits intro: sound_step_error sound_step_ok)

lemma determineExternalAuthTimeout_sound: "sound_step vc (determineExternalAuthTimeout lib t vc ext)"
  unfolding determineExternalAuthTimeout_def by (rule or_fail_sound) (simp_all add: sound_step_ok)

lemma computeVirtualHostAuthorization_sound: "sound_step vc (computeVirtualHostAuthorization lib auth vc p d)"
proof -
  obtain vc1 ext where e: "validateExternalAuthExtensionService (defaultExtensionRef (as_ExtensionServiceRef auth)) vc p
      (\<lambda>name. GetExtensionCluster name d) = (vc1, ext)" by force
  have s1: "sound_step vc (vc1, ext)" using validateExternalAuth_sound e by metis
  show ?thesis
  proof (cases ext)
    case (Some x)
    obtain vc2 t where t: "determineExternalAuthTimeout lib (as_ResponseTimeout auth) vc1 x = (vc2, t)" by force
    have "sound_step vc1 (vc2, t)" using determineExternalAuthTimeout_sound t by metis
    then have "sound_step vc (vc2, t)" using sound_step_grows [OF s1] by (rule sound_step_trans [rotated])
    with e t Some show ?thesis
      by (auto simp: computeVirtualHostAuthorization_def sound_step_def split: option.splits)
  qed (use e s1 in \<open>simp add: computeVirtualHostAuthorization_def sound_step_def\<close>)
qed

lemma computeSecureVirtualHostAuthorization_sound:
  "sound_step vc (computeSecureVirtualHostAuthorization lib p vc hp vh d)"
proof -
  have "sound_step vc (case computeVirtualHostAuthorization lib auth vc hp d of
      (validCond, None) \<Rightarrow> (validCond, None) | (validCond, Some a) \<Rightarrow> (validCond, Some (Some a)))" for auth
    using computeVirtualHostAuthorization_sound [of vc lib auth hp d]
    by (auto simp: sound_step_def split: prod.splits option.splits)
  then show ?thesis
    by (simp add: computeSecureVirtualHostAuthorization_def Let_def sound_step_ok split: option.splits prod.splits)
qed

lemma computeVirtualHostRateLimitPolicy_sound: "sound_step vc (computeVirtualHostRateLimitPolicy lib vh rls vc)"
  unfolding computeVirtualHostRateLimitPolicy_def
  by (auto simp: Let_def split: option.splits intro!: or_fail_sound sound_step_ok)

lemma upstream_validation_sound: "sound_step vc (upstream_validation lib kc ns sv vc)"
  by (auto simp: upstream_validation_def Let_def split: option.splits sum.splits lookup_error.splits
      intro: sound_step_error sound_step_ok)

lemma service_validation_sound: "sound_step vc (service_validation lib kc p sv proto vc)"
  by (auto simp: service_validation_def upstream_validation_sound intro: sound_step_ok)

lemma client_certificate_sound: "sound_step vc (client_certificate lib kc p vc)"
  by (auto simp: client_certificate_def split: option.splits sum.splits intro: sound_step_error sound_step_ok)

lemma upstream_validation_some: "sv1_UpstreamValidation sv \<noteq> None \<Longrightarrow> snd (upstream_validation lib kc ns sv vc) \<noteq> Some None"
  by (auto simp: upstream_validation_def LookupUpstreamValidation_def Let_def split: option.splits sum.splits
      lookup_error.splits prod.splits if_splits)

lemma peerValidationContext_sound:
  assumes "sv1_UpstreamValidation sv \<noteq> None"
  shows "sound_step vc (peerValidationContext lib kc vc hp sv)"
  using upstream_validation_sound [of vc lib kc "px_Namespace hp" sv] upstream_validation_some [OF assms, of lib kc "px_Namespace hp" vc]
  by (auto simp: peerValidationContext_def sound_step_def split: prod.splits option.splits)

lemma ip_filter_loop_grows: "cond_grows (snd (snd st)) (snd (snd (ip_filter_loop lib ps st)))"
proof (induction lib ps st rule: ip_filter_loop.induct)
  case (2 lib p ps filters err vc)
  show ?case
  proof (cases "lib_ParseCIDR lib (unparsedCIDR (ipf1_CIDR p))")
    case (Inl e)
    from 2(1) [OF Inl] Inl show ?thesis by (simp add: cond_grows_after_error)
  next
    case (Inr c)
    with 2(2) [OF Inr] show ?thesis by simp
  qed
qed simp

section \<open>IP filters\<close>

definition ip_rule :: "library \<Rightarrow> IPFilterPolicy \<Rightarrow> IPFilterRule option" where
  "ip_rule lib p =
     (case lib_ParseCIDR lib (unparsedCIDR (ipf1_CIDR p)) of
        Inl _ \<Rightarrow> None
      | Inr cidr \<Rightarrow> Some \<lparr>ipf_Remote = (ipf1_Source p = ''Remote''), ipf_CIDR = cidr\<rparr>)"

lemma ip_filter_loop_eq:
  "fst (ip_filter_loop lib ps (filters, err, vc)) = filters @ List.map_filter (ip_rule lib) ps \<and>
   (fst (snd (ip_filter_loop lib ps (filters, err, vc))) = None \<longleftrightarrow> (if ps = [] then err = None else ip_rule lib (last ps) \<noteq> None)) \<and>
   length (dc_Errors (snd (snd (ip_filter_loop lib ps (filters, err, vc))))) =
     length (dc_Errors vc) + length (filter (\<lambda>p. ip_rule lib p = None) ps)"
proof (induction ps arbitrary: filters err vc)
  case (Cons p ps)
  show ?case
  proof (cases "lib_ParseCIDR lib (unparsedCIDR (ipf1_CIDR p))")
    case (Inl e)
    then show ?thesis using Cons by (simp add: ip_rule_def map_filter_simps AddError_length)
  next
    case (Inr c)
    then show ?thesis using Cons by (simp add: ip_rule_def map_filter_simps)
  qed
qed (simp add: map_filter_simps)

text \<open>
  C27. The IP filter of a virtual host or route.  Giving both an allow and a deny list is an error.  Otherwise
  every entry that does not parse adds one error to the status and no rule, and the rules are those of the entries that
  do parse, in order; the filter allows exactly when the allow list was given.  The call only fails, and
  drops all rules, when the last entry does not parse: an earlier one is left out of the filter that is installed.
\<close>

theorem toIPFilterRules_correct:
  assumes "toIPFilterRules lib allow deny vc = ((allowed, rules, err), vc')"
  shows "(if allow \<noteq> [] \<and> deny \<noteq> [] then err \<noteq> None \<and> rules = [] \<and> length (dc_Errors vc') = Suc (length (dc_Errors vc))
          else let ps = allow @ deny in
            length (dc_Errors vc') = length (dc_Errors vc) + length (filter (\<lambda>p. ip_rule lib p = None) ps) \<and>
            (if ps \<noteq> [] \<and> ip_rule lib (last ps) = None then err \<noteq> None \<and> \<not> allowed \<and> rules = []
             else err = None \<and> (allowed \<longleftrightarrow> allow \<noteq> []) \<and> rules = List.map_filter (ip_rule lib) ps)) \<and>
         cond_grows vc vc'"
proof -
  consider "allow \<noteq> [] \<and> deny \<noteq> []" | "allow = [] \<and> deny = []" | "(allow = []) \<noteq> (deny = [])" by blast
  then show ?thesis
  proof cases
    case 3
    let ?ps = "allow @ deny"
    obtain fs e v where l: "ip_filter_loop lib ?ps ([], None, vc) = (fs, e, v)" by (metis prod.exhaust)
    have ps: "?ps \<noteq> []" "(if allow \<noteq> [] then allow else deny) = ?ps" using 3 by auto
    have r: "((allowed, rules, err), vc') = (if e \<noteq> None then ((False, [], e), v) else ((allow \<noteq> [], fs, e), v))"
      using assms 3 ps l by (auto simp: toIPFilterRules_def Let_def split: if_splits)
    have "cond_grows vc v" using ip_filter_loop_grows [of "([], None, vc)" lib ?ps] l by simp
    then show ?thesis
      using ip_filter_loop_eq [of lib ?ps "[]" None vc] l r ps 3 by (auto split: if_splits)
  qed (use assms in \<open>auto simp: toIPFilterRules_def Let_def AddError_length map_filter_simps intro: cond_grows_AddError\<close>)
qed

definition sample_library :: library where
  "sample_library = \<lparr>lib_ParseDuration = (\<lambda>s. if s = ''1s'' then Ok 1000000000 else Err ''bad duration''), lib_Compile = (\<lambda>_. None),
     lib_IsHTTPHeaderName = (\<lambda>_. []), lib_crypto = sample_crypto,
     lib_ParseCIDR = (\<lambda>s. if s = ''10.0.0.1/32'' then Ok ([10, 0, 0, 1], [255, 255, 255, 255]) else Err ''invalid CIDR address''),
     lib_url_Parse = (\<lambda>s. if s = ''https://a.com'' then Ok \<lparr>url_Scheme = ''https'', url_Host = ''a.com'', url_Hostname = ''a.com'', url_Port = ''''\<rparr>
                         else Err ''bad url''),
     lib_ParseFloat = (\<lambda>_. None), lib_now = 0\<rparr>"

theorem toIPFilterRules_correct_witness:
  "let bad = \<lparr>ipf1_Source = ''Peer'', ipf1_CIDR = ''x''\<rparr>; good = \<lparr>ipf1_Source = ''Peer'', ipf1_CIDR = ''10.0.0.1''\<rparr>;
       vc = new_condition (ProxyAccessor 0 zero_HTTPProxy) ValidCondition;
       ((allowed, rules, err), vc') = toIPFilterRules sample_library [] [bad, good] vc
   in err = None \<and> rules = [\<lparr>ipf_Remote = False, ipf_CIDR = ([10, 0, 0, 1], [255, 255, 255, 255])\<rparr>] \<and> length (dc_Errors vc') = 1"
proof -
  let ?bad = "\<lparr>ipf1_Source = ''Peer'', ipf1_CIDR = ''x''\<rparr>" and ?good = "\<lparr>ipf1_Source = ''Peer'', ipf1_CIDR = ''10.0.0.1''\<rparr>"
  let ?vc = "new_condition (ProxyAccessor 0 zero_HTTPProxy) ValidCondition"
  obtain allowed rules err vc' where t: "toIPFilterRules sample_library [] [?bad, ?good] ?vc = ((allowed, rules, err), vc')"
    by (metis prod.exhaust)
  have bad: "ip_rule sample_library ?bad = None"
    and good: "ip_rule sample_library ?good = Some \<lparr>ipf_Remote = False, ipf_CIDR = ([10, 0, 0, 1], [255, 255, 255, 255])\<rparr>"
    by (simp_all add: ip_rule_def sample_library_def unparsedCIDR_def)
  from toIPFilterRules_correct [OF t] bad good t show ?thesis
    by (simp add: Let_def map_filter_simps new_condition_def)
qed

section \<open>CORS\<close>

definition exact_origin :: "library \<Rightarrow> string \<Rightarrow> bool" where
  "exact_origin lib ao \<longleftrightarrow>
     ao = ''*'' \<or> (\<exists>u. lib_url_Parse lib ao = Ok u \<and> url_Scheme u \<noteq> '''' \<and> url_Host u \<noteq> '''' \<and> ao = url_Scheme u @ ''://'' @ url_Host u)"

lemma toAllowOriginMatch_eq:
  "toAllowOriginMatch lib ao =
     (if exact_origin lib ao then Ok \<lparr>cao_Type = CORSAllowOriginMatchExact, cao_Value = ao\<rparr>
      else if lib_Compile lib ao = None then Ok \<lparr>cao_Type = CORSAllowOriginMatchRegex, cao_Value = ao\<rparr>
      else Err ''allowed origin is invalid exact match and invalid regex match'')"
  by (auto simp: toAllowOriginMatch_def exact_origin_def Let_def split: sum.splits option.splits)

lemma allow_origins_iff:
  "allow_origins lib aos acc = Ok ms \<longleftrightarrow>
     (\<forall>ao\<in>set aos. exact_origin lib ao \<or> lib_Compile lib ao = None) \<and>
     ms = acc @ map (\<lambda>ao. \<lparr>cao_Type = (if exact_origin lib ao then CORSAllowOriginMatchExact else CORSAllowOriginMatchRegex),
                          cao_Value = ao\<rparr>) aos"
proof (induction aos arbitrary: acc)
  case (Cons ao aos)
  then show ?case by (auto simp: toAllowOriginMatch_eq)
qed auto

text \<open>
  A CORS policy is accepted exactly when it names an origin and a method, every origin is \<open>*\<close>, a plain
  scheme and host, or a regular expression that compiles, and the maximum age parses and is not negative.  Each
  origin is then matched as a literal in the first two cases and as a regular expression otherwise, in the order given.
\<close>

theorem toCORSPolicy_iff:
  "toCORSPolicy lib (Some p) = Ok (Some c) \<longleftrightarrow>
     cors1_AllowOrigin p \<noteq> [] \<and> cors1_AllowMethods p \<noteq> [] \<and>
     (\<forall>ao\<in>set (cors1_AllowOrigin p). exact_origin lib ao \<or> lib_Compile lib ao = None) \<and>
     ParseMaxAge (lib_ParseDuration lib) (cors1_MaxAge p) = Ok (cors_MaxAge c) \<and> 0 \<le> Duration (cors_MaxAge c) \<and>
     cors_AllowOrigin c = map (\<lambda>ao. \<lparr>cao_Type = (if exact_origin lib ao then CORSAllowOriginMatchExact else CORSAllowOriginMatchRegex),
                                   cao_Value = ao\<rparr>) (cors1_AllowOrigin p) \<and>
     cors_AllowMethods c = cors1_AllowMethods p \<and> cors_AllowHeaders c = cors1_AllowHeaders p \<and>
     cors_ExposeHeaders c = cors1_ExposeHeaders p \<and> cors_AllowCredentials c = cors1_AllowCredentials p \<and>
     cors_AllowPrivateNetwork c = cors1_AllowPrivateNetwork p"
proof -
  have "toCORSPolicy lib (Some p) = Ok (Some c) \<longleftrightarrow>
      cors1_AllowOrigin p \<noteq> [] \<and> cors1_AllowMethods p \<noteq> [] \<and>
      (\<exists>ms age. allow_origins lib (cors1_AllowOrigin p) [] = Ok ms \<and>
         ParseMaxAge (lib_ParseDuration lib) (cors1_MaxAge p) = Ok age \<and> 0 \<le> Duration age \<and>
         c = \<lparr>cors_AllowCredentials = cors1_AllowCredentials p, cors_AllowOrigin = ms, cors_AllowMethods = cors1_AllowMethods p,
              cors_AllowHeaders = cors1_AllowHeaders p, cors_ExposeHeaders = cors1_ExposeHeaders p, cors_MaxAge = age,
              cors_AllowPrivateNetwork = cors1_AllowPrivateNetwork p\<rparr>)"
    by (auto simp: toCORSPolicy_def not_less split: sum.splits if_splits)
  then show ?thesis by (cases c) (auto simp: allow_origins_iff)
qed

definition sample_cors :: CORSPolicy_v1 where
  "sample_cors = zero_CORSPolicy_v1\<lparr>cors1_AllowOrigin := [''https://a.com'', ''.*''], cors1_AllowMethods := [''GET''], cors1_MaxAge := ''1s''\<rparr>"

definition sample_cors_dag :: CORSPolicy where
  "sample_cors_dag = \<lparr>cors_AllowCredentials = False,
     cors_AllowOrigin = [\<lparr>cao_Type = CORSAllowOriginMatchExact, cao_Value = ''https://a.com''\<rparr>,
                         \<lparr>cao_Type = CORSAllowOriginMatchRegex, cao_Value = ''.*''\<rparr>],
     cors_AllowMethods = [''GET''], cors_AllowHeaders = [], cors_ExposeHeaders = [], cors_MaxAge = DurationSetting 1000000000,
     cors_AllowPrivateNetwork = False\<rparr>"

theorem toCORSPolicy_iff_witness: "toCORSPolicy sample_library (Some sample_cors) = Ok (Some sample_cors_dag)"
proof -
  have o: "exact_origin sample_library ''https://a.com''" "\<not> exact_origin sample_library ''.*''"
    by (simp_all add: exact_origin_def sample_library_def)
  have a: "ParseMaxAge (lib_ParseDuration sample_library) ''1s'' = Ok (DurationSetting 1000000000)"
    by (simp add: ParseMaxAge_def sample_library_def)
  show ?thesis
    unfolding toCORSPolicy_iff
    by (simp add: o a sample_cors_def sample_cors_dag_def zero_CORSPolicy_v1_def)
      (simp add: sample_library_def DurationSetting_def Duration_def)
qed

section \<open>Duplicate include conditions\<close>

interpretation include_headers: key_order include_header_Less
  "\<lambda>h. (hc_MatchType h, \<not> hc_IgnoreCase h, \<not> hc_Invert h, \<not> hc_TreatMissingAsEmpty h, hc_Name h, hc_Value h)" UNIV
  by unfold_locales (auto simp: include_header_Less_def less_prod_def' less_bool_def)

interpretation include_queries: key_order include_query_Less
  "\<lambda>q. (qc_MatchType q, \<not> qc_IgnoreCase q, qc_Name q, qc_Value q)" UNIV
  by unfold_locales (auto simp: include_query_Less_def less_prod_def' less_bool_def)

lemma sort_headers_eq_iff:
  "sort_Stable include_header_Less xs = sort_Stable include_header_Less ys \<longleftrightarrow> mset xs = mset ys"
proof
  assume "mset xs = mset ys"
  moreover have "inj_on (\<lambda>h. (hc_MatchType h, \<not> hc_IgnoreCase h, \<not> hc_Invert h, \<not> hc_TreatMissingAsEmpty h, hc_Name h, hc_Value h)) (set xs)"
    by (rule inj_onI) simp
  ultimately show "sort_Stable include_header_Less xs = sort_Stable include_header_Less ys"
    by (intro include_headers.sort_Stable_deterministic) simp_all
qed (metis mset_sort_Stable)

lemma sort_queries_eq_iff:
  "sort_Stable include_query_Less xs = sort_Stable include_query_Less ys \<longleftrightarrow> mset xs = mset ys"
proof
  assume "mset xs = mset ys"
  moreover have "inj_on (\<lambda>q. (qc_MatchType q, \<not> qc_IgnoreCase q, qc_Name q, qc_Value q)) (set xs)"
    by (rule inj_onI) simp
  ultimately show "sort_Stable include_query_Less xs = sort_Stable include_query_Less ys"
    by (intro include_queries.sort_Stable_deterministic) simp_all
qed (metis mset_sort_Stable)

lemma slices_identical_eq: "length xs = length ys \<Longrightarrow> slices_identical xs ys \<longleftrightarrow> xs = ys"
  by (induction xs ys rule: slices_identical.induct) auto

lemma aggregate_seen_iff:
  "aggregate_seen hs qs ags \<longleftrightarrow> \<lparr>mca_headerConds = hs, mca_queryParamConds = qs\<rparr> \<in> set ags"
proof (induction ags)
  case (Cons ag ags)
  obtain h q where "ag = \<lparr>mca_headerConds = h, mca_queryParamConds = q\<rparr>" by (metis matchConditionAggregate.cases)
  with Cons show ?case by (auto simp: slices_identical_eq)
qed simp

text \<open>What two includes must share to be duplicates, and the includes that never count as duplicates.\<close>

definition include_key ::
  "MatchCondition_v1 list \<Rightarrow> string \<times> HeaderMatchCondition multiset \<times> QueryParamMatchCondition multiset" where
  "include_key cs =
     (path_of (mergePathMatchConditions cs), mset (mergeHeaderMatchConditions cs), mset (mergeQueryParamMatchConditions cs))"

definition include_aggregate :: "MatchCondition_v1 list \<Rightarrow> matchConditionAggregate" where
  "include_aggregate cs =
     \<lparr>mca_headerConds = sort_Stable include_header_Less (mergeHeaderMatchConditions cs),
      mca_queryParamConds = sort_Stable include_query_Less (mergeQueryParamMatchConditions cs)\<rparr>"

definition include_default :: "MatchCondition_v1 list \<Rightarrow> bool" where
  "include_default cs \<longleftrightarrow> include_key cs = (''/'', {#}, {#})"

definition prefix_only :: "MatchCondition_v1 list \<Rightarrow> bool" where
  "prefix_only cs \<longleftrightarrow> (\<exists>p t. mergePathMatchConditions cs = PrefixMatchCondition p t)"

definition aggregates :: "seenConds \<Rightarrow> string \<Rightarrow> matchConditionAggregate list" where
  "aggregates seen p = (case lookup seen p of None \<Rightarrow> [] | Some ags \<Rightarrow> ags)"

lemma include_key_eq_iff:
  "include_key c = include_key d \<longleftrightarrow>
     path_of (mergePathMatchConditions c) = path_of (mergePathMatchConditions d) \<and> include_aggregate c = include_aggregate d"
  by (auto simp: include_key_def include_aggregate_def sort_headers_eq_iff sort_queries_eq_iff)

lemma includeMatchConditionsIdentical_eq:
  assumes "prefix_only cs"
  shows "includeMatchConditionsIdentical cs seen =
     (let p = path_of (mergePathMatchConditions cs) in
      if include_default cs then (False, seen)
      else if include_aggregate cs \<in> set (aggregates seen p) then (True, seen)
      else (False, put p (aggregates seen p @ [include_aggregate cs]) seen))"
  using assms
  by (auto simp: prefix_only_def includeMatchConditionsIdentical_def include_default_def include_key_def include_aggregate_def
      aggregates_def path_of_def aggregate_seen_iff Let_def split: option.splits)

definition scan_includes :: "MatchCondition_v1 list list \<Rightarrow> seenConds" where
  "scan_includes css = fold (\<lambda>cs seen. snd (includeMatchConditionsIdentical cs seen)) css []"

lemma scan_includes_aggregates:
  assumes "\<forall>c\<in>set css. prefix_only c"
  shows "set (aggregates (scan_includes css) p) =
           {include_aggregate c | c. c \<in> set css \<and> \<not> include_default c \<and> path_of (mergePathMatchConditions c) = p}"
  using assms
proof (induction css arbitrary: p rule: rev_induct)
  case (snoc c css)
  then have c: "prefix_only c" and IH: "\<And>p. set (aggregates (scan_includes css) p) =
      {include_aggregate c | c. c \<in> set css \<and> \<not> include_default c \<and> path_of (mergePathMatchConditions c) = p}"
    by simp_all
  have step: "scan_includes (css @ [c]) = snd (includeMatchConditionsIdentical c (scan_includes css))"
    by (simp add: scan_includes_def)
  have put: "aggregates (put q ags seen) p = (if p = q then ags else aggregates seen p)" for q ags seen
    by (simp add: aggregates_def lookup_put)
  show ?case
  proof (cases "include_default c \<or> include_aggregate c \<in> set (aggregates (scan_includes css) (path_of (mergePathMatchConditions c)))")
    case True
    then have "scan_includes (css @ [c]) = scan_includes css"
      by (auto simp: step includeMatchConditionsIdentical_eq [OF c] Let_def)
    moreover have "include_default c \<or>
        (\<exists>d\<in>set css. \<not> include_default d \<and> path_of (mergePathMatchConditions d) = path_of (mergePathMatchConditions c) \<and>
           include_aggregate d = include_aggregate c)"
      using True IH by auto
    ultimately have "set (aggregates (scan_includes (css @ [c])) p) =
        {include_aggregate c | c. c \<in> set css \<and> \<not> include_default c \<and> path_of (mergePathMatchConditions c) = p}"
      "\<not> include_default c \<Longrightarrow> path_of (mergePathMatchConditions c) = p \<Longrightarrow>
       \<exists>d. include_aggregate c = include_aggregate d \<and> d \<in> set css \<and> \<not> include_default d \<and> path_of (mergePathMatchConditions d) = p"
      using IH by (simp, metis)
    then show ?thesis by auto
  next
    case False
    then have "scan_includes (css @ [c]) =
        put (path_of (mergePathMatchConditions c))
          (aggregates (scan_includes css) (path_of (mergePathMatchConditions c)) @ [include_aggregate c]) (scan_includes css)"
      by (simp add: step includeMatchConditionsIdentical_eq [OF c] Let_def)
    then show ?thesis using False by (auto simp: put IH)
  qed
qed (simp add: scan_includes_def aggregates_def)

text \<open>
  C25. The check for duplicate includes, run over the includes of a proxy in order: an include is reported as a duplicate
  exactly when it does not just match the path \<open>/\<close> and an earlier one has the same path prefix and the same header and query
  parameter conditions, in whatever order the conditions are written.
\<close>

theorem includeMatchConditionsIdentical_iff:
  assumes "\<forall>c\<in>set (css @ [cs]). prefix_only c"
  shows "fst (includeMatchConditionsIdentical cs (scan_includes css)) \<longleftrightarrow>
           \<not> include_default cs \<and> (\<exists>c\<in>set css. include_key c = include_key cs)"
proof -
  have c: "prefix_only cs" and css: "\<forall>c\<in>set css. prefix_only c" using assms by simp_all
  have "fst (includeMatchConditionsIdentical cs (scan_includes css)) \<longleftrightarrow>
      \<not> include_default cs \<and> include_aggregate cs \<in> set (aggregates (scan_includes css) (path_of (mergePathMatchConditions cs)))"
    by (simp add: includeMatchConditionsIdentical_eq [OF c] Let_def)
  also have "\<dots> \<longleftrightarrow> \<not> include_default cs \<and> (\<exists>c\<in>set css. \<not> include_default c \<and> include_key c = include_key cs)"
    unfolding scan_includes_aggregates [OF css] include_key_eq_iff mem_Collect_eq Bex_def
    by (rule conj_cong [OF refl], rule ex_cong1, subst eq_commute [of "include_aggregate cs"]) blast
  finally have *: "fst (includeMatchConditionsIdentical cs (scan_includes css)) \<longleftrightarrow>
      \<not> include_default cs \<and> (\<exists>c\<in>set css. \<not> include_default c \<and> include_key c = include_key cs)" .
  have default: "include_default c \<longleftrightarrow> include_default cs" if "include_key c = include_key cs" for c
    unfolding include_default_def that ..
  show ?thesis unfolding * by (rule conj_cong [OF refl], rule bex_cong [OF refl]) (use default in blast)
qed

definition header_include :: "string \<Rightarrow> string \<Rightarrow> MatchCondition_v1 list" where
  "header_include a b =
     [zero_MatchCondition_v1\<lparr>mc_Prefix := ''/a''\<rparr>,
      zero_MatchCondition_v1\<lparr>mc_Header := Some (zero_HeaderMatchCondition_v1\<lparr>hm1_Name := a, hm1_Present := True\<rparr>)\<rparr>,
      zero_MatchCondition_v1\<lparr>mc_Header := Some (zero_HeaderMatchCondition_v1\<lparr>hm1_Name := b, hm1_Present := True\<rparr>)\<rparr>]"

theorem includeMatchConditionsIdentical_iff_witness:
  "fst (includeMatchConditionsIdentical (header_include ''y'' ''x'') (scan_includes [header_include ''x'' ''y'']))"
proof -
  have p: "mergePathMatchConditions (header_include a b) = PrefixMatchCondition ''/a'' PrefixMatchString" for a b
    by (simp add: header_include_def mergePathMatchConditions_def zero_MatchCondition_v1_def Let_def)
  have k: "include_key (header_include ''x'' ''y'') = include_key (header_include ''y'' ''x'')"
    by (simp add: include_key_def p) (simp add: header_include_def mergeHeaderMatchConditions_def headerMatchConditions_def
        headerMatchCondition_def mergeQueryParamMatchConditions_def queryParameterMatchConditions_def zero_v1_defs map_filter_simps)
  have "\<not> include_default (header_include ''y'' ''x'')" by (simp add: include_default_def include_key_def p path_of_def)
  moreover have "\<forall>c\<in>set ([header_include ''x'' ''y''] @ [header_include ''y'' ''x'']). prefix_only c"
    by (simp add: prefix_only_def p)
  ultimately show ?thesis using includeMatchConditionsIdentical_iff [of "[header_include ''x'' ''y'']" "header_include ''y'' ''x''"] k
    by simp
qed

section \<open>External authorization fails closed\<close>

text \<open>The server that applies to a secure virtual host: its own, unless it is disabled or names no service, or else the
  global one.\<close>

definition authorization_server :: "HTTPProxyProcessor \<Rightarrow> VirtualHost_v1 \<Rightarrow> AuthorizationServer option" where
  "authorization_server p vh =
     (if AuthorizationConfigured vh \<and> \<not> DisableAuthorization vh \<and> IsConfigured (as_ExtensionServiceRef (the (vh1_Authorization vh)))
      then vh1_Authorization vh else hpp_GlobalExternalAuthorization p)"

definition authorization_name :: "HTTPProxy \<Rightarrow> AuthorizationServer \<Rightarrow> NamespacedName" where
  "authorization_name hp auth =
     (let ref = as_ExtensionServiceRef auth in
      \<lparr>nn_Namespace = (if esr_Namespace ref = '''' then px_Namespace hp else esr_Namespace ref), nn_Name = esr_Name ref\<rparr>)"

lemma validateExternalAuth_some:
  assumes "validateExternalAuthExtensionService (defaultExtensionRef (as_ExtensionServiceRef auth)) vc hp (\<lambda>n. GetExtensionCluster n d) =
             (vc', Some ext)"
  shows "ext \<in> set (dag_ExtensionClusters d) \<and> ec_Name ext = ExtensionClusterName (authorization_name hp auth)"
proof -
  let ?ref = "defaultExtensionRef (as_ExtensionServiceRef auth)"
  have "esr_Namespace ?ref = esr_Namespace (as_ExtensionServiceRef auth)" "esr_Name ?ref = esr_Name (as_ExtensionServiceRef auth)"
    by (simp_all add: defaultExtensionRef_def)
  then have n: "\<lparr>nn_Namespace = stringOrDefault (esr_Namespace ?ref) (px_Namespace hp), nn_Name = esr_Name ?ref\<rparr> = authorization_name hp auth"
    by (simp add: authorization_name_def stringOrDefault_def Let_def)
  have "GetExtensionCluster (ExtensionClusterName (authorization_name hp auth)) d = Some ext"
    using assms unfolding validateExternalAuthExtensionService_def Let_def n by (auto split: option.splits if_splits)
  then show ?thesis by (auto simp: GetExtensionCluster_def find_Some_iff)
qed

lemma computeVirtualHostAuthorization_some:
  assumes "computeVirtualHostAuthorization lib auth vc hp d = (vc', Some ea)"
  shows "\<exists>ext. ea_AuthorizationService ea = Some ext \<and> ext \<in> set (dag_ExtensionClusters d) \<and>
           ec_Name ext = ExtensionClusterName (authorization_name hp auth) \<and> ea_AuthorizationFailOpen ea = as_FailOpen auth"
proof -
  obtain vc1 ext where e: "validateExternalAuthExtensionService (defaultExtensionRef (as_ExtensionServiceRef auth)) vc hp
      (\<lambda>n. GetExtensionCluster n d) = (vc1, ext)" by force
  then obtain x where x: "ext = Some x" using assms by (cases ext) (auto simp: computeVirtualHostAuthorization_def)
  have "ea_AuthorizationService ea = Some x" "ea_AuthorizationFailOpen ea = as_FailOpen auth"
    using assms e x by (auto simp: computeVirtualHostAuthorization_def split: prod.splits option.splits)
  then show ?thesis using validateExternalAuth_some [OF e [unfolded x]] by blast
qed


lemma includeMatchConditionsValid_paths:
  "includeMatchConditionsValid cs = Ok () \<Longrightarrow> c \<in> set cs \<Longrightarrow> mc_Exact c = '''' \<and> mc_Regex c = ''''"
proof (induction cs)
  case (Cons d cs)
  from Cons.prems(1) have "mc_Exact d = ''''" "mc_Regex d = ''''" "includeMatchConditionsValid cs = Ok ()"
    by (simp_all split: if_split_asm)
  with Cons show ?case by (cases "c = d") simp_all
qed simp

lemma merge_paths_no_regex:
  "(\<And>c. c \<in> set cs \<Longrightarrow> mc_Regex c = '''') \<Longrightarrow> snd (merge_paths cs m b) = b"
  by (induction cs m b rule: merge_paths.induct) simp_all

text \<open>The comparison is only reached by includes that passed the validation, which have prefix conditions only.\<close>

lemma valid_include_prefix_only:
  assumes "includeMatchConditionsValid cs = Ok ()"
  shows "prefix_only cs"
proof -
  obtain m b where m: "merge_paths cs '''' False = (m, b)" by force
  have "\<not> b" using merge_paths_no_regex [of cs "''''" False] includeMatchConditionsValid_paths [OF assms] m by simp
  moreover have "cs \<noteq> [] \<Longrightarrow> mc_Exact (last cs) = ''''" using includeMatchConditionsValid_paths [OF assms] by simp
  ultimately show ?thesis using m by (simp add: prefix_only_def mergePathMatchConditions_def Let_def)
qed

lemma toIPFilterRules_sound:
  assumes "toIPFilterRules lib allow deny vc = ((allowed, rules, err), vc')"
  shows "cond_grows vc vc'" "err \<noteq> None \<Longrightarrow> length (dc_Errors vc) < length (dc_Errors vc')"
proof -
  define ps where "ps = (if allow \<noteq> [] then allow else deny)"
  obtain fs e v where l: "ip_filter_loop lib ps ([], None, vc) = (fs, e, v)" by (metis prod.exhaust)
  have g: "cond_grows vc v" using ip_filter_loop_grows [of "([], None, vc)" lib ps] l by simp
  have "0 < length (filter (\<lambda>p. ip_rule lib p = None) ps)" if "e \<noteq> None"
  proof -
    have "ps \<noteq> []" "ip_rule lib (last ps) = None" using that ip_filter_loop_eq [of lib ps "[]" None vc] l by (simp_all split: if_split_asm)
    then show ?thesis by (auto simp: filter_empty_conv intro: last_in_set)
  qed
  then have n: "e \<noteq> None \<Longrightarrow> length (dc_Errors vc) < length (dc_Errors v)"
    using ip_filter_loop_eq [of lib ps "[]" None vc] l by simp
  have "if allow \<noteq> [] \<and> deny \<noteq> [] then vc' = AddError ConditionTypeIPFilterError ''IncompatibleIPAddressFilters''
           ''cannot specify both `ipAllowPolicy` and `ipDenyPolicy`'' vc
        else if ps = [] then vc' = vc \<and> err = None else vc' = v \<and> err = e"
    using assms l unfolding toIPFilterRules_def Let_def ps_def by (auto split: if_split_asm)
  then show "cond_grows vc vc'" "err \<noteq> None \<Longrightarrow> length (dc_Errors vc) < length (dc_Errors vc')"
    using g n by (auto simp: AddError_length cond_grows_AddError split: if_split_asm)
qed

end
