(* ===== verification/Proxy_Routes.thy ===== *)
theory Proxy_Routes
  imports Proxy_Policies
begin

text \<open>
  The routes of an HTTPProxy: \<open>computeRoutes\<close> and \<open>expandPrefixMatches\<close> of \<open>internal/dag/httpproxy_processor.go\<close>.  The body
  of the loop over the routes of a proxy is split in the order of the source (policies, authorization, prefix rewrite,
  services, the rest); the result None is the \<open>return nil\<close> of the source.  The map of dynamic headers lives as long as the
  loop and is threaded through it.  Slices that are appended to are copied here; the source never reads a slice again
  after it handed it to a call that may have overwritten its spare capacity.
\<close>

section \<open>Prefix expansion\<close>

fun group_routes :: "Route list \<Rightarrow> Route list \<times> (string, Route list) gomap \<Rightarrow> Route list \<times> (string, Route list) gomap" where
  "group_routes [] st = st"
| "group_routes (r # rs) (expandedRoutes, prefixedRoutes) =
     (case rt_PathMatchCondition r of
        PrefixMatchCondition routingPrefix _ \<Rightarrow>
          let routingPrefix = (if routingPrefix \<noteq> ''/'' then strings_TrimRight routingPrefix CHR ''/'' else routingPrefix);
              group = (case lookup prefixedRoutes routingPrefix of None \<Rightarrow> [] | Some g \<Rightarrow> g)
          in group_routes rs (expandedRoutes, put routingPrefix (group @ [r]) prefixedRoutes)
      | _ \<Rightarrow> group_routes rs (expandedRoutes @ [r], prefixedRoutes))"

text \<open>What one group adds to the expanded routes.\<close>

definition expand_group :: "string \<Rightarrow> Route list \<Rightarrow> Route list" where
  "expand_group pfx routes =
     (case routes of
        [r] \<Rightarrow>
          (case rt_PathRewritePolicy r of
             None \<Rightarrow> [r]
           | Some policy \<Rightarrow>
               (case rt_PathMatchCondition r of
                  PrefixMatchCondition routingPrefix _ \<Rightarrow>
                    if routingPrefix = ''/'' then [r]
                    else
                      let trimmed = strings_TrimRight (prp_PrefixRewrite policy) CHR ''/'';
                          newRoute = r\<lparr>rt_PathRewritePolicy := Some (zero_PathRewritePolicy\<lparr>prp_PrefixRewrite := trimmed @ ''/''\<rparr>),
                                       rt_PathMatchCondition := PrefixMatchCondition (pfx @ ''/'') PrefixMatchString\<rparr>;
                          r = r\<lparr>rt_PathRewritePolicy := Some (policy\<lparr>prp_PrefixRewrite := (if trimmed = '''' then ''/'' else trimmed)\<rparr>),
                                rt_PathMatchCondition := PrefixMatchCondition pfx PrefixMatchString\<rparr>
                      in [r, newRoute]
                | _ \<Rightarrow> [r]))
      | _ \<Rightarrow> routes)"

text \<open>The loop over the groups follows the order in which the Go runtime iterates the map: any order of its entries.\<close>

record map_order =
  mo_prefixes :: "(string, Route list) gomap \<Rightarrow> (string, Route list) gomap"
  mo_fqdns :: "(string, HTTPProxy list) gomap \<Rightarrow> (string, HTTPProxy list) gomap"
  mo_orphans :: "(NamespacedName, bool) gomap \<Rightarrow> (NamespacedName, bool) gomap"

definition expandPrefixMatches :: "map_order \<Rightarrow> Route list \<Rightarrow> Route list" where
  "expandPrefixMatches ord routes =
     (let (expandedRoutes, prefixedRoutes) = group_routes routes ([], [])
      in expandedRoutes @ concat (map (\<lambda>(pfx, routes). expand_group pfx routes) (mo_prefixes ord prefixedRoutes)))"

section \<open>One route\<close>

text \<open>The validation of the route and its policies: the route, the timeouts of its clusters and the load balancer policy.\<close>

definition route_base ::
  "library \<Rightarrow> HTTPProxyProcessor \<Rightarrow> HTTPProxy \<Rightarrow> MatchCondition_v1 list \<Rightarrow> bool \<Rightarrow> (string, string) gomap \<Rightarrow> Route_v1 \<Rightarrow> DetailedCondition
     \<Rightarrow> DetailedCondition \<times> (Route \<times> ClusterTimeoutPolicy \<times> string) option" where
  "route_base lib p proxy conditions enforceTLS dynamicHeaders route validCond =
     or_fail ConditionTypeRouteError ''RouteActionCountNotValid'' (\<lambda>err. err) validCond (routeActionCountValid route) (\<lambda>_.
     or_fail ConditionTypeRouteError ''PathMatchConditionsNotValid'' (\<lambda>err. ''route: '' @ err) validCond
       (pathMatchConditionsValid (lib_Compile lib) (rt1_Conditions route)) (\<lambda>_.
     let routeConditions = conditions @ rt1_Conditions route in
     or_fail ConditionTypeRouteError ''HeaderMatchConditionsNotValid'' (\<lambda>err. err) validCond
       (headerMatchConditionsValid (lib_Compile lib) routeConditions) (\<lambda>_.
     or_fail ConditionTypeRouteError ''QueryParameterMatchConditionsNotValid'' (\<lambda>err. err) validCond
       (queryParameterMatchConditionsValid (lib_Compile lib) routeConditions) (\<lambda>_.
     or_fail ConditionTypeRouteError ''RequestHeadersPolicyInvalid'' (\<lambda>err. err @ '' on request headers'') validCond
       (headersPolicyRoute (lib_IsHTTPHeaderName lib) (rt1_RequestHeadersPolicy route) True dynamicHeaders) (\<lambda>reqHP.
     or_fail ConditionTypeRouteError ''ResponseHeaderPolicyInvalid'' (\<lambda>err. err @ '' on response headers'') validCond
       (headersPolicyRoute (lib_IsHTTPHeaderName lib) (rt1_ResponseHeadersPolicy route) False dynamicHeaders) (\<lambda>respHP.
     or_fail ConditionTypeRouteError ''CookieRewritePoliciesInvalid'' (\<lambda>err. err @ '' on route cookie rewrite rules'') validCond
       (cookieRewritePolicies (rt1_CookieRewritePolicies route)) (\<lambda>cookieRP.
     or_fail ConditionTypeRouteError ''TimeoutPolicyNotValid'' (\<lambda>err. ''route.timeoutPolicy failed to parse: '' @ err) validCond
       (timeoutPolicy (lib_ParseDuration lib) (rt1_TimeoutPolicy route) (hpp_ConnectTimeout p)) (\<lambda>(rtp, ctp).
     or_fail ConditionTypeRouteError ''RateLimitPolicyNotValid'' (\<lambda>err. ''route.rateLimitPolicy is invalid: '' @ err) validCond
       (rateLimitPolicy (lib_IsHTTPHeaderName lib) (rt1_RateLimitPolicy route)) (\<lambda>rlp.
     let vrl = rateLimitPerRoute (rt1_RateLimitPolicy route);
         (requestHashPolicies, lbPolicy, validCond) =
           loadBalancerRequestHashPolicies (lib_IsHTTPHeaderName lib) (rt1_LoadBalancerPolicy route) validCond
     in
     or_fail ConditionTypeRouteError ''RequestRedirectPolicy'' (\<lambda>err. ''route.requestRedirectPolicy is invalid: '' @ err) validCond
       (redirectRoutePolicy (rt1_RequestRedirectPolicy route)) (\<lambda>redirectPolicy.
     let r = zero_Route\<lparr>
           rt_PathMatchCondition := mergePathMatchConditions routeConditions,
           rt_HeaderMatchConditions := mergeHeaderMatchConditions routeConditions,
           rt_QueryParamMatchConditions := mergeQueryParamMatchConditions routeConditions,
           rt_Websocket := rt1_EnableWebsockets route,
           rt_HTTPSUpgrade := routeEnforceTLS enforceTLS (rt1_PermitInsecure route \<and> \<not> hpp_DisablePermitInsecure p),
           rt_TimeoutPolicy := rtp,
           rt_RetryPolicy := retryPolicy (lib_ParseDuration lib) (rt1_RetryPolicy route),
           rt_RequestHeadersPolicy := reqHP,
           rt_ResponseHeadersPolicy := respHP,
           rt_CookieRewritePolicies := cookieRP,
           rt_RateLimitPolicy := rlp,
           rt_RateLimitPerRoute := vrl,
           rt_RequestHashPolicies := requestHashPolicies,
           rt_Redirect := redirectPolicy,
           rt_DirectResponse := directResponsePolicy (rt1_DirectResponsePolicy route),
           rt_InternalRedirectPolicy := internalRedirectPolicy (rt1_InternalRedirectPolicy route)\<rparr>;
         r = (if hpp_SetSourceMetadataOnRoutes p
              then r\<lparr>rt_Kind := ''HTTPProxy'', rt_Namespace := px_Namespace proxy, rt_Name := px_Name proxy\<rparr> else r)
     in (validCond, Some (r, ctp, lbPolicy))))))))))))"

text \<open>Authorization of the route; \<open>vh\<close> is the virtual host of the root proxy.\<close>

definition route_auth :: "HTTPProxyProcessor \<Rightarrow> VirtualHost_v1 \<Rightarrow> Route_v1 \<Rightarrow> Route \<Rightarrow> Route" where
  "route_auth p vh route r =
     (if AuthorizationConfigured vh \<or> GlobalAuthorizationConfigured p then
        let disabled = False;
            disabled = (case hpp_GlobalExternalAuthorization p of
                          Some g \<Rightarrow> (case as_AuthPolicy g of Some policy \<Rightarrow> ap_Disabled policy | None \<Rightarrow> disabled)
                        | None \<Rightarrow> disabled);
            disabled = (if AuthorizationConfigured vh then DisableAuthorization vh else disabled);
            disabled = (case rt1_AuthPolicy route of Some policy \<Rightarrow> ap_Disabled policy | None \<Rightarrow> disabled);
            r = r\<lparr>rt_AuthDisabled := disabled\<rparr>
        in if AuthorizationConfigured vh
           then r\<lparr>rt_AuthContext := Route_AuthorizationContext route (VirtualHost_AuthorizationContext vh)\<rparr>
           else if GlobalAuthorizationConfigured p
           then r\<lparr>rt_AuthContext := Route_AuthorizationContext route (GlobalAuthorizationContext p)\<rparr>
           else r
      else r)"

definition route_prefix_rewrite :: "Route_v1 \<Rightarrow> Route \<Rightarrow> DetailedCondition \<Rightarrow> DetailedCondition \<times> Route option" where
  "route_prefix_rewrite route r validCond =
     (let replacements = GetPrefixReplacements route in
      if length replacements = 0 then (validCond, Some r)
      else case rt_PathMatchCondition r of
        PrefixMatchCondition routingPrefix _ \<Rightarrow>
          (case prefixReplacementsAreValid replacements of
             Some (reason, err) \<Rightarrow> (AddError ConditionTypePrefixReplaceError reason err validCond, None)
           | None \<Rightarrow>
               let rewrite = (\<lambda>pfx. r\<lparr>rt_PathRewritePolicy := Some (zero_PathRewritePolicy\<lparr>prp_PrefixRewrite := rpx_Replacement pfx\<rparr>)\<rparr>) in
               (case find (\<lambda>pfx. length (rpx_Prefix pfx) > 0 \<and> routingPrefix = rpx_Prefix pfx) replacements of
                  Some pfx \<Rightarrow> (validCond, Some (rewrite pfx))
                | None \<Rightarrow>
                    (case find (\<lambda>pfx. length (rpx_Prefix pfx) = 0) replacements of
                       Some pfx \<Rightarrow> (validCond, Some (rewrite pfx))
                     | None \<Rightarrow> (validCond, Some r))))
      | _ \<Rightarrow> (AddError ConditionTypePrefixReplaceError ''MustHavePrefix''
               ''cannot specify prefix replacements without a prefix condition'' validCond, None))"

subsection \<open>The services of a route\<close>

definition service_slow_start ::
  "library \<Rightarrow> string \<Rightarrow> Service_v1 \<Rightarrow> DetailedCondition \<Rightarrow> DetailedCondition \<times> SlowStartConfig option option" where
  "service_slow_start lib lbPolicy service validCond =
     (case sv1_SlowStartPolicy service of
        None \<Rightarrow> (validCond, Some None)
      | Some slowStart \<Rightarrow>
          if lbPolicy \<noteq> '''' \<and> lbPolicy \<noteq> LoadBalancerPolicyRoundRobin \<and> lbPolicy \<noteq> LoadBalancerPolicyWeightedLeastRequest
          then (AddError ConditionTypeServiceError ''SlowStartInvalid''
                  ''slow start is only supported with RoundRobin or WeightedLeastRequest load balancer strategy'' validCond, None)
          else or_fail ConditionTypeServiceError ''SlowStartInvalid'' (\<lambda>err. err @ '' on slow start'') validCond
                 (slowStartConfig lib slowStart) (\<lambda>s. (validCond, Some (Some s))))"

text \<open>The step after a check that already added its errors to the condition.\<close>

definition and_then :: "DetailedCondition \<times> 'a option \<Rightarrow> (DetailedCondition \<Rightarrow> 'a \<Rightarrow> DetailedCondition \<times> 'b option) \<Rightarrow> DetailedCondition \<times> 'b option" where
  "and_then res k = (case res of (vc, None) \<Rightarrow> (vc, None) | (vc, Some x) \<Rightarrow> k vc x)"

text \<open>The cluster of a service that was resolved, and the dynamic headers it leaves.\<close>

definition service_dag_cluster ::
  "library \<Rightarrow> KubernetesCache \<Rightarrow> HTTPProxyProcessor \<Rightarrow> HTTPProxy \<Rightarrow> ClusterTimeoutPolicy \<Rightarrow> string \<Rightarrow> HTTPHealthCheckPolicy option
     \<Rightarrow> HeadersPolicy option \<Rightarrow> Service_v1 \<Rightarrow> Service \<Rightarrow> (string, string) gomap \<Rightarrow> DetailedCondition
     \<Rightarrow> DetailedCondition \<times> (Cluster \<times> (string, string) gomap) option" where
  "service_dag_cluster lib cache p proxy ctp lbPolicy healthPolicy routeReqHP service s dynamicHeaders validCond =
     or_fail ConditionTypeServiceError ''UnsupportedProtocol'' (\<lambda>err. err) validCond (getProtocol service s) (\<lambda>protocol.
     and_then (service_validation lib cache proxy service protocol validCond) (\<lambda>validCond uv.
     let dynamicHeaders = put ''CONTOUR_SERVICE_NAME'' (sv1_Name service) dynamicHeaders;
         dynamicHeaders = put ''CONTOUR_SERVICE_PORT'' (strconv_Itoa (sv1_Port service)) dynamicHeaders
     in
     or_fail ConditionTypeServiceError ''RequestHeadersPolicyInvalid'' (\<lambda>err. err @ '' on request headers'') validCond
       (headersPolicyService (lib_IsHTTPHeaderName lib) (hpp_RequestHeadersPolicy p) (sv1_RequestHeadersPolicy service) True dynamicHeaders) (\<lambda>reqHP.
     or_fail ConditionTypeServiceError ''ResponseHeadersPolicyInvalid'' (\<lambda>err. err @ '' on response headers'') validCond
       (headersPolicyService (lib_IsHTTPHeaderName lib) (hpp_ResponseHeadersPolicy p) (sv1_ResponseHeadersPolicy service) False dynamicHeaders) (\<lambda>respHP.
     or_fail ConditionTypeRouteError ''CookieRewritePoliciesInvalid'' (\<lambda>err. err @ '' on service cookie rewrite rules'') validCond
       (cookieRewritePolicies (sv1_CookieRewritePolicies service)) (\<lambda>cookieRP.
     and_then (client_certificate lib cache p validCond) (\<lambda>validCond clientCertSecret.
     and_then (service_slow_start lib lbPolicy service validCond) (\<lambda>validCond slowStart.
     (validCond, Some (\<lparr>
        cl_Upstream = s,
        cl_Weight = to_uint32 (sv1_Weight service),
        cl_Protocol = protocol,
        cl_UpstreamValidation = uv,
        cl_LoadBalancerPolicy = lbPolicy,
        cl_HTTPHealthCheckPolicy = healthPolicy,
        cl_TCPHealthCheckPolicy = None,
        cl_RequestHeadersPolicy = reqHP,
        cl_ResponseHeadersPolicy = respHP,
        cl_CookieRewritePolicies = cookieRP,
        cl_SNI = determineSNI routeReqHP reqHP s,
        cl_DNSLookupFamily = hpp_DNSLookupFamily p,
        cl_ClientCertificate = clientCertSecret,
        cl_TimeoutPolicy = ctp,
        cl_SlowStartConfig = slowStart,
        cl_MaxRequestsPerConnection = hpp_MaxRequestsPerConnection p,
        cl_PerConnectionBufferLimitBytes = hpp_PerConnectionBufferLimitBytes p,
        cl_UpstreamTLS = hpp_UpstreamTLS p\<rparr>, dynamicHeaders)))))))))"

definition route_service ::
  "library \<Rightarrow> KubernetesCache \<Rightarrow> HTTPProxyProcessor \<Rightarrow> HTTPProxy \<Rightarrow> ClusterTimeoutPolicy \<Rightarrow> string \<Rightarrow> HTTPHealthCheckPolicy option
     \<Rightarrow> Service_v1 \<Rightarrow> Route \<times> (string, string) gomap \<Rightarrow> DetailedCondition \<Rightarrow> DetailedCondition \<times> (Route \<times> (string, string) gomap) option" where
  "route_service lib cache p proxy ctp lbPolicy healthPolicy service st validCond =
     (case st of (r, dynamicHeaders) \<Rightarrow>
      if sv1_Port service < 1 \<or> sv1_Port service > 65535
      then (AddError ConditionTypeServiceError ''ServicePortInvalid''
              (''service '' @ go_quote (sv1_Name service) @ '': port must be in the range 1-65535'') validCond, None)
      else
        let healthPort = (if healthPolicy \<noteq> None \<and> sv1_HealthPort service > 0 then sv1_HealthPort service else sv1_Port service) in
        (case EnsureService cache \<lparr>nn_Namespace = px_Namespace proxy, nn_Name = sv1_Name service\<rparr> (sv1_Port service) healthPort
                (hpp_EnableExternalNameService p) of
           Inl err \<Rightarrow>
             (AddError ConditionTypeServiceError ''ServiceUnresolvedReference''
                (''Spec.Routes unresolved service reference: '' @ err) validCond, Some (r, dynamicHeaders))
         | Inr s \<Rightarrow>
             let s = (case serviceCircuitBreakerPolicy (Some s) (hpp_GlobalCircuitBreakerDefaults p) of Some s \<Rightarrow> s | None \<Rightarrow> s) in
             and_then (service_dag_cluster lib cache p proxy ctp lbPolicy healthPolicy (rt_RequestHeadersPolicy r) service s
                         dynamicHeaders validCond) (\<lambda>validCond (c, dynamicHeaders).
             if sv1_Mirror service \<and> length (rt_MirrorPolicies r) > 0
             then (AddError ConditionTypeServiceError ''OnlyOneMirror''
                     ''only one service per route may be nominated as mirror'' validCond, None)
             else if sv1_Mirror service
             then (validCond, Some (r\<lparr>rt_MirrorPolicies :=
                     [\<lparr>mp_Cluster = Some c, mp_Weight = (if sv1_Weight service = 0 then 100 else sv1_Weight service)\<rparr>]\<rparr>, dynamicHeaders))
             else (validCond, Some (r\<lparr>rt_Clusters := rt_Clusters r @ [c]\<rparr>, dynamicHeaders)))))"

fun route_services ::
  "library \<Rightarrow> KubernetesCache \<Rightarrow> HTTPProxyProcessor \<Rightarrow> HTTPProxy \<Rightarrow> ClusterTimeoutPolicy \<Rightarrow> string \<Rightarrow> HTTPHealthCheckPolicy option
     \<Rightarrow> Service_v1 list \<Rightarrow> Route \<times> (string, string) gomap \<Rightarrow> DetailedCondition \<Rightarrow> DetailedCondition \<times> (Route \<times> (string, string) gomap) option" where
  "route_services lib cache p proxy ctp lbPolicy healthPolicy [] st validCond = (validCond, Some st)"
| "route_services lib cache p proxy ctp lbPolicy healthPolicy (service # services) st validCond =
     and_then (route_service lib cache p proxy ctp lbPolicy healthPolicy service st validCond)
       (\<lambda>validCond st. route_services lib cache p proxy ctp lbPolicy healthPolicy services st validCond)"

subsection \<open>The rest of a route\<close>

definition route_jwt :: "string \<Rightarrow> Route_v1 \<Rightarrow> Route \<Rightarrow> DetailedCondition \<Rightarrow> DetailedCondition \<times> Route option" where
  "route_jwt defaultJWTProvider route r validCond =
     (case rt1_JWTVerificationPolicy route of
        Some jwt \<Rightarrow>
          if length (jvp_Require jwt) > 0 \<and> jvp_Disabled jwt
          then (AddError ConditionTypeJWTVerificationError ''InvalidJWTVerificationPolicy''
                  (''route'' @ [CHR 0x27] @ ''s JWT verification policy cannot specify both require and disabled'') validCond, None)
          else if length (jvp_Require jwt) > 0 then (validCond, Some (r\<lparr>rt_JWTProvider := jvp_Require jwt\<rparr>))
          else if jvp_Disabled jwt then (validCond, Some (r\<lparr>rt_JWTProvider := ''''\<rparr>))
          else (validCond, Some (r\<lparr>rt_JWTProvider := defaultJWTProvider\<rparr>))
      | None \<Rightarrow> (validCond, Some (r\<lparr>rt_JWTProvider := defaultJWTProvider\<rparr>)))"

definition route_finish ::
  "library \<Rightarrow> VirtualHost_v1 \<Rightarrow> string \<Rightarrow> Route_v1 \<Rightarrow> Route \<Rightarrow> DetailedCondition \<Rightarrow> DetailedCondition \<times> Route option" where
  "route_finish lib vh defaultJWTProvider route r validCond =
     (let r = (if length (rt_Clusters r) = 0 \<and> rt1_RequestRedirectPolicy route = None \<and> rt1_DirectResponsePolicy route = None
               then r\<lparr>rt_DirectResponse := directResponse 503 ''''\<rparr> else r);
          r = (if strings_HasPrefix (vh1_Fqdn vh) ''*.''
               then r\<lparr>rt_HeaderMatchConditions := rt_HeaderMatchConditions r @ [wildcardDomainHeaderMatch (vh1_Fqdn vh)]\<rparr> else r)
      in
      and_then (route_jwt defaultJWTProvider route r validCond) (\<lambda>validCond r.
      let ((allow, rules, err), validCond) = toIPFilterRules lib (rt1_IPAllowFilterPolicy route) (rt1_IPDenyFilterPolicy route) validCond
      in if err \<noteq> None then (validCond, None)
         else (validCond, Some (r\<lparr>rt_IPFilterAllow := allow, rt_IPFilterRules := rules\<rparr>))))"

definition compute_route ::
  "library \<Rightarrow> KubernetesCache \<Rightarrow> HTTPProxyProcessor \<Rightarrow> VirtualHost_v1 \<Rightarrow> HTTPProxy \<Rightarrow> MatchCondition_v1 list \<Rightarrow> bool \<Rightarrow> string
     \<Rightarrow> Route_v1 \<Rightarrow> (string, string) gomap \<Rightarrow> DetailedCondition \<Rightarrow> DetailedCondition \<times> (Route \<times> (string, string) gomap) option" where
  "compute_route lib cache p vh proxy conditions enforceTLS defaultJWTProvider route dynamicHeaders validCond =
     and_then (route_base lib p proxy conditions enforceTLS dynamicHeaders route validCond) (\<lambda>validCond (r, ctp, lbPolicy).
     let r = route_auth p vh route r in
     and_then (route_prefix_rewrite route r validCond) (\<lambda>validCond r.
     or_fail ConditionTypeRouteError ''HealthCheckPolicyInvalid'' (\<lambda>err. err) validCond
       (httpHealthCheckPolicy (rt1_HealthCheckPolicy route)) (\<lambda>healthPolicy.
     and_then (route_services lib cache p proxy ctp lbPolicy healthPolicy (rt1_Services route) (r, dynamicHeaders) validCond)
       (\<lambda>validCond (r, dynamicHeaders).
     and_then (route_finish lib vh defaultJWTProvider route r validCond) (\<lambda>validCond r.
     (validCond, Some (r, dynamicHeaders)))))))"

fun compute_routes_loop ::
  "library \<Rightarrow> KubernetesCache \<Rightarrow> HTTPProxyProcessor \<Rightarrow> VirtualHost_v1 \<Rightarrow> HTTPProxy \<Rightarrow> MatchCondition_v1 list \<Rightarrow> bool \<Rightarrow> string
     \<Rightarrow> Route_v1 list \<Rightarrow> (string, string) gomap \<Rightarrow> Route list \<Rightarrow> DetailedCondition \<Rightarrow> DetailedCondition \<times> Route list option" where
  "compute_routes_loop lib cache p vh proxy conditions enforceTLS jwt [] dynamicHeaders routes validCond = (validCond, Some routes)"
| "compute_routes_loop lib cache p vh proxy conditions enforceTLS jwt (route # rest) dynamicHeaders routes validCond =
     and_then (compute_route lib cache p vh proxy conditions enforceTLS jwt route dynamicHeaders validCond)
       (\<lambda>validCond (r, dynamicHeaders).
          compute_routes_loop lib cache p vh proxy conditions enforceTLS jwt rest dynamicHeaders (routes @ [r]) validCond)"

section \<open>Includes\<close>

text \<open>What the processor changes while it computes routes: the DAG (its status cache) and the set of orphans.\<close>

record ProxyState =
  ps_dag :: DAG
  ps_orphaned :: "(NamespacedName, bool) gomap"

definition commit_update :: "ProxyUpdate \<Rightarrow> ProxyState \<Rightarrow> ProxyState" where
  "commit_update pu st =
     (let dag = ps_dag st; sc = dag_StatusCache dag in
      st\<lparr>ps_dag := dag\<lparr>dag_StatusCache := sc\<lparr>stc_proxyUpdates := ProxyAccessor_commit pu (stc_proxyUpdates sc)\<rparr>\<rparr>\<rparr>)"

text \<open>What stays the same during the computation: the library, the source, the processor, the order of map iteration, the
  virtual host of the root proxy, whether TLS is enforced and the default JWT provider.\<close>

record route_env =
  re_lib :: library
  re_cache :: KubernetesCache
  re_proc :: HTTPProxyProcessor
  re_order :: map_order
  re_vh :: VirtualHost_v1
  re_enforceTLS :: bool
  re_jwt :: string

definition px_NamespacedName :: "HTTPProxy \<Rightarrow> NamespacedName" where
  "px_NamespacedName proxy = \<lparr>nn_Namespace = px_Namespace proxy, nn_Name = px_Name proxy\<rparr>"

definition bad_gateway_route :: "HTTPProxyProcessor \<Rightarrow> MatchCondition_v1 list \<Rightarrow> HTTPProxy \<Rightarrow> Route" where
  "bad_gateway_route p conds proxy =
     (let route = zero_Route\<lparr>
            rt_PathMatchCondition := mergePathMatchConditions conds,
            rt_HeaderMatchConditions := mergeHeaderMatchConditions conds,
            rt_QueryParamMatchConditions := mergeQueryParamMatchConditions conds,
            rt_DirectResponse := directResponse 502 ''''\<rparr>
      in if hpp_SetSourceMetadataOnRoutes p
         then route\<lparr>rt_Kind := ''HTTPProxy'', rt_Namespace := px_Namespace proxy, rt_Name := px_Name proxy\<rparr> else route)"

definition addStatusBadGatewayRoute :: "HTTPProxyProcessor \<Rightarrow> Route list \<Rightarrow> MatchCondition_v1 list \<Rightarrow> HTTPProxy \<Rightarrow> Route list" where
  "addStatusBadGatewayRoute p routes conds proxy =
     (if length conds > 0 then routes @ [bad_gateway_route p conds proxy] else routes)"

text \<open>The checks of one include: it is skipped, with the routes so far, or followed.\<close>

datatype include_step = IncludeSkip "Route list" | IncludeProxy HTTPProxy

definition include_check ::
  "route_env \<Rightarrow> HTTPProxy \<Rightarrow> Include \<Rightarrow> seenConds \<Rightarrow> Route list \<Rightarrow> DetailedCondition \<Rightarrow> DetailedCondition \<times> seenConds \<times> include_step" where
  "include_check env proxy include seenConds routes validCond =
     (let compile = lib_Compile (re_lib env);
          namespace = (if inc_Namespace include = '''' then px_Namespace proxy else inc_Namespace include);
          fail = (\<lambda>errorType reason msg. (AddError errorType reason msg validCond, seenConds, IncludeSkip routes))
      in
      case includeMatchConditionsValid (inc_Conditions include) of
        Inl err \<Rightarrow> fail ConditionTypeIncludeError ''PathMatchConditionsNotValid'' (''include: '' @ err)
      | Inr _ \<Rightarrow>
     (case pathMatchConditionsValid compile (inc_Conditions include) of
        Inl err \<Rightarrow> fail ConditionTypeIncludeError ''PathMatchConditionsNotValid'' (''include: '' @ err)
      | Inr _ \<Rightarrow>
     (case headerMatchConditionsValid compile (inc_Conditions include) of
        Inl err \<Rightarrow> fail ConditionTypeRouteError ''HeaderMatchConditionsNotValid'' err
      | Inr _ \<Rightarrow>
     (case queryParameterMatchConditionsValid compile (inc_Conditions include) of
        Inl err \<Rightarrow> fail ConditionTypeRouteError ''QueryParameterMatchConditionsNotValid'' err
      | Inr _ \<Rightarrow>
     (case includeMatchConditionsIdentical (inc_Conditions include) seenConds of
        (True, seenConds) \<Rightarrow>
          (AddError ConditionTypeIncludeError ''DuplicateMatchConditions'' ''duplicate conditions defined on an include'' validCond,
           seenConds, IncludeSkip routes)
      | (False, seenConds) \<Rightarrow>
     (case lookup (kc_httpproxies (re_cache env)) \<lparr>nn_Namespace = namespace, nn_Name = inc_Name include\<rparr> of
        None \<Rightarrow>
          (AddError ConditionTypeIncludeError ''IncludeNotFound'' (''include '' @ namespace @ ''/'' @ inc_Name include @ '' not found'') validCond,
           seenConds, IncludeSkip (addStatusBadGatewayRoute (re_proc env) routes (inc_Conditions include) proxy))
      | Some includedProxy \<Rightarrow>
          if spec_VirtualHost (px_Spec includedProxy) \<noteq> None then
            (AddError ConditionTypeIncludeError ''RootIncludesRoot''
               (''root httpproxy cannot include another root httpproxy ('' @ px_Namespace includedProxy @ ''/'' @ px_Name includedProxy @ '')'') validCond,
             seenConds, IncludeSkip (addStatusBadGatewayRoute (re_proc env) routes (inc_Conditions include) proxy))
          else (validCond, seenConds, IncludeProxy includedProxy)))))))"

lemma include_check_proxy:
  "include_check env proxy include seen routes vc = (vc', seen', IncludeProxy q) \<Longrightarrow>
   q \<in> set (map_values (kc_httpproxies (re_cache env))) \<and> vc' = vc \<and> spec_VirtualHost (px_Spec q) = None"
  by (auto simp: include_check_def Let_def map_values_def split: sum.splits option.splits if_splits prod.splits bool.splits
      dest: map_of_SomeD intro!: image_eqI)

definition cycle_path :: "HTTPProxy list \<Rightarrow> HTTPProxy \<Rightarrow> string" where
  "cycle_path visited proxy =
     strings_Join (map (\<lambda>vir. px_Namespace vir @ ''/'' @ px_Name vir) visited @ [px_Namespace proxy @ ''/'' @ px_Name proxy]) '' -> ''"

definition unvisited :: "KubernetesCache \<Rightarrow> HTTPProxy list \<Rightarrow> nat" where
  "unvisited source visited =
     card (px_NamespacedName ` set (map_values (kc_httpproxies source)) - px_NamespacedName ` set visited)"

lemma unvisited_less:
  "q \<in> set (map_values (kc_httpproxies source)) \<Longrightarrow> px_NamespacedName q \<notin> px_NamespacedName ` set visited \<Longrightarrow>
   unvisited source (visited @ [q]) < unvisited source visited"
  unfolding unvisited_def by (rule psubset_card_mono) auto

function (sequential)
  computeRoutes ::
    "route_env \<Rightarrow> HTTPProxy \<Rightarrow> MatchCondition_v1 list \<Rightarrow> HTTPProxy list \<Rightarrow> DetailedCondition \<Rightarrow> ProxyState
       \<Rightarrow> DetailedCondition \<times> ProxyState \<times> Route list"
  and include_loop ::
    "route_env \<Rightarrow> HTTPProxy \<Rightarrow> MatchCondition_v1 list \<Rightarrow> HTTPProxy list \<Rightarrow> Include list \<Rightarrow> seenConds \<Rightarrow> Route list
       \<Rightarrow> DetailedCondition \<Rightarrow> ProxyState \<Rightarrow> DetailedCondition \<times> ProxyState \<times> Route list"
where
  "computeRoutes env proxy conditions visited validCond st =
     (if px_NamespacedName proxy \<in> set (map px_NamespacedName visited) then
        (AddError ConditionTypeIncludeError ''IncludeCreatesCycle''
           (''include creates an include cycle: '' @ cycle_path visited proxy) validCond, st, [])
      else
        (case include_loop env proxy conditions (visited @ [proxy]) (spec_Includes (px_Spec proxy)) [] [] validCond st of
           (validCond, st, routes) \<Rightarrow>
             (case compute_routes_loop (re_lib env) (re_cache env) (re_proc env) (re_vh env) proxy conditions (re_enforceTLS env)
                     (re_jwt env) (spec_Routes (px_Spec proxy)) [(''CONTOUR_NAMESPACE'', px_Namespace proxy)] routes validCond of
                (validCond, None) \<Rightarrow> (validCond, st, [])
              | (validCond, Some routes) \<Rightarrow> (validCond, st, expandPrefixMatches (re_order env) routes))))"
| "include_loop env proxy conditions visited [] seenConds routes validCond st = (validCond, st, routes)"
| "include_loop env proxy conditions visited (include # includes) seenConds routes validCond st =
     (case include_check env proxy include seenConds routes validCond of
        (validCond, seenConds, IncludeSkip routes) \<Rightarrow>
          include_loop env proxy conditions visited includes seenConds routes validCond st
      | (validCond, seenConds, IncludeProxy includedProxy) \<Rightarrow>
          (case ConditionFor (ProxyAccessor (lib_now (re_lib env)) includedProxy) ValidCondition of
             (incValidCond, inc) \<Rightarrow>
               (case computeRoutes env includedProxy (conditions @ inc_Conditions include) visited incValidCond st of
                  (incValidCond, st, included) \<Rightarrow>
                    let st = commit_update (with_valid incValidCond inc) st;
                        st = st\<lparr>ps_orphaned := del (px_NamespacedName includedProxy) (ps_orphaned st)\<rparr>
                    in include_loop env proxy conditions visited includes seenConds (routes @ included) validCond st)))"
  by pat_completeness auto

termination
proof (relation "measures [
    \<lambda>x. case x of Inl (env, proxy, conditions, visited, vc, st) \<Rightarrow>
                    if px_NamespacedName proxy \<in> px_NamespacedName ` set visited then 0 else unvisited (re_cache env) (visited @ [proxy])
                | Inr (env, proxy, conditions, visited, includes, seen, routes, vc, st) \<Rightarrow> unvisited (re_cache env) visited,
    \<lambda>x. case x of Inl (env, proxy, conditions, visited, vc, st) \<Rightarrow>
                    if px_NamespacedName proxy \<in> px_NamespacedName ` set visited then 0 else 2 + length (spec_Includes (px_Spec proxy))
                | Inr (env, proxy, conditions, visited, includes, seen, routes, vc, st) \<Rightarrow> 1 + length includes]", goal_cases)
qed (auto dest!: include_check_proxy [OF sym] dest: unvisited_less)

section \<open>Errors end up in the status\<close>

lemma and_then_sound [wf_intro]:
  "sound_step vc res \<Longrightarrow> (\<And>vc' x. res = (vc', Some x) \<Longrightarrow> cond_grows vc vc' \<Longrightarrow> sound_step vc' (k vc' x)) \<Longrightarrow> sound_step vc (and_then res k)"
  by (auto simp: and_then_def split: prod.splits option.splits dest: sound_step_none sound_step_grows intro: sound_step_trans)

lemma sound_cases:
  "(b \<Longrightarrow> sound_step vc x) \<Longrightarrow> (\<not> b \<Longrightarrow> sound_step vc y) \<Longrightarrow> sound_step vc (if b then x else y)"
  "(\<And>e. s = Inl e \<Longrightarrow> sound_step vc (f e)) \<Longrightarrow> (\<And>a. s = Inr a \<Longrightarrow> sound_step vc (g a)) \<Longrightarrow> sound_step vc (case_sum f g s)"
  "(m = None \<Longrightarrow> sound_step vc x) \<Longrightarrow> (\<And>a. m = Some a \<Longrightarrow> sound_step vc (h a)) \<Longrightarrow> sound_step vc (case_option x h m)"
  "(\<And>a b. q = (a, b) \<Longrightarrow> sound_step vc (k a b)) \<Longrightarrow> sound_step vc (case_prod k q)"
  by (auto split: sum.split option.split prod.split)

lemmas sound_intros =
  sound_cases sound_step_ok sound_step_error or_fail_sound and_then_sound cond_grows_refl cond_grows_AddError cond_grows_AddWarning

lemma and_then_Some: "and_then res k = (vc', Some y) \<longleftrightarrow> (\<exists>vc x. res = (vc, Some x) \<and> k vc x = (vc', Some y))"
  by (auto simp: and_then_def split: prod.splits option.splits)

lemma hash_step_grows: "cond_grows (hs_validCond st) (hs_validCond (hash_step V p st))"
  by (rule hash_step_cases [of V p st]) (auto simp: hash_warning_def intro: cond_grows_AddWarning)

lemma hash_fold_grows: "cond_grows (hs_validCond st) (hs_validCond (fold (hash_step V) ps st))"
  by (induction ps arbitrary: st) (auto intro: cond_grows_trans hash_step_grows)

lemma loadBalancerRequestHashPolicies_grows:
  "loadBalancerRequestHashPolicies V lbp vc = (rhps, lb, vc') \<Longrightarrow> cond_grows vc vc'"
  using hash_fold_grows [of "\<lparr>hs_rhps = [], hs_hashSourceIPSet = False, hs_headers = [], hs_queryParameters = [], hs_validCond = vc\<rparr>" V]
  by (auto simp: loadBalancerRequestHashPolicies_def Let_def split: option.splits if_split_asm intro: cond_grows_AddWarning)

lemma route_base_sound: "sound_step vc (route_base lib p proxy conds tls dyn route vc)"
  unfolding route_base_def Let_def by (intro sound_intros) (simp_all add: loadBalancerRequestHashPolicies_grows)

lemma route_prefix_rewrite_sound: "sound_step vc (route_prefix_rewrite route r vc)"
  unfolding route_prefix_rewrite_def Let_def
  by (cases "rt_PathMatchCondition r"; simp only: MatchCondition.case; intro sound_intros)

lemma service_slow_start_sound: "sound_step vc (service_slow_start lib lb sv vc)"
  unfolding service_slow_start_def by (intro sound_intros)

lemma service_dag_cluster_sound:
  "sound_step vc (service_dag_cluster lib kc p proxy ctp lb hp rhp sv s dyn vc)"
  unfolding service_dag_cluster_def Let_def
  by (intro sound_intros service_validation_sound client_certificate_sound service_slow_start_sound)

lemma route_service_sound: "sound_step vc (route_service lib kc p proxy ctp lb hp sv st vc)"
  unfolding route_service_def Let_def by (intro sound_intros service_dag_cluster_sound)

lemma route_services_sound: "sound_step vc (route_services lib kc p proxy ctp lb hp svs st vc)"
  by (induction svs arbitrary: st vc) (simp_all add: sound_intros route_service_sound)

lemma route_jwt_sound: "sound_step vc (route_jwt jwt route r vc)"
  unfolding route_jwt_def by (intro sound_intros)

lemma route_finish_sound: "sound_step vc (route_finish lib vh jwt route r vc)"
  unfolding route_finish_def Let_def
  by (intro and_then_sound route_jwt_sound) (auto simp: sound_step_def split: prod.splits dest: toIPFilterRules_sound)

lemma compute_route_sound: "sound_step vc (compute_route lib kc p vh proxy conds tls jwt route dyn vc)"
  unfolding compute_route_def Let_def
  by (intro sound_intros route_base_sound route_prefix_rewrite_sound route_services_sound route_finish_sound)

lemma compute_routes_loop_sound:
  "sound_step vc (compute_routes_loop lib kc p vh proxy conds tls jwt rs dyn acc vc)"
proof (induction rs arbitrary: dyn acc vc)
  case (Cons r rs)
  show ?case unfolding compute_routes_loop.simps by (intro sound_intros compute_route_sound Cons.IH)
qed (simp add: sound_step_ok)

lemma include_check_grows: "include_check env proxy inc seen routes vc = (vc', seen', step) \<Longrightarrow> cond_grows vc vc'"
  by (auto simp: include_check_def Let_def split: sum.splits option.splits if_splits prod.splits bool.splits intro: cond_grows_AddError)

section \<open>What the computation changes\<close>

text \<open>The status cache only learns: every update in it has a valid condition and its own name, an object that has one keeps
  one, and once invalid it stays so.  The listeners and extension clusters of the DAG are not touched, and orphans are only
  removed.\<close>

abbreviation updates :: "DAG \<Rightarrow> proxyUpdates" where
  "updates d \<equiv> stc_proxyUpdates (dag_StatusCache d)"

definition updates_ok :: "proxyUpdates \<Rightarrow> bool" where
  "updates_ok u \<longleftrightarrow> (\<forall>n pu. lookup u n = Some pu \<longrightarrow> has_valid pu \<and> pu_Fullname pu = n)"

definition updates_grow :: "proxyUpdates \<Rightarrow> proxyUpdates \<Rightarrow> bool" where
  "updates_grow u u' \<longleftrightarrow>
     (updates_ok u \<longrightarrow> updates_ok u') \<and>
     (\<forall>n pu. lookup u n = Some pu \<longrightarrow>
        (\<exists>pu'. lookup u' n = Some pu' \<and> (valid_status pu = ConditionFalse \<longrightarrow> valid_status pu' = ConditionFalse)))"

definition st_grows :: "ProxyState \<Rightarrow> ProxyState \<Rightarrow> bool" where
  "st_grows st st' \<longleftrightarrow>
     dag_Listeners (ps_dag st') = dag_Listeners (ps_dag st) \<and>
     dag_ExtensionClusters (ps_dag st') = dag_ExtensionClusters (ps_dag st) \<and>
     updates_grow (updates (ps_dag st)) (updates (ps_dag st')) \<and>
     (\<forall>n. lookup (ps_orphaned st') n = None \<or> lookup (ps_orphaned st') n = lookup (ps_orphaned st) n)"

lemma updates_grow_refl [simp]: "updates_grow u u"
  by (simp add: updates_grow_def)

lemma updates_grow_trans: "updates_grow a b \<Longrightarrow> updates_grow b c \<Longrightarrow> updates_grow a c"
  unfolding updates_grow_def by meson

lemma updates_grow_commit:
  assumes "has_valid pu"
  shows "updates_grow u (ProxyAccessor_commit pu u)"
proof -
  have "updates_ok u \<Longrightarrow> updates_ok (ProxyAccessor_commit pu u)"
    using assms by (simp add: updates_ok_def commit_lookup)
  moreover have "\<exists>pu'. lookup (ProxyAccessor_commit pu u) n = Some pu' \<and> (valid_status old = ConditionFalse \<longrightarrow> valid_status pu' = ConditionFalse)"
    if "lookup u n = Some old" for n old
    using that valid_status_cases [OF assms] by (auto simp: commit_lookup [OF assms])
  ultimately show ?thesis by (simp add: updates_grow_def)
qed

lemma st_grows_refl [simp]: "st_grows st st"
  by (simp add: st_grows_def)

lemma st_grows_trans: "st_grows a b \<Longrightarrow> st_grows b c \<Longrightarrow> st_grows a c"
  unfolding st_grows_def using updates_grow_trans by metis

lemma commit_update_simps [simp]:
  "dag_Listeners (ps_dag (commit_update pu st)) = dag_Listeners (ps_dag st)"
  "dag_ExtensionClusters (ps_dag (commit_update pu st)) = dag_ExtensionClusters (ps_dag st)"
  "updates (ps_dag (commit_update pu st)) = ProxyAccessor_commit pu (updates (ps_dag st))"
  "ps_orphaned (commit_update pu st) = ps_orphaned st"
  by (simp_all add: commit_update_def Let_def)

lemma st_grows_commit: "has_valid pu \<Longrightarrow> st_grows st (commit_update pu st)"
  by (simp add: st_grows_def updates_grow_commit)

lemma st_grows_unorphan: "st_grows st (st\<lparr>ps_orphaned := del n (ps_orphaned st)\<rparr>)"
  by (simp add: st_grows_def lookup_del)

text \<open>A fresh update, as every visit of a proxy starts with.\<close>

lemma ConditionFor_fresh:
  "ConditionFor (ProxyAccessor now proxy) ValidCondition = (vc, pu) \<Longrightarrow>
   dc_Type vc = ValidCondition \<and> wf_condition vc \<and> dc_Errors vc = [] \<and> pu_Fullname pu = NamespacedNameOf (px_Namespace proxy) (px_Name proxy)"
  by (auto simp: ConditionFor_def ProxyAccessor_def new_condition_def wf_condition_def IsPositivePolarity_def Let_def)

lemma grown_valid: "dc_Type vc = ValidCondition \<Longrightarrow> wf_condition vc \<Longrightarrow> cond_grows vc vc' \<Longrightarrow> has_valid (with_valid vc' pu)"
  by (simp add: cond_grows_def)

lemma computeRoutes_grows:
  "computeRoutes env proxy conds visited vc st = (vc', st', rs) \<Longrightarrow> cond_grows vc vc' \<and> st_grows st st'"
  "include_loop env proxy conds visited incs seen routes vc st = (vc', st', rs) \<Longrightarrow> cond_grows vc vc' \<and> st_grows st st'"
proof (induction env proxy conds visited vc st and env proxy conds visited incs seen routes vc st
    arbitrary: vc' st' rs and vc' st' rs rule: computeRoutes_include_loop.induct)
  case (1 env proxy conds visited vc st)
  show ?case
  proof (cases "px_NamespacedName proxy \<in> set (map px_NamespacedName visited)")
    case True
    with 1(2) show ?thesis by (auto intro: cond_grows_AddError)
  next
    case False
    obtain vc1 st1 rs1 where l: "include_loop env proxy conds (visited @ [proxy]) (spec_Includes (px_Spec proxy)) [] [] vc st = (vc1, st1, rs1)"
      by (metis prod.exhaust)
    have g: "cond_grows vc vc1 \<and> st_grows st st1" using 1(1) [OF False l] .
    obtain vc2 o2 where c: "compute_routes_loop (re_lib env) (re_cache env) (re_proc env) (re_vh env) proxy conds (re_enforceTLS env)
        (re_jwt env) (spec_Routes (px_Spec proxy)) [(''CONTOUR_NAMESPACE'', px_Namespace proxy)] rs1 vc1 = (vc2, o2)" by force
    have "cond_grows vc1 vc2" using compute_routes_loop_sound c by (metis sound_step_grows)
    moreover have "vc' = vc2" "st' = st1" using 1(2) False l c by (auto split: option.splits)
    ultimately show ?thesis using g cond_grows_trans by blast
  qed
next
  case (3 env proxy conds visited inc incs seen routes vc st)
  obtain vc1 seen1 step where c: "include_check env proxy inc seen routes vc = (vc1, seen1, step)" by (metis prod.exhaust)
  have g: "cond_grows vc vc1" using include_check_grows [OF c] .
  show ?case
  proof (cases step)
    case (IncludeSkip rs1)
    have "cond_grows vc1 vc' \<and> st_grows st st'"
      using 3(1) [OF c [unfolded IncludeSkip, symmetric] refl refl] 3(4) c IncludeSkip by simp
    with g show ?thesis using cond_grows_trans by blast
  next
    case (IncludeProxy q)
    obtain ivc iu where f: "ConditionFor (ProxyAccessor (lib_now (re_lib env)) q) ValidCondition = (ivc, iu)" by force
    obtain ivc2 st2 irs where r: "computeRoutes env q (conds @ inc_Conditions inc) visited ivc st = (ivc2, st2, irs)"
      by (metis prod.exhaust)
    have IH: "cond_grows ivc ivc2 \<and> st_grows st st2"
      using 3(2) [OF c [unfolded IncludeProxy, symmetric] refl refl f [symmetric] r] .
    let ?st = "(commit_update (with_valid ivc2 iu) st2)\<lparr>ps_orphaned := del (px_NamespacedName q) (ps_orphaned (commit_update (with_valid ivc2 iu) st2))\<rparr>"
    have "st_grows st2 ?st"
      using grown_valid ConditionFor_fresh [OF f] IH by (intro st_grows_trans [OF st_grows_commit st_grows_unorphan]) blast
    moreover have "include_loop env proxy conds visited incs seen1 (routes @ irs) vc1 ?st = (vc', st', rs)"
      using 3(4) c IncludeProxy f r by (simp add: Let_def)
    then have "cond_grows vc1 vc' \<and> st_grows ?st st'"
      using 3(3) [OF c [unfolded IncludeProxy, symmetric] refl refl f [symmetric] r [symmetric] refl refl refl] by blast
    ultimately show ?thesis using g IH st_grows_trans cond_grows_trans by blast
  qed
qed simp

section \<open>What a route is\<close>

lemma or_failE: "or_fail t rs m vc r k = (vc', Some y) \<Longrightarrow> (\<And>x. r = Inr x \<Longrightarrow> k x = (vc', Some y) \<Longrightarrow> thesis) \<Longrightarrow> thesis"
  by (auto simp: or_fail_Some)

lemma and_thenE: "and_then res k = (vc', Some y) \<Longrightarrow> (\<And>vc x. res = (vc, Some x) \<Longrightarrow> k vc x = (vc', Some y) \<Longrightarrow> thesis) \<Longrightarrow> thesis"
  by (auto simp: and_then_Some)

lemma case_prod_eqE: "(case q of (a, b) \<Rightarrow> k a b) = z \<Longrightarrow> (\<And>a b. q = (a, b) \<Longrightarrow> k a b = z \<Longrightarrow> thesis) \<Longrightarrow> thesis"
  by (cases q) simp

text \<open>The fields that the steps after \<open>route_base\<close> leave alone.\<close>

definition same_match :: "Route \<Rightarrow> Route \<Rightarrow> bool" where
  "same_match r r' \<longleftrightarrow>
     rt_PathMatchCondition r' = rt_PathMatchCondition r \<and> rt_HeaderMatchConditions r' = rt_HeaderMatchConditions r \<and>
     rt_QueryParamMatchConditions r' = rt_QueryParamMatchConditions r \<and> rt_HTTPSUpgrade r' = rt_HTTPSUpgrade r \<and>
     rt_DirectResponse r' = rt_DirectResponse r \<and> rt_Redirect r' = rt_Redirect r"

lemma route_base_Some:
  assumes "route_base lib p proxy conds tls dyn route vc = (vc', Some (r, ctp, lb))"
  shows "rt_PathMatchCondition r = mergePathMatchConditions (conds @ rt1_Conditions route) \<and>
         rt_HeaderMatchConditions r = mergeHeaderMatchConditions (conds @ rt1_Conditions route) \<and>
         rt_QueryParamMatchConditions r = mergeQueryParamMatchConditions (conds @ rt1_Conditions route) \<and>
         rt_HTTPSUpgrade r = (tls \<and> \<not> (rt1_PermitInsecure route \<and> \<not> hpp_DisablePermitInsecure p)) \<and>
         (rt_Redirect r = None \<longleftrightarrow> rt1_RequestRedirectPolicy route = None) \<and>
         (rt_DirectResponse r = None \<longleftrightarrow> rt1_DirectResponsePolicy route = None) \<and>
         rt_Clusters r = [] \<and> rt_MirrorPolicies r = [] \<and> \<not> rt_AuthDisabled r \<and>
         routeActionCountValid route = Ok () \<and> pathMatchConditionsValid (lib_Compile lib) (rt1_Conditions route) = Ok ()"
proof -
  have redirect: "redirectRoutePolicy rp = Ok d \<Longrightarrow> (d = None \<longleftrightarrow> rp = None)" for rp d
    by (auto simp: redirectRoutePolicy_def Let_def split: option.splits if_split_asm)
  have direct: "directResponsePolicy dp = None \<longleftrightarrow> dp = None" for dp
    by (auto simp: directResponsePolicy_def directResponse_def split: option.splits)
  have u: "x = ()" for x :: unit by simp
  from assms show ?thesis
    unfolding route_base_def Let_def
    by (elim or_failE case_prod_eqE)
       (cases "hpp_SetSourceMetadataOnRoutes p"; auto simp: zero_Route_def routeEnforceTLS_def direct u dest: redirect)
qed

lemma route_auth_frame: "same_match r (route_auth p vh route r) \<and> rt_Clusters (route_auth p vh route r) = rt_Clusters r \<and>
    rt_MirrorPolicies (route_auth p vh route r) = rt_MirrorPolicies r"
  by (simp add: route_auth_def Let_def same_match_def)

lemma route_prefix_rewrite_frame:
  "route_prefix_rewrite route r vc = (vc', Some r') \<Longrightarrow>
   same_match r r' \<and> rt_Clusters r' = rt_Clusters r \<and> rt_MirrorPolicies r' = rt_MirrorPolicies r \<and> rt_AuthDisabled r' = rt_AuthDisabled r"
  unfolding route_prefix_rewrite_def Let_def
  by (auto simp: same_match_def split: if_split_asm MatchCondition.splits option.splits)

lemma route_service_frame:
  assumes "route_service lib kc p proxy ctp lb hp sv (r, dyn) vc = (vc', Some (r', dyn'))"
  shows "same_match r r' \<and> rt_AuthDisabled r' = rt_AuthDisabled r \<and>
         (case EnsureService kc \<lparr>nn_Namespace = px_Namespace proxy, nn_Name = sv1_Name sv\<rparr> (sv1_Port sv)
                 (if hp \<noteq> None \<and> sv1_HealthPort sv > 0 then sv1_HealthPort sv else sv1_Port sv) (hpp_EnableExternalNameService p) of
            Inl _ \<Rightarrow> r' = r \<and> dyn' = dyn
          | Inr _ \<Rightarrow> True)"
  using assms unfolding route_service_def Let_def prod.case
  by (auto simp: same_match_def and_then_Some split: if_split_asm sum.splits prod.splits)

lemma route_services_frame:
  "route_services lib kc p proxy ctp lb hp svs (r, dyn) vc = (vc', Some (r', dyn')) \<Longrightarrow>
   same_match r r' \<and> rt_AuthDisabled r' = rt_AuthDisabled r"
proof (induction svs arbitrary: r dyn vc)
  case (Cons sv svs)
  then obtain vc1 r1 dyn1 where 1: "route_service lib kc p proxy ctp lb hp sv (r, dyn) vc = (vc1, Some (r1, dyn1))"
    and 2: "route_services lib kc p proxy ctp lb hp svs (r1, dyn1) vc1 = (vc', Some (r', dyn'))"
    by (auto simp: and_then_Some)
  from Cons.IH [OF 2] route_service_frame [OF 1] show ?case by (simp add: same_match_def)
qed (simp add: same_match_def)

subsection \<open>Clusters\<close>

definition service_upstream ::
  "KubernetesCache \<Rightarrow> HTTPProxyProcessor \<Rightarrow> HTTPProxy \<Rightarrow> HTTPHealthCheckPolicy option \<Rightarrow> Service_v1 \<Rightarrow> Service option" where
  "service_upstream kc p proxy hp sv =
     (case EnsureService kc \<lparr>nn_Namespace = px_Namespace proxy, nn_Name = sv1_Name sv\<rparr> (sv1_Port sv)
             (if hp \<noteq> None \<and> sv1_HealthPort sv > 0 then sv1_HealthPort sv else sv1_Port sv) (hpp_EnableExternalNameService p) of
        Inl _ \<Rightarrow> None
      | Inr s \<Rightarrow> serviceCircuitBreakerPolicy (Some s) (hpp_GlobalCircuitBreakerDefaults p))"

definition service_targets ::
  "KubernetesCache \<Rightarrow> HTTPProxyProcessor \<Rightarrow> HTTPProxy \<Rightarrow> HTTPHealthCheckPolicy option \<Rightarrow> Service_v1 list \<Rightarrow> (Service \<times> uint32) list" where
  "service_targets kc p proxy hp svs =
     List.map_filter (\<lambda>sv. map_option (\<lambda>s. (s, to_uint32 (sv1_Weight sv))) (service_upstream kc p proxy hp sv)) svs"

abbreviation cluster_target :: "Cluster \<Rightarrow> Service \<times> uint32" where
  "cluster_target c \<equiv> (cl_Upstream c, cl_Weight c)"

lemma service_dag_cluster_Some:
  "service_dag_cluster lib kc p proxy ctp lb hp rhp sv s dyn vc = (vc', Some (c, dyn')) \<Longrightarrow>
   cluster_target c = (s, to_uint32 (sv1_Weight sv)) \<and>
   dyn' = put ''CONTOUR_SERVICE_PORT'' (strconv_Itoa (sv1_Port sv)) (put ''CONTOUR_SERVICE_NAME'' (sv1_Name sv) dyn)"
  unfolding service_dag_cluster_def Let_def by (elim or_failE and_thenE) auto

lemma circuit_breaker_Some: "serviceCircuitBreakerPolicy (Some s) cb \<noteq> None"
  by (simp add: serviceCircuitBreakerPolicy_def Let_def)

lemma route_service_clusters:
  assumes "route_service lib kc p proxy ctp lb hp sv (r, dyn) vc = (vc', Some (r', dyn'))"
  shows "map cluster_target (rt_Clusters r') =
           map cluster_target (rt_Clusters r) @ (if sv1_Mirror sv then [] else service_targets kc p proxy hp [sv])"
    and "length (rt_MirrorPolicies r) \<le> 1 \<Longrightarrow> length (rt_MirrorPolicies r') \<le> 1"
    and "service_upstream kc p proxy hp sv = None \<Longrightarrow> length (dc_Errors vc) < length (dc_Errors vc')"
proof -
  let ?e = "EnsureService kc \<lparr>nn_Namespace = px_Namespace proxy, nn_Name = sv1_Name sv\<rparr> (sv1_Port sv)
             (if hp \<noteq> None \<and> sv1_HealthPort sv > 0 then sv1_HealthPort sv else sv1_Port sv) (hpp_EnableExternalNameService p)"
  have port: "\<not> (sv1_Port sv < 1 \<or> sv1_Port sv > 65535)" using assms by (auto simp: route_service_def)
  have "map cluster_target (rt_Clusters r') =
          map cluster_target (rt_Clusters r) @ (if sv1_Mirror sv then [] else service_targets kc p proxy hp [sv]) \<and>
        (length (rt_MirrorPolicies r) \<le> 1 \<longrightarrow> length (rt_MirrorPolicies r') \<le> 1) \<and>
        (service_upstream kc p proxy hp sv = None \<longrightarrow> length (dc_Errors vc) < length (dc_Errors vc'))"
  proof (cases ?e)
    case (Inl err)
    then have "r' = r" "length (dc_Errors vc') = Suc (length (dc_Errors vc))"
      using assms port unfolding route_service_def Let_def by (simp_all add: AddError_length Inl split: if_split_asm) (auto simp: AddError_def)
    moreover have "service_upstream kc p proxy hp sv = None" using Inl by (simp add: service_upstream_def)
    ultimately show ?thesis by (simp add: service_targets_def map_filter_simps)
  next
    case (Inr s)
    obtain s' where s': "serviceCircuitBreakerPolicy (Some s) (hpp_GlobalCircuitBreakerDefaults p) = Some s'"
      using circuit_breaker_Some by blast
    have up: "service_upstream kc p proxy hp sv = Some s'" using Inr s' by (simp add: service_upstream_def)
    obtain vc1 c dyn1 where c: "service_dag_cluster lib kc p proxy ctp lb hp (rt_RequestHeadersPolicy r) sv s' dyn vc = (vc1, Some (c, dyn1))"
      and k: "(if sv1_Mirror sv \<and> length (rt_MirrorPolicies r) > 0
             then (AddError ConditionTypeServiceError ''OnlyOneMirror''
                     ''only one service per route may be nominated as mirror'' vc1, None)
             else if sv1_Mirror sv
             then (vc1, Some (r\<lparr>rt_MirrorPolicies :=
                     [\<lparr>mp_Cluster = Some c, mp_Weight = (if sv1_Weight sv = 0 then 100 else sv1_Weight sv)\<rparr>]\<rparr>, dyn1))
             else (vc1, Some (r\<lparr>rt_Clusters := rt_Clusters r @ [c]\<rparr>, dyn1))) = (vc', Some (r', dyn'))"
      using assms port unfolding route_service_def Let_def prod.case Inr sum.case s' option.case by (auto elim!: and_thenE)
    show ?thesis
      using k service_dag_cluster_Some [OF c] up by (auto simp: service_targets_def map_filter_simps split: if_split_asm)
  qed
  then show "map cluster_target (rt_Clusters r') =
           map cluster_target (rt_Clusters r) @ (if sv1_Mirror sv then [] else service_targets kc p proxy hp [sv])"
    "length (rt_MirrorPolicies r) \<le> 1 \<Longrightarrow> length (rt_MirrorPolicies r') \<le> 1"
    "service_upstream kc p proxy hp sv = None \<Longrightarrow> length (dc_Errors vc) < length (dc_Errors vc')" by blast+
qed

lemma service_targets_Cons:
  "service_targets kc p proxy hp (sv # svs) = service_targets kc p proxy hp [sv] @ service_targets kc p proxy hp svs"
  by (simp add: service_targets_def map_filter_simps split: option.split)

lemma route_services_clusters:
  assumes "route_services lib kc p proxy ctp lb hp svs (r, dyn) vc = (vc', Some (r', dyn'))"
  shows "map cluster_target (rt_Clusters r') =
           map cluster_target (rt_Clusters r) @ service_targets kc p proxy hp (filter (\<lambda>sv. \<not> sv1_Mirror sv) svs) \<and>
         (length (rt_MirrorPolicies r) \<le> 1 \<longrightarrow> length (rt_MirrorPolicies r') \<le> 1) \<and>
         (\<forall>sv\<in>set svs. service_upstream kc p proxy hp sv = None \<longrightarrow> length (dc_Errors vc) < length (dc_Errors vc'))"
  using assms
proof (induction svs arbitrary: r dyn vc)
  case Nil
  then show ?case by (simp add: service_targets_def map_filter_simps)
next
  case (Cons sv svs)
  then obtain vc1 r1 dyn1 where 1: "route_service lib kc p proxy ctp lb hp sv (r, dyn) vc = (vc1, Some (r1, dyn1))"
    and 2: "route_services lib kc p proxy ctp lb hp svs (r1, dyn1) vc1 = (vc', Some (r', dyn'))"
    by (auto simp: and_then_Some)
  have n: "length (dc_Errors vc) \<le> length (dc_Errors vc1)" "length (dc_Errors vc1) \<le> length (dc_Errors vc')"
    using route_service_sound route_services_sound 1 2 by (metis cond_grows_length sound_step_grows)+
  show ?case
    using Cons.IH [OF 2] route_service_clusters [OF 1] n service_targets_Cons [of kc p proxy hp sv "filter (\<lambda>sv. \<not> sv1_Mirror sv) svs"]
    by (auto dest: le_less_trans less_le_trans)
qed

definition effective_auth_disabled :: "HTTPProxyProcessor \<Rightarrow> VirtualHost_v1 \<Rightarrow> Route_v1 \<Rightarrow> bool" where
  "effective_auth_disabled p vh route =
     ((AuthorizationConfigured vh \<or> GlobalAuthorizationConfigured p) \<and>
      (case rt1_AuthPolicy route of
         Some policy \<Rightarrow> ap_Disabled policy
       | None \<Rightarrow>
           if AuthorizationConfigured vh then DisableAuthorization vh
           else (\<exists>g policy. hpp_GlobalExternalAuthorization p = Some g \<and> as_AuthPolicy g = Some policy \<and> ap_Disabled policy)))"

definition effective_jwt :: "string \<Rightarrow> Route_v1 \<Rightarrow> string" where
  "effective_jwt dflt route =
     (case rt1_JWTVerificationPolicy route of
        None \<Rightarrow> dflt
      | Some jwt \<Rightarrow> if jvp_Require jwt \<noteq> '''' then jvp_Require jwt else if jvp_Disabled jwt then '''' else dflt)"

lemma route_auth_disabled:
  "\<not> rt_AuthDisabled r \<Longrightarrow> rt_AuthDisabled (route_auth p vh route r) = effective_auth_disabled p vh route"
  by (auto simp: route_auth_def effective_auth_disabled_def GlobalAuthorizationConfigured_def Let_def split: option.splits)

lemma route_jwt_Some:
  "route_jwt dflt route r vc = (vc', Some r') \<Longrightarrow> r' = r\<lparr>rt_JWTProvider := effective_jwt dflt route\<rparr>"
  by (auto simp: route_jwt_def effective_jwt_def split: option.splits if_split_asm)

lemma route_finish_Some:
  assumes "route_finish lib vh jwt route r vc = (vc', Some r')"
  shows "rt_PathMatchCondition r' = rt_PathMatchCondition r \<and>
         rt_HeaderMatchConditions r' = rt_HeaderMatchConditions r @
           (if prefix ''*.'' (vh1_Fqdn vh) then [wildcardDomainHeaderMatch (vh1_Fqdn vh)] else []) \<and>
         rt_QueryParamMatchConditions r' = rt_QueryParamMatchConditions r \<and> rt_HTTPSUpgrade r' = rt_HTTPSUpgrade r \<and>
         rt_AuthDisabled r' = rt_AuthDisabled r \<and> rt_Clusters r' = rt_Clusters r \<and> rt_MirrorPolicies r' = rt_MirrorPolicies r \<and>
         rt_Redirect r' = rt_Redirect r \<and> rt_JWTProvider r' = effective_jwt jwt route \<and>
         rt_DirectResponse r' = (if rt_Clusters r = [] \<and> rt1_RequestRedirectPolicy route = None \<and> rt1_DirectResponsePolicy route = None
                                 then directResponse 503 '''' else rt_DirectResponse r)"
proof -
  let ?r1 = "if length (rt_Clusters r) = 0 \<and> rt1_RequestRedirectPolicy route = None \<and> rt1_DirectResponsePolicy route = None
             then r\<lparr>rt_DirectResponse := directResponse 503 ''''\<rparr> else r"
  let ?r2 = "if strings_HasPrefix (vh1_Fqdn vh) ''*.''
             then ?r1\<lparr>rt_HeaderMatchConditions := rt_HeaderMatchConditions ?r1 @ [wildcardDomainHeaderMatch (vh1_Fqdn vh)]\<rparr> else ?r1"
  from assms obtain vc1 r3 where j: "route_jwt jwt route ?r2 vc = (vc1, Some r3)"
    and k: "(case toIPFilterRules lib (rt1_IPAllowFilterPolicy route) (rt1_IPDenyFilterPolicy route) vc1 of
         (xa, validCond) \<Rightarrow> (case xa of (allow, rules, err) \<Rightarrow> \<lambda>validCond. if err \<noteq> None then (validCond, None)
         else (validCond, Some (r3\<lparr>rt_IPFilterAllow := allow, rt_IPFilterRules := rules\<rparr>))) validCond) = (vc', Some r')"
    unfolding route_finish_def Let_def by (elim and_thenE) blast
  then obtain a rules where "r' = r3\<lparr>rt_IPFilterAllow := a, rt_IPFilterRules := rules\<rparr>"
    by (auto split: prod.splits if_split_asm)
  with route_jwt_Some [OF j] show ?thesis by (simp add: HasPrefix_iff)
qed

lemma compute_route_steps:
  assumes "compute_route lib kc p vh proxy conds tls jwt route dyn vc = (vc', Some (r, dyn'))"
  obtains vc1 r1 ctp lb vc2 r2 hp vc3 r3 where
    "route_base lib p proxy conds tls dyn route vc = (vc1, Some (r1, ctp, lb))"
    "route_prefix_rewrite route (route_auth p vh route r1) vc1 = (vc2, Some r2)"
    "httpHealthCheckPolicy (rt1_HealthCheckPolicy route) = Ok hp"
    "route_services lib kc p proxy ctp lb hp (rt1_Services route) (r2, dyn) vc2 = (vc3, Some (r3, dyn'))"
    "route_finish lib vh jwt route r3 vc3 = (vc', Some r)"
  using assms unfolding compute_route_def Let_def
  by (elim and_thenE or_failE case_prod_eqE) (auto simp: and_then_Some split: prod.splits)

lemma compute_route_match:
  assumes "compute_route lib kc p vh proxy conds tls jwt route dyn vc = (vc', Some (r, dyn'))"
  shows "rt_PathMatchCondition r = mergePathMatchConditions (conds @ rt1_Conditions route)"
    and "rt_HeaderMatchConditions r = mergeHeaderMatchConditions (conds @ rt1_Conditions route) @
           (if prefix ''*.'' (vh1_Fqdn vh) then [wildcardDomainHeaderMatch (vh1_Fqdn vh)] else [])"
    and "rt_QueryParamMatchConditions r = mergeQueryParamMatchConditions (conds @ rt1_Conditions route)"
    and "rt_HTTPSUpgrade r = (tls \<and> \<not> (rt1_PermitInsecure route \<and> \<not> hpp_DisablePermitInsecure p))"
    and "rt_AuthDisabled r = effective_auth_disabled p vh route"
    and "rt_JWTProvider r = effective_jwt jwt route"
    and "pathMatchConditionsValid (lib_Compile lib) (rt1_Conditions route) = Ok ()"
proof -
  obtain vc1 r1 ctp lb vc2 r2 hp vc3 r3 where s:
    "route_base lib p proxy conds tls dyn route vc = (vc1, Some (r1, ctp, lb))"
    "route_prefix_rewrite route (route_auth p vh route r1) vc1 = (vc2, Some r2)"
    "httpHealthCheckPolicy (rt1_HealthCheckPolicy route) = Ok hp"
    "route_services lib kc p proxy ctp lb hp (rt1_Services route) (r2, dyn) vc2 = (vc3, Some (r3, dyn'))"
    "route_finish lib vh jwt route r3 vc3 = (vc', Some r)"
    using assms by (rule compute_route_steps)
  note frames = route_base_Some [OF s(1)] route_auth_frame [of r1 p vh route] route_auth_disabled [of r1 p vh route]
    route_prefix_rewrite_frame [OF s(2)] route_services_frame [OF s(4)] route_finish_Some [OF s(5)]
  show "rt_PathMatchCondition r = mergePathMatchConditions (conds @ rt1_Conditions route)"
    "rt_HeaderMatchConditions r = mergeHeaderMatchConditions (conds @ rt1_Conditions route) @
           (if prefix ''*.'' (vh1_Fqdn vh) then [wildcardDomainHeaderMatch (vh1_Fqdn vh)] else [])"
    "rt_QueryParamMatchConditions r = mergeQueryParamMatchConditions (conds @ rt1_Conditions route)"
    "rt_HTTPSUpgrade r = (tls \<and> \<not> (rt1_PermitInsecure route \<and> \<not> hpp_DisablePermitInsecure p))"
    "rt_AuthDisabled r = effective_auth_disabled p vh route"
    "rt_JWTProvider r = effective_jwt jwt route"
    "pathMatchConditionsValid (lib_Compile lib) (rt1_Conditions route) = Ok ()"
    using frames by (simp_all add: same_match_def)
qed

lemma compute_route_clusters:
  assumes "compute_route lib kc p vh proxy conds tls jwt route dyn vc = (vc', Some (r, dyn'))"
  shows "\<exists>hp. httpHealthCheckPolicy (rt1_HealthCheckPolicy route) = Ok hp \<and>
      map cluster_target (rt_Clusters r) = service_targets kc p proxy hp (filter (\<lambda>sv. \<not> sv1_Mirror sv) (rt1_Services route)) \<and>
      length (rt_MirrorPolicies r) \<le> 1 \<and>
      ((\<exists>sv\<in>set (rt1_Services route). service_upstream kc p proxy hp sv = None) \<longrightarrow> length (dc_Errors vc) < length (dc_Errors vc')) \<and>
      (rt_Clusters r = [] \<longrightarrow> rt_DirectResponse r \<noteq> None \<or> rt_Redirect r \<noteq> None)"
proof -
  obtain vc1 r1 ctp lb vc2 r2 hp vc3 r3 where s:
    "route_base lib p proxy conds tls dyn route vc = (vc1, Some (r1, ctp, lb))"
    "route_prefix_rewrite route (route_auth p vh route r1) vc1 = (vc2, Some r2)"
    "httpHealthCheckPolicy (rt1_HealthCheckPolicy route) = Ok hp"
    "route_services lib kc p proxy ctp lb hp (rt1_Services route) (r2, dyn) vc2 = (vc3, Some (r3, dyn'))"
    "route_finish lib vh jwt route r3 vc3 = (vc', Some r)"
    using assms by (rule compute_route_steps)
  note frames = route_base_Some [OF s(1)] route_auth_frame [of r1 p vh route]
    route_prefix_rewrite_frame [OF s(2)] route_services_frame [OF s(4)] route_services_clusters [OF s(4)] route_finish_Some [OF s(5)]
  have g: "cond_grows vc vc1" "cond_grows vc1 vc2" "cond_grows vc3 vc'"
    using route_base_sound [of vc lib p proxy conds tls dyn route] route_prefix_rewrite_sound [of vc1 route "route_auth p vh route r1"]
      route_finish_sound [of vc3 lib vh jwt route r3] unfolding s by (blast dest: sound_step_grows)+
  have "length (dc_Errors vc) < length (dc_Errors vc')" if "sv \<in> set (rt1_Services route)" "service_upstream kc p proxy hp sv = None" for sv
  proof -
    have "length (dc_Errors vc2) < length (dc_Errors vc3)" using route_services_clusters [OF s(4)] that by blast
    then show ?thesis using g [THEN cond_grows_length] by linarith
  qed
  moreover have "map cluster_target (rt_Clusters r) = service_targets kc p proxy hp (filter (\<lambda>sv. \<not> sv1_Mirror sv) (rt1_Services route))"
    "length (rt_MirrorPolicies r) \<le> 1"
    using frames by simp_all
  moreover have "rt_DirectResponse r \<noteq> None \<or> rt_Redirect r \<noteq> None" if "rt_Clusters r = []"
  proof (cases "rt1_RequestRedirectPolicy route = None \<and> rt1_DirectResponsePolicy route = None")
    case True
    then show ?thesis using route_finish_Some [OF s(5)] that by (simp add: directResponse_def)
  next
    case False
    then have "rt_DirectResponse r = rt_DirectResponse r1 \<and> rt_Redirect r = rt_Redirect r1"
      using frames unfolding same_match_def by presburger
    then show ?thesis using False route_base_Some [OF s(1)] by metis
  qed
  ultimately show ?thesis using s(3) by blast
qed

text \<open>
  C15. What a route of an HTTPProxy becomes.  Its path, header and query conditions are those of the
  includes on the way followed by its own, with a match on the host for a wildcard domain; it redirects to HTTPS exactly when
  TLS is enforced and insecure access is not permitted or not permitted to be permitted; authorization is disabled
  according to the most specific policy, that of the route before that of the virtual host before the global one; its
  JWT provider is the required one, none when disabled, or else the default.  Its clusters are the services that
  resolve and are no mirrors, in order and with their weights, and at most one mirror; a service that does not resolve
  leaves an error in the status; and a route without clusters answers itself or redirects.
\<close>

theorem compute_route_correct:
  assumes "compute_route lib kc p vh proxy conds tls jwt route dyn vc = (vc', Some (r, dyn'))"
  shows "rt_PathMatchCondition r = mergePathMatchConditions (conds @ rt1_Conditions route) \<and>
         rt_HeaderMatchConditions r = mergeHeaderMatchConditions (conds @ rt1_Conditions route) @
           (if prefix ''*.'' (vh1_Fqdn vh) then [wildcardDomainHeaderMatch (vh1_Fqdn vh)] else []) \<and>
         rt_QueryParamMatchConditions r = mergeQueryParamMatchConditions (conds @ rt1_Conditions route) \<and>
         rt_HTTPSUpgrade r = (tls \<and> \<not> (rt1_PermitInsecure route \<and> \<not> hpp_DisablePermitInsecure p)) \<and>
         rt_AuthDisabled r = effective_auth_disabled p vh route \<and>
         rt_JWTProvider r = effective_jwt jwt route \<and>
         (\<exists>hp. httpHealthCheckPolicy (rt1_HealthCheckPolicy route) = Ok hp \<and>
            map cluster_target (rt_Clusters r) = service_targets kc p proxy hp (filter (\<lambda>sv. \<not> sv1_Mirror sv) (rt1_Services route)) \<and>
            length (rt_MirrorPolicies r) \<le> 1 \<and>
            ((\<exists>sv\<in>set (rt1_Services route). service_upstream kc p proxy hp sv = None) \<longrightarrow> length (dc_Errors vc) < length (dc_Errors vc')) \<and>
            (rt_Clusters r = [] \<longrightarrow> rt_DirectResponse r \<noteq> None \<or> rt_Redirect r \<noteq> None))"
  using compute_route_match [OF assms] compute_route_clusters [OF assms] by blast

end
