(* ===== verification/Proxy_Scope.thy ===== *)
theory Proxy_Scope
  imports Proxy_Routes
begin

text \<open>
  What holds of every route that \<open>computeRoutes\<close> returns: the effect of the prefix expansion, HTTPS enforcement, and the scope
  that an include gives to the proxy it delegates to.  The interface \<open>route_invariant\<close> states what a property of routes
  must satisfy to hold of all of them.
\<close>

section \<open>Prefix expansion\<close>

definition norm_prefix :: "string \<Rightarrow> string" where
  "norm_prefix p = (if p \<noteq> ''/'' then strings_TrimRight p CHR ''/'' else p)"

text \<open>The group of a route that matches a path prefix.\<close>

definition route_group :: "Route \<Rightarrow> string option" where
  "route_group r = (case rt_PathMatchCondition r of PrefixMatchCondition p _ \<Rightarrow> Some (norm_prefix p) | _ \<Rightarrow> None)"

lemma group_routes_eq:
  assumes "wf_gomap m"
  shows "fst (group_routes rs (ex, m)) = ex @ filter (\<lambda>r. route_group r = None) rs \<and> wf_gomap (snd (group_routes rs (ex, m))) \<and>
         (\<forall>k. lookup (snd (group_routes rs (ex, m))) k =
           (let g = filter (\<lambda>r. route_group r = Some k) rs in
            case lookup m k of Some old \<Rightarrow> Some (old @ g) | None \<Rightarrow> if g = [] then None else Some g))"
  using assms
proof (induction rs arbitrary: ex m)
  case (Cons r rs)
  show ?case
  proof (cases "rt_PathMatchCondition r")
    case (PrefixMatchCondition p t)
    let ?k = "norm_prefix p" and ?g = "case lookup m (norm_prefix p) of None \<Rightarrow> [] | Some g \<Rightarrow> g"
    have r: "route_group r = Some ?k" using PrefixMatchCondition by (simp add: route_group_def)
    have "group_routes (r # rs) (ex, m) = group_routes rs (ex, put ?k (?g @ [r]) m)"
      using PrefixMatchCondition by (simp add: norm_prefix_def Let_def)
    moreover have "wf_gomap (put ?k (?g @ [r]) m)" using Cons.prems by (simp add: distinct_update)
    ultimately show ?thesis using Cons.IH [of "put ?k (?g @ [r]) m" ex] r by (simp add: lookup_put Let_def split: option.splits)
  qed (use Cons in \<open>simp_all add: route_group_def Let_def\<close>)
qed (simp add: Let_def split: option.split)

text \<open>The order in which the runtime iterates a map: a permutation of its entries.\<close>

definition fair_order :: "map_order \<Rightarrow> bool" where
  "fair_order ord \<longleftrightarrow>
     (\<forall>m. mset (mo_prefixes ord m) = mset m) \<and> (\<forall>m. mset (mo_fqdns ord m) = mset m) \<and> (\<forall>m. mset (mo_orphans ord m) = mset m)"

lemma fair_prefixes:
  assumes "fair_order ord"
  shows "set (mo_prefixes ord m) = set m" "wf_gomap (mo_prefixes ord m) = wf_gomap m"
proof -
  have m: "mset (mo_prefixes ord m) = mset m" using assms by (simp add: fair_order_def)
  then show "set (mo_prefixes ord m) = set m" by (metis set_mset_mset)
  have "mset (map fst (mo_prefixes ord m)) = mset (map fst m)" using m by simp
  then show "wf_gomap (mo_prefixes ord m) = wf_gomap m" by (rule mset_eq_imp_distinct_iff)
qed

lemma expandPrefixMatches_set:
  assumes "fair_order ord"
  shows "set (expandPrefixMatches ord rs) =
           {r \<in> set rs. route_group r = None} \<union>
           (\<Union>k \<in> {k. \<exists>r\<in>set rs. route_group r = Some k}. set (expand_group k (filter (\<lambda>r. route_group r = Some k) rs)))"
proof -
  obtain ex m where g: "group_routes rs ([], []) = (ex, m)" by force
  have ex: "ex = filter (\<lambda>r. route_group r = None) rs" and wf: "wf_gomap m"
    and look: "\<And>k. lookup m k = (let g = filter (\<lambda>r. route_group r = Some k) rs in if g = [] then None else Some g)"
    using group_routes_eq [of "[]" rs "[]"] g by simp_all
  have mem: "(k, g) \<in> set m \<longleftrightarrow> (\<exists>r\<in>set rs. route_group r = Some k) \<and> g = filter (\<lambda>r. route_group r = Some k) rs" for k g
  proof (cases "filter (\<lambda>r. route_group r = Some k) rs = []")
    case True
    then have "lookup m k = None" using look [of k] by (simp add: Let_def)
    moreover have "\<not> (\<exists>r\<in>set rs. route_group r = Some k)" using True by (simp add: filter_empty_conv)
    ultimately show ?thesis using lookup_eq_iff [OF wf, of k g] by simp
  next
    case False
    then have "lookup m k = Some (filter (\<lambda>r. route_group r = Some k) rs)" using look [of k] by (simp add: Let_def)
    moreover have "\<exists>r\<in>set rs. route_group r = Some k" using False by (simp add: filter_empty_conv)
    ultimately show ?thesis using lookup_eq_iff [OF wf, of k g] by auto
  qed
  have "(\<Union>x\<in>set m. set (case x of (k, g) \<Rightarrow> expand_group k g)) =
      (\<Union>k \<in> {k. \<exists>r\<in>set rs. route_group r = Some k}. set (expand_group k (filter (\<lambda>r. route_group r = Some k) rs)))"
    unfolding UNION_eq Bex_def split_paired_Ex mem prod.case mem_Collect_eq by blast
  then show ?thesis using ex fair_prefixes(1) [OF assms] by (simp add: expandPrefixMatches_def g)
qed

lemma expand_group_cases:
  "expand_group k rs = rs \<or>
   (\<exists>r policy p t. rs = [r] \<and> rt_PathRewritePolicy r = Some policy \<and> rt_PathMatchCondition r = PrefixMatchCondition p t \<and> p \<noteq> ''/'' \<and>
      expand_group k rs =
        [r\<lparr>rt_PathRewritePolicy := Some (policy\<lparr>prp_PrefixRewrite :=
              (if strings_TrimRight (prp_PrefixRewrite policy) CHR ''/'' = '''' then ''/''
               else strings_TrimRight (prp_PrefixRewrite policy) CHR ''/'')\<rparr>),
           rt_PathMatchCondition := PrefixMatchCondition k PrefixMatchString\<rparr>,
         r\<lparr>rt_PathRewritePolicy := Some (zero_PathRewritePolicy\<lparr>prp_PrefixRewrite := strings_TrimRight (prp_PrefixRewrite policy) CHR ''/'' @ ''/''\<rparr>),
           rt_PathMatchCondition := PrefixMatchCondition (k @ ''/'') PrefixMatchString\<rparr>])"
  by (auto simp: expand_group_def Let_def split: list.splits option.splits MatchCondition.splits)

text \<open>A route of the expansion is one of the given routes, or differs from one only in its path and its rewrite.\<close>

lemma expandPrefixMatches_member:
  assumes "fair_order ord" "r' \<in> set (expandPrefixMatches ord rs)"
  obtains r where "r \<in> set rs" "r' = r"
  | r p t policy q where "r \<in> set rs" "rt_PathMatchCondition r = PrefixMatchCondition p t" "p \<noteq> ''/''"
      "rt_PathMatchCondition r' = PrefixMatchCondition q PrefixMatchString" "q = norm_prefix p \<or> q = norm_prefix p @ ''/''"
      "r' = r\<lparr>rt_PathRewritePolicy := Some policy, rt_PathMatchCondition := PrefixMatchCondition q PrefixMatchString\<rparr>"
proof -
  consider "r' \<in> set rs" | k where "\<exists>r\<in>set rs. route_group r = Some k" "r' \<in> set (expand_group k (filter (\<lambda>r. route_group r = Some k) rs))"
    using assms(2) unfolding expandPrefixMatches_set [OF assms(1)] by blast
  then show thesis
  proof cases
    case 2
    let ?g = "filter (\<lambda>r. route_group r = Some k) rs"
    from expand_group_cases [of k ?g] show ?thesis
    proof (elim disjE exE conjE)
      assume "expand_group k ?g = ?g"
      with 2(2) have "r' \<in> set rs" by simp
      then show ?thesis using that(1) by blast
    next
      fix r policy p t
      assume g: "?g = [r]" and p: "rt_PathMatchCondition r = PrefixMatchCondition p t" "p \<noteq> ''/''"
        and e: "expand_group k ?g = [r\<lparr>rt_PathRewritePolicy := Some (policy\<lparr>prp_PrefixRewrite :=
              (if strings_TrimRight (prp_PrefixRewrite policy) CHR ''/'' = '''' then ''/''
               else strings_TrimRight (prp_PrefixRewrite policy) CHR ''/'')\<rparr>),
           rt_PathMatchCondition := PrefixMatchCondition k PrefixMatchString\<rparr>,
         r\<lparr>rt_PathRewritePolicy := Some (zero_PathRewritePolicy\<lparr>prp_PrefixRewrite := strings_TrimRight (prp_PrefixRewrite policy) CHR ''/'' @ ''/''\<rparr>),
           rt_PathMatchCondition := PrefixMatchCondition (k @ ''/'') PrefixMatchString\<rparr>]"
      have "r \<in> set ?g" using g by simp
      then have r: "r \<in> set rs" "route_group r = Some k" by auto
      then have k: "k = norm_prefix p" using p by (simp add: route_group_def)
      from 2(2) [unfolded e] consider policy' q where
          "r' = r\<lparr>rt_PathRewritePolicy := Some policy', rt_PathMatchCondition := PrefixMatchCondition q PrefixMatchString\<rparr>"
          "q = k \<or> q = k @ ''/''"
        unfolding list.set insert_iff empty_iff by blast
      then show ?thesis using that(2) [OF r(1) p(1,2)] k by cases simp
    qed
  qed (rule that(1) [OF _ refl])
qed

lemma TrimRight_not_slash: "strings_TrimRight p c \<noteq> [c]"
  using TrimRight_not_last [of p c] by auto

lemma TrimRight_slash: "strings_TrimRight (strings_TrimRight p c) c = strings_TrimRight p c"
  "strings_TrimRight (strings_TrimRight p c @ [c]) c = strings_TrimRight p c"
proof -
  show 1: "strings_TrimRight (strings_TrimRight p c) c = strings_TrimRight p c"
    using TrimRight_not_last [of p c] TrimRight_idem by blast
  have "strings_TrimRight (s @ [c]) c = strings_TrimRight s c" for s by (simp add: strings_TrimRight_def)
  with 1 show "strings_TrimRight (strings_TrimRight p c @ [c]) c = strings_TrimRight p c" by simp
qed

lemma norm_prefix_simps:
  assumes "p \<noteq> ''/''"
  shows "norm_prefix p \<noteq> ''/''" "norm_prefix (norm_prefix p) = norm_prefix p"
    "norm_prefix (norm_prefix p @ ''/'') = (if norm_prefix p = '''' then ''/'' else norm_prefix p)"
  using assms TrimRight_not_slash [of p "CHR ''/''"] TrimRight_slash [of p "CHR ''/''"] by (auto simp: norm_prefix_def)

lemma filter_concat_key:
  assumes "wf_gomap m" "(k, g) \<in> set m" "\<And>k' g'. (k', g') \<in> set m \<Longrightarrow> k' \<noteq> k \<Longrightarrow> filter Q (F k' g') = []"
  shows "filter Q (concat (map (\<lambda>(k, g). F k g) m)) = filter Q (F k g)"
  using assms
proof (induction m)
  case (Cons x m)
  obtain k' g' where x: "x = (k', g')" by force
  show ?case
  proof (cases "k' = k")
    case True
    then have "g' = g" "\<And>a b. (a, b) \<in> set m \<Longrightarrow> a \<noteq> k" using Cons.prems x by (auto simp: image_iff)
    then have "filter Q (concat (map (\<lambda>(k, g). F k g) m)) = []" using Cons.prems(3) by (fastforce simp: filter_concat)
    with True x \<open>g' = g\<close> show ?thesis by simp
  next
    case False
    with Cons x show ?thesis by auto
  qed
qed simp

lemma expand_group_other:
  assumes "k' \<noteq> k" "k \<noteq> ''/''"
  shows "filter (\<lambda>r. route_group r = Some k) (expand_group k' (filter (\<lambda>r. route_group r = Some k') rs)) = []"
proof -
  let ?g = "filter (\<lambda>r. route_group r = Some k') rs"
  have "route_group r' \<noteq> Some k" if r': "r' \<in> set (expand_group k' ?g)" for r'
    using expand_group_cases [of k' ?g]
  proof (elim disjE exE conjE)
    assume "expand_group k' ?g = ?g"
    with r' assms show ?thesis by auto
  next
    fix r policy p t
    assume g: "?g = [r]" and p: "rt_PathMatchCondition r = PrefixMatchCondition p t" "p \<noteq> ''/''"
      and e: "expand_group k' ?g = [r\<lparr>rt_PathRewritePolicy := Some (policy\<lparr>prp_PrefixRewrite :=
              (if strings_TrimRight (prp_PrefixRewrite policy) CHR ''/'' = '''' then ''/''
               else strings_TrimRight (prp_PrefixRewrite policy) CHR ''/'')\<rparr>),
           rt_PathMatchCondition := PrefixMatchCondition k' PrefixMatchString\<rparr>,
         r\<lparr>rt_PathRewritePolicy := Some (zero_PathRewritePolicy\<lparr>prp_PrefixRewrite := strings_TrimRight (prp_PrefixRewrite policy) CHR ''/'' @ ''/''\<rparr>),
           rt_PathMatchCondition := PrefixMatchCondition (k' @ ''/'') PrefixMatchString\<rparr>]"
    have "r \<in> set ?g" using g by simp
    then have k': "k' = norm_prefix p" using p by (simp add: route_group_def)
    have "route_group r' = Some (norm_prefix k') \<or> route_group r' = Some (norm_prefix (k' @ ''/''))"
      using r' unfolding e by (auto simp: route_group_def)
    then show ?thesis using norm_prefix_simps [OF p(2)] assms k' by (auto split: if_splits)
  qed
  then show ?thesis by (simp add: filter_empty_conv)
qed

text \<open>What Envoy makes of a path that matches the prefix of a route with a prefix rewrite.\<close>

definition rewritten :: "Route \<Rightarrow> string \<Rightarrow> string option" where
  "rewritten r path =
     (case rt_PathMatchCondition r of
        PrefixMatchCondition q _ \<Rightarrow>
          (case rt_PathRewritePolicy r of
             Some policy \<Rightarrow> if prefix q path then Some (prp_PrefixRewrite policy @ drop (length q) path) else None
           | None \<Rightarrow> None)
      | _ \<Rightarrow> None)"


section \<open>Properties of all routes\<close>

text \<open>A property of a route relative to the conditions it is computed under holds of every route that \<open>computeRoutes\<close>
  returns if it holds of a compiled route and of the route that stands for a missing include, carries over to the
  conditions of the including proxy, and survives the prefix expansion.\<close>

locale route_invariant =
  fixes env :: route_env and P :: "MatchCondition_v1 list \<Rightarrow> Route \<Rightarrow> bool"
  assumes compiled: "compute_route (re_lib env) (re_cache env) (re_proc env) (re_vh env) proxy conds (re_enforceTLS env) (re_jwt env)
        route dyn vc = (vc', Some (r, dyn')) \<Longrightarrow> P conds r"
    and bad_gateway: "P conds (bad_gateway_route (re_proc env) cs proxy)"
    and weaken: "P (conds @ conds2) r \<Longrightarrow> P conds r"
    and expanded: "P conds r \<Longrightarrow> rt_PathMatchCondition r = PrefixMatchCondition p t \<Longrightarrow> p \<noteq> ''/'' \<Longrightarrow>
        q = norm_prefix p \<or> q = norm_prefix p @ ''/'' \<Longrightarrow>
        P conds (r\<lparr>rt_PathRewritePolicy := Some policy, rt_PathMatchCondition := PrefixMatchCondition q PrefixMatchString\<rparr>)"
begin

lemma loop_invariant:
  assumes "compute_routes_loop (re_lib env) (re_cache env) (re_proc env) (re_vh env) proxy conds (re_enforceTLS env) (re_jwt env)
             routes dyn acc vc = (vc', Some rs)" "\<forall>r\<in>set acc. P conds r"
  shows "\<forall>r\<in>set rs. P conds r"
  using assms
proof (induction routes arbitrary: dyn acc vc)
  case (Cons route routes)
  from Cons.prems(1) obtain vc1 r dyn1 where
    1: "compute_route (re_lib env) (re_cache env) (re_proc env) (re_vh env) proxy conds (re_enforceTLS env) (re_jwt env) route dyn vc =
          (vc1, Some (r, dyn1))" and
    2: "compute_routes_loop (re_lib env) (re_cache env) (re_proc env) (re_vh env) proxy conds (re_enforceTLS env) (re_jwt env)
          routes dyn1 (acc @ [r]) vc1 = (vc', Some rs)"
    unfolding compute_routes_loop.simps by (elim and_thenE case_prod_eqE) simp
  show ?case using Cons.IH [OF 2] compiled [OF 1] Cons.prems(2) by simp
qed simp

lemma expansion_invariant:
  assumes "fair_order ord" "\<forall>r\<in>set rs. P conds r"
  shows "\<forall>r\<in>set (expandPrefixMatches ord rs). P conds r"
proof
  fix r'
  assume r': "r' \<in> set (expandPrefixMatches ord rs)"
  from assms(1) r' show "P conds r'"
  proof (cases rule: expandPrefixMatches_member)
    case (2 r p t policy q)
    then show ?thesis using expanded [of conds r p t q policy] assms(2) by simp
  qed (use assms(2) in simp)
qed

lemma include_check_invariant:
  assumes "include_check env proxy inc seen routes vc = (vc', seen', IncludeSkip rs)" "\<forall>r\<in>set routes. P conds r"
  shows "\<forall>r\<in>set rs. P conds r"
proof -
  have "set rs \<subseteq> set routes \<union> {bad_gateway_route (re_proc env) (inc_Conditions inc) proxy}"
    using assms(1)
    by (auto simp: include_check_def addStatusBadGatewayRoute_def Let_def
        split: sum.splits option.splits if_split_asm prod.splits bool.splits)
  then show ?thesis using assms(2) bad_gateway by blast
qed

lemma routes_invariant:
  "computeRoutes e proxy conds visited vc st = (vc', st', rs) \<Longrightarrow> e = env \<Longrightarrow> fair_order (re_order env) \<Longrightarrow> \<forall>r\<in>set rs. P conds r"
  "include_loop e proxy conds visited incs seen routes vc st = (vc', st', rs) \<Longrightarrow> e = env \<Longrightarrow> fair_order (re_order env) \<Longrightarrow>
   \<forall>r\<in>set routes. P conds r \<Longrightarrow> \<forall>r\<in>set rs. P conds r"
proof (induction e proxy conds visited vc st and e proxy conds visited incs seen routes vc st
    arbitrary: vc' st' rs and vc' st' rs rule: computeRoutes_include_loop.induct)
  case (1 e proxy conds visited vc st)
  show ?case
  proof (cases "px_NamespacedName proxy \<in> set (map px_NamespacedName visited)")
    case True
    with 1(2) show ?thesis by simp
  next
    case False
    obtain vc1 st1 rs1 where l: "include_loop e proxy conds (visited @ [proxy]) (spec_Includes (px_Spec proxy)) [] [] vc st = (vc1, st1, rs1)"
      by (metis prod.exhaust)
    have i: "\<forall>r\<in>set rs1. P conds r" using 1(1) [OF False l 1(3,4)] by simp
    obtain vc2 o2 where c: "compute_routes_loop (re_lib e) (re_cache e) (re_proc e) (re_vh e) proxy conds (re_enforceTLS e)
        (re_jwt e) (spec_Routes (px_Spec proxy)) [(''CONTOUR_NAMESPACE'', px_Namespace proxy)] rs1 vc1 = (vc2, o2)" by force
    show ?thesis
    proof (cases o2)
      case None
      then show ?thesis using 1(2) False l c by simp
    next
      case (Some rs2)
      have "\<forall>r\<in>set rs2. P conds r" using loop_invariant c i Some 1(3) by blast
      moreover have "rs = expandPrefixMatches (re_order e) rs2" using 1(2) False l c Some by simp
      ultimately show ?thesis using expansion_invariant 1(3,4) by simp
    qed
  qed
next
  case (3 e proxy conds visited inc incs seen routes vc st)
  obtain vc1 seen1 step where c: "include_check e proxy inc seen routes vc = (vc1, seen1, step)" by (metis prod.exhaust)
  show ?case
  proof (cases step)
    case (IncludeSkip rs1)
    have "\<forall>r\<in>set rs1. P conds r" using include_check_invariant c IncludeSkip 3(5,7) by blast
    moreover have "include_loop e proxy conds visited incs seen1 rs1 vc1 st = (vc', st', rs)" using 3(4) c IncludeSkip by simp
    ultimately show ?thesis using 3(1) [OF c [unfolded IncludeSkip, symmetric] refl refl] 3(5,6) by blast
  next
    case (IncludeProxy q)
    obtain ivc iu where f: "ConditionFor (ProxyAccessor (lib_now (re_lib e)) q) ValidCondition = (ivc, iu)" by force
    obtain ivc2 st2 irs where r: "computeRoutes e q (conds @ inc_Conditions inc) visited ivc st = (ivc2, st2, irs)"
      by (metis prod.exhaust)
    have "\<forall>r\<in>set irs. P (conds @ inc_Conditions inc) r"
      using 3(2) [OF c [unfolded IncludeProxy, symmetric] refl refl f [symmetric] r 3(5,6)] .
    then have irs: "\<forall>r\<in>set (routes @ irs). P conds r" using weaken 3(7) by auto
    let ?st = "(commit_update (with_valid ivc2 iu) st2)\<lparr>ps_orphaned := del (px_NamespacedName q) (ps_orphaned (commit_update (with_valid ivc2 iu) st2))\<rparr>"
    have "include_loop e proxy conds visited incs seen1 (routes @ irs) vc1 ?st = (vc', st', rs)"
      using 3(4) c IncludeProxy f r by (simp add: Let_def)
    from 3(3) [OF c [unfolded IncludeProxy, symmetric] refl refl f [symmetric] r [symmetric] refl refl refl this 3(5,6) irs] show ?thesis .
  qed
qed simp

end

section \<open>HTTPS enforcement\<close>

definition is_bad_gateway :: "Route \<Rightarrow> bool" where
  "is_bad_gateway r \<longleftrightarrow> rt_Clusters r = [] \<and> rt_Redirect r = None \<and> rt_DirectResponse r = directResponse 502 ''''"

lemma bad_gateway_route: "is_bad_gateway (bad_gateway_route p cs proxy)"
  by (simp add: is_bad_gateway_def bad_gateway_route_def zero_Route_def Let_def)

definition https_ok :: "route_env \<Rightarrow> MatchCondition_v1 list \<Rightarrow> Route \<Rightarrow> bool" where
  "https_ok env conds r \<longleftrightarrow>
     (re_enforceTLS env \<and> hpp_DisablePermitInsecure (re_proc env) \<longrightarrow> rt_HTTPSUpgrade r \<or> is_bad_gateway r) \<and>
     (\<not> re_enforceTLS env \<longrightarrow> \<not> rt_HTTPSUpgrade r)"

interpretation https: route_invariant env "https_ok env" for env
proof unfold_locales
  fix conds cs proxy
  show "https_ok env conds (bad_gateway_route (re_proc env) cs proxy)"
    using bad_gateway_route by (auto simp: https_ok_def bad_gateway_route_def zero_Route_def Let_def)
qed (auto simp: https_ok_def is_bad_gateway_def dest: compute_route_match(4))

text \<open>
  C16. When a virtual host enforces TLS and the operator disabled insecure access, every route computed for it, its
  own and those of the proxies it includes, however deep, redirects to HTTPS; the only exception are the
  answers 502 that stand for missing includes.  Without TLS no route does.
\<close>

theorem computeRoutes_https:
  assumes "computeRoutes env proxy conds visited vc st = (vc', st', rs)" and "fair_order (re_order env)"
  shows "\<forall>r\<in>set rs. (re_enforceTLS env \<and> hpp_DisablePermitInsecure (re_proc env) \<longrightarrow> rt_HTTPSUpgrade r \<or> is_bad_gateway r) \<and>
           (\<not> re_enforceTLS env \<longrightarrow> \<not> rt_HTTPSUpgrade r)"
  using https.routes_invariant(1) [OF assms(1) refl assms(2)] by (simp add: https_ok_def)

section \<open>The scope of an include\<close>

definition delegated_prefix :: "MatchCondition_v1 list \<Rightarrow> string" where
  "delegated_prefix conds = strings_TrimRight (squeeze_slashes (concat (map cond_path conds))) CHR ''/''"

lemma squeeze_prefix: "prefix (squeeze_slashes a) (squeeze_slashes (a @ b))"
proof (induction a)
  case (Cons c a)
  show ?case
  proof (cases a)
    case Nil
    show ?thesis
    proof (cases b)
      case (Cons d s)
      obtain u where "squeeze_slashes (d # s) = d # u" by (rule squeeze_slashes_Cons)
      then show ?thesis using Cons Nil by auto
    qed (simp add: Nil)
  next
    case (Cons d a')
    then show ?thesis using Cons.IH by auto
  qed
qed simp

lemma prefix_TrimRight: "prefix s t \<Longrightarrow> prefix (strings_TrimRight s c) (strings_TrimRight t c)"
proof (rule ccontr)
  assume p: "prefix s t" and n: "\<not> prefix (strings_TrimRight s c) (strings_TrimRight t c)"
  obtain m where s: "s = strings_TrimRight s c @ replicate m c" using TrimRight_decomp by blast
  obtain n where t: "t = strings_TrimRight t c @ replicate n c" using TrimRight_decomp by blast
  have "prefix (strings_TrimRight s c) (strings_TrimRight t c @ replicate n c)" using p s t by (metis append_prefixD)
  then obtain u where u: "strings_TrimRight s c = strings_TrimRight t c @ u" "prefix u (replicate n c)"
    using n unfolding prefix_append by blast
  then have "u \<noteq> []" using n by auto
  then have "last u \<in> set (replicate n c)" using u(2) set_mono_prefix last_in_set by blast
  then have "last (strings_TrimRight s c) = c" using u(1) \<open>u \<noteq> []\<close> by simp
  then show False using TrimRight_not_last [of s c] u(1) \<open>u \<noteq> []\<close> by simp
qed

lemma delegated_prefix_append: "prefix (delegated_prefix a) (delegated_prefix (a @ b))"
  unfolding delegated_prefix_def map_append concat_append by (intro prefix_TrimRight squeeze_prefix)

lemma delegated_prefix_trimmed: "strings_TrimRight (delegated_prefix a) CHR ''/'' = delegated_prefix a"
  by (simp add: delegated_prefix_def TrimRight_slash)

definition in_scope :: "MatchCondition_v1 list \<Rightarrow> Route \<Rightarrow> bool" where
  "in_scope conds r \<longleftrightarrow>
     (\<not> HasPathRegex r \<longrightarrow> prefix (delegated_prefix conds) (path_of (rt_PathMatchCondition r))) \<and>
     set (mergeHeaderMatchConditions conds) \<subseteq> set (rt_HeaderMatchConditions r) \<and>
     set (mergeQueryParamMatchConditions conds) \<subseteq> set (rt_QueryParamMatchConditions r)"

lemma merge_append:
  "mergeHeaderMatchConditions (a @ b) = mergeHeaderMatchConditions a @ mergeHeaderMatchConditions b"
  "mergeQueryParamMatchConditions (a @ b) = mergeQueryParamMatchConditions a @ mergeQueryParamMatchConditions b"
  by (simp_all add: mergeHeaderMatchConditions_def headerMatchConditions_def mergeQueryParamMatchConditions_def
      queryParameterMatchConditions_def List.map_filter_def)

lemma merged_path_in_scope: "prefix (delegated_prefix a) (path_of (mergePathMatchConditions (a @ b)))"
proof -
  let ?p = "squeeze_slashes (concat (map cond_path (a @ b)))"
  have "prefix (delegated_prefix a) ?p"
    using delegated_prefix_append [of a b] TrimRight_decomp [of ?p "CHR ''/''"] unfolding delegated_prefix_def
    by (metis prefix_append)
  moreover have "delegated_prefix a = []" if "?p = []"
  proof -
    have "concat (map cond_path a) = []" using that by simp
    then show ?thesis by (simp add: delegated_prefix_def strings_TrimRight_def del: concat_eq_Nil_conv)
  qed
  ultimately show ?thesis unfolding path_of_mergePathMatchConditions Let_def by (cases "?p = []") simp_all
qed

definition scope_ok :: "MatchCondition_v1 list \<Rightarrow> Route \<Rightarrow> bool" where
  "scope_ok conds r \<longleftrightarrow> is_bad_gateway r \<or> in_scope conds r"

lemma in_scope_compiled:
  assumes "compute_route lib kc p vh proxy conds tls jwt route dyn vc = (vc', Some (r, dyn'))"
  shows "in_scope conds r"
  using merged_path_in_scope [of conds "rt1_Conditions route"] compute_route_match(1-3) [OF assms]
  by (simp add: in_scope_def merge_append)

lemma in_scope_weaken: "in_scope (conds @ conds2) r \<Longrightarrow> in_scope conds r"
  using delegated_prefix_append [of conds conds2] by (auto simp: in_scope_def merge_append intro: prefix_order.trans)

lemma in_scope_expanded:
  assumes "in_scope conds r" "rt_PathMatchCondition r = PrefixMatchCondition p t" "p \<noteq> ''/''" "q = norm_prefix p \<or> q = norm_prefix p @ ''/''"
  shows "in_scope conds (r\<lparr>rt_PathRewritePolicy := Some policy, rt_PathMatchCondition := PrefixMatchCondition q PrefixMatchString\<rparr>)"
proof -
  have "prefix (delegated_prefix conds) p" using assms(1,2) by (simp add: in_scope_def HasPathRegex_def path_of_def)
  then have "prefix (delegated_prefix conds) (norm_prefix p)"
    using prefix_TrimRight [of "delegated_prefix conds" p "CHR ''/''"] assms(3) by (simp add: delegated_prefix_trimmed norm_prefix_def)
  then have "prefix (delegated_prefix conds) q" using assms(4) by auto
  then show ?thesis using assms(1) by (simp add: in_scope_def path_of_def)
qed

interpretation scope: route_invariant env scope_ok for env
proof unfold_locales
  fix conds r p t q policy
  assume "scope_ok conds r" "rt_PathMatchCondition r = PrefixMatchCondition p t" "p \<noteq> ''/''" "q = norm_prefix p \<or> q = norm_prefix p @ ''/''"
  then show "scope_ok conds (r\<lparr>rt_PathRewritePolicy := Some policy, rt_PathMatchCondition := PrefixMatchCondition q PrefixMatchString\<rparr>)"
    using in_scope_expanded by (auto simp: scope_ok_def is_bad_gateway_def)
qed (auto simp: scope_ok_def bad_gateway_route intro: in_scope_compiled in_scope_weaken)


lemma expandPrefixMatches_single:
  assumes "fair_order ord" "rt_PathRewritePolicy r = None"
  shows "expandPrefixMatches ord [r] = [r]"
proof -
  have one: "mo_prefixes ord [x] = [x]" for x
  proof -
    have "mset (mo_prefixes ord [x]) = {#x#}" using assms(1) by (simp add: fair_order_def)
    then show ?thesis by (cases "mo_prefixes ord [x]") (auto simp: add_mset_eq_single)
  qed
  have "mset (mo_prefixes ord []) = {#}" using assms(1) by (simp add: fair_order_def)
  then have nil: "mo_prefixes ord [] = []" by simp
  show ?thesis
    using assms(2) one nil by (cases "rt_PathMatchCondition r") (simp_all add: expandPrefixMatches_def expand_group_def Let_def)
qed


section \<open>Witnesses\<close>

definition sample_order :: map_order where
  "sample_order = \<lparr>mo_prefixes = id, mo_fqdns = id, mo_orphans = id\<rparr>"

lemma sample_order_fair: "fair_order sample_order"
  by (simp add: fair_order_def sample_order_def)

definition sample_processor :: HTTPProxyProcessor where
  "sample_processor = \<lparr>hpp_DisablePermitInsecure = True, hpp_FallbackCertificate = None, hpp_EnableExternalNameService = False,
     hpp_DNSLookupFamily = ''auto'', hpp_ClientCertificate = None, hpp_RequestHeadersPolicy = None, hpp_ResponseHeadersPolicy = None,
     hpp_GlobalExternalAuthorization = None, hpp_ConnectTimeout = 0, hpp_MaxRequestsPerConnection = None,
     hpp_PerConnectionBufferLimitBytes = None, hpp_GlobalRateLimitService = None, hpp_SetSourceMetadataOnRoutes = False,
     hpp_GlobalCircuitBreakerDefaults = None, hpp_UpstreamTLS = None\<rparr>"

definition prefix_condition :: "string \<Rightarrow> MatchCondition_v1" where
  "prefix_condition p = zero_MatchCondition_v1\<lparr>mc_Prefix := p\<rparr>"

definition sample_route :: Route_v1 where
  "sample_route = zero_Route_v1\<lparr>rt1_Conditions := [prefix_condition ''/x''], rt1_PermitInsecure := True,
     rt1_DirectResponsePolicy := Some \<lparr>drp_StatusCode = 200, drp_Body = ''ok''\<rparr>\<rparr>"

definition sample_child :: HTTPProxy where
  "sample_child = zero_HTTPProxy\<lparr>px_Name := ''child'', px_Namespace := ''app'',
     px_Spec := zero_HTTPProxySpec\<lparr>spec_Routes := [sample_route]\<rparr>\<rparr>"

definition sample_env :: route_env where
  "sample_env = \<lparr>re_lib = sample_library, re_cache = empty_cache, re_proc = sample_processor, re_order = sample_order,
     re_vh = zero_VirtualHost_v1\<lparr>vh1_Fqdn := ''a.com''\<rparr>, re_enforceTLS = True, re_jwt = ''''\<rparr>"

definition sample_cond :: DetailedCondition where
  "sample_cond = new_condition (ProxyAccessor 0 sample_child) ValidCondition"

definition sample_state :: ProxyState where
  "sample_state = \<lparr>ps_dag = sample_dag, ps_orphaned = []\<rparr>"

lemma sample_compute_route:
  "\<exists>r. compute_route sample_library empty_cache sample_processor (re_vh sample_env) sample_child [prefix_condition ''/api''] True ''''
         sample_route dyn vc = (vc, Some (r, dyn)) \<and> rt_PathRewritePolicy r = None"
  by (simp add: compute_route_def route_auth_def AuthorizationConfigured_def GlobalAuthorizationConfigured_def zero_Route_def
      sample_env_def sample_processor_def route_base_def routeActionCountValid_def sample_route_def or_fail_def and_then_def Let_def
      zero_v1_defs pathMatchConditionsValid_def prefix_condition_def headerMatchConditionsValid_def
      queryParameterMatchConditionsValid_def headersPolicyRoute_def cookieRewritePolicies_def timeoutPolicy_def rateLimitPolicy_def
      loadBalancerRequestHashPolicies_def redirectRoutePolicy_def route_prefix_rewrite_def GetPrefixReplacements_def
      httpHealthCheckPolicy_def route_finish_def route_jwt_def toIPFilterRules_def)

theorem compute_route_correct_witness:
  "\<exists>vc' r dyn'. compute_route sample_library empty_cache sample_processor (re_vh sample_env) sample_child [prefix_condition ''/api''] True ''''
      sample_route [] sample_cond = (vc', Some (r, dyn')) \<and>
      rt_PathMatchCondition r = PrefixMatchCondition ''/api/x'' PrefixMatchString \<and> rt_HTTPSUpgrade r"
proof -
  obtain r where r: "compute_route sample_library empty_cache sample_processor (re_vh sample_env) sample_child [prefix_condition ''/api''] True ''''
      sample_route [] sample_cond = (sample_cond, Some (r, []))"
    using sample_compute_route [of "[]" sample_cond] by blast
  have "mergePathMatchConditions ([prefix_condition ''/api''] @ rt1_Conditions sample_route) = PrefixMatchCondition ''/api/x'' PrefixMatchString"
    by (simp add: mergePathMatchConditions_def prefix_condition_def sample_route_def zero_v1_defs)
  with compute_route_correct [OF r] r show ?thesis by (simp add: sample_processor_def)
qed

lemma sample_computeRoutes:
  "\<exists>r. computeRoutes sample_env sample_child [prefix_condition ''/api''] [] vc st = (vc, st, [r])"
proof -
  obtain r where r: "compute_route sample_library empty_cache sample_processor (re_vh sample_env) sample_child [prefix_condition ''/api''] True ''''
      sample_route [(''CONTOUR_NAMESPACE'', ''app'')] vc = (vc, Some (r, [(''CONTOUR_NAMESPACE'', ''app'')]))" "rt_PathRewritePolicy r = None"
    using sample_compute_route by blast
  have s: "re_lib sample_env = sample_library" "re_cache sample_env = empty_cache" "re_proc sample_env = sample_processor"
    "re_order sample_env = sample_order" "re_enforceTLS sample_env" "re_jwt sample_env = ''''"
    by (simp_all add: sample_env_def)
  have c: "spec_Includes (px_Spec sample_child) = []" "spec_Routes (px_Spec sample_child) = [sample_route]" "px_Namespace sample_child = ''app''"
    by (simp_all add: sample_child_def zero_HTTPProxySpec_def zero_HTTPProxy_def)
  have "computeRoutes sample_env sample_child [prefix_condition ''/api''] [] vc st = (vc, st, [r])"
    using r expandPrefixMatches_single [OF sample_order_fair r(2)] by (simp add: s c and_then_def)
  then show ?thesis ..
qed

theorem computeRoutes_https_witness:
  "case computeRoutes sample_env sample_child [prefix_condition ''/api''] [] sample_cond sample_state of
     (vc', st', rs) \<Rightarrow> rs \<noteq> [] \<and> (\<forall>r\<in>set rs. rt_HTTPSUpgrade r \<or> is_bad_gateway r)"
proof -
  obtain r where r: "computeRoutes sample_env sample_child [prefix_condition ''/api''] [] sample_cond sample_state = (sample_cond, sample_state, [r])"
    using sample_computeRoutes by blast
  have "fair_order (re_order sample_env)" using sample_order_fair by (simp add: sample_env_def)
  from computeRoutes_https [OF r this] r show ?thesis by (simp add: sample_env_def sample_processor_def)
qed




section \<open>Dynamic headers\<close>

lemma route_service_dynamic:
  assumes "route_service lib kc p proxy ctp lb hp sv (r, dyn) vc = (vc', Some (r', dyn'))" "service_upstream kc p proxy hp sv \<noteq> None"
  shows "lookup dyn' ''CONTOUR_SERVICE_NAME'' = Some (sv1_Name sv)"
proof -
  let ?e = "EnsureService kc \<lparr>nn_Namespace = px_Namespace proxy, nn_Name = sv1_Name sv\<rparr> (sv1_Port sv)
             (if hp \<noteq> None \<and> sv1_HealthPort sv > 0 then sv1_HealthPort sv else sv1_Port sv) (hpp_EnableExternalNameService p)"
  obtain s where s: "?e = Inr s" using assms(2) by (cases ?e) (simp_all add: service_upstream_def)
  have port: "\<not> (sv1_Port sv < 1 \<or> sv1_Port sv > 65535)" using assms(1) by (auto simp: route_service_def)
  obtain s' vc1 c where "service_dag_cluster lib kc p proxy ctp lb hp (rt_RequestHeadersPolicy r) sv s' dyn vc = (vc1, Some (c, dyn'))"
    using assms(1) port unfolding route_service_def Let_def prod.case s sum.case by (auto elim!: and_thenE split: if_split_asm)
  from service_dag_cluster_Some [OF this] show ?thesis by (simp add: lookup_put)
qed

text \<open>
  The dynamic headers of a service outlive its route: when the first route of a proxy has a service that resolves, the
  second one is compiled with the variable \<open>CONTOUR_SERVICE_NAME\<close> of that service in scope, so a header policy of the second
  route is expanded with the name of a service that belongs to the first.
\<close>

theorem dynamic_headers_leak:
  assumes "compute_routes_loop lib kc p vh proxy conds tls jwt [route1, route2] dyn acc vc = (vc', Some rs)"
    and "rt1_Services route1 = [sv]" and "\<And>hp. service_upstream kc p proxy hp sv \<noteq> None"
  shows "\<exists>r1 r2 dyn1 dyn2 vc1. rs = acc @ [r1, r2] \<and>
           compute_route lib kc p vh proxy conds tls jwt route2 dyn1 vc1 = (vc', Some (r2, dyn2)) \<and>
           lookup dyn1 ''CONTOUR_SERVICE_NAME'' = Some (sv1_Name sv)"
proof -
  obtain vc1 r1 dyn1 r2 dyn2 where
    1: "compute_route lib kc p vh proxy conds tls jwt route1 dyn vc = (vc1, Some (r1, dyn1))" and
    2: "compute_route lib kc p vh proxy conds tls jwt route2 dyn1 vc1 = (vc', Some (r2, dyn2))" and rs: "rs = acc @ [r1, r2]"
    using assms(1) unfolding compute_routes_loop.simps by (elim and_thenE case_prod_eqE) auto
  from 1 show ?thesis
  proof (rule compute_route_steps)
    fix hp r2' vc2 vc3 r3 ctp lb
    assume "route_services lib kc p proxy ctp lb hp (rt1_Services route1) (r2', dyn) vc2 = (vc3, Some (r3, dyn1))"
    then have "route_service lib kc p proxy ctp lb hp sv (r2', dyn) vc2 = (vc3, Some (r3, dyn1))"
      unfolding assms(2) route_services.simps by (elim and_thenE) auto
    from route_service_dynamic [OF this assms(3)] 2 rs show ?thesis by blast
  qed
qed

definition service_cache :: KubernetesCache where
  "service_cache = empty_cache\<lparr>kc_services := [(\<lparr>nn_Namespace = ''app'', nn_Name = ''svc''\<rparr>,
     zero_CoreService\<lparr>csv_Name := ''svc'', csv_Namespace := ''app'', csv_Ports := [zero_ServicePort\<lparr>port_Port := 80\<rparr>]\<rparr>)]\<rparr>"

definition sample_service :: Service_v1 where
  "sample_service = zero_Service_v1\<lparr>sv1_Name := ''svc'', sv1_Port := 80\<rparr>"

definition service_route :: Route_v1 where
  "service_route = zero_Route_v1\<lparr>rt1_Services := [sample_service]\<rparr>"

lemma sample_upstream: "\<exists>s. EnsureService service_cache \<lparr>nn_Namespace = ''app'', nn_Name = ''svc''\<rparr> 80 80 False = Ok s"
  by (simp add: EnsureService_def LookupService_def service_cache_def zero_CoreService_def zero_ServicePort_def validateExternalName_def
      externalName_def split: unit.split)

lemma sample_service_fields:
  "sv1_Name sample_service = ''svc''" "sv1_Port sample_service = 80" "sv1_HealthPort sample_service = 0" "\<not> sv1_Mirror sample_service"
  "px_Namespace sample_child = ''app''" "hpp_EnableExternalNameService sample_processor = False"
  "hpp_GlobalCircuitBreakerDefaults sample_processor = None"
  by (simp_all add: sample_service_def zero_Service_v1_def sample_child_def sample_processor_def)

lemma sample_service_route:
  "\<exists>r dyn'. compute_route sample_library service_cache sample_processor (re_vh sample_env) sample_child [] True ''''
         service_route dyn vc = (vc, Some (r, dyn'))"
proof -
  obtain s where s: "EnsureService service_cache \<lparr>nn_Namespace = ''app'', nn_Name = ''svc''\<rparr> 80 80 False = Ok s" using sample_upstream ..
  obtain s' where s': "serviceCircuitBreakerPolicy (Some s) None = Some s'" using circuit_breaker_Some by blast
  have cluster: "\<exists>c dyn'. service_dag_cluster sample_library service_cache sample_processor sample_child ctp lb None rhp sample_service s' dyn vc =
      (vc, Some (c, dyn'))" for ctp lb rhp
    by (simp add: service_dag_cluster_def or_fail_def and_then_def getProtocol_def sample_service_def zero_Service_v1_def
        service_validation_def headersPolicyService_def headersPolicyRoute_def sample_processor_def cookieRewritePolicies_def
        client_certificate_def service_slow_start_def Let_def)
  have services: "\<exists>r' dyn'. route_services sample_library service_cache sample_processor sample_child ctp lb None (rt1_Services service_route) (r, dyn) vc =
      (vc, Some (r', dyn'))" for ctp lb r
  proof -
    obtain c d where c: "service_dag_cluster sample_library service_cache sample_processor sample_child ctp lb None (rt_RequestHeadersPolicy r)
        sample_service s' dyn vc = (vc, Some (c, d))" using cluster by blast
    have sv: "rt1_Services service_route = [sample_service]" by (simp add: service_route_def)
    show ?thesis by (simp add: sv route_service_def sample_service_fields s s' c and_then_def)
  qed
  have base: "\<exists>r ctp lb. route_base sample_library sample_processor sample_child [] True dyn service_route vc = (vc, Some (r, ctp, lb))"
    by (simp add: route_base_def routeActionCountValid_def service_route_def or_fail_def Let_def
      zero_v1_defs pathMatchConditionsValid_def headerMatchConditionsValid_def
      queryParameterMatchConditionsValid_def headersPolicyRoute_def cookieRewritePolicies_def timeoutPolicy_def rateLimitPolicy_def
      loadBalancerRequestHashPolicies_def redirectRoutePolicy_def)
  have rest: "route_prefix_rewrite service_route r vc = (vc, Some r)" "httpHealthCheckPolicy (rt1_HealthCheckPolicy service_route) = Ok None" for r
    by (simp_all add: route_prefix_rewrite_def GetPrefixReplacements_def service_route_def zero_Route_v1_def httpHealthCheckPolicy_def)
  have finish: "\<exists>r'. route_finish sample_library vh '''' service_route r vc = (vc, Some r')" for r vh
    by (simp add: route_finish_def route_jwt_def toIPFilterRules_def service_route_def zero_Route_v1_def and_then_def Let_def)
  obtain r ctp lb where r: "route_base sample_library sample_processor sample_child [] True dyn service_route vc = (vc, Some (r, ctp, lb))"
    using base by blast
  obtain r' dyn' where r': "route_services sample_library service_cache sample_processor sample_child ctp lb None (rt1_Services service_route)
      (route_auth sample_processor (re_vh sample_env) service_route r, dyn) vc = (vc, Some (r', dyn'))"
    using services by blast
  obtain r'' where "route_finish sample_library (re_vh sample_env) '''' service_route r' vc = (vc, Some r'')" using finish by blast
  then show ?thesis by (simp add: compute_route_def r r' rest and_then_def or_fail_def)
qed

theorem dynamic_headers_leak_witness:
  "\<exists>rs r2 dyn1 dyn2 vc1 vc'. compute_routes_loop sample_library service_cache sample_processor (re_vh sample_env) sample_child [] True ''''
       [service_route, service_route] [(''CONTOUR_NAMESPACE'', ''app'')] [] sample_cond = (vc', Some rs) \<and>
     compute_route sample_library service_cache sample_processor (re_vh sample_env) sample_child [] True '''' service_route dyn1 vc1 =
       (vc', Some (r2, dyn2)) \<and>
     lookup dyn1 ''CONTOUR_SERVICE_NAME'' = Some ''svc''"
proof -
  have "\<exists>rs. compute_routes_loop sample_library service_cache sample_processor (re_vh sample_env) sample_child [] True ''''
       [service_route, service_route] [(''CONTOUR_NAMESPACE'', ''app'')] [] sample_cond = (sample_cond, Some rs)"
  proof -
    obtain r1 d1 where 1: "compute_route sample_library service_cache sample_processor (re_vh sample_env) sample_child [] True '''' service_route
        [(''CONTOUR_NAMESPACE'', ''app'')] sample_cond = (sample_cond, Some (r1, d1))" using sample_service_route by blast
    obtain r2 d2 where 2: "compute_route sample_library service_cache sample_processor (re_vh sample_env) sample_child [] True '''' service_route
        d1 sample_cond = (sample_cond, Some (r2, d2))" using sample_service_route by blast
    show ?thesis by (simp add: 1 2 and_then_def)
  qed
  then obtain rs where l: "compute_routes_loop sample_library service_cache sample_processor (re_vh sample_env) sample_child [] True ''''
       [service_route, service_route] [(''CONTOUR_NAMESPACE'', ''app'')] [] sample_cond = (sample_cond, Some rs)" ..
  have sv: "rt1_Services service_route = [sample_service]" by (simp add: service_route_def)
  obtain s where "EnsureService service_cache \<lparr>nn_Namespace = ''app'', nn_Name = ''svc''\<rparr> 80 80 False = Ok s" using sample_upstream ..
  then have "service_upstream service_cache sample_processor sample_child hp sample_service \<noteq> None" for hp
    using circuit_breaker_Some by (simp add: service_upstream_def sample_service_fields)
  from dynamic_headers_leak [OF l sv this] l show ?thesis unfolding sample_service_fields(1) by blast
qed

end
