(* ===== verification/HTTP_Proxy.thy ===== *)
theory HTTP_Proxy
  imports Proxy_Scope
begin

text \<open>
  The HTTPProxy processor of \<open>internal/dag/httpproxy_processor.go\<close>: virtual hosts and TLS (\<open>computeHTTPProxy\<close>), TCP proxies
  (\<open>processHTTPProxyTCPProxy\<close>), the choice of the proxies to process (\<open>validHTTPProxies\<close>) and \<open>Run\<close>.  A step takes the
  condition of the proxy and the state of the processor and returns both; its result None is a \<open>return\<close> of the source, after
  which only the deferred commit happens.  A write through a pointer to a virtual host names its listener and its position.
\<close>

section \<open>Steps\<close>

type_synonym 'a proxy_step = "DetailedCondition \<times> ProxyState \<times> 'a option"

definition then_do :: "'a proxy_step \<Rightarrow> (DetailedCondition \<Rightarrow> ProxyState \<Rightarrow> 'a \<Rightarrow> 'b proxy_step) \<Rightarrow> 'b proxy_step" where
  "then_do res k = (case res of (vc, st, None) \<Rightarrow> (vc, st, None) | (vc, st, Some x) \<Rightarrow> k vc st x)"

definition in_state :: "ProxyState \<Rightarrow> DetailedCondition \<times> 'a option \<Rightarrow> 'a proxy_step" where
  "in_state st res = (fst res, st, snd res)"

definition stop :: "string \<Rightarrow> string \<Rightarrow> string \<Rightarrow> DetailedCondition \<Rightarrow> ProxyState \<Rightarrow> 'a proxy_step" where
  "stop errorType reason msg vc st = (AddError errorType reason msg vc, st, None)"

definition on_dag :: "(DAG \<Rightarrow> DAG) \<Rightarrow> ProxyState \<Rightarrow> ProxyState" where
  "on_dag f st = st\<lparr>ps_dag := f (ps_dag st)\<rparr>"

text \<open>The single listener of a protocol and the virtual host of a name in it: its listener's name and its position.  The
  accessor panics on a nil map, which ends the step as well; \<open>ensure_hosts\<close> below shows that it never does.\<close>

definition ensure_vhost :: "string \<Rightarrow> DetailedCondition \<Rightarrow> ProxyState \<Rightarrow> (string \<times> nat) proxy_step" where
  "ensure_vhost host vc st =
     (case GetSingleListener ''http'' (ps_dag st) of
        Inl err \<Rightarrow> stop ConditionTypeListenerError ''ErrorIdentifyingListener'' err vc st
      | Inr listener \<Rightarrow>
          (case EnsureVirtualHost (ln_Name listener) host (ps_dag st) of
             None \<Rightarrow> (vc, st, None)
           | Some (i, dag) \<Rightarrow> (vc, st\<lparr>ps_dag := dag\<rparr>, Some (ln_Name listener, i))))"

definition ensure_svhost :: "string \<Rightarrow> string \<Rightarrow> DetailedCondition \<Rightarrow> ProxyState \<Rightarrow> (string \<times> nat) proxy_step" where
  "ensure_svhost listener host vc st =
     (case EnsureSecureVirtualHost listener host (ps_dag st) of
        None \<Rightarrow> (vc, st, None)
      | Some (i, dag) \<Rightarrow> (vc, st\<lparr>ps_dag := dag\<rparr>, Some (listener, i)))"

definition https_listener_name :: "DetailedCondition \<Rightarrow> ProxyState \<Rightarrow> string proxy_step" where
  "https_listener_name vc st =
     (case GetSingleListener ''https'' (ps_dag st) of
        Inl err \<Rightarrow> stop ConditionTypeListenerError ''ErrorIdentifyingListener'' err vc st
      | Inr listener \<Rightarrow> (vc, st, Some (ln_Name listener)))"

definition write_vh :: "string \<times> nat \<Rightarrow> (VirtualHost \<Rightarrow> VirtualHost) \<Rightarrow> ProxyState \<Rightarrow> ProxyState" where
  "write_vh h f st = on_dag (write_vhost (fst h) (snd h) f) st"

definition write_svh :: "string \<times> nat \<Rightarrow> (SecureVirtualHost \<Rightarrow> SecureVirtualHost) \<Rightarrow> ProxyState \<Rightarrow> ProxyState" where
  "write_svh h f st = on_dag (write_svhost (fst h) (snd h) f) st"

definition read_svh :: "string \<times> nat \<Rightarrow> ProxyState \<Rightarrow> SecureVirtualHost option" where
  "read_svh h st =
     (case lookup (dag_Listeners (ps_dag st)) (fst h) of
        None \<Rightarrow> None
      | Some l \<Rightarrow> if snd h < length (ln_SecureVirtualHosts l) then Some (ln_SecureVirtualHosts l ! snd h) else None)"

definition on_virtual_host :: "(VirtualHost \<Rightarrow> VirtualHost) \<Rightarrow> SecureVirtualHost \<Rightarrow> SecureVirtualHost" where
  "on_virtual_host f s = s\<lparr>svh_VirtualHost := f (svh_VirtualHost s)\<rparr>"

definition addRoutes :: "Route list \<Rightarrow> VirtualHost \<Rightarrow> VirtualHost" where
  "addRoutes routes v = fold AddRoute routes v"

section \<open>Checks before any change\<close>

definition rootAllowed :: "KubernetesCache \<Rightarrow> string \<Rightarrow> bool" where
  "rootAllowed source namespace =
     (if length (kc_RootNamespaces source) = 0 then True else namespace \<in> set (kc_RootNamespaces source))"

definition root_checks :: "KubernetesCache \<Rightarrow> HTTPProxy \<Rightarrow> VirtualHost_v1 \<Rightarrow> DetailedCondition \<Rightarrow> DetailedCondition \<times> unit option" where
  "root_checks source proxy vh validCond =
     (if isBlank (vh1_Fqdn vh)
      then (AddError ConditionTypeVirtualHostError ''FQDNNotSpecified'' ''Spec.VirtualHost.Fqdn must be specified'' validCond, None)
      else if \<not> rootAllowed source (px_Namespace proxy)
      then (AddError ConditionTypeRootNamespaceError ''RootProxyNotAllowedInNamespace''
              ''root HTTPProxy cannot be defined in this namespace'' validCond, None)
      else if length (spec_Routes (px_Spec proxy)) = 0 \<and> length (spec_Includes (px_Spec proxy)) = 0 \<and> spec_TCPProxy (px_Spec proxy) = None
      then (AddError ConditionTypeSpecError ''NothingDefined''
              ''HTTPProxy.Spec must have at least one Route, Include, or a TCPProxy'' validCond, None)
      else if length (vh1_JWTProviders vh) > 0 \<and> (case vh1_TLS vh of None \<Rightarrow> True | Some tls \<Rightarrow> length (tls_SecretName tls) = 0)
      then (AddError ConditionTypeJWTVerificationError ''JWTVerificationNotPermitted''
              ''Spec.VirtualHost.JWTProviders can only be defined for root HTTPProxies that terminate TLS'' validCond, None)
      else if vh1_TLS vh = None \<and> (case vh1_Authorization vh of None \<Rightarrow> False
                                    | Some auth \<Rightarrow> length (esr_Name (as_ExtensionServiceRef auth)) > 0)
      then (AddError ConditionTypeAuthError ''AuthNotPermitted''
              ''Spec.VirtualHost.Authorization.ExtensionServiceRef can only be defined for root HTTPProxies that terminate TLS'' validCond, None)
      else if length (vh1_IPAllowFilterPolicy vh) > 0 \<and> length (vh1_IPDenyFilterPolicy vh) > 0
      then (AddError ConditionTypeIPFilterError ''IncompatibleIPAddressFilters''
              ''Spec.VirtualHost.IPAllowFilterPolicy and Spec.VirtualHost.IPDepnyFilterPolicy cannot both be defined.'' validCond, None)
      else (validCond, Some ()))"

definition tls_checks :: "TLS \<Rightarrow> DetailedCondition \<Rightarrow> DetailedCondition \<times> unit option" where
  "tls_checks tls validCond =
     (let validCond = (if tls_Passthrough tls \<and> tls_EnableFallbackCertificate tls
                       then AddError ConditionTypeTLSError ''TLSIncompatibleFeatures''
                              ''Spec.VirtualHost.TLS: both Passthrough and enableFallbackCertificate were specified'' validCond
                       else validCond)
      in if \<not> isBlank (tls_SecretName tls) \<and> tls_Passthrough tls
         then (AddError ConditionTypeTLSError ''TLSConfigNotValid''
                 ''Spec.VirtualHost.TLS: both Passthrough and SecretName were specified'' validCond, None)
         else if isBlank (tls_SecretName tls) \<and> \<not> tls_Passthrough tls
         then (AddError ConditionTypeTLSError ''TLSConfigNotValid''
                 ''Spec.VirtualHost.TLS: neither Passthrough nor SecretName were specified'' validCond, None)
         else if tls_Passthrough tls \<and> tls_ClientValidation tls \<noteq> None
         then (AddError ConditionTypeTLSError ''TLSIncompatibleFeatures''
                 ''Spec.VirtualHost.TLS passthrough cannot be combined with tls.clientValidation'' validCond, None)
         else (validCond, Some ()))"

section \<open>The secure virtual host\<close>

text \<open>A lookup that reports a missing delegation and any other error differently.\<close>

definition lookup_or_fail ::
  "string \<times> string \<times> (string \<Rightarrow> string) \<Rightarrow> string \<times> string \<times> (string \<Rightarrow> string) \<Rightarrow> DetailedCondition \<Rightarrow> lookup_error + 'a
     \<Rightarrow> DetailedCondition \<times> 'a option" where
  "lookup_or_fail not_delegated other validCond r =
     (case r of
        Inr x \<Rightarrow> (validCond, Some x)
      | Inl (DelegationNotPermitted err) \<Rightarrow> (case not_delegated of (t, reason, msg) \<Rightarrow> (AddError t reason (msg err) validCond, None))
      | Inl (LookupError err) \<Rightarrow> (case other of (t, reason, msg) \<Rightarrow> (AddError t reason (msg err) validCond, None)))"

definition fallback_certificate ::
  "library \<Rightarrow> KubernetesCache \<Rightarrow> HTTPProxyProcessor \<Rightarrow> HTTPProxy \<Rightarrow> VirtualHost_v1 \<Rightarrow> TLS \<Rightarrow> DetailedCondition
     \<Rightarrow> DetailedCondition \<times> Secret option option" where
  "fallback_certificate lib source p proxy vh tls validCond =
     (if tls_EnableFallbackCertificate tls \<and> tls_ClientValidation tls \<noteq> None
      then (AddError ConditionTypeTLSError ''TLSIncompatibleFeatures''
              ''Spec.Virtualhost.TLS fallback & client validation are incompatible'' validCond, None)
      else if tls_EnableFallbackCertificate tls \<and> AuthorizationConfigured vh
      then (AddError ConditionTypeTLSError ''TLSIncompatibleFeatures''
              ''Spec.Virtualhost.TLS fallback & client authorization are incompatible'' validCond, None)
      else if tls_EnableFallbackCertificate tls then
        (case hpp_FallbackCertificate p of
           None \<Rightarrow>
             (AddError ConditionTypeTLSError ''FallbackNotPresent''
                ''Spec.Virtualhost.TLS enabled fallback but the fallback Certificate Secret is not configured in Contour configuration file'' validCond, None)
         | Some name \<Rightarrow>
             and_then (lookup_or_fail
               (ConditionTypeTLSError, ''FallbackNotDelegated'',
                \<lambda>_. ''Spec.VirtualHost.TLS Secret '' @ go_quote (nn_String name) @ '' is not configured for certificate delegation'')
               (ConditionTypeTLSError, ''FallbackNotValid'',
                \<lambda>err. ''Spec.Virtualhost.TLS Secret '' @ go_quote (nn_String name) @ '' fallback certificate is invalid: '' @ err)
               validCond (fst (LookupTLSSecret (lib_crypto lib) name (px_Namespace proxy) source)))
               (\<lambda>validCond sec. (validCond, Some (Some sec))))
      else (validCond, Some None))"

definition client_validation ::
  "library \<Rightarrow> KubernetesCache \<Rightarrow> HTTPProxy \<Rightarrow> DownstreamValidation \<Rightarrow> DetailedCondition \<Rightarrow> DetailedCondition \<times> PeerValidationContext option" where
  "client_validation lib source proxy cv validCond =
     (let dv = zero_PeerValidationContext\<lparr>
            pvc_SkipClientCertValidation := dv1_SkipClientCertValidation cv,
            pvc_OptionalClientCertificate := dv1_OptionalClientCertificate cv,
            pvc_ForwardClientCertificate := map_option (\<lambda>f. \<lparr>ccd_Subject = ccd1_Subject f, ccd_Cert = ccd1_Cert f, ccd_Chain = ccd1_Chain f,
              ccd_DNS = ccd1_DNS f, ccd_URI = ccd1_URI f\<rparr>) (dv1_ForwardClientCertificate cv)\<rparr>;
          ns = px_Namespace proxy
      in
      and_then
        (if dv1_CACertificate cv \<noteq> '''' then
           let secretName = NamespacedNameFrom (dv1_CACertificate cv) [DefaultNamespace ns] in
           and_then (lookup_or_fail
             (ConditionTypeTLSError, ''DelegationNotPermitted'',
              \<lambda>err. ''Spec.VirtualHost.TLS CA Secret '' @ go_quote (dv1_CACertificate cv) @ '' is invalid: '' @ err)
             (ConditionTypeTLSError, ''ClientValidationInvalid'',
              \<lambda>err. ''Spec.VirtualHost.TLS client validation is invalid: invalid CA Secret '' @ go_quote (nn_String secretName) @ '': '' @ err)
             validCond (fst (LookupCASecret (lib_crypto lib) secretName ns source)))
             (\<lambda>validCond cacert. (validCond, Some (dv\<lparr>pvc_CACertificates := [Some cacert]\<rparr>)))
         else if \<not> dv1_SkipClientCertValidation cv
         then (AddError ConditionTypeTLSError ''ClientValidationInvalid''
                 ''Spec.VirtualHost.TLS client validation is invalid: CA Secret must be specified'' validCond, Some dv)
         else (validCond, Some dv)) (\<lambda>validCond dv.
      if dv1_CertificateRevocationList cv \<noteq> '''' then
        let secretName = NamespacedNameFrom (dv1_CertificateRevocationList cv) [DefaultNamespace ns] in
        and_then (lookup_or_fail
          (ConditionTypeTLSError, ''DelegationNotPermitted'',
           \<lambda>err. ''Spec.VirtualHost.TLS CRL Secret '' @ go_quote (dv1_CertificateRevocationList cv) @ '' is invalid: '' @ err)
          (ConditionTypeTLSError, ''ClientValidationInvalid'',
           \<lambda>err. ''Spec.VirtualHost.TLS client validation is invalid: invalid CRL Secret '' @ go_quote (nn_String secretName) @ '': '' @ err)
          validCond (fst (LookupCRLSecret (lib_crypto lib) secretName ns source)))
          (\<lambda>validCond crl. (validCond, Some (dv\<lparr>pvc_CRL := Some crl, pvc_OnlyVerifyLeafCertCrl := dv1_OnlyVerifyLeafCertCrl cv\<rparr>)))
      else (validCond, Some dv)))"

text \<open>A provider of the specification as the DAG has it; the checks of its name are made by the loop.\<close>

definition jwks_port :: "URL \<Rightarrow> int result" where
  "jwks_port u =
     (if length (url_Port u) > 0 then (case strconv_Atoi (url_Port u) of (p, None) \<Rightarrow> Ok p | (_, Some err) \<Rightarrow> Err err)
      else if url_Scheme u = ''http'' then Ok 80
      else if url_Scheme u = ''https'' then Ok 443
      else Ok 0)"

definition jwks_upstream_validation ::
  "library \<Rightarrow> KubernetesCache \<Rightarrow> HTTPProxy \<Rightarrow> RemoteJWKS_v1 \<Rightarrow> URL \<Rightarrow> DetailedCondition
     \<Rightarrow> DetailedCondition \<times> PeerValidationContext option option" where
  "jwks_upstream_validation lib source proxy jwks jwksURL validCond =
     (case jwks1_UpstreamValidation jwks of
        None \<Rightarrow> (validCond, Some None)
      | Some v \<Rightarrow>
          if url_Scheme jwksURL = ''http''
          then (AddError ConditionTypeJWTVerificationError ''RemoteJWKSUpstreamValidationInvalid''
                  ''Spec.VirtualHost.JWTProviders.RemoteJWKS.UpstreamValidation must not be specified when URI scheme is http.'' validCond, None)
          else
            let caCertNamespacedName = NamespacedNameFrom (uv_CACertificate v) [DefaultNamespace (px_Namespace proxy)] in
            lookup_or_fail
              (ConditionTypeJWTVerificationError, ''RemoteJWKSCACertificateNotDelegated'',
               \<lambda>_. ''Spec.VirtualHost.JWTProviders.RemoteJWKS.UpstreamValidation.CACertificate Secret ''
                 @ go_quote (nn_String caCertNamespacedName) @ '' is not configured for certificate delegation'')
              (ConditionTypeJWTVerificationError, ''RemoteJWKSUpstreamValidationInvalid'',
               \<lambda>err. ''Spec.VirtualHost.JWTProviders.RemoteJWKS.UpstreamValidation is invalid: '' @ err)
              validCond (fst (LookupUpstreamValidation (lib_crypto lib) (Some v) caCertNamespacedName (px_Namespace proxy) source)))"

definition jwt_error :: "string \<Rightarrow> string \<Rightarrow> DetailedCondition \<Rightarrow> DetailedCondition \<times> 'a option" where
  "jwt_error reason msg validCond = (AddError ConditionTypeJWTVerificationError reason msg validCond, None)"

definition optional_duration ::
  "library \<Rightarrow> string \<Rightarrow> (string \<Rightarrow> string) \<Rightarrow> string \<Rightarrow> DetailedCondition \<Rightarrow> DetailedCondition \<times> duration option option" where
  "optional_duration lib reason msg s validCond =
     (if length s > 0
      then or_fail ConditionTypeJWTVerificationError reason msg validCond (lib_ParseDuration lib s) (\<lambda>res. (validCond, Some (Some res)))
      else (validCond, Some None))"

definition jwt_provider ::
  "library \<Rightarrow> KubernetesCache \<Rightarrow> HTTPProxyProcessor \<Rightarrow> HTTPProxy \<Rightarrow> JWTProvider_v1 \<Rightarrow> DetailedCondition
     \<Rightarrow> DetailedCondition \<times> JWTProvider option" where
  "jwt_provider lib source p proxy jwtProvider validCond =
     (let jwks = jwt1_RemoteJWKS jwtProvider in
      or_fail ConditionTypeJWTVerificationError ''RemoteJWKSURIInvalid''
        (\<lambda>err. ''Spec.VirtualHost.JWTProviders.RemoteJWKS.URI is invalid: '' @ err) validCond (lib_url_Parse lib (jwks1_URI jwks)) (\<lambda>jwksURL.
      if url_Scheme jwksURL \<noteq> ''http'' \<and> url_Scheme jwksURL \<noteq> ''https''
      then jwt_error ''RemoteJWKSSchemeInvalid''
             (''Spec.VirtualHost.JWTProviders.RemoteJWKS.URI has invalid scheme '' @ go_quote (url_Scheme jwksURL) @ '', must be http or https'') validCond
      else
      and_then (jwks_upstream_validation lib source proxy jwks jwksURL validCond) (\<lambda>validCond uv.
      and_then (optional_duration lib ''RemoteJWKSTimeoutInvalid''
          (\<lambda>err. ''Spec.VirtualHost.JWTProviders.RemoteJWKS.Timeout is invalid: '' @ err) (jwks1_Timeout jwks) validCond) (\<lambda>validCond jwksTimeout.
      and_then (optional_duration lib ''RemoteJWKSCacheDurationInvalid''
          (\<lambda>err. ''Spec.VirtualHost.JWTProviders.RemoteJWKS.CacheDuration is invalid: '' @ err) (jwks1_CacheDuration jwks) validCond) (\<lambda>validCond cacheDuration.
      or_fail ConditionTypeJWTVerificationError ''RemoteJWKSPortInvalid''
        (\<lambda>err. ''Spec.VirtualHost.JWTProviders.RemoteJWKS.URI has an invalid port: '' @ err) validCond (jwks_port jwksURL) (\<lambda>port.
          let family = jwks1_DNSLookupFamily jwks in
          if family \<notin> {''auto'', ''v4'', ''v6'', ''all'', ''''}
          then jwt_error ''RemoteJWKSDNSLookupFamilyInvalid''
                 (''Spec.VirtualHost.JWTProviders.RemoteJWKS.DNSLookupFamily has an invalid value '' @ go_quote family
                   @ '', must be auto, all, v4 or v6'') validCond
          else (validCond, Some \<lparr>
            jwt_Name = jwt1_Name jwtProvider, jwt_Issuer = jwt1_Issuer jwtProvider, jwt_Audiences = jwt1_Audiences jwtProvider,
            jwt_RemoteJWKS = \<lparr>
              jwks_URI = jwks1_URI jwks,
              jwks_Timeout = (case jwksTimeout of None \<Rightarrow> time_Second | Some t \<Rightarrow> t),
              jwks_Cluster = \<lparr>dnc_Address = url_Hostname jwksURL, dnc_Scheme = url_Scheme jwksURL, dnc_Port = port,
                dnc_DNSLookupFamily = (if family = '''' then hpp_DNSLookupFamily p else family),
                dnc_UpstreamValidation = uv, dnc_UpstreamTLS = hpp_UpstreamTLS p\<rparr>,
              jwks_CacheDuration = cacheDuration\<rparr>,
            jwt_ForwardJWT = jwt1_ForwardJWT jwtProvider\<rparr>)))))))"

fun jwt_providers ::
  "library \<Rightarrow> KubernetesCache \<Rightarrow> HTTPProxyProcessor \<Rightarrow> HTTPProxy \<Rightarrow> string \<times> nat \<Rightarrow> JWTProvider_v1 list \<Rightarrow> string list \<Rightarrow> string
     \<Rightarrow> DetailedCondition \<Rightarrow> ProxyState \<Rightarrow> string proxy_step" where
  "jwt_providers lib source p proxy h [] providerNames defaultJWTProvider validCond st = (validCond, st, Some defaultJWTProvider)"
| "jwt_providers lib source p proxy h (jwtProvider # rest) providerNames defaultJWTProvider validCond st =
     (if jwt1_Name jwtProvider \<in> set providerNames
      then stop ConditionTypeJWTVerificationError ''DuplicateProviderName''
             (''Spec.VirtualHost.JWTProviders is invalid: duplicate name '' @ jwt1_Name jwtProvider) validCond st
      else if jwt1_Default jwtProvider \<and> length defaultJWTProvider > 0
      then stop ConditionTypeJWTVerificationError ''MultipleDefaultProvidersSpecified''
             ''Spec.VirtualHost.JWTProviders is invalid: at most one provider can be set as the default'' validCond st
      else
        then_do (in_state st (jwt_provider lib source p proxy jwtProvider validCond)) (\<lambda>validCond st provider.
          jwt_providers lib source p proxy h rest (jwt1_Name jwtProvider # providerNames)
            (if jwt1_Default jwtProvider then jwt1_Name jwtProvider else defaultJWTProvider) validCond
            (write_svh h (\<lambda>s. s\<lparr>svh_JWTProviders := svh_JWTProviders s @ [provider]\<rparr>) st)))"

definition set_fallback ::
  "library \<Rightarrow> KubernetesCache \<Rightarrow> HTTPProxyProcessor \<Rightarrow> HTTPProxy \<Rightarrow> VirtualHost_v1 \<Rightarrow> TLS \<Rightarrow> string \<times> nat \<Rightarrow> DetailedCondition \<Rightarrow> ProxyState
     \<Rightarrow> unit proxy_step" where
  "set_fallback lib source p proxy vh tls svhost validCond st =
     then_do (in_state st (fallback_certificate lib source p proxy vh tls validCond)) (\<lambda>validCond st fallback.
     (validCond, case fallback of None \<Rightarrow> st | Some sec \<Rightarrow> write_svh svhost (\<lambda>s. s\<lparr>svh_FallbackCertificate := Some sec\<rparr>) st, Some ()))"

definition set_client_validation ::
  "library \<Rightarrow> KubernetesCache \<Rightarrow> HTTPProxy \<Rightarrow> TLS \<Rightarrow> string \<times> nat \<Rightarrow> DetailedCondition \<Rightarrow> ProxyState \<Rightarrow> unit proxy_step" where
  "set_client_validation lib source proxy tls svhost validCond st =
     (case tls_ClientValidation tls of
        None \<Rightarrow> (validCond, st, Some ())
      | Some cv \<Rightarrow>
          then_do (in_state st (client_validation lib source proxy cv validCond)) (\<lambda>validCond st dv.
          (validCond, write_svh svhost (\<lambda>s. s\<lparr>svh_DownstreamValidation := Some dv\<rparr>) st, Some ())))"

definition set_authorization ::
  "library \<Rightarrow> HTTPProxyProcessor \<Rightarrow> HTTPProxy \<Rightarrow> VirtualHost_v1 \<Rightarrow> string \<times> nat \<Rightarrow> DetailedCondition \<Rightarrow> ProxyState \<Rightarrow> unit proxy_step" where
  "set_authorization lib p proxy vh svhost validCond st =
     then_do (in_state st (computeSecureVirtualHostAuthorization lib p validCond proxy vh (ps_dag st))) (\<lambda>validCond st authorization.
     (validCond, case authorization of None \<Rightarrow> st | Some a \<Rightarrow> write_svh svhost (\<lambda>s. s\<lparr>svh_ExternalAuthorization := Some a\<rparr>) st, Some ()))"

definition secure_host ::
  "library \<Rightarrow> KubernetesCache \<Rightarrow> HTTPProxyProcessor \<Rightarrow> HTTPProxy \<Rightarrow> VirtualHost_v1 \<Rightarrow> TLS \<Rightarrow> DetailedCondition \<Rightarrow> ProxyState
     \<Rightarrow> string proxy_step" where
  "secure_host lib source p proxy vh tls validCond st =
     (let ns = px_Namespace proxy; secretName = NamespacedNameFrom (tls_SecretName tls) [DefaultNamespace ns] in
      then_do (in_state st (lookup_or_fail
        (ConditionTypeTLSError, ''DelegationNotPermitted'',
         \<lambda>_. ''Spec.VirtualHost.TLS Secret '' @ go_quote (tls_SecretName tls) @ '' certificate delegation not permitted'')
        (ConditionTypeTLSError, ''SecretNotValid'',
         \<lambda>err. ''Spec.VirtualHost.TLS Secret '' @ go_quote (tls_SecretName tls) @ '' is invalid: '' @ err)
        validCond (fst (LookupTLSSecret (lib_crypto lib) secretName ns source)))) (\<lambda>validCond st sec.
      then_do (https_listener_name validCond st) (\<lambda>validCond st listener.
      let minTLSVer = TLSVersion (tls_MinimumProtocolVersion tls) ''1.2'';
          maxTLSVer = TLSVersion (tls_MaximumProtocolVersion tls) ''1.3''
      in
      if maxTLSVer < minTLSVer
      then stop ConditionTypeTLSError ''TLSConfigNotValid''
             ''Spec.Virtualhost.TLS the minimum protocol version is greater than the maximum protocol version'' validCond st
      else
      then_do (ensure_svhost listener (vh1_Fqdn vh) validCond st) (\<lambda>validCond st svhost.
      then_do (set_fallback lib source p proxy vh tls svhost validCond
        (write_svh svhost (\<lambda>s. s\<lparr>svh_Secret := Some sec, svh_MinTLSVersion := minTLSVer, svh_MaxTLSVersion := maxTLSVer\<rparr>) st)) (\<lambda>validCond st _.
      then_do (set_client_validation lib source proxy tls svhost validCond st) (\<lambda>validCond st _.
      then_do (set_authorization lib p proxy vh svhost validCond st) (\<lambda>validCond st _.
      jwt_providers lib source p proxy svhost (vh1_JWTProviders vh) [] [] validCond st)))))))"

section \<open>TCP proxies\<close>

definition tcp_cluster ::
  "library \<Rightarrow> KubernetesCache \<Rightarrow> HTTPProxyProcessor \<Rightarrow> HTTPProxy \<Rightarrow> TCPProxy_v1 \<Rightarrow> string \<Rightarrow> Service_v1 \<Rightarrow> DetailedCondition
     \<Rightarrow> DetailedCondition \<times> Cluster option" where
  "tcp_cluster lib source p httpproxy tcpproxy lbPolicy service validCond =
     (let healthPolicy = tcpHealthCheckPolicy (tcp1_HealthCheckPolicy tcpproxy);
          healthPort = (if healthPolicy \<noteq> None \<and> sv1_HealthPort service > 0 then sv1_HealthPort service else sv1_Port service);
          m = \<lparr>nn_Namespace = px_Namespace httpproxy, nn_Name = sv1_Name service\<rparr>
      in
      or_fail ConditionTypeTCPProxyError ''ServiceUnresolvedReference''
        (\<lambda>err. ''Spec.TCPProxy unresolved service reference: '' @ err) validCond
        (EnsureService source m (sv1_Port service) healthPort (hpp_EnableExternalNameService p)) (\<lambda>s.
      or_fail ConditionTypeServiceError ''UnsupportedProtocol'' (\<lambda>err. err) validCond (getProtocol service s) (\<lambda>protocol.
      and_then (if (protocol = ''tls'' \<or> protocol = ''h2'') \<and> sv1_UpstreamValidation service \<noteq> None
                then and_then (peerValidationContext lib source validCond httpproxy service) (\<lambda>validCond uv. (validCond, Some (Some uv)))
                else (validCond, Some None)) (\<lambda>validCond uv.
      and_then (client_certificate lib source p validCond) (\<lambda>validCond clientCertSecret.
      (validCond, Some (zero_Cluster\<lparr>
         cl_Upstream := s, cl_Weight := to_uint32 (sv1_Weight service), cl_Protocol := protocol, cl_LoadBalancerPolicy := lbPolicy,
         cl_TCPHealthCheckPolicy := healthPolicy, cl_SNI := sv_ExternalName s,
         cl_TimeoutPolicy := zero_ClusterTimeoutPolicy\<lparr>cto_ConnectTimeout := hpp_ConnectTimeout p\<rparr>,
         cl_UpstreamTLS := hpp_UpstreamTLS p, cl_UpstreamValidation := uv, cl_ClientCertificate := clientCertSecret\<rparr>)))))))"

fun tcp_clusters_loop ::
  "library \<Rightarrow> KubernetesCache \<Rightarrow> HTTPProxyProcessor \<Rightarrow> HTTPProxy \<Rightarrow> TCPProxy_v1 \<Rightarrow> string \<Rightarrow> Service_v1 list \<Rightarrow> Cluster list \<Rightarrow> DetailedCondition
     \<Rightarrow> DetailedCondition \<times> Cluster list option" where
  "tcp_clusters_loop lib source p httpproxy tcpproxy lbPolicy [] acc validCond = (validCond, Some acc)"
| "tcp_clusters_loop lib source p httpproxy tcpproxy lbPolicy (service # services) acc validCond =
     and_then (tcp_cluster lib source p httpproxy tcpproxy lbPolicy service validCond) (\<lambda>validCond c.
       tcp_clusters_loop lib source p httpproxy tcpproxy lbPolicy services (acc @ [c]) validCond)"

definition tcp_services ::
  "library \<Rightarrow> KubernetesCache \<Rightarrow> HTTPProxyProcessor \<Rightarrow> HTTPProxy \<Rightarrow> TCPProxy_v1 \<Rightarrow> string \<Rightarrow> string \<Rightarrow> DetailedCondition \<Rightarrow> ProxyState
     \<Rightarrow> unit proxy_step" where
  "tcp_services lib source p httpproxy tcpproxy lbPolicy host validCond st =
     then_do (in_state st (tcp_clusters_loop lib source p httpproxy tcpproxy lbPolicy (tcp1_Services tcpproxy) [] validCond)) (\<lambda>validCond st clusters.
     then_do (https_listener_name validCond st) (\<lambda>validCond st listener.
     then_do (ensure_svhost listener host validCond st) (\<lambda>validCond st secure.
     (validCond, write_svh secure (\<lambda>s. s\<lparr>svh_TCPProxy := Some \<lparr>tcp_Clusters = clusters\<rparr>\<rparr>) st, Some ()))))"

text \<open>The proxy an include leads to; the proxies on the way end with the including one.\<close>

definition tcp_include ::
  "KubernetesCache \<Rightarrow> HTTPProxy \<Rightarrow> HTTPProxy list \<Rightarrow> TCPProxyInclude \<Rightarrow> DetailedCondition \<Rightarrow> ProxyState \<Rightarrow> HTTPProxy proxy_step" where
  "tcp_include source httpproxy visited include validCond st =
     (let namespace = (if tpi_Namespace include = '''' then px_Namespace httpproxy else tpi_Namespace include);
          m = \<lparr>nn_Namespace = namespace, nn_Name = tpi_Name include\<rparr>
      in case lookup (kc_httpproxies source) m of
           None \<Rightarrow> stop ConditionTypeTCPProxyIncludeError ''IncludeNotFound''
                     (''include '' @ nn_Namespace m @ ''/'' @ nn_Name m @ '' not found'') validCond st
         | Some dest \<Rightarrow>
             if spec_VirtualHost (px_Spec dest) \<noteq> None
             then stop ConditionTypeTCPProxyIncludeError ''RootIncludesRoot''
                    (''root httpproxy cannot include another root httpproxy ('' @ px_Namespace dest @ ''/'' @ px_Name dest @ '')'') validCond st
             else
               let st = st\<lparr>ps_orphaned := del (NamespacedNameOf (px_Namespace dest) (px_Name dest)) (ps_orphaned st)\<rparr> in
               if px_NamespacedName dest \<in> set (map px_NamespacedName visited)
               then stop ConditionTypeTCPProxyIncludeError ''IncludeCreatesCycle''
                      (''include creates a cycle: '' @ cycle_path visited dest) validCond st
               else (validCond, st, Some dest))"

lemma tcp_include_dest:
  "tcp_include source httpproxy visited include validCond st = (vc, st', Some dest) \<Longrightarrow>
   dest \<in> set (map_values (kc_httpproxies source)) \<and> px_NamespacedName dest \<notin> px_NamespacedName ` set visited \<and>
   spec_VirtualHost (px_Spec dest) = None \<and> vc = validCond \<and>
   st' = st\<lparr>ps_orphaned := del (NamespacedNameOf (px_Namespace dest) (px_Name dest)) (ps_orphaned st)\<rparr>"
  by (auto simp: tcp_include_def Let_def stop_def map_values_def split: option.splits if_splits
      dest: map_of_SomeD intro!: image_eqI)

function processHTTPProxyTCPProxy ::
  "library \<Rightarrow> KubernetesCache \<Rightarrow> HTTPProxyProcessor \<Rightarrow> DetailedCondition \<Rightarrow> HTTPProxy \<Rightarrow> HTTPProxy list \<Rightarrow> string \<Rightarrow> ProxyState
     \<Rightarrow> unit proxy_step" where
  "processHTTPProxyTCPProxy lib source p validCond httpproxy visited host st =
     (case spec_TCPProxy (px_Spec httpproxy) of
        None \<Rightarrow> (validCond, st, Some ())
      | Some tcpproxy \<Rightarrow>
          let visited = visited @ [httpproxy];
              tcpProxyInclude = (if tcp1_Include tcpproxy = None then tcp1_IncludesDeprecated tcpproxy else tcp1_Include tcpproxy)
          in
          if length (tcp1_Services tcpproxy) > 0 \<and> tcpProxyInclude \<noteq> None
          then stop ConditionTypeTCPProxyError ''NoServicesAndInclude''
                 ''cannot specify services and include in the same httpproxy'' validCond st
          else
            let lbPolicy = loadBalancerPolicy (tcp1_LoadBalancerPolicy tcpproxy);
                ignored = lbPolicy \<in> {LoadBalancerPolicyCookie, LoadBalancerPolicyRequestHash};
                validCond = (if ignored then AddWarning ConditionTypeTCPProxyError ''IgnoredField''
                               (''ignoring field '' @ go_quote ''Spec.TCPProxy.LoadBalancerPolicy'' @ ''; '' @ lbPolicy
                                 @ '' load balancer policy is not supported for TCPProxies'') validCond
                             else validCond);
                lbPolicy = (if ignored then '''' else lbPolicy)
            in
            if length (tcp1_Services tcpproxy) > 0 then tcp_services lib source p httpproxy tcpproxy lbPolicy host validCond st
            else
              (case tcpProxyInclude of
                 None \<Rightarrow> stop ConditionTypeTCPProxyError ''NothingDefined'' ''either services or inclusion must be specified'' validCond st
               | Some include \<Rightarrow>
                   (case tcp_include source httpproxy visited include validCond st of
                      (validCond, st, None) \<Rightarrow> (validCond, st, None)
                    | (validCond, st, Some dest) \<Rightarrow>
                        (case ConditionFor (ProxyAccessor (lib_now lib) dest) ValidCondition of
                           (incValidCond, inc) \<Rightarrow>
                             (case processHTTPProxyTCPProxy lib source p incValidCond dest visited host st of
                                (incValidCond, st, ok) \<Rightarrow> (validCond, commit_update (with_valid incValidCond inc) st, ok))))))"
  by pat_completeness auto

termination
  by (relation "measure (\<lambda>(lib, source, p, vc, httpproxy, visited, host, st). unvisited source (visited @ [httpproxy]))")
    (auto dest!: tcp_include_dest [OF sym] intro!: unvisited_less [where visited = "v @ [h]" for v h, simplified])

declare processHTTPProxyTCPProxy.simps [simp del]

section \<open>The hosts of a proxy\<close>

text \<open>Settings both hosts of a proxy have; the host is written to before the result of the conversion is looked at.\<close>

definition host_rate_limit ::
  "library \<Rightarrow> HTTPProxyProcessor \<Rightarrow> VirtualHost_v1 \<Rightarrow> ((VirtualHost \<Rightarrow> VirtualHost) \<Rightarrow> ProxyState \<Rightarrow> ProxyState)
     \<Rightarrow> DetailedCondition \<Rightarrow> ProxyState \<Rightarrow> unit proxy_step" where
  "host_rate_limit lib p vh write validCond st =
     (case computeVirtualHostRateLimitPolicy lib vh (hpp_GlobalRateLimitService p) validCond of
        (validCond, rlp) \<Rightarrow>
          (validCond, write (\<lambda>v. v\<lparr>vh_RateLimitPolicy := (case rlp of None \<Rightarrow> None | Some r \<Rightarrow> r)\<rparr>) st,
           map_option (\<lambda>_. ()) rlp))"

definition host_ip_filter ::
  "library \<Rightarrow> VirtualHost_v1 \<Rightarrow> ((VirtualHost \<Rightarrow> VirtualHost) \<Rightarrow> ProxyState \<Rightarrow> ProxyState)
     \<Rightarrow> DetailedCondition \<Rightarrow> ProxyState \<Rightarrow> unit proxy_step" where
  "host_ip_filter lib vh write validCond st =
     (case toIPFilterRules lib (vh1_IPAllowFilterPolicy vh) (vh1_IPDenyFilterPolicy vh) validCond of
        ((allow, rules, err), validCond) \<Rightarrow>
          let st = write (\<lambda>v. v\<lparr>vh_IPFilterAllow := allow, vh_IPFilterRules := rules\<rparr>) st in
          (case err of
             None \<Rightarrow> (validCond, st, Some ())
           | Some err \<Rightarrow> stop ConditionTypeIPFilterError ''IPFilterPolicyNotValid''
               (''Spec.VirtualHost.IPAllowFilterPolicy or Spec.VirtualHost.IPDenyFilterPolicy is invalid: '' @ err) validCond st))"

definition insecure_host ::
  "library \<Rightarrow> HTTPProxyProcessor \<Rightarrow> HTTPProxy \<Rightarrow> VirtualHost_v1 \<Rightarrow> Route list \<Rightarrow> DetailedCondition \<Rightarrow> ProxyState
     \<Rightarrow> CORSPolicy option proxy_step" where
  "insecure_host lib p proxy vh routes validCond st =
     then_do (ensure_vhost (vh1_Fqdn vh) validCond st) (\<lambda>validCond st insecure.
     then_do (in_state st (or_fail ConditionTypeCORSError ''PolicyDidNotParse'' (\<lambda>err. ''Spec.VirtualHost.CORSPolicy: '' @ err)
       validCond (toCORSPolicy lib (vh1_CORSPolicy vh)) (\<lambda>cp. (validCond, Some cp)))) (\<lambda>validCond st cp.
     then_do (host_rate_limit lib p vh (write_vh insecure) validCond (write_vh insecure (\<lambda>v. v\<lparr>vh_CORSPolicy := cp\<rparr>) st)) (\<lambda>validCond st _.
     let validCond = (case hpp_GlobalExternalAuthorization p of
                        None \<Rightarrow> validCond
                      | Some auth \<Rightarrow> if DisableAuthorization vh then validCond
                                      else fst (computeVirtualHostAuthorization lib auth validCond proxy (ps_dag st)))
     in
     then_do (host_ip_filter lib vh (write_vh insecure) validCond st) (\<lambda>validCond st _.
     (validCond, write_vh insecure (addRoutes routes) st, Some cp)))))"

text \<open>The route of a host with or without JWT providers must not refer to an unknown one.\<close>

fun jwt_check :: "JWTProvider list \<Rightarrow> Route list \<Rightarrow> DetailedCondition \<Rightarrow> DetailedCondition \<times> unit option" where
  "jwt_check providers [] validCond = (validCond, Some ())"
| "jwt_check providers (route # routes) validCond =
     (let undefined_provider = jwt_error ''JWTProviderNotDefined''
            (''Route references an undefined JWT provider '' @ go_quote (rt_JWTProvider route)) validCond
      in if length providers = 0 then
           if length (rt_JWTProvider route) = 0 then jwt_check providers routes validCond else undefined_provider
         else if length (rt_JWTProvider route) > 0 \<and> \<not> (\<exists>provider\<in>set providers. jwt_Name provider = rt_JWTProvider route)
         then undefined_provider
         else jwt_check providers routes validCond)"

definition secure_routes ::
  "library \<Rightarrow> HTTPProxyProcessor \<Rightarrow> VirtualHost_v1 \<Rightarrow> CORSPolicy option \<Rightarrow> Route list \<Rightarrow> DetailedCondition \<Rightarrow> ProxyState \<Rightarrow> unit proxy_step" where
  "secure_routes lib p vh cp routes validCond st =
     then_do (https_listener_name validCond st) (\<lambda>validCond st listener.
     then_do (ensure_svhost listener (vh1_Fqdn vh) validCond st) (\<lambda>validCond st secure.
     let write = (\<lambda>f. write_svh secure (on_virtual_host f)) in
     then_do (host_rate_limit lib p vh write validCond (write (\<lambda>v. v\<lparr>vh_CORSPolicy := cp\<rparr>) st)) (\<lambda>validCond st _.
     then_do (host_ip_filter lib vh write validCond st) (\<lambda>validCond st _.
     let st = write (addRoutes routes) st in
     in_state st (jwt_check (case read_svh secure st of None \<Rightarrow> [] | Some s \<Rightarrow> svh_JWTProviders s) routes validCond)))))"

section \<open>A root proxy\<close>

text \<open>The default JWT provider, when TLS is terminated here and one was declared.\<close>

definition root_tls ::
  "library \<Rightarrow> KubernetesCache \<Rightarrow> HTTPProxyProcessor \<Rightarrow> HTTPProxy \<Rightarrow> VirtualHost_v1 \<Rightarrow> DetailedCondition \<Rightarrow> ProxyState \<Rightarrow> string proxy_step" where
  "root_tls lib source p proxy vh validCond st =
     (case vh1_TLS vh of
        None \<Rightarrow> (validCond, st, Some [])
      | Some tls \<Rightarrow>
          then_do (in_state st (tls_checks tls validCond)) (\<lambda>validCond st _.
          if tls_Passthrough tls then (validCond, st, Some [])
          else secure_host lib source p proxy vh tls validCond st))"

definition root_tcp ::
  "library \<Rightarrow> KubernetesCache \<Rightarrow> HTTPProxyProcessor \<Rightarrow> HTTPProxy \<Rightarrow> VirtualHost_v1 \<Rightarrow> DetailedCondition \<Rightarrow> ProxyState \<Rightarrow> unit proxy_step" where
  "root_tcp lib source p proxy vh validCond st =
     (if spec_TCPProxy (px_Spec proxy) = None then (validCond, st, Some ())
      else if vh1_TLS vh = None
      then stop ConditionTypeTCPProxyError ''TLSMustBeConfigured''
             ''Spec.TCPProxy requires that either Spec.TLS.Passthrough or Spec.TLS.SecretName be set'' validCond st
      else processHTTPProxyTCPProxy lib source p validCond proxy [] (vh1_Fqdn vh) st)"

abbreviation root_env :: "library \<Rightarrow> KubernetesCache \<Rightarrow> HTTPProxyProcessor \<Rightarrow> map_order \<Rightarrow> VirtualHost_v1 \<Rightarrow> string \<Rightarrow> route_env" where
  "root_env lib source p ord vh jwt \<equiv>
     \<lparr>re_lib = lib, re_cache = source, re_proc = p, re_order = ord, re_vh = vh, re_enforceTLS = (vh1_TLS vh \<noteq> None), re_jwt = jwt\<rparr>"

definition root_routes ::
  "library \<Rightarrow> KubernetesCache \<Rightarrow> HTTPProxyProcessor \<Rightarrow> map_order \<Rightarrow> HTTPProxy \<Rightarrow> VirtualHost_v1 \<Rightarrow> string \<Rightarrow> DetailedCondition \<Rightarrow> ProxyState
     \<Rightarrow> unit proxy_step" where
  "root_routes lib source p ord proxy vh defaultJWTProvider validCond st =
     (case computeRoutes (root_env lib source p ord vh defaultJWTProvider) proxy [] [] validCond st of
        (validCond, st, routes) \<Rightarrow>
          then_do (insecure_host lib p proxy vh routes validCond st) (\<lambda>validCond st cp.
          if vh1_TLS vh \<noteq> None \<and> spec_TCPProxy (px_Spec proxy) = None
          then secure_routes lib p vh cp routes validCond st
          else (validCond, st, Some ())))"

definition compute_root ::
  "library \<Rightarrow> KubernetesCache \<Rightarrow> HTTPProxyProcessor \<Rightarrow> map_order \<Rightarrow> HTTPProxy \<Rightarrow> VirtualHost_v1 \<Rightarrow> DetailedCondition \<Rightarrow> ProxyState
     \<Rightarrow> unit proxy_step" where
  "compute_root lib source p ord proxy vh validCond st =
     then_do (in_state st (root_checks source proxy vh validCond)) (\<lambda>validCond st _.
     then_do (root_tls lib source p proxy vh validCond st) (\<lambda>validCond st defaultJWTProvider.
     then_do (root_tcp lib source p proxy vh validCond st) (\<lambda>validCond st _.
     root_routes lib source p ord proxy vh defaultJWTProvider validCond st)))"

definition computeHTTPProxy ::
  "library \<Rightarrow> KubernetesCache \<Rightarrow> HTTPProxyProcessor \<Rightarrow> map_order \<Rightarrow> HTTPProxy \<Rightarrow> ProxyState \<Rightarrow> ProxyState" where
  "computeHTTPProxy lib source p ord proxy st =
     (case ConditionFor (ProxyAccessor (lib_now lib) proxy) ValidCondition of
        (validCond, pa) \<Rightarrow>
          (case spec_VirtualHost (px_Spec proxy) of
             None \<Rightarrow>
               commit_update (with_valid validCond pa)
                 (st\<lparr>ps_orphaned := put (NamespacedNameOf (px_Namespace proxy) (px_Name proxy)) True (ps_orphaned st)\<rparr>)
           | Some vh \<Rightarrow>
               let pa = (if isBlank (vh1_Fqdn vh) then pa else pa\<lparr>pu_Vhost := vh1_Fqdn vh\<rparr>) in
               (case compute_root lib source p ord proxy vh validCond st of
                  (validCond, st, _) \<Rightarrow> commit_update (with_valid validCond pa) st)))"

section \<open>All proxies\<close>

fun group_fqdns ::
  "HTTPProxy list \<Rightarrow> HTTPProxy list \<times> (string, HTTPProxy list) gomap \<Rightarrow> HTTPProxy list \<times> (string, HTTPProxy list) gomap" where
  "group_fqdns [] (valid, fqdnHTTPProxies) = (valid, fqdnHTTPProxies)"
| "group_fqdns (proxy # proxies) (valid, fqdnHTTPProxies) =
     (case spec_VirtualHost (px_Spec proxy) of
        None \<Rightarrow> group_fqdns proxies (valid @ [proxy], fqdnHTTPProxies)
      | Some vh \<Rightarrow>
          let fqdn = strings_ToLower (vh1_Fqdn vh);
              seen = (case lookup fqdnHTTPProxies fqdn of None \<Rightarrow> [] | Some ps \<Rightarrow> ps)
          in group_fqdns proxies (valid, put fqdn (seen @ [proxy]) fqdnHTTPProxies))"

definition fqdn_conflict :: "string \<Rightarrow> HTTPProxy list \<Rightarrow> string" where
  "fqdn_conflict fqdn proxies =
     ''fqdn '' @ go_quote fqdn @ '' is used in multiple HTTPProxies: ''
       @ strings_Join (sort_Stable (<) (map (\<lambda>proxy. px_Namespace proxy @ ''/'' @ px_Name proxy) proxies)) '', ''"

definition mark_duplicate :: "library \<Rightarrow> string \<Rightarrow> string \<Rightarrow> HTTPProxy \<Rightarrow> ProxyState \<Rightarrow> ProxyState" where
  "mark_duplicate lib fqdn msg proxy st =
     (case ConditionFor ((ProxyAccessor (lib_now lib) proxy)\<lparr>pu_Vhost := fqdn\<rparr>) ValidCondition of
        (validCond, pa) \<Rightarrow>
          commit_update (with_valid (AddError ConditionTypeVirtualHostError ''DuplicateVhost'' msg validCond) pa) st)"

fun fqdn_loop :: "library \<Rightarrow> (string, HTTPProxy list) gomap \<Rightarrow> HTTPProxy list \<times> ProxyState \<Rightarrow> HTTPProxy list \<times> ProxyState" where
  "fqdn_loop lib [] (valid, st) = (valid, st)"
| "fqdn_loop lib ((fqdn, proxies) # rest) (valid, st) =
     (case proxies of
        [proxy] \<Rightarrow> fqdn_loop lib rest (valid @ [proxy], st)
      | _ \<Rightarrow> fqdn_loop lib rest (valid, fold (mark_duplicate lib fqdn (fqdn_conflict fqdn proxies)) proxies st))"

definition validHTTPProxies :: "library \<Rightarrow> KubernetesCache \<Rightarrow> map_order \<Rightarrow> ProxyState \<Rightarrow> HTTPProxy list \<times> ProxyState" where
  "validHTTPProxies lib source ord st =
     (case group_fqdns (map_values (kc_httpproxies source)) ([], []) of
        (valid, fqdnHTTPProxies) \<Rightarrow> fqdn_loop lib (mo_fqdns ord fqdnHTTPProxies) (valid, st))"

definition mark_orphan :: "library \<Rightarrow> KubernetesCache \<Rightarrow> NamespacedName \<Rightarrow> ProxyState \<Rightarrow> ProxyState" where
  "mark_orphan lib source meta st =
     (case lookup (kc_httpproxies source) meta of
        None \<Rightarrow> st
      | Some proxy \<Rightarrow>
          (case ConditionFor (ProxyAccessor (lib_now lib) proxy) ValidCondition of
             (validCond, pa) \<Rightarrow>
               commit_update (with_valid (AddError ConditionTypeOrphanedError ''Orphaned''
                 ''this HTTPProxy is not part of a delegation chain from a root HTTPProxy'' validCond) pa) st))"

definition HTTPProxyProcessor_Run :: "library \<Rightarrow> map_order \<Rightarrow> HTTPProxyProcessor \<Rightarrow> Processor" where
  "HTTPProxyProcessor_Run lib ord p source dag =
     (case validHTTPProxies lib source ord \<lparr>ps_dag = dag, ps_orphaned = []\<rparr> of
        (proxies, st) \<Rightarrow>
          let st = fold (computeHTTPProxy lib source p ord) proxies st in
          ps_dag (fold (mark_orphan lib source) (map fst (mo_orphans ord (ps_orphaned st))) st))"

end
