(* ===== verification/HTTP_Proxy_Steps.thy ===== *)
theory HTTP_Proxy_Steps
  imports HTTP_Proxy
begin

text \<open>
  A calculus for the steps of the HTTPProxy processor.  \<open>step_ok E host vc st Q res\<close> says of a step that started with the condition
  \<open>vc\<close> in the state \<open>st\<close>: the condition only grew, a step that ends the function left an error, the
  DAG is as well formed as before, only the virtual hosts named \<open>host\<close> were touched, and a result satisfies \<open>Q\<close>.
\<close>

section \<open>Isolation of hosts\<close>

text \<open>A listener without its hosts of a given name, and without the maps from names to positions.\<close>

definition other_hosts :: "string \<Rightarrow> Listener \<Rightarrow> Listener" where
  "other_hosts host l = l\<lparr>
     ln_VirtualHosts := filter (\<lambda>v. vh_Name v \<noteq> host) (ln_VirtualHosts l),
     ln_SecureVirtualHosts := filter (\<lambda>s. vh_Name (svh_VirtualHost s) \<noteq> host) (ln_SecureVirtualHosts l),
     ln_vhostsByName := None, ln_svhostsByName := None\<rparr>"

definition isolated :: "string \<Rightarrow> DAG \<Rightarrow> DAG \<Rightarrow> bool" where
  "isolated host d d' \<longleftrightarrow>
     dag_ExtensionClusters d' = dag_ExtensionClusters d \<and>
     (\<forall>n. map_option (other_hosts host) (lookup (dag_Listeners d') n) = map_option (other_hosts host) (lookup (dag_Listeners d) n))"

text \<open>The maps the accessors write to exist.\<close>

definition listener_ready :: "Listener \<Rightarrow> bool" where
  "listener_ready l \<longleftrightarrow>
     (ln_Protocol l = ''http'' \<longrightarrow> ln_vhostsByName l \<noteq> None) \<and> (ln_Protocol l = ''https'' \<longrightarrow> ln_svhostsByName l \<noteq> None)"

definition dag_ready :: "DAG \<Rightarrow> bool" where
  "dag_ready d \<longleftrightarrow> wf_dag d \<and> (\<forall>n l. lookup (dag_Listeners d) n = Some l \<longrightarrow> listener_ready l)"

definition at_host :: "string \<Rightarrow> string \<times> nat \<Rightarrow> DAG \<Rightarrow> bool" where
  "at_host host h d \<longleftrightarrow>
     (\<exists>l. lookup (dag_Listeners d) (fst h) = Some l \<and> ln_Protocol l = ''http'' \<and> snd h < length (ln_VirtualHosts l) \<and>
          vh_Name (ln_VirtualHosts l ! snd h) = host)"

definition at_shost :: "string \<Rightarrow> string \<times> nat \<Rightarrow> DAG \<Rightarrow> bool" where
  "at_shost host h d \<longleftrightarrow>
     (\<exists>l. lookup (dag_Listeners d) (fst h) = Some l \<and> ln_Protocol l = ''https'' \<and> snd h < length (ln_SecureVirtualHosts l) \<and>
          vh_Name (svh_VirtualHost (ln_SecureVirtualHosts l ! snd h)) = host)"

definition dag_step :: "string \<Rightarrow> DAG \<Rightarrow> DAG \<Rightarrow> bool" where
  "dag_step host d d' \<longleftrightarrow>
     (dag_ready d \<longrightarrow> dag_ready d' \<and> isolated host d d' \<and> updates_grow (updates d) (updates d') \<and>
        (\<forall>h. at_host host h d \<longrightarrow> at_host host h d') \<and> (\<forall>h. at_shost host h d \<longrightarrow> at_shost host h d'))"

definition orphans_shrink :: "ProxyState \<Rightarrow> ProxyState \<Rightarrow> bool" where
  "orphans_shrink st st' \<longleftrightarrow> (\<forall>n. lookup (ps_orphaned st') n = None \<or> lookup (ps_orphaned st') n = lookup (ps_orphaned st) n)"

definition host_step :: "string \<Rightarrow> ProxyState \<Rightarrow> ProxyState \<Rightarrow> bool" where
  "host_step host st st' \<longleftrightarrow> dag_step host (ps_dag st) (ps_dag st') \<and> orphans_shrink st st'"

lemma isolated_refl [simp]: "isolated host d d"
  by (simp add: isolated_def)

lemma isolated_trans: "isolated host a b \<Longrightarrow> isolated host b c \<Longrightarrow> isolated host a c"
  by (simp add: isolated_def)

lemma dag_step_refl [simp]: "dag_step host d d"
  by (simp add: dag_step_def)

lemma dag_step_trans: "dag_step host a b \<Longrightarrow> dag_step host b c \<Longrightarrow> dag_step host a c"
  unfolding dag_step_def using isolated_trans updates_grow_trans by blast

lemma host_step_refl [simp]: "host_step host st st"
  by (simp add: host_step_def orphans_shrink_def)

lemma host_step_trans: "host_step host a b \<Longrightarrow> host_step host b c \<Longrightarrow> host_step host a c"
  unfolding host_step_def orphans_shrink_def using dag_step_trans by metis

section \<open>The accessors\<close>

lemma dag_step_put:
  assumes "lookup (dag_Listeners d) n = Some l"
    and "wf_listener l \<Longrightarrow> wf_listener l'" and "listener_ready l \<Longrightarrow> listener_ready l'"
    and "wf_listener l \<Longrightarrow> other_hosts host l' = other_hosts host l"
    and "\<And>i. i < length (ln_VirtualHosts l) \<Longrightarrow> i < length (ln_VirtualHosts l') \<and> vh_Name (ln_VirtualHosts l' ! i) = vh_Name (ln_VirtualHosts l ! i)"
    and "\<And>i. i < length (ln_SecureVirtualHosts l) \<Longrightarrow> i < length (ln_SecureVirtualHosts l') \<and>
           vh_Name (svh_VirtualHost (ln_SecureVirtualHosts l' ! i)) = vh_Name (svh_VirtualHost (ln_SecureVirtualHosts l ! i))"
  shows "dag_step host d (d\<lparr>dag_Listeners := put n l' (dag_Listeners d)\<rparr>)"
  unfolding dag_step_def
proof (intro impI)
  let ?d = "d\<lparr>dag_Listeners := put n l' (dag_Listeners d)\<rparr>"
  assume ready: "dag_ready d"
  then have wf: "wf_dag d" "ln_Name l = n" "wf_listener l" "listener_ready l"
    using assms(1) wf_dag_listener unfolding dag_ready_def by auto
  have other: "other_hosts host l' = other_hosts host l" using assms(4) wf(3) .
  have "ln_Name (other_hosts host l') = ln_Name (other_hosts host l)" "ln_Protocol (other_hosts host l') = ln_Protocol (other_hosts host l)"
    using other by simp_all
  then have "ln_Name l' = n" and proto: "ln_Protocol l' = ln_Protocol l" using wf(2) by (simp_all add: other_hosts_def)
  with proto have "dag_ready ?d"
    using ready wf_dag_put [OF wf(1) _ assms(2) [OF wf(3)]] assms(3) [OF wf(4)] by (auto simp: dag_ready_def lookup_put)
  moreover have "isolated host d ?d" using other assms(1) by (simp add: isolated_def lookup_put)
  moreover have "at_host host h ?d" if "at_host host h d" for h
    using that assms(1,5) proto by (auto simp: at_host_def lookup_put)
  moreover have "at_shost host h ?d" if "at_shost host h d" for h
    using that assms(1,6) proto by (auto simp: at_shost_def lookup_put)
  ultimately show "dag_ready ?d \<and> isolated host d ?d \<and> updates_grow (updates d) (updates ?d) \<and>
      (\<forall>h. at_host host h d \<longrightarrow> at_host host h ?d) \<and> (\<forall>h. at_shost host h d \<longrightarrow> at_shost host h ?d)" by simp
qed

lemma filter_update_other:
  "i < length xs \<Longrightarrow> \<not> P (xs ! i) \<Longrightarrow> \<not> P y \<Longrightarrow> filter P (xs[i := y]) = filter P xs"
  by (simp add: upd_conv_take_nth_drop) (metis Cons_nth_drop_Suc append_take_drop_id filter.simps(2) filter_append)

lemma write_vh_step:
  assumes "at_host host h (ps_dag st)" "\<And>v. vh_Name (f v) = vh_Name v"
  shows "host_step host st (write_vh h f st)"
proof -
  obtain l where l: "lookup (dag_Listeners (ps_dag st)) (fst h) = Some l" "snd h < length (ln_VirtualHosts l)"
      "vh_Name (ln_VirtualHosts l ! snd h) = host"
    using assms(1) by (auto simp: at_host_def)
  let ?l = "l\<lparr>ln_VirtualHosts := (ln_VirtualHosts l)[snd h := f (ln_VirtualHosts l ! snd h)]\<rparr>"
  have "dag_step host (ps_dag st) ((ps_dag st)\<lparr>dag_Listeners := put (fst h) ?l (dag_Listeners (ps_dag st))\<rparr>)"
    using l assms(2)
    by (intro dag_step_put [OF l(1)])
      (auto simp: wf_listener_def listener_ready_def other_hosts_def filter_update_other nth_list_update intro: wf_table_write)
  then show ?thesis
    by (simp add: host_step_def orphans_shrink_def write_vh_def on_dag_def write_vhost_def l(1))
qed

lemma write_svh_step:
  assumes "at_shost host h (ps_dag st)" "\<And>s. vh_Name (svh_VirtualHost (f s)) = vh_Name (svh_VirtualHost s)"
  shows "host_step host st (write_svh h f st)"
proof -
  obtain l where l: "lookup (dag_Listeners (ps_dag st)) (fst h) = Some l" "snd h < length (ln_SecureVirtualHosts l)"
      "vh_Name (svh_VirtualHost (ln_SecureVirtualHosts l ! snd h)) = host"
    using assms(1) by (auto simp: at_shost_def)
  let ?l = "l\<lparr>ln_SecureVirtualHosts := (ln_SecureVirtualHosts l)[snd h := f (ln_SecureVirtualHosts l ! snd h)]\<rparr>"
  have "dag_step host (ps_dag st) ((ps_dag st)\<lparr>dag_Listeners := put (fst h) ?l (dag_Listeners (ps_dag st))\<rparr>)"
    using l assms(2)
    by (intro dag_step_put [OF l(1)])
      (auto simp: wf_listener_def listener_ready_def other_hosts_def filter_update_other nth_list_update intro: wf_table_write)
  then show ?thesis
    by (simp add: host_step_def orphans_shrink_def write_svh_def on_dag_def write_svhost_def l(1))
qed

lemma listener_ensure_filter:
  "listener_EnsureVirtualHost host l = Some (i, l') \<Longrightarrow>
     other_hosts host l' = other_hosts host l \<and> prefix (ln_VirtualHosts l) (ln_VirtualHosts l') \<and> (listener_ready l \<longrightarrow> listener_ready l')"
  "listener_EnsureSecureVirtualHost host l = Some (i, l') \<Longrightarrow>
     other_hosts host l' = other_hosts host l \<and> prefix (ln_SecureVirtualHosts l) (ln_SecureVirtualHosts l') \<and> (listener_ready l \<longrightarrow> listener_ready l')"
  by (auto simp: listener_EnsureVirtualHost_def listener_EnsureSecureVirtualHost_def Let_def other_hosts_def listener_ready_def split: option.splits)

lemma prefix_nth: "prefix xs ys \<Longrightarrow> i < length xs \<Longrightarrow> i < length ys \<and> ys ! i = xs ! i"
  by (auto simp: prefix_def nth_append)

lemma EnsureVirtualHost_step:
  assumes "EnsureVirtualHost n host d = Some (i, d')"
  shows "dag_step host d d' \<and> (dag_ready d \<longrightarrow> lookup (dag_Listeners d) n = Some l \<longrightarrow> ln_Protocol l = ''http'' \<longrightarrow> at_host host (n, i) d')"
proof -
  obtain l0 l' where l: "lookup (dag_Listeners d) n = Some l0" "listener_EnsureVirtualHost host l0 = Some (i, l')"
      "d' = d\<lparr>dag_Listeners := put n l' (dag_Listeners d)\<rparr>"
    using assms unfolding EnsureVirtualHost_def by (rule on_listener_Some)
  note f = listener_ensure_filter(1) [OF l(2)] EnsureVirtualHost_frame [OF l(2)]
  have wf: "wf_listener l'" if "wf_listener l0"
    using that vhosts.ensure_wf [OF _ l(2)] f by (simp add: wf_listener_def)
  have "dag_step host d d'"
    unfolding l(3) using f wf by (intro dag_step_put [OF l(1)]) (auto dest: prefix_nth)
  moreover have "at_host host (n, i) d'" if "dag_ready d" "lookup (dag_Listeners d) n = Some l" "ln_Protocol l = ''http''"
  proof -
    have "vhosts.wf l0" using that wf_dag_listener [OF _ l(1)] by (simp add: dag_ready_def wf_listener_def)
    from vhosts.ensure_get [OF this l(2)] show ?thesis using that(2,3) l(1) f by (simp add: at_host_def l(3) lookup_put)
  qed
  ultimately show ?thesis by simp
qed

lemma EnsureSecureVirtualHost_step:
  assumes "EnsureSecureVirtualHost n host d = Some (i, d')"
  shows "dag_step host d d' \<and> (dag_ready d \<longrightarrow> lookup (dag_Listeners d) n = Some l \<longrightarrow> ln_Protocol l = ''https'' \<longrightarrow> at_shost host (n, i) d')"
proof -
  obtain l0 l' where l: "lookup (dag_Listeners d) n = Some l0" "listener_EnsureSecureVirtualHost host l0 = Some (i, l')"
      "d' = d\<lparr>dag_Listeners := put n l' (dag_Listeners d)\<rparr>"
    using assms unfolding EnsureSecureVirtualHost_def by (rule on_listener_Some)
  note f = listener_ensure_filter(2) [OF l(2)] EnsureSecureVirtualHost_frame [OF l(2)]
  have wf: "wf_listener l'" if "wf_listener l0"
    using that svhosts.ensure_wf [OF _ l(2)] f by (simp add: wf_listener_def)
  have "dag_step host d d'"
    unfolding l(3) using f wf by (intro dag_step_put [OF l(1)]) (auto dest: prefix_nth)
  moreover have "at_shost host (n, i) d'" if "dag_ready d" "lookup (dag_Listeners d) n = Some l" "ln_Protocol l = ''https''"
  proof -
    have "svhosts.wf l0" using that wf_dag_listener [OF _ l(1)] by (simp add: dag_ready_def wf_listener_def)
    from svhosts.ensure_get [OF this l(2)] show ?thesis using that(2,3) l(1) f by (simp add: at_shost_def l(3) lookup_put)
  qed
  ultimately show ?thesis by simp
qed

section \<open>Steps\<close>

definition some_invalid :: "ProxyState \<Rightarrow> bool" where
  "some_invalid st \<longleftrightarrow> (\<exists>n pu. lookup (updates (ps_dag st)) n = Some pu \<and> valid_status pu = ConditionFalse)"

definition step_ok :: "bool \<Rightarrow> string \<Rightarrow> DetailedCondition \<Rightarrow> ProxyState \<Rightarrow> ('a \<Rightarrow> ProxyState \<Rightarrow> bool) \<Rightarrow> 'a proxy_step \<Rightarrow> bool" where
  "step_ok E host vc st Q res \<longleftrightarrow>
     (dag_ready (ps_dag st) \<longrightarrow>
        cond_grows vc (fst res) \<and> host_step host st (fst (snd res)) \<and>
        (case snd (snd res) of
           None \<Rightarrow> length (dc_Errors vc) < length (dc_Errors (fst res)) \<or> E \<and> some_invalid (fst (snd res))
         | Some x \<Rightarrow> Q x (fst (snd res))))"

lemma step_ok_then_do:
  assumes "step_ok E host vc st Q res"
    and "\<And>vc' st' x. dag_ready (ps_dag st') \<Longrightarrow> host_step host st st' \<Longrightarrow> Q x st' \<Longrightarrow> step_ok E host vc' st' R (k vc' st' x)"
  shows "step_ok E host vc st R (then_do res k)"
proof -
  obtain vc1 st1 r1 where res: "res = (vc1, st1, r1)" by (metis prod.exhaust)
  show ?thesis
  proof (cases r1)
    case None
    with assms(1) res show ?thesis by (simp add: step_ok_def then_do_def)
  next
    case (Some x)
    show ?thesis
      unfolding step_ok_def
    proof (intro impI)
      assume "dag_ready (ps_dag st)"
      then have one: "cond_grows vc vc1" "host_step host st st1" "Q x st1" "dag_ready (ps_dag st1)"
        using assms(1) Some res by (auto simp: step_ok_def host_step_def dag_step_def)
      with assms(2) [of st1 x vc1] have two: "step_ok E host vc1 st1 R (k vc1 st1 x)" by blast
      show "cond_grows vc (fst (then_do res k)) \<and> host_step host st (fst (snd (then_do res k))) \<and>
          (case snd (snd (then_do res k)) of None \<Rightarrow> length (dc_Errors vc) < length (dc_Errors (fst (then_do res k))) \<or> E \<and> some_invalid (fst (snd (then_do res k)))
           | Some y \<Rightarrow> R y (fst (snd (then_do res k))))"
        using one two cond_grows_trans [OF one(1)] host_step_trans [OF one(2)] cond_grows_length [OF one(1)]
        by (auto simp: then_do_def res Some step_ok_def split: option.splits)
    qed
  qed
qed

lemma step_ok_pre: "(dag_ready (ps_dag st) \<Longrightarrow> step_ok E host vc st Q res) \<Longrightarrow> step_ok E host vc st Q res"
  by (simp add: step_ok_def)

lemma step_ok_after:
  assumes "host_step host st st'" "step_ok E host vc st' Q res"
  shows "step_ok E host vc st Q res"
proof (rule step_ok_pre)
  assume "dag_ready (ps_dag st)"
  then have "dag_ready (ps_dag st')" using assms(1) by (simp add: host_step_def dag_step_def)
  then show ?thesis using assms host_step_trans by (auto simp: step_ok_def)
qed

lemma step_ok_conseq: "step_ok E host vc st Q res \<Longrightarrow> (\<And>x st'. Q x st' \<Longrightarrow> R x st') \<Longrightarrow> step_ok E host vc st R res"
  by (auto simp: step_ok_def split: option.splits)

lemma step_ok_sound: "sound_step vc res \<Longrightarrow> (\<And>vc' x. res = (vc', Some x) \<Longrightarrow> Q x st) \<Longrightarrow> step_ok E host vc st Q (in_state st res)"
  by (cases res) (auto simp: step_ok_def in_state_def sound_step_def split: option.splits)

lemma step_ok_stop: "step_ok E host vc st Q (stop t r m vc st)"
  by (simp add: step_ok_def stop_def AddError_length cond_grows_AddError)

lemma step_ok_return: "Q x st \<Longrightarrow> step_ok E host vc st Q (vc, st, Some x)"
  by (simp add: step_ok_def)

lemma step_ok_write: "host_step host st st' \<Longrightarrow> Q x st' \<Longrightarrow> step_ok E host vc st Q (vc, st', Some x)"
  by (simp add: step_ok_def)

lemma step_ok_if:
  "(b \<Longrightarrow> step_ok E host vc st Q x) \<Longrightarrow> (\<not> b \<Longrightarrow> step_ok E host vc st Q y) \<Longrightarrow> step_ok E host vc st Q (if b then x else y)"
  by simp

text \<open>The accessors never panic on a DAG whose listeners have their maps.\<close>

lemma ensure_hosts:
  assumes "dag_ready d" "lookup (dag_Listeners d) n = Some l"
  shows "ln_Protocol l = ''http'' \<Longrightarrow> EnsureVirtualHost n host d \<noteq> None"
    and "ln_Protocol l = ''https'' \<Longrightarrow> EnsureSecureVirtualHost n host d \<noteq> None"
proof -
  have "listener_ready l" using assms by (auto simp: dag_ready_def)
  then show "ln_Protocol l = ''http'' \<Longrightarrow> EnsureVirtualHost n host d \<noteq> None"
    "ln_Protocol l = ''https'' \<Longrightarrow> EnsureSecureVirtualHost n host d \<noteq> None"
    using assms(2)
    by (auto simp: EnsureVirtualHost_def EnsureSecureVirtualHost_def on_listener_def listener_ready_def Let_def
        listener_EnsureVirtualHost_def listener_EnsureSecureVirtualHost_def split: option.splits)
qed

definition https_name :: "string \<Rightarrow> DAG \<Rightarrow> bool" where
  "https_name n d \<longleftrightarrow> (\<exists>l. lookup (dag_Listeners d) n = Some l \<and> ln_Protocol l = ''https'')"

lemma https_listener_name_ok: "step_ok E host vc st (\<lambda>n st'. st' = st \<and> https_name n (ps_dag st')) (https_listener_name vc st)"
proof (rule step_ok_pre)
  assume "dag_ready (ps_dag st)"
  then have "https_name (ln_Name l) (ps_dag st)" if "GetSingleListener ''https'' (ps_dag st) = Ok l" for l
    using GetSingleListener_lookup [OF _ that] by (auto simp: https_name_def dag_ready_def)
  then show ?thesis
    by (auto simp: https_listener_name_def step_ok_stop intro: step_ok_return split: sum.splits)
qed

lemma ensure_svhost_ok:
  assumes "https_name n (ps_dag st)"
  shows "step_ok E host vc st (\<lambda>h st'. at_shost host h (ps_dag st')) (ensure_svhost n host vc st)"
proof (rule step_ok_pre)
  assume ready: "dag_ready (ps_dag st)"
  obtain l where l: "lookup (dag_Listeners (ps_dag st)) n = Some l" "ln_Protocol l = ''https''"
    using assms by (auto simp: https_name_def)
  from ensure_hosts(2) [OF ready this, of host] obtain i d' where e: "EnsureSecureVirtualHost n host (ps_dag st) = Some (i, d')" by auto
  from EnsureSecureVirtualHost_step [OF e, of l] ready l show ?thesis
    by (simp add: ensure_svhost_def e step_ok_def host_step_def orphans_shrink_def)
qed

lemma ensure_vhost_ok: "step_ok E host vc st (\<lambda>h st'. at_host host h (ps_dag st')) (ensure_vhost host vc st)"
proof (rule step_ok_pre)
  assume ready: "dag_ready (ps_dag st)"
  show ?thesis
  proof (cases "GetSingleListener ''http'' (ps_dag st)")
    case (Inl e)
    then show ?thesis by (simp add: ensure_vhost_def step_ok_stop)
  next
    case (Inr l)
    have "wf_dag (ps_dag st)" using ready by (simp add: dag_ready_def)
    from ensure_hosts(1) [OF ready GetSingleListener_lookup [OF this Inr], of host]
    obtain i d' where e: "EnsureVirtualHost (ln_Name l) host (ps_dag st) = Some (i, d')" by auto
    from EnsureVirtualHost_step [OF e, of l] ready GetSingleListener_lookup [OF _ Inr] show ?thesis
      by (simp add: ensure_vhost_def Inr e step_ok_def host_step_def orphans_shrink_def dag_ready_def)
  qed
qed

lemma at_host_step: "host_step host st st' \<Longrightarrow> dag_ready (ps_dag st) \<Longrightarrow> at_host host h (ps_dag st) \<Longrightarrow> at_host host h (ps_dag st')"
  unfolding host_step_def dag_step_def by blast

lemma at_shost_step: "host_step host st st' \<Longrightarrow> dag_ready (ps_dag st) \<Longrightarrow> at_shost host h (ps_dag st) \<Longrightarrow> at_shost host h (ps_dag st')"
  unfolding host_step_def dag_step_def by blast

section \<open>The functions of the processor\<close>

lemma root_checks_sound: "sound_step vc (root_checks source proxy vh vc)"
  unfolding root_checks_def by (intro sound_cases sound_step_error sound_step_ok cond_grows_refl)

lemma tls_checks_sound: "sound_step vc (tls_checks tls vc)"
  unfolding tls_checks_def Let_def
  by (intro sound_cases sound_step_error sound_step_ok) (simp_all add: cond_grows_AddError)

lemma lookup_or_fail_sound: "sound_step vc (lookup_or_fail nd other vc r)"
  by (auto simp: lookup_or_fail_def split: sum.splits lookup_error.splits prod.splits intro: sound_step_ok sound_step_error)

lemma fallback_certificate_sound: "sound_step vc (fallback_certificate lib source p proxy vh tls vc)"
  unfolding fallback_certificate_def by (intro sound_intros lookup_or_fail_sound)

lemma client_validation_sound: "sound_step vc (client_validation lib source proxy cv vc)"
  unfolding client_validation_def Let_def by (intro sound_intros lookup_or_fail_sound)

lemma jwt_error_sound: "sound_step vc (jwt_error r m vc)"
  unfolding jwt_error_def by (intro sound_intros)

lemma optional_duration_sound: "sound_step vc (optional_duration lib r m s vc)"
  unfolding optional_duration_def by (intro sound_intros)

lemma jwks_upstream_validation_sound: "sound_step vc (jwks_upstream_validation lib source proxy jwks u vc)"
  unfolding jwks_upstream_validation_def Let_def by (intro sound_intros lookup_or_fail_sound)

lemma jwt_provider_sound: "sound_step vc (jwt_provider lib source p proxy jp vc)"
  unfolding jwt_provider_def Let_def
  by (intro sound_intros jwt_error_sound jwks_upstream_validation_sound optional_duration_sound)

lemma tcp_cluster_sound: "sound_step vc (tcp_cluster lib source p hp tcp lb sv vc)"
  unfolding tcp_cluster_def Let_def by (intro sound_intros peerValidationContext_sound client_certificate_sound) simp_all

lemma tcp_clusters_loop_sound: "sound_step vc (tcp_clusters_loop lib source p hp tcp lb svs acc vc)"
proof (induction svs arbitrary: acc vc)
  case (Cons sv svs)
  show ?case unfolding tcp_clusters_loop.simps by (intro sound_intros tcp_cluster_sound Cons.IH)
qed (simp add: sound_step_ok)

lemma jwt_check_sound: "sound_step vc (jwt_check ps rs vc)"
  by (induction ps rs vc rule: jwt_check.induct) (auto simp: Let_def jwt_error_sound intro: sound_step_ok)

lemma jwt_providers_ok:
  "at_shost host h (ps_dag st) \<Longrightarrow> step_ok E host vc st (\<lambda>_ _. True) (jwt_providers lib source p proxy h jps names dflt vc st)"
proof (induction jps arbitrary: names dflt vc st)
  case (Cons jp jps)
  show ?case
    unfolding jwt_providers.simps
  proof (intro step_ok_if step_ok_stop step_ok_then_do [where Q = "\<lambda>_ st'. at_shost host h (ps_dag st')"] step_ok_sound jwt_provider_sound)
    show "at_shost host h (ps_dag st)" by (rule Cons.prems)
    fix vc' pr and st' :: ProxyState
    assume ready: "dag_ready (ps_dag st')" and at: "at_shost host h (ps_dag st')"
    let ?st = "write_svh h (\<lambda>s. s\<lparr>svh_JWTProviders := svh_JWTProviders s @ [pr]\<rparr>) st'"
    have w: "host_step host st' ?st" by (rule write_svh_step [OF at]) simp
    show "step_ok E host vc' st' (\<lambda>_ _. True) (jwt_providers lib source p proxy h jps (jwt1_Name jp # names)
        (if jwt1_Default jp then jwt1_Name jp else dflt) vc' ?st)"
      by (rule step_ok_after [OF w Cons.IH [OF at_shost_step [OF w ready at]]])
  qed
qed (simp add: step_ok_return)

text \<open>A setting of the secure host that is computed and then written through its pointer.\<close>

lemma step_ok_setting:
  assumes "at_shost host h (ps_dag st)" "sound_step vc res"
    and "\<And>x st'. at_shost host h (ps_dag st') \<Longrightarrow> host_step host st' (w x st')"
  shows "step_ok E host vc st (\<lambda>_ st'. at_shost host h (ps_dag st')) (then_do (in_state st res) (\<lambda>vc st x. (vc, w x st, Some ())))"
proof (intro step_ok_then_do [where Q = "\<lambda>_ st'. at_shost host h (ps_dag st')"] step_ok_sound assms(1,2))
  fix vc' x and st' :: ProxyState
  assume "dag_ready (ps_dag st')" "at_shost host h (ps_dag st')"
  then show "step_ok E host vc' st' (\<lambda>_ st'. at_shost host h (ps_dag st')) (vc', w x st', Some ())"
    using assms(3) at_shost_step by (intro step_ok_write) blast+
qed

lemma write_svh_optional_step:
  "at_shost host h (ps_dag st) \<Longrightarrow> (\<And>x s. vh_Name (svh_VirtualHost (f x s)) = vh_Name (svh_VirtualHost s)) \<Longrightarrow>
   host_step host st (case m of None \<Rightarrow> st | Some x \<Rightarrow> write_svh h (f x) st)"
  by (cases m) (simp_all add: write_svh_step)

lemma set_fallback_ok:
  "at_shost host h (ps_dag st) \<Longrightarrow>
   step_ok E host vc st (\<lambda>_ st'. at_shost host h (ps_dag st')) (set_fallback lib source p proxy vh tls h vc st)"
  unfolding set_fallback_def by (intro step_ok_setting fallback_certificate_sound write_svh_optional_step) simp_all

lemma set_client_validation_ok:
  "at_shost host h (ps_dag st) \<Longrightarrow>
   step_ok E host vc st (\<lambda>_ st'. at_shost host h (ps_dag st')) (set_client_validation lib source proxy tls h vc st)"
  unfolding set_client_validation_def
  by (cases "tls_ClientValidation tls")
    (auto simp: step_ok_return intro!: step_ok_setting client_validation_sound write_svh_step)

lemma set_authorization_ok:
  "at_shost host h (ps_dag st) \<Longrightarrow>
   step_ok E host vc st (\<lambda>_ st'. at_shost host h (ps_dag st')) (set_authorization lib p proxy vh h vc st)"
  unfolding set_authorization_def
  by (intro step_ok_setting computeSecureVirtualHostAuthorization_sound write_svh_optional_step) simp_all

lemma secure_host_ok: "step_ok E (vh1_Fqdn vh) vc st (\<lambda>_ _. True) (secure_host lib source p proxy vh tls vc st)"
  unfolding secure_host_def Let_def
proof (intro step_ok_then_do [OF step_ok_sound [OF lookup_or_fail_sound TrueI]] step_ok_then_do [OF https_listener_name_ok]
    step_ok_if step_ok_stop step_ok_then_do [OF ensure_svhost_ok])
  fix vc' h sec and st' :: ProxyState
  assume ready: "dag_ready (ps_dag st')" and at: "at_shost (vh1_Fqdn vh) h (ps_dag st')"
  let ?min = "TLSVersion (tls_MinimumProtocolVersion tls) ''1.2''"
  let ?max = "TLSVersion (tls_MaximumProtocolVersion tls) ''1.3''"
  let ?st = "write_svh h (\<lambda>s. s\<lparr>svh_Secret := Some sec, svh_MinTLSVersion := ?min, svh_MaxTLSVersion := ?max\<rparr>) st'"
  have w: "host_step (vh1_Fqdn vh) st' ?st" by (rule write_svh_step [OF at]) simp
  show "step_ok E (vh1_Fqdn vh) vc' st' (\<lambda>_ _. True)
      (then_do (set_fallback lib source p proxy vh tls h vc' ?st) (\<lambda>validCond st _.
       then_do (set_client_validation lib source proxy tls h validCond st) (\<lambda>validCond st _.
       then_do (set_authorization lib p proxy vh h validCond st) (\<lambda>validCond st _.
       jwt_providers lib source p proxy h (vh1_JWTProviders vh) [] [] validCond st))))"
    by (intro step_ok_after [OF w] step_ok_then_do [OF set_fallback_ok] step_ok_then_do [OF set_client_validation_ok]
        step_ok_then_do [OF set_authorization_ok] jwt_providers_ok) (assumption | rule at_shost_step [OF w ready at])+
qed (simp_all)

lemma tcp_services_ok: "step_ok E host vc st (\<lambda>_ _. True) (tcp_services lib source p hp tcp lb host vc st)"
  unfolding tcp_services_def
  by (intro step_ok_then_do [OF step_ok_sound [OF tcp_clusters_loop_sound TrueI]] step_ok_then_do [OF https_listener_name_ok]
      step_ok_then_do [OF ensure_svhost_ok] step_ok_write write_svh_step TrueI) simp_all

lemma host_step_unorphan: "host_step host st (st\<lparr>ps_orphaned := del n (ps_orphaned st)\<rparr>)"
  by (simp add: host_step_def orphans_shrink_def lookup_del)

lemma tcp_include_ok: "step_ok E host vc st (\<lambda>_ _. True) (tcp_include source hp visited inc vc st)"
  unfolding tcp_include_def Let_def
  by (auto simp: step_ok_stop split: option.splits
      intro!: step_ok_after [OF host_step_unorphan step_ok_stop] step_ok_write host_step_unorphan)

lemma host_step_grows: "st_grows st st' \<Longrightarrow> host_step host st st'"
  by (auto simp: st_grows_def host_step_def dag_step_def orphans_shrink_def dag_ready_def wf_dag_def isolated_def at_host_def at_shost_def)

lemma step_ok_cond: "cond_grows vc vc' \<Longrightarrow> step_ok E host vc' st Q res \<Longrightarrow> step_ok E host vc st Q res"
  by (auto simp: step_ok_def split: option.splits intro: cond_grows_trans dest: cond_grows_length)

lemma wf_condition_errors: "wf_condition vc \<Longrightarrow> dc_Type vc = ValidCondition \<Longrightarrow> dc_Errors vc \<noteq> [] \<Longrightarrow> dc_Status vc = ConditionFalse"
  by (auto simp: wf_condition_def IsPositivePolarity_def)

text \<open>The commit of the update of an included proxy, at the end of its visit.\<close>

lemma commit_included:
  assumes f: "ConditionFor (ProxyAccessor now q) ValidCondition = (ivc, iu)"
    and r: "step_ok True host ivc st Q (ivc', st', ok)"
  shows "step_ok True host vc st (\<lambda>_ _. True) (vc, commit_update (with_valid ivc' iu) st', ok)"
proof (rule step_ok_pre)
  assume ready: "dag_ready (ps_dag st)"
  let ?st = "commit_update (with_valid ivc' iu) st'"
  have fresh: "dc_Type ivc = ValidCondition" "wf_condition ivc" "dc_Errors ivc = []" using ConditionFor_fresh [OF f] by auto
  have g: "cond_grows ivc ivc'" "host_step host st st'" using r ready by (auto simp: step_ok_def)
  have valid: "has_valid (with_valid ivc' iu)" by (rule grown_valid [OF fresh(1,2) g(1)])
  have step: "host_step host st ?st" using g(2) host_step_grows [OF st_grows_commit [OF valid]] by (rule host_step_trans)
  have "some_invalid ?st" if "ok = None"
  proof (cases "some_invalid st'")
    case True
    then show ?thesis
      using updates_grow_commit [OF valid, of "updates (ps_dag st')"] unfolding some_invalid_def updates_grow_def commit_update_simps by blast
  next
    case False
    then have "dc_Errors ivc' \<noteq> []" using r ready that fresh(3) by (auto simp: step_ok_def)
    then have "valid_status (with_valid ivc' iu) = ConditionFalse"
      using g(1) fresh wf_condition_errors [of ivc'] by (auto simp: cond_grows_def)
    then show ?thesis by (auto simp: some_invalid_def commit_lookup [OF valid] intro!: exI [of _ "pu_Fullname (with_valid ivc' iu)"])
  qed
  then show ?thesis using step by (auto simp: step_ok_def split: option.splits)
qed

lemma processHTTPProxyTCPProxy_ok:
  "step_ok True host vc st (\<lambda>_ _. True) (processHTTPProxyTCPProxy lib source p vc hp visited host st)"
proof (induction lib source p vc hp visited host st rule: processHTTPProxyTCPProxy.induct)
  case (1 lib source p vc hp visited host st)
  show ?case
  proof (cases "spec_TCPProxy (px_Spec hp)")
    case tcp: (Some tcp)
    define inc where "inc = (if tcp1_Include tcp = None then tcp1_IncludesDeprecated tcp else tcp1_Include tcp)"
    define lb where "lb = loadBalancerPolicy (tcp1_LoadBalancerPolicy tcp)"
    define vc1 where "vc1 = (if lb \<in> {LoadBalancerPolicyCookie, LoadBalancerPolicyRequestHash} then AddWarning ConditionTypeTCPProxyError ''IgnoredField''
                 (''ignoring field '' @ go_quote ''Spec.TCPProxy.LoadBalancerPolicy'' @ ''; '' @ lb
                    @ '' load balancer policy is not supported for TCPProxies'') vc else vc)"
    note defs = inc_def [symmetric] lb_def [symmetric] vc1_def [symmetric]
    have g: "cond_grows vc vc1" by (simp add: vc1_def cond_grows_AddWarning)
    have rec: "step_ok True host vc1 st (\<lambda>_ _. True)
        (case tcp_include source hp (visited @ [hp]) i vc1 st of
           (vc, st, None) \<Rightarrow> (vc, st, None)
         | (vc, st, Some dest) \<Rightarrow>
             (case ConditionFor (ProxyAccessor (lib_now lib) dest) ValidCondition of
                (ivc, iu) \<Rightarrow>
                  (case processHTTPProxyTCPProxy lib source p ivc dest (visited @ [hp]) host st of
                     (ivc, st, ok) \<Rightarrow> (vc, commit_update (with_valid ivc iu) st, ok))))"
      if i: "inc = Some i" "tcp1_Services tcp = []" for i
    proof -
      obtain vc2 st2 r where t: "tcp_include source hp (visited @ [hp]) i vc1 st = (vc2, st2, r)" by (metis prod.exhaust)
      note ok = tcp_include_ok [of True host vc1 st source hp "visited @ [hp]" i, unfolded t]
      show ?thesis
      proof (cases r)
        case None
        with ok show ?thesis by (simp add: t step_ok_def)
      next
        case (Some dest)
        obtain ivc iu where f: "ConditionFor (ProxyAccessor (lib_now lib) dest) ValidCondition = (ivc, iu)" by force
        obtain ivc' st' res where r: "processHTTPProxyTCPProxy lib source p ivc dest (visited @ [hp]) host st2 = (ivc', st', res)"
          by (metis prod.exhaust)
        have "step_ok True host ivc st2 (\<lambda>_ _. True) (ivc', st', res)"
          using 1 [OF tcp refl inc_def _ lb_def refl vc1_def refl _ i(1) t [symmetric] refl Some f [symmetric]] i r by simp
        then have "step_ok True host vc2 st2 (\<lambda>_ _. True) (vc2, commit_update (with_valid ivc' iu) st', res)"
          by (rule commit_included [OF f])
        moreover have "host_step host st st2" "vc2 = vc1" using tcp_include_dest [OF t [unfolded Some]] host_step_unorphan by auto
        ultimately show ?thesis using step_ok_after by (simp add: t Some f r)
      qed
    qed
    have "step_ok True host vc1 st (\<lambda>_ _. True) (tcp_services lib source p hp tcp l host vc1 st)" for l by (rule tcp_services_ok)
    with rec show ?thesis
      unfolding processHTTPProxyTCPProxy.simps [of lib source p vc] tcp option.case Let_def defs
      by (auto simp: step_ok_stop intro!: step_ok_cond [OF g] split: option.split)
  qed (simp add: processHTTPProxyTCPProxy.simps step_ok_return)
qed

lemma host_rate_limit_ok:
  assumes "\<And>f. (\<And>v. vh_Name (f v) = vh_Name v) \<Longrightarrow> host_step host st (write f st)"
    and "\<And>st'. host_step host st st' \<Longrightarrow> Q st'"
  shows "step_ok E host vc st (\<lambda>_. Q) (host_rate_limit lib p vh write vc st)"
proof -
  obtain vc' rlp where r: "computeVirtualHostRateLimitPolicy lib vh (hpp_GlobalRateLimitService p) vc = (vc', rlp)" by force
  have "sound_step vc (vc', rlp)" using computeVirtualHostRateLimitPolicy_sound r by metis
  then show ?thesis
    using assms by (auto simp: host_rate_limit_def r step_ok_def sound_step_def split: option.splits)
qed

lemma host_ip_filter_ok:
  assumes "\<And>f. (\<And>v. vh_Name (f v) = vh_Name v) \<Longrightarrow> host_step host st (write f st)"
    and "\<And>st'. host_step host st st' \<Longrightarrow> Q st'"
  shows "step_ok E host vc st (\<lambda>_. Q) (host_ip_filter lib vh write vc st)"
proof -
  obtain allow rules err vc' where r: "toIPFilterRules lib (vh1_IPAllowFilterPolicy vh) (vh1_IPDenyFilterPolicy vh) vc = ((allow, rules, err), vc')"
    by (metis prod.exhaust)
  have g: "cond_grows vc vc'" using toIPFilterRules_sound [OF r] by (simp add: sound_step_def)
  show ?thesis
    using assms g cond_grows_AddError [OF g] cond_grows_length [OF g]
    by (auto simp: host_ip_filter_def r step_ok_def stop_def AddError_length Let_def le_imp_less_Suc split: option.splits)
qed

lemma addRoutes_name [simp]: "vh_Name (addRoutes rs v) = vh_Name v"
  unfolding addRoutes_def by (induction rs arbitrary: v) (simp_all add: AddRoute_frame)

lemma cors_sound:
  "sound_step vc (or_fail ConditionTypeCORSError r m vc (toCORSPolicy lib c) (\<lambda>cp. (vc, Some cp)))"
  by (intro sound_intros)

lemma global_authorization_grows:
  "cond_grows vc (case g of None \<Rightarrow> vc | Some auth \<Rightarrow> if b then vc else fst (computeVirtualHostAuthorization lib auth vc proxy d))"
  using computeVirtualHostAuthorization_sound by (auto simp: sound_step_def split: option.splits)

text \<open>What is known of a pointer to a host: it stays with that host whatever is done to hosts of this name.\<close>

definition held :: "(string \<Rightarrow> string \<times> nat \<Rightarrow> DAG \<Rightarrow> bool) \<Rightarrow> string \<Rightarrow> string \<times> nat \<Rightarrow> ProxyState \<Rightarrow> bool" where
  "held at host h st \<longleftrightarrow> dag_ready (ps_dag st) \<and> at host h (ps_dag st)"

lemma held_step:
  "host_step host st st' \<Longrightarrow> held at_host host h st \<Longrightarrow> held at_host host h st'"
  "host_step host st st' \<Longrightarrow> held at_shost host h st \<Longrightarrow> held at_shost host h st'"
  unfolding held_def host_step_def dag_step_def by blast+

lemma held_write:
  "held at_host host h st \<Longrightarrow> (\<And>v. vh_Name (f v) = vh_Name v) \<Longrightarrow> host_step host st (write_vh h f st)"
  "held at_shost host h st \<Longrightarrow> (\<And>v. vh_Name (f v) = vh_Name v) \<Longrightarrow> host_step host st (write_svh h (on_virtual_host f) st)"
  by (simp_all add: held_def write_vh_step write_svh_step on_virtual_host_def)

text \<open>A plain and a secure host that have been given routes.\<close>

definition routed :: "string \<Rightarrow> Route list \<Rightarrow> DAG \<Rightarrow> bool" where
  "routed host routes d \<longleftrightarrow>
     (\<exists>n l v. lookup (dag_Listeners d) n = Some l \<and> ln_Protocol l = ''http'' \<and> vh_Name v = host \<and> addRoutes routes v \<in> set (ln_VirtualHosts l))"

definition srouted :: "string \<Rightarrow> Route list \<Rightarrow> DAG \<Rightarrow> bool" where
  "srouted host routes d \<longleftrightarrow>
     (\<exists>n l s. lookup (dag_Listeners d) n = Some l \<and> ln_Protocol l = ''https'' \<and> vh_Name (svh_VirtualHost s) = host \<and>
        on_virtual_host (addRoutes routes) s \<in> set (ln_SecureVirtualHosts l))"

lemma routed_write:
  "held at_host host h st \<Longrightarrow> routed host routes (ps_dag (write_vh h (addRoutes routes) st))"
  by (auto simp: held_def at_host_def routed_def write_vh_def on_dag_def write_vhost_def lookup_put
      intro!: exI [of _ "fst h"] set_update_memI)

lemma srouted_write:
  "held at_shost host h st \<Longrightarrow> srouted host routes (ps_dag (write_svh h (on_virtual_host (addRoutes routes)) st))"
  by (auto simp: held_def at_shost_def srouted_def write_svh_def on_dag_def write_svhost_def lookup_put
      intro!: exI [of _ "fst h"] set_update_memI)

lemma insecure_host_ok:
  "step_ok E (vh1_Fqdn vh) vc st (\<lambda>_ st'. routed (vh1_Fqdn vh) routes (ps_dag st')) (insecure_host lib p proxy vh routes vc st)"
proof -
  let ?host = "vh1_Fqdn vh"
  have policies: "step_ok E ?host vc st (\<lambda>_ st'. routed ?host routes (ps_dag st'))
      (then_do (host_rate_limit lib p vh (write_vh h) vc (write_vh h (\<lambda>v. v\<lparr>vh_CORSPolicy := cp\<rparr>) st)) (\<lambda>validCond st _.
       let validCond = (case hpp_GlobalExternalAuthorization p of None \<Rightarrow> validCond
                        | Some auth \<Rightarrow> if DisableAuthorization vh then validCond
                                        else fst (computeVirtualHostAuthorization lib auth validCond proxy (ps_dag st)))
       in then_do (host_ip_filter lib vh (write_vh h) validCond st) (\<lambda>validCond st _.
          (validCond, write_vh h (addRoutes routes) st, Some cp))))"
    if at: "held at_host ?host h st" for vc st h cp
  proof -
    have w: "host_step ?host st (write_vh h (\<lambda>v. v\<lparr>vh_CORSPolicy := cp\<rparr>) st)" by (intro held_write(1) [OF at]) simp
    note at1 = held_step(1) [OF w at]
    show ?thesis
      unfolding Let_def
      by (rule step_ok_after [OF w],
          rule step_ok_then_do [OF host_rate_limit_ok [where Q = "held at_host ?host h"] ],
          erule held_write(1) [OF at1], erule held_step(1) [OF _ at1],
          rule step_ok_cond [OF global_authorization_grows],
          rule step_ok_then_do [OF host_ip_filter_ok [where Q = "held at_host ?host h"]])
        (auto intro: held_step(1) intro!: held_write(1) step_ok_write routed_write)
  qed
  show ?thesis
    unfolding insecure_host_def
    by (intro step_ok_then_do [OF ensure_vhost_ok] step_ok_then_do [OF step_ok_sound [where Q = "\<lambda>_. held at_host ?host h" for h, OF cors_sound]] policies)
      (auto simp: held_def)
qed

lemma secure_routes_ok:
  "step_ok E (vh1_Fqdn vh) vc st (\<lambda>_ st'. srouted (vh1_Fqdn vh) routes (ps_dag st')) (secure_routes lib p vh cp routes vc st)"
proof -
  let ?host = "vh1_Fqdn vh"
  have policies: "step_ok E ?host vc st (\<lambda>_ st'. srouted ?host routes (ps_dag st'))
      (then_do (host_rate_limit lib p vh (\<lambda>f. write_svh h (on_virtual_host f)) vc
                 (write_svh h (on_virtual_host (\<lambda>v. v\<lparr>vh_CORSPolicy := cp\<rparr>)) st)) (\<lambda>validCond st _.
       then_do (host_ip_filter lib vh (\<lambda>f. write_svh h (on_virtual_host f)) validCond st) (\<lambda>validCond st _.
       in_state (write_svh h (on_virtual_host (addRoutes routes)) st)
         (jwt_check (case read_svh h (write_svh h (on_virtual_host (addRoutes routes)) st) of None \<Rightarrow> [] | Some s \<Rightarrow> svh_JWTProviders s)
            routes validCond))))"
    if at: "held at_shost ?host h st" for vc st h
  proof -
    have w: "host_step ?host st (write_svh h (on_virtual_host (\<lambda>v. v\<lparr>vh_CORSPolicy := cp\<rparr>)) st)"
      by (intro held_write(2) [OF at]) simp
    note at1 = held_step(2) [OF w at]
    show ?thesis
      by (rule step_ok_after [OF w],
          rule step_ok_then_do [OF host_rate_limit_ok [where Q = "held at_shost ?host h"] ],
          erule held_write(2) [OF at1], erule held_step(2) [OF _ at1],
          rule step_ok_then_do [OF host_ip_filter_ok [where Q = "held at_shost ?host h"]])
        (auto intro: held_step(2) intro!: held_write(2) step_ok_after [OF held_write(2) step_ok_sound [OF jwt_check_sound]] srouted_write)
  qed
  show ?thesis
    unfolding secure_routes_def Let_def
    by (intro step_ok_then_do [OF https_listener_name_ok] step_ok_then_do [OF ensure_svhost_ok] policies) (auto simp: held_def)
qed

lemma computeRoutes_ok:
  assumes "computeRoutes env proxy conds visited vc st = (vc', st', routes)" "step_ok E host vc' st' Q res"
  shows "step_ok E host vc st Q res"
  using computeRoutes_grows(1) [OF assms(1)] assms(2) step_ok_cond step_ok_after host_step_grows by metis

section \<open>Frames\<close>

text \<open>What a step does not touch, as a function of the state that it keeps.\<close>

definition keeps :: "(ProxyState \<Rightarrow> 'b) \<Rightarrow> ProxyState \<Rightarrow> 'a proxy_step \<Rightarrow> bool" where
  "keeps f st res \<longleftrightarrow> f (fst (snd res)) = f st"

lemma keeps_intros:
  "keeps f st res \<Longrightarrow> (\<And>vc st' x. keeps f st' (k vc st' x)) \<Longrightarrow> keeps f st (then_do res k)"
  "keeps f st (in_state st r)" "keeps f st (stop t rs m vc st)" "keeps f st (vc, st, r')"
  "(b \<Longrightarrow> keeps f st x) \<Longrightarrow> (\<not> b \<Longrightarrow> keeps f st y) \<Longrightarrow> keeps f st (if b then x else y)"
  "(m' = None \<Longrightarrow> keeps f st x) \<Longrightarrow> (\<And>a. m' = Some a \<Longrightarrow> keeps f st (h a)) \<Longrightarrow> keeps f st (case_option x h m')"
  "f st' = f st \<Longrightarrow> keeps f st' res' \<Longrightarrow> keeps f st res'"
  by (auto simp: keeps_def in_state_def stop_def then_do_def split: prod.splits option.splits)

definition svh_blind :: "(ProxyState \<Rightarrow> 'b) \<Rightarrow> bool" where
  "svh_blind f \<longleftrightarrow> (\<forall>h g st. f (write_svh h g st) = f st) \<and> (\<forall>n host vc st. keeps f st (ensure_svhost n host vc st))"

definition vh_blind :: "(ProxyState \<Rightarrow> 'b) \<Rightarrow> bool" where
  "vh_blind f \<longleftrightarrow> (\<forall>h g st. f (write_vh h g st) = f st) \<and> (\<forall>host vc st. keeps f st (ensure_vhost host vc st))"

lemma svh_blindD: "svh_blind f \<Longrightarrow> f (write_svh h g st) = f st" "svh_blind f \<Longrightarrow> keeps f st (ensure_svhost n host vc st)"
  unfolding svh_blind_def by blast+

lemma vh_blindD: "vh_blind f \<Longrightarrow> f (write_vh h g st) = f st" "vh_blind f \<Longrightarrow> keeps f st (ensure_vhost host vc st)"
  unfolding vh_blind_def by blast+

lemma https_listener_name_keeps: "keeps f st (https_listener_name vc st)"
  by (auto simp: https_listener_name_def keeps_def stop_def split: sum.splits)

lemma host_rate_limit_keeps: "(\<And>g st. f (write g st) = f st) \<Longrightarrow> keeps f st (host_rate_limit lib p vh write vc st)"
  by (simp add: host_rate_limit_def keeps_def split: prod.splits)

lemma host_ip_filter_keeps: "(\<And>g st. f (write g st) = f st) \<Longrightarrow> keeps f st (host_ip_filter lib vh write vc st)"
  by (simp add: host_ip_filter_def keeps_def stop_def Let_def split: prod.splits option.splits)

lemma jwt_providers_keeps: "svh_blind f \<Longrightarrow> keeps f st (jwt_providers lib source p proxy h jps names dflt vc st)"
proof (induction jps arbitrary: names dflt vc st)
  case (Cons jp jps)
  have "keeps f st' (jwt_providers lib source p proxy h jps ns df vc' (write_svh h g st'))" for st' ns df vc' g
    using Cons.IH [OF Cons.prems] svh_blindD(1) [OF Cons.prems] by (simp add: keeps_def)
  then show ?case unfolding jwt_providers.simps by (intro keeps_intros(1-5)) auto
qed (simp add: keeps_def)

lemma secure_host_keeps:
  assumes "svh_blind f"
  shows "keeps f st (secure_host lib source p proxy vh tls vc st)"
proof -
  note w = svh_blindD [OF assms]
  have opt: "f (case m of None \<Rightarrow> st | Some x \<Rightarrow> write_svh h (g x) st) = f st" for m h g st by (simp add: w split: option.split)
  have "keeps f st (set_fallback lib source p proxy vh tls h vc (write_svh h g st))" for st h vc g
    unfolding set_fallback_def by (intro keeps_intros(1)) (simp_all add: keeps_def in_state_def opt w)
  moreover have "keeps f st (set_client_validation lib source proxy tls h vc st)" for st h vc
    unfolding set_client_validation_def by (intro keeps_intros(1,2,4,6)) (simp add: keeps_def w)
  moreover have "keeps f st (set_authorization lib p proxy vh h vc st)" for st h vc
    unfolding set_authorization_def by (intro keeps_intros(1,2)) (simp add: keeps_def opt)
  ultimately show ?thesis
    unfolding secure_host_def Let_def
    by (intro keeps_intros(1-5) https_listener_name_keeps w(2) jwt_providers_keeps assms) auto
qed

lemma tcp_services_keeps: "svh_blind f \<Longrightarrow> keeps f st (tcp_services lib source p hp tcp lb host vc st)"
  unfolding tcp_services_def
  by (intro keeps_intros(1,2) https_listener_name_keeps svh_blindD(2)) (auto simp: keeps_def svh_blindD)

lemma secure_routes_keeps:
  assumes "svh_blind f"
  shows "keeps f st (secure_routes lib p vh cp routes vc st)"
proof -
  note w = svh_blindD [OF assms]
  have "keeps f st (host_rate_limit lib p vh (\<lambda>g. write_svh h (on_virtual_host g)) vc (write_svh h g' st))" for st h vc g'
    by (rule keeps_intros(7) [where f = f, OF w(1)], rule host_rate_limit_keeps) (rule w)
  moreover have "keeps f st (host_ip_filter lib vh (\<lambda>g. write_svh h (on_virtual_host g)) vc st)" for st h vc
    by (rule host_ip_filter_keeps) (rule w)
  moreover have "keeps f st (in_state (write_svh h g st) r)" for st h g and r :: "DetailedCondition \<times> unit option"
    by (simp add: keeps_def in_state_def w)
  ultimately show ?thesis
    unfolding secure_routes_def Let_def by (intro keeps_intros(1) https_listener_name_keeps w(2))
qed

lemma insecure_host_keeps:
  assumes "vh_blind f"
  shows "keeps f st (insecure_host lib p proxy vh routes vc st)"
proof -
  note w = vh_blindD [OF assms]
  have "keeps f st (host_rate_limit lib p vh (write_vh h) vc (write_vh h g' st))" for st h vc g'
    by (rule keeps_intros(7) [where f = f, OF w(1)], rule host_rate_limit_keeps) (rule w)
  moreover have "keeps f st (host_ip_filter lib vh (write_vh h) vc st)" for st h vc
    by (rule host_ip_filter_keeps) (rule w)
  ultimately show ?thesis
    unfolding insecure_host_def Let_def by (intro keeps_intros(1,2) w(2)) (auto simp: keeps_def w)
qed

lemma orphans_blind: "svh_blind ps_orphaned" "vh_blind ps_orphaned"
  by (auto simp: svh_blind_def vh_blind_def write_svh_def write_vh_def on_dag_def keeps_def ensure_svhost_def ensure_vhost_def stop_def
      split: option.splits sum.splits)

section \<open>Root proxies\<close>

lemma root_tls_ok: "step_ok E (vh1_Fqdn vh) vc st (\<lambda>_ _. True) (root_tls lib source p proxy vh vc st)"
  unfolding root_tls_def
  by (cases "vh1_TLS vh")
    (auto simp: step_ok_return intro!: step_ok_then_do [OF step_ok_sound [OF tls_checks_sound TrueI]] secure_host_ok)

lemma root_tcp_ok:
  "step_ok (spec_TCPProxy (px_Spec proxy) \<noteq> None) (vh1_Fqdn vh) vc st (\<lambda>_ _. True) (root_tcp lib source p proxy vh vc st)"
  using processHTTPProxyTCPProxy_ok [of "vh1_Fqdn vh" vc st lib source p proxy "[]"]
  by (auto simp: root_tcp_def step_ok_return step_ok_stop)

text \<open>The routes that were computed for a root proxy are those of its hosts.\<close>

definition routes_of :: "library \<Rightarrow> KubernetesCache \<Rightarrow> HTTPProxyProcessor \<Rightarrow> map_order \<Rightarrow> HTTPProxy \<Rightarrow> VirtualHost_v1 \<Rightarrow> Route list \<Rightarrow> bool" where
  "routes_of lib source p ord proxy vh routes \<longleftrightarrow>
     (\<exists>jwt vc st. routes = snd (snd (computeRoutes (root_env lib source p ord vh jwt) proxy [] [] vc st)))"

definition served :: "library \<Rightarrow> KubernetesCache \<Rightarrow> HTTPProxyProcessor \<Rightarrow> map_order \<Rightarrow> HTTPProxy \<Rightarrow> VirtualHost_v1 \<Rightarrow> DAG \<Rightarrow> bool" where
  "served lib source p ord proxy vh d \<longleftrightarrow>
     (\<exists>routes. routes_of lib source p ord proxy vh routes \<and> routed (vh1_Fqdn vh) routes d \<and>
        (vh1_TLS vh \<noteq> None \<and> spec_TCPProxy (px_Spec proxy) = None \<longrightarrow> srouted (vh1_Fqdn vh) routes d))"

definition plain_hosts :: "ProxyState \<Rightarrow> string \<Rightarrow> (string \<times> VirtualHost list) option" where
  "plain_hosts st n = map_option (\<lambda>l. (ln_Protocol l, ln_VirtualHosts l)) (lookup (dag_Listeners (ps_dag st)) n)"

lemma plain_hosts_blind: "svh_blind plain_hosts"
proof -
  have "plain_hosts (write_svh h g st) = plain_hosts st" for h g st
    by (rule ext) (auto simp: plain_hosts_def write_svh_def on_dag_def write_svhost_def lookup_put split: option.split)
  moreover have "keeps plain_hosts st (ensure_svhost n host vc st)" for n host vc st
  proof (cases "EnsureSecureVirtualHost n host (ps_dag st)")
    case (Some r)
    obtain i d where r: "r = (i, d)" by force
    obtain l l' where l: "lookup (dag_Listeners (ps_dag st)) n = Some l" "listener_EnsureSecureVirtualHost host l = Some (i, l')"
        "d = (ps_dag st)\<lparr>dag_Listeners := put n l' (dag_Listeners (ps_dag st))\<rparr>"
      using Some r unfolding EnsureSecureVirtualHost_def by (auto elim: on_listener_Some)
    then show ?thesis
      using Some r EnsureSecureVirtualHost_frame [OF l(2)] by (auto simp: ensure_svhost_def keeps_def plain_hosts_def lookup_put)
  qed (simp add: ensure_svhost_def keeps_def)
  ultimately show ?thesis by (simp add: svh_blind_def)
qed

lemma routed_plain: "plain_hosts st' = plain_hosts st \<Longrightarrow> routed host routes (ps_dag st) \<Longrightarrow> routed host routes (ps_dag st')"
proof -
  assume same: "plain_hosts st' = plain_hosts st" and "routed host routes (ps_dag st)"
  then obtain n l v where l: "lookup (dag_Listeners (ps_dag st)) n = Some l" "ln_Protocol l = ''http''" "vh_Name v = host"
      "addRoutes routes v \<in> set (ln_VirtualHosts l)" by (auto simp: routed_def)
  have "plain_hosts st' n = Some (''http'', ln_VirtualHosts l)" using same l(1,2) by (simp add: plain_hosts_def)
  with l(3,4) show "routed host routes (ps_dag st')" unfolding plain_hosts_def routed_def by fastforce
qed

lemma root_routes_ok:
  "step_ok E (vh1_Fqdn vh) vc st (\<lambda>_ st'. served lib source p ord proxy vh (ps_dag st'))
     (root_routes lib source p ord proxy vh jwt vc st)"
proof -
  obtain vc' st' rs where r: "computeRoutes (root_env lib source p ord vh jwt) proxy [] [] vc st = (vc', st', rs)" by (metis prod.exhaust)
  then have rs: "routes_of lib source p ord proxy vh rs" unfolding routes_of_def by (metis snd_conv)
  have "step_ok E (vh1_Fqdn vh) vc1 st1 (\<lambda>_ st'. served lib source p ord proxy vh (ps_dag st'))
      (if vh1_TLS vh \<noteq> None \<and> spec_TCPProxy (px_Spec proxy) = None then secure_routes lib p vh cp rs vc1 st1 else (vc1, st1, Some ()))"
    if "routed (vh1_Fqdn vh) rs (ps_dag st1)" for vc1 st1 cp
  proof (rule step_ok_if)
    have "routed (vh1_Fqdn vh) rs (ps_dag (fst (snd (secure_routes lib p vh cp rs vc1 st1))))"
      using secure_routes_keeps [OF plain_hosts_blind] that routed_plain unfolding keeps_def by blast
    then show "step_ok E (vh1_Fqdn vh) vc1 st1 (\<lambda>_ st'. served lib source p ord proxy vh (ps_dag st')) (secure_routes lib p vh cp rs vc1 st1)"
      using secure_routes_ok [of E vh vc1 st1 rs lib p cp] rs unfolding step_ok_def served_def by (auto split: option.splits)
  qed (use that rs in \<open>auto simp: served_def intro!: step_ok_return\<close>)
  then show ?thesis
    unfolding root_routes_def r prod.case
    by (intro computeRoutes_ok [OF r] step_ok_then_do [OF insecure_host_ok])
qed

lemma compute_root_ok:
  "step_ok (spec_TCPProxy (px_Spec proxy) \<noteq> None) (vh1_Fqdn vh) vc st (\<lambda>_ st'. served lib source p ord proxy vh (ps_dag st'))
     (compute_root lib source p ord proxy vh vc st)"
  unfolding compute_root_def
  by (intro step_ok_then_do [OF step_ok_sound [OF root_checks_sound TrueI]] step_ok_then_do [OF root_tls_ok]
      step_ok_then_do [OF root_tcp_ok] root_routes_ok)

end
