(* ===== verification/HTTP_Proxy_Run.thy ===== *)
theory HTTP_Proxy_Run
  imports HTTP_Proxy_Steps
begin

text \<open>
  What a run of the HTTPProxy processor does to the DAG and to the status cache: who owns the virtual hosts it adds, that
  every proxy is given a status, and what a proxy without errors is served with.
\<close>

section \<open>One proxy\<close>

lemma commit_valid_step: "has_valid pu \<Longrightarrow> host_step host st (commit_update pu st)"
  using host_step_grows st_grows_commit by blast

text \<open>The update a visit of a proxy ends with, whatever the visit made of the condition.\<close>

definition visit_update :: "library \<Rightarrow> HTTPProxy \<Rightarrow> string \<Rightarrow> DetailedCondition \<Rightarrow> ProxyUpdate" where
  "visit_update lib proxy vhost vc = with_valid vc ((snd (ConditionFor (ProxyAccessor (lib_now lib) proxy) ValidCondition))\<lparr>pu_Vhost := vhost\<rparr>)"

definition fresh_cond :: "library \<Rightarrow> HTTPProxy \<Rightarrow> DetailedCondition" where
  "fresh_cond lib proxy = fst (ConditionFor (ProxyAccessor (lib_now lib) proxy) ValidCondition)"

lemma fresh_cond:
  "dc_Type (fresh_cond lib proxy) = ValidCondition" "wf_condition (fresh_cond lib proxy)" "dc_Errors (fresh_cond lib proxy) = []"
  using ConditionFor_fresh [OF prod.collapse [symmetric]] unfolding fresh_cond_def by blast+

lemma ConditionFor_vhost:
  "ConditionFor (pu\<lparr>pu_Vhost := v\<rparr>) c = (fst (ConditionFor pu c), (snd (ConditionFor pu c))\<lparr>pu_Vhost := v\<rparr>)"
  by (simp add: ConditionFor_def new_condition_def Let_def split: option.split)

lemma visit_update:
  assumes "cond_grows (fresh_cond lib proxy) vc"
  shows "has_valid (visit_update lib proxy v vc)"
    and "pu_Fullname (visit_update lib proxy v vc) = NamespacedNameOf (px_Namespace proxy) (px_Name proxy)"
    and "dc_Errors vc \<noteq> [] \<Longrightarrow> valid_status (visit_update lib proxy v vc) = ConditionFalse"
proof -
  show "has_valid (visit_update lib proxy v vc)"
    unfolding visit_update_def by (rule grown_valid [OF fresh_cond(1,2) assms])
  show "pu_Fullname (visit_update lib proxy v vc) = NamespacedNameOf (px_Namespace proxy) (px_Name proxy)"
    using ConditionFor_fresh [OF prod.collapse [symmetric]] by (simp add: visit_update_def)
  show "dc_Errors vc \<noteq> [] \<Longrightarrow> valid_status (visit_update lib proxy v vc) = ConditionFalse"
    using assms fresh_cond wf_condition_errors [of vc] by (auto simp: visit_update_def cond_grows_def)
qed

lemma computeHTTPProxy_eq:
  "computeHTTPProxy lib source p ord proxy st =
     (case spec_VirtualHost (px_Spec proxy) of
        None \<Rightarrow> commit_update (visit_update lib proxy '''' (fresh_cond lib proxy))
                 (st\<lparr>ps_orphaned := put (NamespacedNameOf (px_Namespace proxy) (px_Name proxy)) True (ps_orphaned st)\<rparr>)
      | Some vh \<Rightarrow>
          (case compute_root lib source p ord proxy vh (fresh_cond lib proxy) st of
             (vc, st', _) \<Rightarrow> commit_update (visit_update lib proxy (if isBlank (vh1_Fqdn vh) then '''' else vh1_Fqdn vh) vc) st'))"
proof -
  obtain vc pu where f: "ConditionFor (ProxyAccessor (lib_now lib) proxy) ValidCondition = (vc, pu)" by force
  then have v: "pu_Vhost pu = ''''"
    by (auto simp: ConditionFor_def ProxyAccessor_def Let_def)
  then have "pu\<lparr>pu_Vhost := ''''\<rparr> = pu" by simp
  with f show ?thesis
    by (auto simp: computeHTTPProxy_def visit_update_def fresh_cond_def Let_def split: option.split prod.split)
qed

lemma computeHTTPProxy_root:
  assumes "spec_VirtualHost (px_Spec proxy) = Some vh" "dag_ready (ps_dag st)"
  shows "host_step (vh1_Fqdn vh) st (computeHTTPProxy lib source p ord proxy st)"
    and "\<exists>vc v st1. computeHTTPProxy lib source p ord proxy st = commit_update (visit_update lib proxy v vc) st1 \<and>
           cond_grows (fresh_cond lib proxy) vc \<and>
           (snd (root_checks source proxy vh (fresh_cond lib proxy)) = None \<longrightarrow> dc_Errors vc \<noteq> [] \<and> st1 = st)"
proof -
  obtain vc st1 r where c: "compute_root lib source p ord proxy vh (fresh_cond lib proxy) st = (vc, st1, r)" by (metis prod.exhaust)
  note ok = compute_root_ok [of proxy vh "fresh_cond lib proxy" st lib source p ord, unfolded c step_ok_def, rule_format, OF assms(2)]
  then have g: "cond_grows (fresh_cond lib proxy) vc" "host_step (vh1_Fqdn vh) st st1" by simp_all
  have eq: "computeHTTPProxy lib source p ord proxy st =
      commit_update (visit_update lib proxy (if isBlank (vh1_Fqdn vh) then [] else vh1_Fqdn vh) vc) st1"
    using assms(1) c by (simp add: computeHTTPProxy_eq)
  show "host_step (vh1_Fqdn vh) st (computeHTTPProxy lib source p ord proxy st)"
    unfolding eq using g(2) commit_valid_step [OF visit_update(1) [OF g(1)]] by (rule host_step_trans)
  have "dc_Errors vc \<noteq> [] \<and> st1 = st" if none: "snd (root_checks source proxy vh (fresh_cond lib proxy)) = None"
  proof -
    have "compute_root lib source p ord proxy vh (fresh_cond lib proxy) st = (fst (root_checks source proxy vh (fresh_cond lib proxy)), st, None)"
      using none by (simp add: compute_root_def then_do_def in_state_def)
    with c root_checks_sound [of "fresh_cond lib proxy" source proxy vh] none show ?thesis by (auto simp: sound_step_def)
  qed
  with eq g(1) show "\<exists>vc v st1. computeHTTPProxy lib source p ord proxy st = commit_update (visit_update lib proxy v vc) st1 \<and>
      cond_grows (fresh_cond lib proxy) vc \<and>
      (snd (root_checks source proxy vh (fresh_cond lib proxy)) = None \<longrightarrow> dc_Errors vc \<noteq> [] \<and> st1 = st)"
    by (intro exI [of _ vc] exI [of _ "if isBlank (vh1_Fqdn vh) then [] else vh1_Fqdn vh"] exI [of _ st1]) simp
qed

text \<open>
  C3. Proxies are isolated from each other: processing a root proxy leaves every virtual host with another name, the rest
  of every listener and the extension clusters as they were, keeps the DAG well formed, and never turns the
  status of any proxy from invalid to valid.
\<close>

theorem computeHTTPProxy_isolated:
  assumes "spec_VirtualHost (px_Spec proxy) = Some vh" and "dag_ready (ps_dag st)"
  shows "dag_ready (ps_dag (computeHTTPProxy lib source p ord proxy st)) \<and>
         isolated (vh1_Fqdn vh) (ps_dag st) (ps_dag (computeHTTPProxy lib source p ord proxy st)) \<and>
         updates_grow (updates (ps_dag st)) (updates (ps_dag (computeHTTPProxy lib source p ord proxy st)))"
  using computeHTTPProxy_root(1) [OF assms] assms(2) unfolding host_step_def dag_step_def by blast

section \<open>The proxies that are processed\<close>

definition fqdn_of :: "HTTPProxy \<Rightarrow> string option" where
  "fqdn_of proxy = map_option (\<lambda>vh. strings_ToLower (vh1_Fqdn vh)) (spec_VirtualHost (px_Spec proxy))"

definition same_fqdn :: "HTTPProxy \<Rightarrow> HTTPProxy list \<Rightarrow> HTTPProxy list" where
  "same_fqdn proxy ps = filter (\<lambda>q. fqdn_of q = fqdn_of proxy) ps"

lemma group_fqdns_eq:
  "\<exists>m'. group_fqdns ps (valid, m) = (valid @ filter (\<lambda>q. fqdn_of q = None) ps, m') \<and> (wf_gomap m \<longrightarrow> wf_gomap m') \<and>
     (\<forall>f. lookup m' f =
        (case (case lookup m f of None \<Rightarrow> [] | Some qs \<Rightarrow> qs) @ filter (\<lambda>q. fqdn_of q = Some f) ps of
           [] \<Rightarrow> lookup m f | qs \<Rightarrow> Some qs))"
proof (induction ps arbitrary: valid m)
  case Nil
  then show ?case by (auto split: option.splits list.splits)
next
  case (Cons q ps)
  show ?case
  proof (cases "spec_VirtualHost (px_Spec q)")
    case None
    then have q: "fqdn_of q = None" by (simp add: fqdn_of_def)
    from Cons.IH [of "valid @ [q]" m] None q show ?thesis by simp
  next
    case (Some vh)
    let ?f = "strings_ToLower (vh1_Fqdn vh)"
    let ?m = "put ?f ((case lookup m ?f of None \<Rightarrow> [] | Some qs \<Rightarrow> qs) @ [q]) m"
    have q: "fqdn_of q = Some ?f" using Some by (simp add: fqdn_of_def)
    obtain m' where m': "group_fqdns ps (valid, ?m) = (valid @ filter (\<lambda>q. fqdn_of q = None) ps, m')" "wf_gomap ?m \<longrightarrow> wf_gomap m'"
      "\<And>f. lookup m' f = (case (case lookup ?m f of None \<Rightarrow> [] | Some qs \<Rightarrow> qs) @ filter (\<lambda>q. fqdn_of q = Some f) ps of
           [] \<Rightarrow> lookup ?m f | qs \<Rightarrow> Some qs)"
      using Cons.IH [of valid ?m] by blast
    have "wf_gomap m \<longrightarrow> wf_gomap ?m" by (simp add: distinct_update)
    moreover have "lookup m' f = (case (case lookup m f of None \<Rightarrow> [] | Some qs \<Rightarrow> qs) @ filter (\<lambda>q. fqdn_of q = Some f) (q # ps) of
           [] \<Rightarrow> lookup m f | qs \<Rightarrow> Some qs)" for f
      by (cases "f = ?f") (auto simp: m'(3) lookup_put q split: list.splits option.splits)
    ultimately show ?thesis using m'(1,2) Some q by (intro exI [of _ m']) (simp add: Let_def)
  qed
qed

lemma mark_duplicate_eq:
  "mark_duplicate lib f msg proxy st =
     commit_update (visit_update lib proxy f (AddError ConditionTypeVirtualHostError ''DuplicateVhost'' msg (fresh_cond lib proxy))) st"
  by (simp add: mark_duplicate_def ConditionFor_vhost visit_update_def fresh_cond_def)

lemma AddError_fresh: "cond_grows (fresh_cond lib proxy) (AddError t r m (fresh_cond lib proxy))"
  by (intro cond_grows_AddError cond_grows_refl)

definition invalid_in :: "DAG \<Rightarrow> HTTPProxy \<Rightarrow> bool" where
  "invalid_in d proxy \<longleftrightarrow>
     (\<exists>pu. lookup (updates d) (NamespacedNameOf (px_Namespace proxy) (px_Name proxy)) = Some pu \<and> valid_status pu = ConditionFalse)"

definition has_status :: "DAG \<Rightarrow> HTTPProxy \<Rightarrow> bool" where
  "has_status d proxy \<longleftrightarrow> lookup (updates d) (NamespacedNameOf (px_Namespace proxy) (px_Name proxy)) \<noteq> None"

lemma status_grows:
  "updates_grow (updates d) (updates d') \<Longrightarrow> invalid_in d proxy \<Longrightarrow> invalid_in d' proxy"
  "updates_grow (updates d) (updates d') \<Longrightarrow> has_status d proxy \<Longrightarrow> has_status d' proxy"
  unfolding updates_grow_def invalid_in_def has_status_def by fastforce+

lemma invalid_has_status: "invalid_in d proxy \<Longrightarrow> has_status d proxy"
  by (auto simp: invalid_in_def has_status_def)

lemma AddError_errors [simp]: "dc_Errors (AddError t r m vc) \<noteq> []"
  by (simp add: AddError_def)

lemma visit_committed:
  assumes "cond_grows (fresh_cond lib proxy) vc"
  shows "st_grows st (commit_update (visit_update lib proxy v vc) st)" "has_status (ps_dag (commit_update (visit_update lib proxy v vc) st)) proxy"
    "dc_Errors vc \<noteq> [] \<Longrightarrow> invalid_in (ps_dag (commit_update (visit_update lib proxy v vc) st)) proxy"
  using visit_update [OF assms, of v] by (auto simp: st_grows_commit has_status_def invalid_in_def commit_lookup)

lemma mark_duplicates:
  "st_grows st (fold (mark_duplicate lib f msg) ps st) \<and>
   (\<forall>q\<in>set ps. invalid_in (ps_dag (fold (mark_duplicate lib f msg) ps st)) q)"
proof (induction ps arbitrary: st)
  case (Cons q ps)
  let ?st = "mark_duplicate lib f msg q st"
  have one: "st_grows st ?st" "invalid_in (ps_dag ?st) q"
    unfolding mark_duplicate_eq by (simp_all add: visit_committed [OF AddError_fresh])
  have rest: "st_grows ?st (fold (mark_duplicate lib f msg) ps ?st)" using Cons.IH by blast
  then have "updates_grow (updates (ps_dag ?st)) (updates (ps_dag (fold (mark_duplicate lib f msg) ps ?st)))" by (simp add: st_grows_def)
  from status_grows(1) [OF this one(2)] one(1) rest Cons.IH [of ?st] show ?case
    using st_grows_trans by auto
qed simp

lemma fqdn_loop_ok:
  "fqdn_loop lib m (valid, st) = (valid', st') \<Longrightarrow>
     st_grows st st' \<and> set valid' = set valid \<union> {q. \<exists>f. (f, [q]) \<in> set m} \<and>
     (\<forall>f ps. (f, ps) \<in> set m \<longrightarrow> length ps \<noteq> 1 \<longrightarrow> (\<forall>q\<in>set ps. invalid_in (ps_dag st') q))"
proof (induction lib m "(valid, st)" arbitrary: valid st rule: fqdn_loop.induct)
  case (2 lib f ps rest valid st)
  show ?case
  proof (cases "\<exists>q. ps = [q]")
    case True
    then obtain q where q: "ps = [q]" by blast
    with 2(2) [OF q refl] 2(4) show ?thesis by auto
  next
    case False
    let ?st = "fold (mark_duplicate lib f (fqdn_conflict f ps)) ps st"
    have l: "fqdn_loop lib rest (valid, ?st) = (valid', st')"
      using 2(4) False by (auto split: list.splits)
    have IH: "st_grows ?st st' \<and> set valid' = set valid \<union> {q. \<exists>f. (f, [q]) \<in> set rest} \<and>
        (\<forall>f ps. (f, ps) \<in> set rest \<longrightarrow> length ps \<noteq> 1 \<longrightarrow> (\<forall>q\<in>set ps. invalid_in (ps_dag st') q))"
      using 2(1,3) l False by (cases ps; cases "tl ps") auto
    note marked = mark_duplicates [of st lib f "fqdn_conflict f ps" ps]
    have "updates_grow (updates (ps_dag ?st)) (updates (ps_dag st'))" using IH by (simp add: st_grows_def)
    then have "\<forall>q\<in>set ps. invalid_in (ps_dag st') q" using marked status_grows(1) by blast
    then show ?thesis using IH marked st_grows_trans False by (auto simp: length_Suc_conv)
  qed
qed simp

lemma validHTTPProxies_ok:
  assumes "fair_order ord" "validHTTPProxies lib source ord st = (ps, st')"
  defines "all \<equiv> map_values (kc_httpproxies source)"
  shows "st_grows st st'" and "set ps = {q \<in> set all. fqdn_of q = None \<or> same_fqdn q all = [q]}"
    and "q \<in> set all \<Longrightarrow> q \<notin> set ps \<Longrightarrow> invalid_in (ps_dag st') q"
proof -
  obtain m where m: "group_fqdns all ([], []) = (filter (\<lambda>q. fqdn_of q = None) all, m)" "wf_gomap m"
    "\<And>f. lookup m f = (case filter (\<lambda>q. fqdn_of q = Some f) all of [] \<Rightarrow> None | qs \<Rightarrow> Some qs)"
    using group_fqdns_eq [of all "[]" "[]", unfolded map_of.simps] by auto
  have "mset (mo_fqdns ord m) = mset m" using assms(1) by (simp add: fair_order_def)
  then have "set (mo_fqdns ord m) = set m" by (metis set_mset_mset)
  then have entry: "(f, qs) \<in> set (mo_fqdns ord m) \<longleftrightarrow> qs \<noteq> [] \<and> qs = filter (\<lambda>q. fqdn_of q = Some f) all" for f qs
    using lookup_eq_iff [OF m(2), of f qs] m(3) [of f] by (auto split: list.splits)
  have "fqdn_loop lib (mo_fqdns ord m) (filter (\<lambda>q. fqdn_of q = None) all, st) = (ps, st')"
    using assms(2) m(1) by (simp add: validHTTPProxies_def all_def)
  note loop = fqdn_loop_ok [OF this]
  show "st_grows st st'" using loop by blast
  have unique: "(\<exists>f. (f, [q]) \<in> set (mo_fqdns ord m)) \<longleftrightarrow> q \<in> set all \<and> fqdn_of q \<noteq> None \<and> same_fqdn q all = [q]" for q
  proof
    assume "\<exists>f. (f, [q]) \<in> set (mo_fqdns ord m)"
    then obtain f where f: "filter (\<lambda>q. fqdn_of q = Some f) all = [q]" by (auto simp: entry)
    then have "q \<in> set (filter (\<lambda>q. fqdn_of q = Some f) all)" by simp
    then have "q \<in> set all" "fqdn_of q = Some f" by auto
    then show "q \<in> set all \<and> fqdn_of q \<noteq> None \<and> same_fqdn q all = [q]" using f by (simp add: same_fqdn_def)
  next
    assume "q \<in> set all \<and> fqdn_of q \<noteq> None \<and> same_fqdn q all = [q]"
    then obtain f where "fqdn_of q = Some f" "[q] = filter (\<lambda>q. fqdn_of q = Some f) all" by (auto simp: same_fqdn_def)
    then show "\<exists>f. (f, [q]) \<in> set (mo_fqdns ord m)" unfolding entry by blast
  qed
  show ps: "set ps = {q \<in> set all. fqdn_of q = None \<or> same_fqdn q all = [q]}" using loop unique by auto
  assume q: "q \<in> set all" "q \<notin> set ps"
  then obtain f where f: "fqdn_of q = Some f" "same_fqdn q all \<noteq> [q]" using ps by auto
  have in_group: "q \<in> set (filter (\<lambda>q. fqdn_of q = Some f) all)" using q(1) f(1) by simp
  then have "(f, filter (\<lambda>q. fqdn_of q = Some f) all) \<in> set (mo_fqdns ord m)" unfolding entry by (metis empty_iff empty_set)
  moreover have "length (filter (\<lambda>q. fqdn_of q = Some f) all) \<noteq> 1"
  proof
    assume "length (filter (\<lambda>q. fqdn_of q = Some f) all) = 1"
    then obtain x where x: "filter (\<lambda>q. fqdn_of q = Some f) all = [x]" by (metis One_nat_def length_0_conv length_Suc_conv)
    with in_group have "x = q" by (metis empty_iff empty_set set_ConsD)
    with x f show False by (simp add: same_fqdn_def)
  qed
  ultimately show "invalid_in (ps_dag st') q" using loop in_group by blast
qed

section \<open>Owners of virtual hosts\<close>

definition hosts_of :: "(string \<Rightarrow> bool) \<Rightarrow> Listener \<Rightarrow> Listener \<Rightarrow> bool" where
  "hosts_of P l l' \<longleftrightarrow>
     (\<forall>v\<in>set (ln_VirtualHosts l'). P (vh_Name v) \<or> v \<in> set (ln_VirtualHosts l)) \<and>
     (\<forall>s\<in>set (ln_SecureVirtualHosts l'). P (vh_Name (svh_VirtualHost s)) \<or> s \<in> set (ln_SecureVirtualHosts l))"

definition hosts_from :: "(string \<Rightarrow> bool) \<Rightarrow> DAG \<Rightarrow> DAG \<Rightarrow> bool" where
  "hosts_from P d d' \<longleftrightarrow> (\<forall>n. rel_option (hosts_of P) (lookup (dag_Listeners d) n) (lookup (dag_Listeners d') n))"

lemma hosts_from_same: "dag_Listeners d' = dag_Listeners d \<Longrightarrow> hosts_from P d d'"
  by (simp add: hosts_from_def hosts_of_def option.rel_refl)

lemma hosts_from_trans: "hosts_from P a b \<Longrightarrow> hosts_from P b c \<Longrightarrow> hosts_from P a c"
proof -
  have "transp (hosts_of P)" unfolding transp_def hosts_of_def by blast
  then have "transp (rel_option (hosts_of P))" by (rule option.rel_transp)
  then show "hosts_from P a b \<Longrightarrow> hosts_from P b c \<Longrightarrow> hosts_from P a c" unfolding hosts_from_def transp_def by blast
qed

lemma filter_other_mem: "filter P xs = filter P ys \<Longrightarrow> x \<in> set xs \<Longrightarrow> P x \<Longrightarrow> x \<in> set ys"
  by (drule arg_cong [where f = set]) auto

lemma isolated_hosts_from:
  assumes "isolated host d d'" "P host"
  shows "hosts_from P d d'"
  unfolding hosts_from_def
proof
  fix n
  have other: "map_option (other_hosts host) (lookup (dag_Listeners d') n) = map_option (other_hosts host) (lookup (dag_Listeners d) n)"
    using assms(1) unfolding isolated_def by blast
  have "hosts_of P l l'" if "other_hosts host l = other_hosts host l'" for l l'
  proof -
    have "ln_VirtualHosts (other_hosts host l) = ln_VirtualHosts (other_hosts host l')"
      "ln_SecureVirtualHosts (other_hosts host l) = ln_SecureVirtualHosts (other_hosts host l')" using that by simp_all
    then have "filter (\<lambda>v. vh_Name v \<noteq> host) (ln_VirtualHosts l') = filter (\<lambda>v. vh_Name v \<noteq> host) (ln_VirtualHosts l)"
      "filter (\<lambda>s. vh_Name (svh_VirtualHost s) \<noteq> host) (ln_SecureVirtualHosts l') =
       filter (\<lambda>s. vh_Name (svh_VirtualHost s) \<noteq> host) (ln_SecureVirtualHosts l)" by (simp_all add: other_hosts_def)
    then show ?thesis unfolding hosts_of_def using assms(2) filter_other_mem by (metis (mono_tags, lifting))
  qed
  with other show "rel_option (hosts_of P) (lookup (dag_Listeners d) n) (lookup (dag_Listeners d') n)"
    by (cases "lookup (dag_Listeners d') n"; cases "lookup (dag_Listeners d) n") auto
qed

lemma root_checks_pass:
  "snd (root_checks source proxy vh vc) \<noteq> None \<Longrightarrow> rootAllowed source (px_Namespace proxy) \<and> \<not> isBlank (vh1_Fqdn vh)"
  by (auto simp: root_checks_def split: if_splits)

definition owner :: "KubernetesCache \<Rightarrow> string \<Rightarrow> bool" where
  "owner source host \<longleftrightarrow>
     (\<exists>proxy\<in>set (map_values (kc_httpproxies source)). \<exists>vh. spec_VirtualHost (px_Spec proxy) = Some vh \<and> vh1_Fqdn vh = host \<and>
        \<not> isBlank host \<and> rootAllowed source (px_Namespace proxy) \<and> same_fqdn proxy (map_values (kc_httpproxies source)) = [proxy])"

lemma computeHTTPProxy_step:
  assumes "dag_ready (ps_dag st)" "proxy \<in> set (map_values (kc_httpproxies source))"
    and "fqdn_of proxy = None \<or> same_fqdn proxy (map_values (kc_httpproxies source)) = [proxy]"
    and st'_def: "st' = computeHTTPProxy lib source p ord proxy st"
  shows "dag_ready (ps_dag st')" "hosts_from (owner source) (ps_dag st) (ps_dag st')"
    "updates_grow (updates (ps_dag st)) (updates (ps_dag st'))" "has_status (ps_dag st') proxy"
    and "dag_ExtensionClusters (ps_dag st') = dag_ExtensionClusters (ps_dag st)"
    and "spec_VirtualHost (px_Spec proxy) \<noteq> None \<Longrightarrow> \<not> rootAllowed source (px_Namespace proxy) \<Longrightarrow> invalid_in (ps_dag st') proxy"
proof -
  note committed = visit_committed(2,3)
  have "dag_ready (ps_dag st') \<and> hosts_from (owner source) (ps_dag st) (ps_dag st') \<and>
      updates_grow (updates (ps_dag st)) (updates (ps_dag st')) \<and> has_status (ps_dag st') proxy \<and>
      dag_ExtensionClusters (ps_dag st') = dag_ExtensionClusters (ps_dag st) \<and>
      (spec_VirtualHost (px_Spec proxy) \<noteq> None \<longrightarrow> \<not> rootAllowed source (px_Namespace proxy) \<longrightarrow> invalid_in (ps_dag st') proxy)"
  proof (cases "spec_VirtualHost (px_Spec proxy)")
    case None
    have eq: "st' = commit_update (visit_update lib proxy [] (fresh_cond lib proxy))
        (st\<lparr>ps_orphaned := put (NamespacedNameOf (px_Namespace proxy) (px_Name proxy)) True (ps_orphaned st)\<rparr>)"
      using None by (simp add: st'_def computeHTTPProxy_eq)
    have same: "dag_Listeners (ps_dag st') = dag_Listeners (ps_dag st)" by (simp add: eq)
    then have "dag_ready (ps_dag st')" using assms(1) by (simp add: dag_ready_def wf_dag_def)
    moreover have "updates_grow (updates (ps_dag st)) (updates (ps_dag st'))"
      unfolding eq using updates_grow_commit [OF visit_update(1) [OF cond_grows_refl]] by simp
    ultimately show ?thesis using committed(1) [OF cond_grows_refl] hosts_from_same [OF same] None by (simp add: eq)
  next
    case (Some vh)
    have "host_step (vh1_Fqdn vh) st st'" unfolding st'_def by (rule computeHTTPProxy_root(1) [OF Some assms(1)])
    then have step: "dag_ready (ps_dag st')" "isolated (vh1_Fqdn vh) (ps_dag st) (ps_dag st')" "updates_grow (updates (ps_dag st)) (updates (ps_dag st'))"
      using assms(1) unfolding host_step_def dag_step_def by blast+
    obtain vc v st1 where c: "st' = commit_update (visit_update lib proxy v vc) st1" "cond_grows (fresh_cond lib proxy) vc"
      "snd (root_checks source proxy vh (fresh_cond lib proxy)) = None \<longrightarrow> dc_Errors vc \<noteq> [] \<and> st1 = st"
      using computeHTTPProxy_root(2) [OF Some assms(1)] unfolding st'_def by blast
    have hosts: "hosts_from (owner source) (ps_dag st) (ps_dag st')"
    proof (cases "snd (root_checks source proxy vh (fresh_cond lib proxy)) = None")
      case True
      then show ?thesis using c by (intro hosts_from_same) simp
    next
      case False
      then have "owner source (vh1_Fqdn vh)"
        using root_checks_pass [OF False] Some assms(2,3) unfolding owner_def by (intro bexI [of _ proxy]) (auto simp: fqdn_of_def)
      then show ?thesis by (rule isolated_hosts_from [OF step(2)])
    qed
    have "invalid_in (ps_dag st') proxy" if "\<not> rootAllowed source (px_Namespace proxy)"
      using committed(2) [OF c(2)] c(1,3) that root_checks_pass by blast
    then show ?thesis using step hosts committed(1) [OF c(2)] c(1) by (simp add: isolated_def)
  qed
  then show "dag_ready (ps_dag st')" "hosts_from (owner source) (ps_dag st) (ps_dag st')"
    "updates_grow (updates (ps_dag st)) (updates (ps_dag st'))" "has_status (ps_dag st') proxy"
    "dag_ExtensionClusters (ps_dag st') = dag_ExtensionClusters (ps_dag st)"
    "spec_VirtualHost (px_Spec proxy) \<noteq> None \<Longrightarrow> \<not> rootAllowed source (px_Namespace proxy) \<Longrightarrow> invalid_in (ps_dag st') proxy" by blast+
qed

section \<open>The whole run\<close>

lemma processed_ok:
  assumes "dag_ready (ps_dag st)"
    and "\<forall>q\<in>set ps. q \<in> set (map_values (kc_httpproxies source)) \<and>
           (fqdn_of q = None \<or> same_fqdn q (map_values (kc_httpproxies source)) = [q])"
    and "st' = fold (computeHTTPProxy lib source p ord) ps st"
  shows "dag_ready (ps_dag st') \<and> hosts_from (owner source) (ps_dag st) (ps_dag st') \<and>
         updates_grow (updates (ps_dag st)) (updates (ps_dag st')) \<and>
         dag_ExtensionClusters (ps_dag st') = dag_ExtensionClusters (ps_dag st) \<and>
         (\<forall>q\<in>set ps. has_status (ps_dag st') q \<and>
            (spec_VirtualHost (px_Spec q) \<noteq> None \<longrightarrow> \<not> rootAllowed source (px_Namespace q) \<longrightarrow> invalid_in (ps_dag st') q))"
  using assms
proof (induction ps arbitrary: st)
  case (Cons q ps)
  let ?st = "computeHTTPProxy lib source p ord q st"
  note one = computeHTTPProxy_step [OF Cons.prems(1) _ _ refl, of q source lib p ord]
  have q: "q \<in> set (map_values (kc_httpproxies source))" "fqdn_of q = None \<or> same_fqdn q (map_values (kc_httpproxies source)) = [q]"
    using Cons.prems(2) by auto
  have rest: "dag_ready (ps_dag st') \<and> hosts_from (owner source) (ps_dag ?st) (ps_dag st') \<and>
      updates_grow (updates (ps_dag ?st)) (updates (ps_dag st')) \<and>
      dag_ExtensionClusters (ps_dag st') = dag_ExtensionClusters (ps_dag ?st) \<and>
      (\<forall>q\<in>set ps. has_status (ps_dag st') q \<and>
            (spec_VirtualHost (px_Spec q) \<noteq> None \<longrightarrow> \<not> rootAllowed source (px_Namespace q) \<longrightarrow> invalid_in (ps_dag st') q))"
    using one(1) [OF q] Cons.prems by (intro Cons.IH) auto
  then show ?case
    using one [OF q] hosts_from_trans updates_grow_trans status_grows(1) [of "ps_dag ?st" "ps_dag st'"] status_grows(2) [of "ps_dag ?st" "ps_dag st'"]
    by auto
qed (simp add: hosts_from_same)

lemma mark_orphan_eq:
  "mark_orphan lib source meta st =
     (case lookup (kc_httpproxies source) meta of
        None \<Rightarrow> st
      | Some proxy \<Rightarrow> commit_update (visit_update lib proxy '''' (AddError ConditionTypeOrphanedError ''Orphaned''
          ''this HTTPProxy is not part of a delegation chain from a root HTTPProxy'' (fresh_cond lib proxy))) st)"
proof -
  have same: "r\<lparr>pu_Vhost := []\<rparr> = r" if "pu_Vhost r = []" for r :: ProxyUpdate using that by (cases r) simp
  have "pu_Vhost (snd (ConditionFor (ProxyAccessor (lib_now lib) proxy) ValidCondition)) = []" for proxy
    by (simp add: ConditionFor_def ProxyAccessor_def Let_def)
  from same [OF this] show ?thesis
    by (simp add: mark_orphan_def visit_update_def fresh_cond_def case_prod_beta split: option.split)
qed

lemma mark_orphans:
  "st_grows st (fold (mark_orphan lib source) ms st) \<and>
   (\<forall>m\<in>set ms. \<forall>proxy. lookup (kc_httpproxies source) m = Some proxy \<longrightarrow> invalid_in (ps_dag (fold (mark_orphan lib source) ms st)) proxy)"
proof (induction ms arbitrary: st)
  case (Cons m ms)
  let ?st = "mark_orphan lib source m st"
  have one: "st_grows st ?st" "\<And>proxy. lookup (kc_httpproxies source) m = Some proxy \<Longrightarrow> invalid_in (ps_dag ?st) proxy"
    unfolding mark_orphan_eq by (simp_all add: visit_committed [OF AddError_fresh] split: option.split)
  have rest: "st_grows ?st (fold (mark_orphan lib source) ms ?st)" using Cons.IH by blast
  then have "updates_grow (updates (ps_dag ?st)) (updates (ps_dag (fold (mark_orphan lib source) ms ?st)))" by (simp add: st_grows_def)
  from status_grows(1) [OF this] one rest Cons.IH [of ?st] show ?case
    using st_grows_trans by auto
qed simp

lemma HTTPProxyProcessor_Run_ok:
  assumes "fair_order ord" "dag_ready d"
    and all_def: "all = map_values (kc_httpproxies source)" and d'_def: "d' = HTTPProxyProcessor_Run lib ord p source d"
  shows "dag_ready d' \<and> hosts_from (owner source) d d' \<and> dag_ExtensionClusters d' = dag_ExtensionClusters d \<and>
         updates_grow (updates d) (updates d') \<and>
         (\<forall>q\<in>set all. has_status d' q \<and>
            (spec_VirtualHost (px_Spec q) \<noteq> None \<and> (\<not> rootAllowed source (px_Namespace q) \<or> same_fqdn q all \<noteq> [q]) \<longrightarrow> invalid_in d' q))"
proof -
  obtain ps st1 where v: "validHTTPProxies lib source ord \<lparr>ps_dag = d, ps_orphaned = []\<rparr> = (ps, st1)" by force
  note valid = validHTTPProxies_ok [OF assms(1) v, folded all_def]
  have st1: "dag_Listeners (ps_dag st1) = dag_Listeners d" "dag_ExtensionClusters (ps_dag st1) = dag_ExtensionClusters d"
    "updates_grow (updates d) (updates (ps_dag st1))"
    using valid(1) by (simp_all add: st_grows_def)
  then have "dag_ready (ps_dag st1)" using assms(2) by (simp add: dag_ready_def wf_dag_def)
  moreover define st2 where "st2 = fold (computeHTTPProxy lib source p ord) ps st1"
  ultimately have two: "dag_ready (ps_dag st2) \<and> hosts_from (owner source) (ps_dag st1) (ps_dag st2) \<and>
      updates_grow (updates (ps_dag st1)) (updates (ps_dag st2)) \<and>
      dag_ExtensionClusters (ps_dag st2) = dag_ExtensionClusters (ps_dag st1) \<and>
      (\<forall>q\<in>set ps. has_status (ps_dag st2) q \<and>
         (spec_VirtualHost (px_Spec q) \<noteq> None \<longrightarrow> \<not> rootAllowed source (px_Namespace q) \<longrightarrow> invalid_in (ps_dag st2) q))"
    using valid(2) by (intro processed_ok) (auto simp: all_def)
  define ms where "ms = map fst (mo_orphans ord (ps_orphaned st2))"
  have d': "d' = ps_dag (fold (mark_orphan lib source) ms st2)"
    by (simp add: d'_def HTTPProxyProcessor_Run_def v st2_def ms_def Let_def)
  have three: "st_grows st2 (fold (mark_orphan lib source) ms st2)" using mark_orphans by blast
  then have s3: "dag_Listeners d' = dag_Listeners (ps_dag st2)" "dag_ExtensionClusters d' = dag_ExtensionClusters (ps_dag st2)"
    "updates_grow (updates (ps_dag st2)) (updates d')" by (simp_all add: st_grows_def d')
  have "dag_ready d'" using two s3(1) by (simp add: dag_ready_def wf_dag_def)
  moreover have "hosts_from (owner source) d d'"
    using hosts_from_same [OF st1(1)] two hosts_from_same [OF s3(1)] hosts_from_trans by blast
  moreover have "updates_grow (updates d) (updates d')" using st1(3) two s3(3) updates_grow_trans by blast
  moreover have "has_status d' q \<and>
      (spec_VirtualHost (px_Spec q) \<noteq> None \<and> (\<not> rootAllowed source (px_Namespace q) \<or> same_fqdn q all \<noteq> [q]) \<longrightarrow> invalid_in d' q)"
    if q: "q \<in> set all" for q
  proof (cases "q \<in> set ps")
    case True
    then show ?thesis
      using two status_grows [OF s3(3)] valid(2) by (auto simp: fqdn_of_def)
  next
    case False
    then have "invalid_in (ps_dag st1) q" by (rule valid(3) [OF q])
    then have "invalid_in d' q" using two s3(3) status_grows(1) by blast
    then show ?thesis using invalid_has_status by blast
  qed
  ultimately show ?thesis using st1(2) two s3(2) by simp
qed

text \<open>
  C1. No host is hijacked: after a run every virtual host, plain or secure, of every listener was there before with the
  same content, or bears the name of a root proxy of the cache that is allowed in its namespace and is the
  only one with this name, letter case ignored.  Listeners are neither added nor removed, extension clusters are not touched, and
  the DAG stays well formed.
\<close>

theorem HTTPProxyProcessor_Run_hosts:
  assumes "fair_order ord" and "dag_ready d"
  shows "dag_ready (HTTPProxyProcessor_Run lib ord p source d) \<and>
         dag_ExtensionClusters (HTTPProxyProcessor_Run lib ord p source d) = dag_ExtensionClusters d \<and>
         (case (lookup (dag_Listeners d) n, lookup (dag_Listeners (HTTPProxyProcessor_Run lib ord p source d)) n) of
            (Some l, Some l') \<Rightarrow>
              (\<forall>v\<in>set (ln_VirtualHosts l'). v \<in> set (ln_VirtualHosts l) \<or> owner source (vh_Name v)) \<and>
              (\<forall>s\<in>set (ln_SecureVirtualHosts l'). s \<in> set (ln_SecureVirtualHosts l) \<or> owner source (vh_Name (svh_VirtualHost s)))
          | (None, None) \<Rightarrow> True
          | _ \<Rightarrow> False)"
proof -
  let ?d = "HTTPProxyProcessor_Run lib ord p source d"
  note run = HTTPProxyProcessor_Run_ok [OF assms refl refl, where source = source and lib = lib and p = p]
  then have "rel_option (hosts_of (owner source)) (lookup (dag_Listeners d) n) (lookup (dag_Listeners ?d) n)"
    unfolding hosts_from_def by blast
  with run show ?thesis
    by (cases "lookup (dag_Listeners d) n"; cases "lookup (dag_Listeners ?d) n") (auto simp: hosts_of_def)
qed

text \<open>
  C4. Every proxy of the cache has a status after a run, and the status is invalid for a root proxy in a
  namespace that is not allowed and for every root proxy whose name is used by another one, letter case ignored.
\<close>

theorem HTTPProxyProcessor_Run_status:
  assumes "fair_order ord" and "dag_ready d" and "proxy \<in> set (map_values (kc_httpproxies source))"
  shows "has_status (HTTPProxyProcessor_Run lib ord p source d) proxy \<and>
         (spec_VirtualHost (px_Spec proxy) \<noteq> None \<and>
            (\<not> rootAllowed source (px_Namespace proxy) \<or> same_fqdn proxy (map_values (kc_httpproxies source)) \<noteq> [proxy]) \<longrightarrow>
          invalid_in (HTTPProxyProcessor_Run lib ord p source d) proxy)"
  using HTTPProxyProcessor_Run_ok [OF assms(1,2) refl refl, where source = source and lib = lib and p = p] assms(3) by blast

section \<open>What is served\<close>

lemma lookup_addRoutes:
  "lookup (vh_Routes (addRoutes rs v)) k =
     (case filter (\<lambda>r. conditionsToString r = k) rs of [] \<Rightarrow> lookup (vh_Routes v) k | xs \<Rightarrow> Some (last xs))"
  unfolding addRoutes_def
proof (induction rs arbitrary: v)
  case (Cons r rs)
  show ?case
    unfolding fold_simps filter.simps o_apply Cons.IH [of "AddRoute r v"] lookup_AddRoute
    by (auto split: list.split)
qed simp

lemma lookup_added:
  "r \<in> set routes \<Longrightarrow> lookup (vh_Routes (addRoutes routes v)) (conditionsToString r) =
     Some (last (filter (\<lambda>r'. conditionsToString r' = conditionsToString r) routes))"
  by (auto simp: lookup_addRoutes filter_empty_conv split: list.split)

lemma routed_lookup:
  assumes "routed host routes d"
  shows "\<exists>n l v. lookup (dag_Listeners d) n = Some l \<and> ln_Protocol l = ''http'' \<and> v \<in> set (ln_VirtualHosts l) \<and> vh_Name v = host \<and>
           (\<forall>r\<in>set routes. lookup (vh_Routes v) (conditionsToString r) =
              Some (last (filter (\<lambda>r'. conditionsToString r' = conditionsToString r) routes)))"
proof -
  obtain n l v where "lookup (dag_Listeners d) n = Some l" "ln_Protocol l = ''http''" "vh_Name v = host" "addRoutes routes v \<in> set (ln_VirtualHosts l)"
    using assms unfolding routed_def by blast
  then show ?thesis using lookup_added by (intro exI [of _ n] exI [of _ l] exI [of _ "addRoutes routes v"]) simp
qed

lemma srouted_lookup:
  assumes "srouted host routes d"
  shows "\<exists>n l s. lookup (dag_Listeners d) n = Some l \<and> ln_Protocol l = ''https'' \<and> s \<in> set (ln_SecureVirtualHosts l) \<and>
           vh_Name (svh_VirtualHost s) = host \<and>
           (\<forall>r\<in>set routes. lookup (vh_Routes (svh_VirtualHost s)) (conditionsToString r) =
              Some (last (filter (\<lambda>r'. conditionsToString r' = conditionsToString r) routes)))"
proof -
  obtain n l s where "lookup (dag_Listeners d) n = Some l" "ln_Protocol l = ''https''" "vh_Name (svh_VirtualHost s) = host"
      "on_virtual_host (addRoutes routes) s \<in> set (ln_SecureVirtualHosts l)"
    using assms unfolding srouted_def by blast
  then show ?thesis
    using lookup_added by (intro exI [of _ n] exI [of _ l] exI [of _ "on_virtual_host (addRoutes routes) s"]) (simp add: on_virtual_host_def)
qed


section \<open>Orphans\<close>

definition include_target :: "HTTPProxy \<Rightarrow> Include \<Rightarrow> NamespacedName" where
  "include_target proxy inc =
     \<lparr>nn_Namespace = (if inc_Namespace inc = '''' then px_Namespace proxy else inc_Namespace inc), nn_Name = inc_Name inc\<rparr>"

definition tcp_target :: "HTTPProxy \<Rightarrow> TCPProxyInclude \<Rightarrow> NamespacedName" where
  "tcp_target proxy inc =
     \<lparr>nn_Namespace = (if tpi_Namespace inc = '''' then px_Namespace proxy else tpi_Namespace inc), nn_Name = tpi_Name inc\<rparr>"

text \<open>A proxy refers to another through an include or the include of its TCP proxy.\<close>

definition refers :: "HTTPProxy \<Rightarrow> NamespacedName \<Rightarrow> bool" where
  "refers proxy n \<longleftrightarrow>
     (\<exists>inc\<in>set (spec_Includes (px_Spec proxy)). include_target proxy inc = n) \<or>
     (\<exists>tcp inc. spec_TCPProxy (px_Spec proxy) = Some tcp \<and> (tcp1_Include tcp = Some inc \<or> tcp1_IncludesDeprecated tcp = Some inc) \<and>
        tcp_target proxy inc = n)"

text \<open>Proxies are cached under their names, and have a namespace.\<close>

definition keyed :: "KubernetesCache \<Rightarrow> bool" where
  "keyed source \<longleftrightarrow> (\<forall>n q. lookup (kc_httpproxies source) n = Some q \<longrightarrow> px_NamespacedName q = n \<and> px_Namespace q \<noteq> '''')"

lemma keyed_name: "px_Namespace q \<noteq> '''' \<Longrightarrow> NamespacedNameOf (px_Namespace q) (px_Name q) = px_NamespacedName q"
  by (simp add: NamespacedNameOf_def px_NamespacedName_def)

lemma include_check_target:
  "include_check env proxy inc seen routes vc = (vc', seen', IncludeProxy q) \<Longrightarrow>
   lookup (kc_httpproxies (re_cache env)) (include_target proxy inc) = Some q"
  by (auto simp: include_check_def include_target_def Let_def split: sum.splits option.splits if_splits prod.splits bool.splits)

text \<open>Only proxies that are referred to stop being orphans.\<close>

lemma computeRoutes_orphans:
  assumes "keyed source" "\<forall>q\<in>set (map_values (kc_httpproxies source)). \<not> refers q n"
  shows "computeRoutes env proxy conds visited vc st = (vc', st', rs) \<Longrightarrow> re_cache env = source \<Longrightarrow> \<not> refers proxy n \<Longrightarrow>
           lookup (ps_orphaned st') n = lookup (ps_orphaned st) n"
    and "include_loop env proxy conds visited incs seen routes vc st = (vc', st', rs) \<Longrightarrow> re_cache env = source \<Longrightarrow>
           \<forall>inc\<in>set incs. include_target proxy inc \<noteq> n \<Longrightarrow> lookup (ps_orphaned st') n = lookup (ps_orphaned st) n"
proof (induction env proxy conds visited vc st and env proxy conds visited incs seen routes vc st
    arbitrary: vc' st' rs and vc' st' rs rule: computeRoutes_include_loop.induct)
  case (1 env proxy conds visited vc st)
  show ?case
  proof (cases "px_NamespacedName proxy \<in> set (map px_NamespacedName visited)")
    case True
    with 1(2) show ?thesis by auto
  next
    case False
    obtain vc1 st1 rs1 where l: "include_loop env proxy conds (visited @ [proxy]) (spec_Includes (px_Spec proxy)) [] [] vc st = (vc1, st1, rs1)"
      by (metis prod.exhaust)
    have "st' = st1" using 1(2) False l by (auto split: option.splits prod.splits)
    moreover have "\<forall>inc\<in>set (spec_Includes (px_Spec proxy)). include_target proxy inc \<noteq> n" using 1(4) by (auto simp: refers_def)
    ultimately show ?thesis using 1(1) [OF False l 1(3)] by blast
  qed
next
  case (3 env proxy conds visited inc incs seen routes vc st)
  obtain vc1 seen1 step where c: "include_check env proxy inc seen routes vc = (vc1, seen1, step)" by (metis prod.exhaust)
  show ?case
  proof (cases step)
    case (IncludeSkip rs1)
    then show ?thesis
      using 3(1) [OF c [unfolded IncludeSkip, symmetric] refl refl] 3(4-6) c by simp
  next
    case (IncludeProxy q)
    obtain ivc iu where f: "ConditionFor (ProxyAccessor (lib_now (re_lib env)) q) ValidCondition = (ivc, iu)" by force
    obtain ivc2 st2 irs where r: "computeRoutes env q (conds @ inc_Conditions inc) visited ivc st = (ivc2, st2, irs)"
      by (metis prod.exhaust)
    note q = include_check_target [OF c [unfolded IncludeProxy]] include_check_proxy [OF c [unfolded IncludeProxy]]
    have name: "px_NamespacedName q \<noteq> n" using assms(1) q(1) 3(5,6) unfolding keyed_def by force
    have IH: "lookup (ps_orphaned st2) n = lookup (ps_orphaned st) n"
      using 3(2) [OF c [unfolded IncludeProxy, symmetric] refl refl f [symmetric] r 3(5)] assms(2) q(2) 3(5) by blast
    let ?st = "(commit_update (with_valid ivc2 iu) st2)\<lparr>ps_orphaned := del (px_NamespacedName q) (ps_orphaned (commit_update (with_valid ivc2 iu) st2))\<rparr>"
    have "include_loop env proxy conds visited incs seen1 (routes @ irs) vc1 ?st = (vc', st', rs)"
      using 3(4) c IncludeProxy f r by (simp add: Let_def)
    then have "lookup (ps_orphaned st') n = lookup (ps_orphaned ?st) n"
      using 3(3) [OF c [unfolded IncludeProxy, symmetric] refl refl f [symmetric] r [symmetric] refl refl refl _ 3(5)] 3(6) by auto
    with IH name show ?thesis by (simp add: lookup_del)
  qed
qed simp

lemma processHTTPProxyTCPProxy_orphans:
  assumes "keyed source" "\<forall>q\<in>set (map_values (kc_httpproxies source)). \<not> refers q n" "\<not> refers hp n"
  shows "lookup (ps_orphaned (fst (snd (processHTTPProxyTCPProxy lib source p vc hp visited host st)))) n = lookup (ps_orphaned st) n"
  using assms
proof (induction lib source p vc hp visited host st rule: processHTTPProxyTCPProxy.induct)
  case (1 lib source p vc hp visited host st)
  show ?case
  proof (cases "spec_TCPProxy (px_Spec hp)")
    case tcp: (Some tcp)
    define inc where "inc = (if tcp1_Include tcp = None then tcp1_IncludesDeprecated tcp else tcp1_Include tcp)"
    define lb where "lb = loadBalancerPolicy (tcp1_LoadBalancerPolicy tcp)"
    define vc1 where "vc1 = (if lb \<in> {LoadBalancerPolicyCookie, LoadBalancerPolicyRequestHash} then AddWarning ConditionTypeTCPProxyError ''IgnoredField''
                 (''ignoring field '' @ go_quote ''Spec.TCPProxy.LoadBalancerPolicy'' @ ''; '' @ lb
                    @ '' load balancer policy is not supported for TCPProxies'') vc else vc)"
    note defs = inc_def [symmetric] lb_def [symmetric] vc1_def [symmetric]
    have rec: "lookup (ps_orphaned (fst (snd (case tcp_include source hp (visited @ [hp]) i vc1 st of
           (vc, st, None) \<Rightarrow> (vc, st, None)
         | (vc, st, Some dest) \<Rightarrow>
             (case ConditionFor (ProxyAccessor (lib_now lib) dest) ValidCondition of
                (ivc, iu) \<Rightarrow>
                  (case processHTTPProxyTCPProxy lib source p ivc dest (visited @ [hp]) host st of
                     (ivc, st, ok) \<Rightarrow> (vc, commit_update (with_valid ivc iu) st, ok))))))) n = lookup (ps_orphaned st) n"
      if i: "inc = Some i" "tcp1_Services tcp = []" for i
    proof -
      obtain vc2 st2 r where t: "tcp_include source hp (visited @ [hp]) i vc1 st = (vc2, st2, r)" by (metis prod.exhaust)
      have "tcp_target hp i \<noteq> n" using 1(4) tcp i(1) by (auto simp: refers_def inc_def split: if_splits)
      then have st2: "lookup (ps_orphaned st2) n = lookup (ps_orphaned st) n"
        using t 1(2) unfolding tcp_include_def tcp_target_def keyed_def
        by (auto simp: Let_def stop_def lookup_del keyed_name split: option.splits if_splits)
      show ?thesis
      proof (cases r)
        case (Some dest)
        obtain ivc iu where f: "ConditionFor (ProxyAccessor (lib_now lib) dest) ValidCondition = (ivc, iu)" by force
        have "\<not> refers dest n" using 1(3) tcp_include_dest [OF t [unfolded Some]] by blast
        then have "lookup (ps_orphaned (fst (snd (processHTTPProxyTCPProxy lib source p ivc dest (visited @ [hp]) host st2)))) n = lookup (ps_orphaned st2) n"
          using 1(1) [OF tcp refl inc_def _ lb_def refl vc1_def refl _ i(1) t [symmetric] refl Some f [symmetric] 1(2,3)] i by simp
        then show ?thesis using st2 by (simp add: t Some f case_prod_beta)
      qed (simp add: t st2)
    qed
    have "ps_orphaned (fst (snd (tcp_services lib source p hp tcp l host vc1 st))) = ps_orphaned st" for l
      using tcp_services_keeps [OF orphans_blind(1)] unfolding keeps_def by blast
    with rec show ?thesis
      unfolding processHTTPProxyTCPProxy.simps [of lib source p vc] tcp option.case Let_def defs
      by (auto simp: stop_def split: option.split)
  qed (simp add: processHTTPProxyTCPProxy.simps)
qed

lemma computeHTTPProxy_orphans:
  assumes "keyed source" "\<forall>q\<in>set (map_values (kc_httpproxies source)). \<not> refers q n" "proxy \<in> set (map_values (kc_httpproxies source))"
  shows "lookup (ps_orphaned st) n = Some True \<Longrightarrow> lookup (ps_orphaned (computeHTTPProxy lib source p ord proxy st)) n = Some True"
proof -
  assume orphan: "lookup (ps_orphaned st) n = Some True"
  have ref: "\<not> refers proxy n" using assms(2,3) by blast
  let ?f = "\<lambda>st. lookup (ps_orphaned st) n"
  have blind: "svh_blind ?f" "vh_blind ?f"
    using orphans_blind by (auto simp: svh_blind_def vh_blind_def keeps_def)
  have tls: "keeps ?f st (root_tls lib source p proxy vh vc st)" for vh vc st
    unfolding root_tls_def by (intro keeps_intros(1,2,4,5,6) secure_host_keeps blind)
  have tcp: "keeps ?f st (root_tcp lib source p proxy vh vc st)" for vh vc st
    using processHTTPProxyTCPProxy_orphans [OF assms(1,2) ref] by (simp add: root_tcp_def keeps_def stop_def)
  have routes: "keeps ?f st (root_routes lib source p ord proxy vh jwt vc st)" for vh jwt vc st
  proof -
    obtain vc' st' rs where r: "computeRoutes (root_env lib source p ord vh jwt) proxy [] [] vc st = (vc', st', rs)" by (metis prod.exhaust)
    have "?f st' = ?f st" using computeRoutes_orphans(1) [OF assms(1,2) r] ref by simp
    then show ?thesis
      unfolding root_routes_def r prod.case
      by (rule keeps_intros(7) [where f = ?f]) (intro keeps_intros(1,4,5) insecure_host_keeps secure_routes_keeps blind)
  qed
  have "keeps ?f st (compute_root lib source p ord proxy vh vc st)" for vh vc
    unfolding compute_root_def by (intro keeps_intros(1,2) tls tcp routes)
  then have "lookup (ps_orphaned st1) n = Some True" if "compute_root lib source p ord proxy vh vc st = (vc', st1, r)" for vh vc vc' st1 r
    using that orphan unfolding keeps_def by (metis fst_conv snd_conv)
  then show ?thesis
    unfolding computeHTTPProxy_eq using orphan by (auto simp: lookup_put split: option.split prod.split)
qed

definition orphan_in :: "DAG \<Rightarrow> HTTPProxy \<Rightarrow> bool" where
  "orphan_in d proxy \<longleftrightarrow>
     (\<exists>pu dc. lookup (updates d) (NamespacedNameOf (px_Namespace proxy) (px_Name proxy)) = Some pu \<and>
        lookup (pu_Conditions pu) ValidCondition = Some dc \<and> GetError ConditionTypeOrphanedError dc \<noteq> None)"

lemma mark_orphan_marks:
  assumes "keyed source" "lookup (kc_httpproxies source) n = Some proxy"
  shows "m = n \<or> orphan_in (ps_dag st) proxy \<Longrightarrow> orphan_in (ps_dag (mark_orphan lib source m st)) proxy"
proof (cases "lookup (kc_httpproxies source) m")
  case (Some q)
  assume mn: "m = n \<or> orphan_in (ps_dag st) proxy"
  let ?vc = "AddError ConditionTypeOrphanedError ''Orphaned''
      ''this HTTPProxy is not part of a delegation chain from a root HTTPProxy'' (fresh_cond lib q)"
  let ?pu = "visit_update lib q '''' ?vc"
  have pu: "has_valid ?pu" "pu_Fullname ?pu = NamespacedNameOf (px_Namespace q) (px_Name q)" "valid_status ?pu = ConditionFalse"
    by (simp_all add: visit_update [OF AddError_fresh])
  have keys: "px_NamespacedName q = m" "px_Namespace q \<noteq> ''''" "px_NamespacedName proxy = n" "px_Namespace proxy \<noteq> ''''"
    using assms Some unfolding keyed_def by blast+
  have look: "lookup (updates (ps_dag (mark_orphan lib source m st))) k =
      (if k = m then Some ?pu else lookup (updates (ps_dag st)) k)" for k
  proof -
    have "mark_orphan lib source m st = commit_update ?pu st" using Some by (simp add: mark_orphan_eq)
    then show ?thesis using pu keys(1,2) by (simp add: commit_lookup keyed_name)
  qed
  have "GetError ConditionTypeOrphanedError ?vc \<noteq> None" unfolding GetError_iff by (simp add: AddError_def)
  moreover have "lookup (pu_Conditions ?pu) ValidCondition = Some ?vc" by (simp add: visit_update_def with_valid_def lookup_put)
  ultimately show ?thesis
    using mn unfolding orphan_in_def keyed_name [OF keys(4)] keys(3) look by (cases "n = m") auto
qed (use assms(2) in \<open>auto simp: mark_orphan_eq\<close>)

lemma mark_orphans_marks:
  assumes "keyed source" "lookup (kc_httpproxies source) n = Some proxy"
  shows "n \<in> set ms \<or> orphan_in (ps_dag st) proxy \<Longrightarrow> orphan_in (ps_dag (fold (mark_orphan lib source) ms st)) proxy"
  using mark_orphan_marks [OF assms] by (induction ms arbitrary: st) auto

lemma computeHTTPProxys_orphans:
  assumes "keyed source" "\<forall>q\<in>set (map_values (kc_httpproxies source)). \<not> refers q n"
    and "set ps \<subseteq> set (map_values (kc_httpproxies source))"
    and "(\<exists>q\<in>set ps. px_NamespacedName q = n \<and> px_Namespace q \<noteq> '''' \<and> spec_VirtualHost (px_Spec q) = None) \<or> lookup (ps_orphaned st) n = Some True"
  shows "lookup (ps_orphaned (fold (computeHTTPProxy lib source p ord) ps st)) n = Some True"
  using assms(3,4)
proof (induction ps arbitrary: st)
  case (Cons q ps)
  have "lookup (ps_orphaned (computeHTTPProxy lib source p ord q st)) n = Some True"
    if "px_NamespacedName q = n \<and> px_Namespace q \<noteq> '''' \<and> spec_VirtualHost (px_Spec q) = None \<or> lookup (ps_orphaned st) n = Some True"
    using that computeHTTPProxy_orphans [OF assms(1,2), of q st] Cons.prems(1) keyed_name [of q]
    by (auto simp: computeHTTPProxy_eq lookup_put)
  then show ?case using Cons by auto
qed simp

text \<open>C5. A proxy without a virtual host that no HTTPProxy includes is reported as orphaned: when the
processor has run, its status update carries an Orphaned error. Only an include that names the proxy (with or
without a namespace) or a TCP include that names it can spare it, whatever the order in which the maps are walked.\<close>

theorem HTTPProxyProcessor_Run_orphans:
  assumes "fair_order ord" "keyed source"
    and "lookup (kc_httpproxies source) n = Some proxy" "spec_VirtualHost (px_Spec proxy) = None"
    and "\<forall>q\<in>set (map_values (kc_httpproxies source)). \<not> refers q n"
  shows "orphan_in (HTTPProxyProcessor_Run lib ord p source d) proxy"
proof -
  obtain ps st1 where v: "validHTTPProxies lib source ord \<lparr>ps_dag = d, ps_orphaned = []\<rparr> = (ps, st1)" by force
  note valid = validHTTPProxies_ok(2) [OF assms(1) v]
  define st2 where "st2 = fold (computeHTTPProxy lib source p ord) ps st1"
  have q: "px_NamespacedName proxy = n" "px_Namespace proxy \<noteq> ''''" using assms(2,3) unfolding keyed_def by blast+
  have "proxy \<in> set (map_values (kc_httpproxies source))"
    using assms(3) by (auto simp: map_values_def dest: map_of_SomeD intro: rev_image_eqI)
  then have "proxy \<in> set ps" using assms(4) by (simp add: valid fqdn_of_def)
  then have "lookup (ps_orphaned st2) n = Some True"
    unfolding st2_def using valid q assms(4) by (intro computeHTTPProxys_orphans [OF assms(2,5)]) auto
  then have "n \<in> fst ` set (ps_orphaned st2)" by (force dest: map_of_SomeD)
  moreover have "set (mo_orphans ord (ps_orphaned st2)) = set (ps_orphaned st2)"
    using assms(1) unfolding fair_order_def by (metis set_mset_mset)
  ultimately have "n \<in> set (map fst (mo_orphans ord (ps_orphaned st2)))" by simp
  from mark_orphans_marks [OF assms(2,3) disjI1 [OF this]] show ?thesis
    by (simp add: HTTPProxyProcessor_Run_def v st2_def Let_def)
qed

section \<open>Witnesses\<close>

definition sample_vh :: VirtualHost_v1 where
  "sample_vh = zero_VirtualHost_v1\<lparr>vh1_Fqdn := ''a.com''\<rparr>"

definition sample_root :: HTTPProxy where
  "sample_root = sample_child\<lparr>px_Name := ''root'', px_Spec := zero_HTTPProxySpec\<lparr>spec_VirtualHost := Some sample_vh, spec_Routes := [sample_route]\<rparr>\<rparr>"

definition proxy_cache :: KubernetesCache where
  "proxy_cache = empty_cache\<lparr>kc_httpproxies := [(\<lparr>nn_Namespace = ''app'', nn_Name = ''root''\<rparr>, sample_root),
     (\<lparr>nn_Namespace = ''app'', nn_Name = ''child''\<rparr>, sample_child)]\<rparr>"

lemma sample_fields:
  "px_Namespace sample_root = ''app''" "px_Name sample_root = ''root''" "px_NamespacedName sample_root = \<lparr>nn_Namespace = ''app'', nn_Name = ''root''\<rparr>"
  "spec_VirtualHost (px_Spec sample_root) = Some sample_vh" "spec_TCPProxy (px_Spec sample_root) = None"
  "spec_Includes (px_Spec sample_root) = []" "spec_Routes (px_Spec sample_root) = [sample_route]"
  "px_Namespace sample_child = ''app''" "px_Name sample_child = ''child''" "px_NamespacedName sample_child = \<lparr>nn_Namespace = ''app'', nn_Name = ''child''\<rparr>"
  "spec_VirtualHost (px_Spec sample_child) = None" "spec_Includes (px_Spec sample_child) = []" "spec_TCPProxy (px_Spec sample_child) = None"
  "vh1_Fqdn sample_vh = ''a.com''" "vh1_TLS sample_vh = None"
  by (simp_all add: sample_root_def sample_child_def zero_HTTPProxySpec_def px_NamespacedName_def zero_HTTPProxy_def sample_vh_def zero_v1_defs)

lemma sample_dag_ready: "dag_ready sample_dag"
proof -
  have "wf_dag sample_dag" unfolding sample_dag_def by (intro listener_run.run_wf new_DAG_wf)
  then show ?thesis
    by (auto simp: dag_ready_def sample_dag_def ListenerProcessor_Run_def empty_cache_def lookup_put new_DAG_def listener_ready_def
        http_listener_def https_listener_def zero_Listener_def split: if_splits)
qed

theorem computeHTTPProxy_isolated_witness:
  "isolated ''a.com'' (ps_dag sample_state)
     (ps_dag (computeHTTPProxy sample_library proxy_cache sample_processor sample_order sample_root sample_state))"
  using computeHTTPProxy_isolated [OF sample_fields(4), of sample_state sample_library proxy_cache sample_processor sample_order]
    sample_dag_ready by (simp add: sample_fields sample_state_def)

lemma updates_blind: "vh_blind (\<lambda>st. updates (ps_dag st))"
  by (auto simp: vh_blind_def keeps_def write_vh_def on_dag_def write_vhost_def ensure_vhost_def stop_def EnsureVirtualHost_def on_listener_def Let_def
      split: sum.splits option.splits prod.splits)

lemma sample_single: "GetSingleListener ''http'' sample_dag = Ok (http_listener sample_listeners)"
  by (simp add: GetSingleListener_def sample_dag_def ListenerProcessor_Run_def empty_cache_def new_DAG_def map_values_def
      http_listener_def https_listener_def zero_Listener_def)

lemma sample_host: "\<exists>st' h. ensure_vhost ''a.com'' vc sample_state = (vc, st', Some h)"
proof -
  have "ln_Name (http_listener sample_listeners) = ''ingress_http''" by (simp add: http_listener_def zero_Listener_def)
  moreover have "listener_EnsureVirtualHost ''a.com'' (http_listener sample_listeners) \<noteq> None"
    by (simp add: listener_EnsureVirtualHost_def nil_lookup_def http_listener_def zero_Listener_def Let_def)
  then have "EnsureVirtualHost ''ingress_http'' ''a.com'' sample_dag \<noteq> None"
    unfolding EnsureVirtualHost_def on_listener_def sample_dag_listeners(1) by simp
  ultimately show ?thesis by (auto simp: ensure_vhost_def sample_state_def sample_single)
qed

lemma sample_root_route: "\<exists>r. computeRoutes (root_env sample_library proxy_cache sample_processor sample_order sample_vh []) sample_root [] [] vc st = (vc, st, [r])"
proof -
  obtain r where r: "compute_route sample_library proxy_cache sample_processor sample_vh sample_root [] False ''''
      sample_route [(''CONTOUR_NAMESPACE'', ''app'')] vc = (vc, Some (r, [(''CONTOUR_NAMESPACE'', ''app'')]))" "rt_PathRewritePolicy r = None"
    by (simp add: compute_route_def route_auth_def AuthorizationConfigured_def GlobalAuthorizationConfigured_def zero_Route_def
      sample_vh_def sample_processor_def route_base_def routeActionCountValid_def sample_route_def or_fail_def and_then_def Let_def
      zero_v1_defs pathMatchConditionsValid_def prefix_condition_def headerMatchConditionsValid_def
      queryParameterMatchConditionsValid_def headersPolicyRoute_def cookieRewritePolicies_def timeoutPolicy_def rateLimitPolicy_def
      loadBalancerRequestHashPolicies_def redirectRoutePolicy_def route_prefix_rewrite_def GetPrefixReplacements_def
      httpHealthCheckPolicy_def route_finish_def route_jwt_def toIPFilterRules_def)
  show ?thesis using r expandPrefixMatches_single [OF sample_order_fair r(2)] by (simp add: sample_fields and_then_def)
qed

lemma sample_root_processed:
  "\<exists>st'. compute_root sample_library proxy_cache sample_processor sample_order sample_root sample_vh vc sample_state = (vc, st', Some ()) \<and>
     updates (ps_dag st') = []"
proof -
  obtain r where r: "computeRoutes (root_env sample_library proxy_cache sample_processor sample_order sample_vh []) sample_root [] [] vc sample_state =
      (vc, sample_state, [r])" using sample_root_route by blast
  have checks: "root_checks proxy_cache sample_root sample_vh vc = (vc, Some ())"
    by (simp add: root_checks_def sample_fields isBlank_def strings_TrimSpace_def is_space_def rootAllowed_def proxy_cache_def empty_cache_def)
      (simp add: sample_vh_def zero_VirtualHost_v1_def)
  obtain st1 h where h: "ensure_vhost ''a.com'' vc sample_state = (vc, st1, Some h)" using sample_host by blast
  have "\<exists>st2 cp. insecure_host sample_library sample_processor sample_root sample_vh [r] vc sample_state = (vc, st2, Some cp)"
    by (simp add: insecure_host_def sample_fields h then_do_def in_state_def or_fail_def host_rate_limit_def computeVirtualHostRateLimitPolicy_def
        rateLimitPolicy_def toCORSPolicy_def host_ip_filter_def toIPFilterRules_def Let_def)
      (simp add: sample_vh_def sample_processor_def zero_VirtualHost_v1_def)
  then obtain st2 cp where i: "insecure_host sample_library sample_processor sample_root sample_vh [r] vc sample_state = (vc, st2, Some cp)" by blast
  have "updates (ps_dag st2) = updates (ps_dag sample_state)"
    using insecure_host_keeps [OF updates_blind, of sample_state sample_library sample_processor sample_root sample_vh "[r]" vc] i
    by (simp add: keeps_def)
  moreover have "updates (ps_dag sample_state) = []"
    by (simp add: sample_state_def sample_dag_def ListenerProcessor_Run_def empty_cache_def new_DAG_def NewCache_def)
  moreover have "root_routes sample_library proxy_cache sample_processor sample_order sample_root sample_vh [] vc sample_state = (vc, st2, Some ())"
    unfolding root_routes_def r prod.case by (simp add: i then_do_def sample_fields)
  ultimately show ?thesis
    by (simp add: compute_root_def checks in_state_def then_do_def root_tls_def root_tcp_def sample_fields)
qed


lemma proxy_cache_values: "map_values (kc_httpproxies proxy_cache) = [sample_root, sample_child]"
  by (simp add: proxy_cache_def map_values_def)

theorem HTTPProxyProcessor_Run_hosts_witness:
  "\<exists>l'. lookup (dag_Listeners (HTTPProxyProcessor_Run sample_library sample_order sample_processor proxy_cache sample_dag)) ''ingress_http'' = Some l' \<and>
     (\<forall>v\<in>set (ln_VirtualHosts l'). owner proxy_cache (vh_Name v))"
proof -
  have "ln_VirtualHosts (http_listener sample_listeners) = []" by (simp add: http_listener_def zero_Listener_def)
  with HTTPProxyProcessor_Run_hosts [OF sample_order_fair sample_dag_ready, of sample_library sample_processor proxy_cache "''ingress_http''"]
  show ?thesis by (auto simp: sample_dag_listeners split: option.splits)
qed

theorem HTTPProxyProcessor_Run_status_witness:
  "has_status (HTTPProxyProcessor_Run sample_library sample_order sample_processor proxy_cache sample_dag) sample_root"
  using HTTPProxyProcessor_Run_status [OF sample_order_fair sample_dag_ready, of sample_root proxy_cache] by (simp add: proxy_cache_values)

theorem HTTPProxyProcessor_Run_orphans_witness:
  "orphan_in (HTTPProxyProcessor_Run sample_library sample_order sample_processor proxy_cache sample_dag) sample_child"
proof -
  let ?n = "\<lparr>nn_Namespace = ''app'', nn_Name = ''child''\<rparr>"
  have "keyed proxy_cache" by (auto simp: keyed_def proxy_cache_def sample_fields split: if_splits)
  moreover have "lookup (kc_httpproxies proxy_cache) ?n = Some sample_child" by (simp add: proxy_cache_def)
  moreover have "\<forall>q\<in>set (map_values (kc_httpproxies proxy_cache)). \<not> refers q ?n"
    by (simp add: proxy_cache_values refers_def sample_fields)
  ultimately show ?thesis using HTTPProxyProcessor_Run_orphans sample_order_fair sample_fields(11) by blast
qed

end
