(* ===== verification/Ingress_Processor.thy ===== *)
theory Ingress_Processor
  imports HTTP_Proxy_Run
begin

text \<open>
  The translation of Ingresses, \<open>internal/dag/ingress_processor.go\<close>: the secure virtual hosts of their TLS sections and the routes of
  their rules.  A loop whose body can \<open>return\<close> gives the DAG and whether it went on; a panic is None.
  The two loops over the ingresses follow orders of map iteration that are arguments.
\<close>

section \<open>The processor\<close>

record IngressProcessor =
  ip_ClientCertificate :: "NamespacedName option"
  ip_EnableExternalNameService :: bool
  ip_RequestHeadersPolicy :: "HeadersPolicy option"
  ip_ResponseHeadersPolicy :: "HeadersPolicy option"
  ip_ConnectTimeout :: duration
  ip_MaxRequestsPerConnection :: "uint32 option"
  ip_PerConnectionBufferLimitBytes :: "uint32 option"
  ip_SetSourceMetadataOnRoutes :: bool
  ip_GlobalCircuitBreakerDefaults :: "CircuitBreakers option"
  ip_UpstreamTLS :: "UpstreamTLS option"

record ingress_order =
  io_tls :: "(NamespacedName, Ingress) gomap \<Rightarrow> (NamespacedName, Ingress) gomap"
  io_rules :: "(NamespacedName, Ingress) gomap \<Rightarrow> (NamespacedName, Ingress) gomap"

definition fair_ingress_order :: "ingress_order \<Rightarrow> bool" where
  "fair_ingress_order ord \<longleftrightarrow> (\<forall>m. mset (io_tls ord m) = mset m \<and> mset (io_rules ord m) = mset m)"

text \<open>A loop whose body returns from the function or goes on.\<close>

fun until_return :: "('a \<Rightarrow> DAG \<Rightarrow> (bool \<times> DAG) option) \<Rightarrow> 'a list \<Rightarrow> DAG \<Rightarrow> (bool \<times> DAG) option" where
  "until_return f [] d = Some (True, d)"
| "until_return f (x # xs) d =
     (case f x d of
        None \<Rightarrow> None
      | Some (goes_on, d) \<Rightarrow> if goes_on then until_return f xs d else Some (False, d))"

section \<open>Secure virtual hosts\<close>

definition secure_ingress_host :: "Ingress \<Rightarrow> Secret \<Rightarrow> string \<Rightarrow> DAG \<Rightarrow> (bool \<times> DAG) option" where
  "secure_ingress_host ing sec host d =
     (case GetSingleListener ''https'' d of
        Inl err \<Rightarrow> Some (False, d)
      | Inr listener \<Rightarrow>
          let minTLSVer = TLSVersion (ContourAnnotation (ing_Annotations ing) ''tls-minimum-protocol-version'') ''1.2'';
              maxTLSVer = TLSVersion (ContourAnnotation (ing_Annotations ing) ''tls-maximum-protocol-version'') ''1.3''
          in if maxTLSVer < minTLSVer then Some (False, d)
             else (case EnsureSecureVirtualHost (ln_Name listener) host d of
                     None \<Rightarrow> None
                   | Some (svhost, d) \<Rightarrow>
                       Some (True, write_svhost (ln_Name listener) svhost
                         (\<lambda>s. s\<lparr>svh_Secret := Some sec, svh_MinTLSVersion := minTLSVer, svh_MaxTLSVersion := maxTLSVer\<rparr>) d)))"

definition ingress_secret_name :: "Ingress \<Rightarrow> IngressTLS \<Rightarrow> NamespacedName" where
  "ingress_secret_name ing tls =
     NamespacedNameFrom (itl_SecretName tls) [TLSCertAnnotationNamespace ing, DefaultNamespace (ing_Namespace ing)]"

definition secure_ingress_tls :: "library \<Rightarrow> KubernetesCache \<Rightarrow> Ingress \<Rightarrow> IngressTLS \<Rightarrow> DAG \<Rightarrow> (bool \<times> DAG) option" where
  "secure_ingress_tls lib source ing tls d =
     (case fst (LookupTLSSecret (lib_crypto lib) (ingress_secret_name ing tls) (ing_Namespace ing) source) of
        Inl err \<Rightarrow> Some (True, d)
      | Inr sec \<Rightarrow> until_return (secure_ingress_host ing sec) (itl_Hosts tls) d)"

definition computeSecureVirtualhosts :: "library \<Rightarrow> ingress_order \<Rightarrow> KubernetesCache \<Rightarrow> DAG \<Rightarrow> DAG option" where
  "computeSecureVirtualhosts lib ord source d =
     map_option snd (until_return (\<lambda>ing. until_return (secure_ingress_tls lib source ing) (ing_TLS ing))
       (map_values (io_tls ord (kc_ingresses source))) d)"

section \<open>Rules and routes\<close>

text \<open>None: the backend is not a service, and its name is read.\<close>

definition defaultBackendRule :: "IngressBackend \<Rightarrow> IngressRule option" where
  "defaultBackendRule be =
     (case ib_Service be of
        None \<Rightarrow> None
      | Some service \<Rightarrow>
          Some \<lparr>irl_Host = '''', irl_HTTP = Some [\<lparr>hip_Path = '''', hip_PathType = None,
             hip_Backend = \<lparr>ib_Service = Some service\<rparr>\<rparr>]\<rparr>)"

definition rulesFromSpec :: "Ingress \<Rightarrow> IngressRule list option" where
  "rulesFromSpec ing =
     (case ing_DefaultBackend ing of
        None \<Rightarrow> Some (ing_Rules ing)
      | Some backend \<Rightarrow> map_option (\<lambda>rule. rule # ing_Rules ing) (defaultBackendRule backend))"

definition httppaths :: "IngressRule \<Rightarrow> HTTPIngressPath list" where
  "httppaths rule = (case irl_HTTP rule of None \<Rightarrow> [] | Some paths \<Rightarrow> paths)"

definition strings_ContainsAny :: "string \<Rightarrow> string \<Rightarrow> bool" where
  "strings_ContainsAny s chars = (\<exists>c\<in>set s. c \<in> set chars)"

text \<open>The condition on the path; a path type the switch does not know leaves it nil.\<close>

definition ingress_path_match :: "(string \<Rightarrow> string option) \<Rightarrow> string \<Rightarrow> string \<Rightarrow> MatchCondition option result" where
  "ingress_path_match ValidateRegex path pathType =
     (if pathType = ''Prefix'' then
        (if path = ''/'' then Ok (Some (PrefixMatchCondition path PrefixMatchString))
         else Ok (Some (PrefixMatchCondition (strings_TrimRight path CHR ''/'') PrefixMatchSegment)))
      else if pathType = ''Exact'' then Ok (Some (ExactMatchCondition path))
      else if pathType = ''ImplementationSpecific'' then
        (if strings_ContainsAny path ''^+*[]%'' then
           (case ValidateRegex path of Some err \<Rightarrow> Err err | None \<Rightarrow> Ok (Some (RegexMatchCondition path)))
         else Ok (Some (PrefixMatchCondition path PrefixMatchString)))
      else Ok None)"

text \<open>The route and whether its path condition is set.\<close>

definition ingress_route ::
  "library \<Rightarrow> IngressProcessor \<Rightarrow> Ingress \<Rightarrow> string \<Rightarrow> string \<Rightarrow> string \<Rightarrow> Service \<Rightarrow> Secret option \<Rightarrow> string \<Rightarrow> int \<Rightarrow> (bool \<times> Route) result" where
  "ingress_route lib p ingress host path pathType service clientCertSecret serviceName servicePort =
     (let dynamicHeaders = put ''CONTOUR_SERVICE_PORT'' (strconv_Itoa servicePort) (put ''CONTOUR_SERVICE_NAME'' serviceName
            [(''CONTOUR_NAMESPACE'', ing_Namespace ingress)])
      in case headersPolicyService (lib_IsHTTPHeaderName lib) (ip_RequestHeadersPolicy p) None True dynamicHeaders of
           Inl err \<Rightarrow> Err err
         | Inr reqHP \<Rightarrow>
      (case headersPolicyService (lib_IsHTTPHeaderName lib) (ip_ResponseHeadersPolicy p) None False dynamicHeaders of
           Inl err \<Rightarrow> Err err
         | Inr respHP \<Rightarrow>
      let r = zero_Route\<lparr>
            rt_HTTPSUpgrade := TLSRequired ingress,
            rt_Websocket := (lookup (WebsocketRoutes ingress) path = Some True),
            rt_TimeoutPolicy := ingressTimeoutPolicy (lib_ParseDuration lib) ingress,
            rt_RetryPolicy := ingressRetryPolicy (lib_ParseDuration lib) ingress,
            rt_Clusters := [zero_Cluster\<lparr>
              cl_Upstream := service, cl_Protocol := sv_Protocol service, cl_ClientCertificate := clientCertSecret,
              cl_RequestHeadersPolicy := reqHP, cl_ResponseHeadersPolicy := respHP,
              cl_TimeoutPolicy := zero_ClusterTimeoutPolicy\<lparr>cto_ConnectTimeout := ip_ConnectTimeout p\<rparr>,
              cl_MaxRequestsPerConnection := ip_MaxRequestsPerConnection p,
              cl_PerConnectionBufferLimitBytes := ip_PerConnectionBufferLimitBytes p,
              cl_UpstreamTLS := ip_UpstreamTLS p\<rparr>]\<rparr>;
          r = (if ip_SetSourceMetadataOnRoutes p
               then r\<lparr>rt_Kind := ''Ingress'', rt_Namespace := ing_Namespace ingress, rt_Name := ing_Name ingress\<rparr> else r)
      in case ingress_path_match (lib_Compile lib) path pathType of
           Inl err \<Rightarrow> Err err
         | Inr cond \<Rightarrow>
             let r = (case cond of None \<Rightarrow> r | Some c \<Rightarrow> r\<lparr>rt_PathMatchCondition := c\<rparr>);
                 r = (if strings_HasPrefix host ''*.''
                      then r\<lparr>rt_HeaderMatchConditions := rt_HeaderMatchConditions r @ [wildcardDomainHeaderMatch host]\<rparr> else r)
             in Ok (cond \<noteq> None, r)))"

text \<open>The port of a backend: its number, or the one of the service port with its name.\<close>

definition ingress_backend_port :: "KubernetesCache \<Rightarrow> NamespacedName \<Rightarrow> IngressServiceBackend \<Rightarrow> int result" where
  "ingress_backend_port source m service =
     (if length (isb_PortName service) > 0
      then map_sum id (\<lambda>(svc, svcPort). port_Port svcPort) (LookupService source m (FromString (isb_PortName service)))
      else Ok (isb_PortNumber service))"

text \<open>Adds the route to the plain host; AddRoute reads the path condition.\<close>

definition add_plain_route :: "Ingress \<Rightarrow> string \<Rightarrow> bool \<Rightarrow> Route \<Rightarrow> DAG \<Rightarrow> (bool \<times> DAG) option" where
  "add_plain_route ing host has_path r d =
     (if TLSRequired ing \<or> HTTPAllowed ing then
        (case GetSingleListener ''http'' d of
           Inl err \<Rightarrow> Some (False, d)
         | Inr listener \<Rightarrow>
             (case EnsureVirtualHost (ln_Name listener) host d of
                None \<Rightarrow> None
              | Some (vhost, d) \<Rightarrow> if has_path then Some (True, write_vhost (ln_Name listener) vhost (AddRoute r) d) else None))
      else Some (True, d))"

definition add_secure_route :: "string \<Rightarrow> bool \<Rightarrow> Route \<Rightarrow> DAG \<Rightarrow> (bool \<times> DAG) option" where
  "add_secure_route host has_path r d =
     (case GetSingleListener ''https'' d of
        Inl err \<Rightarrow> Some (False, d)
      | Inr listener \<Rightarrow>
          (case GetSecureVirtualHost (ln_Name listener) host d of
             None \<Rightarrow> None
           | Some svh \<Rightarrow>
               (case (svh, host \<noteq> ''*'') of
                  (Some svh, True) \<Rightarrow>
                    if has_path
                    then Some (True, write_svhost (ln_Name listener) svh (\<lambda>s. s\<lparr>svh_VirtualHost := AddRoute r (svh_VirtualHost s)\<rparr>) d)
                    else None
                | _ \<Rightarrow> Some (True, d))))"

definition ingress_path ::
  "library \<Rightarrow> KubernetesCache \<Rightarrow> IngressProcessor \<Rightarrow> Ingress \<Rightarrow> IngressRule \<Rightarrow> string \<Rightarrow> Secret option \<Rightarrow> HTTPIngressPath \<Rightarrow> DAG \<Rightarrow> (bool \<times> DAG) option" where
  "ingress_path lib source p ing rule host clientCertSecret httppath d =
     (let path = stringOrDefault (hip_Path httppath) ''/'';
          pathType = (case hip_PathType httppath of None \<Rightarrow> ''ImplementationSpecific'' | Some t \<Rightarrow> t)
      in case ib_Service (hip_Backend httppath) of
           None \<Rightarrow> None
         | Some service \<Rightarrow>
             let m = \<lparr>nn_Namespace = ing_Namespace ing, nn_Name = isb_Name service\<rparr> in
             (case ingress_backend_port source m service of
                Inl err \<Rightarrow> Some (True, d)
              | Inr port \<Rightarrow>
                  (case EnsureService source m port port (ip_EnableExternalNameService p) of
                     Inl err \<Rightarrow> Some (True, d)
                   | Inr s \<Rightarrow>
                       let s = the (serviceCircuitBreakerPolicy (Some s) (ip_GlobalCircuitBreakerDefaults p)) in
                       (case ingress_route lib p ing (irl_Host rule) path pathType s clientCertSecret (isb_Name service) (isb_PortNumber service) of
                          Inl err \<Rightarrow> Some (False, d)
                        | Inr (has_path, r) \<Rightarrow>
                            (case add_plain_route ing host has_path r d of
                               None \<Rightarrow> None
                             | Some (goes_on, d) \<Rightarrow> if goes_on then add_secure_route host has_path r d else Some (False, d))))))"

definition computeIngressRule :: "library \<Rightarrow> KubernetesCache \<Rightarrow> IngressProcessor \<Rightarrow> Ingress \<Rightarrow> IngressRule \<Rightarrow> DAG \<Rightarrow> DAG option" where
  "computeIngressRule lib source p ing rule d =
     (let host = (if irl_Host rule = '''' then ''*'' else irl_Host rule);
          clientCert = (case ip_ClientCertificate p of
                          None \<Rightarrow> Ok None
                        | Some name \<Rightarrow> map_sum lookup_error_message Some (fst (LookupTLSSecretInsecure (lib_crypto lib) name source)))
      in case clientCert of
           Inl err \<Rightarrow> Some d
         | Inr clientCertSecret \<Rightarrow> map_option snd (until_return (ingress_path lib source p ing rule host clientCertSecret) (httppaths rule) d))"

fun computeIngressRules :: "library \<Rightarrow> KubernetesCache \<Rightarrow> IngressProcessor \<Rightarrow> Ingress \<Rightarrow> IngressRule list \<Rightarrow> DAG \<Rightarrow> DAG option" where
  "computeIngressRules lib source p ing [] d = Some d"
| "computeIngressRules lib source p ing (rule # rules) d =
     Option.bind (computeIngressRule lib source p ing rule d) (computeIngressRules lib source p ing rules)"

fun computeIngresses_loop :: "library \<Rightarrow> KubernetesCache \<Rightarrow> IngressProcessor \<Rightarrow> Ingress list \<Rightarrow> DAG \<Rightarrow> DAG option" where
  "computeIngresses_loop lib source p [] d = Some d"
| "computeIngresses_loop lib source p (ing # ings) d =
     Option.bind (rulesFromSpec ing) (\<lambda>rules.
     Option.bind (computeIngressRules lib source p ing rules d) (computeIngresses_loop lib source p ings))"

definition computeIngresses :: "library \<Rightarrow> ingress_order \<Rightarrow> KubernetesCache \<Rightarrow> IngressProcessor \<Rightarrow> DAG \<Rightarrow> DAG option" where
  "computeIngresses lib ord source p d = computeIngresses_loop lib source p (map_values (io_rules ord (kc_ingresses source))) d"

definition IngressProcessor_Run :: "library \<Rightarrow> ingress_order \<Rightarrow> IngressProcessor \<Rightarrow> KubernetesCache \<Rightarrow> DAG \<Rightarrow> DAG option" where
  "IngressProcessor_Run lib ord p source d =
     Option.bind (computeSecureVirtualhosts lib ord source d) (computeIngresses lib ord source p)"

section \<open>What a run can change\<close>

text \<open>The hosts of the rules, and the certificates the TLS sections give: the secret is found, valid, and the namespace of the
  ingress may use it.\<close>

definition rule_host :: "IngressRule \<Rightarrow> string" where
  "rule_host rule = (if irl_Host rule = '''' then ''*'' else irl_Host rule)"

definition ingress_named :: "KubernetesCache \<Rightarrow> string \<Rightarrow> bool" where
  "ingress_named source host \<longleftrightarrow>
     (\<exists>ing\<in>set (map_values (kc_ingresses source)). \<exists>rules. rulesFromSpec ing = Some rules \<and> (\<exists>rule\<in>set rules. rule_host rule = host))"

definition ingress_certificate :: "library \<Rightarrow> KubernetesCache \<Rightarrow> string \<Rightarrow> Secret \<Rightarrow> bool" where
  "ingress_certificate lib source host sec \<longleftrightarrow>
     (\<exists>ing\<in>set (map_values (kc_ingresses source)). \<exists>tls\<in>set (ing_TLS ing). host \<in> set (itl_Hosts tls) \<and>
        fst (LookupTLSSecret (lib_crypto lib) (ingress_secret_name ing tls) (ing_Namespace ing) source) = Inr sec)"

definition plain_ok :: "KubernetesCache \<Rightarrow> DAG \<Rightarrow> string \<Rightarrow> VirtualHost \<Rightarrow> bool" where
  "plain_ok source d0 n v \<longleftrightarrow>
     ingress_named source (vh_Name v) \<or> (\<exists>l. lookup (dag_Listeners d0) n = Some l \<and> v \<in> set (ln_VirtualHosts l))"

definition old_secure :: "DAG \<Rightarrow> string \<Rightarrow> string \<Rightarrow> Secret option \<Rightarrow> bool" where
  "old_secure d0 n host sec \<longleftrightarrow>
     (\<exists>l. lookup (dag_Listeners d0) n = Some l \<and>
        (\<exists>s\<in>set (ln_SecureVirtualHosts l). vh_Name (svh_VirtualHost s) = host \<and> svh_Secret s = sec))"

definition secure_ok :: "library \<Rightarrow> KubernetesCache \<Rightarrow> DAG \<Rightarrow> string \<Rightarrow> SecureVirtualHost \<Rightarrow> bool" where
  "secure_ok lib source d0 n s \<longleftrightarrow>
     (let host = vh_Name (svh_VirtualHost s) in
      old_secure d0 n host (svh_Secret s) \<or>
      (svh_Secret s = None \<and> (\<exists>sec. ingress_certificate lib source host sec)) \<or>
      (\<exists>sec. svh_Secret s = Some sec \<and> ingress_certificate lib source host sec))"

definition all_hosts :: "(string \<Rightarrow> VirtualHost \<Rightarrow> bool) \<Rightarrow> (string \<Rightarrow> SecureVirtualHost \<Rightarrow> bool) \<Rightarrow> DAG \<Rightarrow> bool" where
  "all_hosts V S d \<longleftrightarrow>
     (\<forall>n l. lookup (dag_Listeners d) n = Some l \<longrightarrow> (\<forall>v\<in>set (ln_VirtualHosts l). V n v) \<and> (\<forall>s\<in>set (ln_SecureVirtualHosts l). S n s))"

definition same_listeners :: "DAG \<Rightarrow> DAG \<Rightarrow> bool" where
  "same_listeners d d' \<longleftrightarrow>
     (\<forall>n. map_option (\<lambda>l. (ln_Name l, ln_Protocol l)) (lookup (dag_Listeners d') n) =
          map_option (\<lambda>l. (ln_Name l, ln_Protocol l)) (lookup (dag_Listeners d) n)) \<and>
     dag_StatusCache d' = dag_StatusCache d \<and> dag_ExtensionClusters d' = dag_ExtensionClusters d"

definition ingress_inv :: "library \<Rightarrow> KubernetesCache \<Rightarrow> DAG \<Rightarrow> DAG \<Rightarrow> bool" where
  "ingress_inv lib source d0 d \<longleftrightarrow>
     dag_ready d \<and> same_listeners d0 d \<and> all_hosts (plain_ok source d0) (secure_ok lib source d0) d"

text \<open>The result of a step: a panic only where it is excused, otherwise the invariant.\<close>

definition ok_result :: "bool \<Rightarrow> (DAG \<Rightarrow> bool) \<Rightarrow> (bool \<times> DAG) option \<Rightarrow> bool" where
  "ok_result bad I r \<longleftrightarrow> (case r of None \<Rightarrow> bad | Some (_, d) \<Rightarrow> I d)"

lemma ok_result_simps [simp]: "ok_result bad I None = bad" "ok_result bad I (Some (b, d)) = I d"
  by (simp_all add: ok_result_def)

lemma until_return_ok:
  "(\<And>x d. x \<in> set xs \<Longrightarrow> I d \<Longrightarrow> ok_result bad I (f x d)) \<Longrightarrow> I d \<Longrightarrow> ok_result bad I (until_return f xs d)"
proof (induction xs arbitrary: d)
  case (Cons x xs)
  have "ok_result bad I (f x d)" using Cons.prems by simp
  then show ?case using Cons by (cases "f x d") (auto simp: ok_result_def)
qed simp

text \<open>Writing to one host of one listener.\<close>

lemma all_hosts_put:
  assumes "all_hosts V S d" "\<And>v. v \<in> set (ln_VirtualHosts l') \<Longrightarrow> V n v" "\<And>s. s \<in> set (ln_SecureVirtualHosts l') \<Longrightarrow> S n s"
  shows "all_hosts V S (d\<lparr>dag_Listeners := put n l' (dag_Listeners d)\<rparr>)"
  using assms by (simp add: all_hosts_def lookup_put)

lemma same_listeners_put:
  assumes "same_listeners d0 d" "lookup (dag_Listeners d) n = Some l" "ln_Name l' = ln_Name l" "ln_Protocol l' = ln_Protocol l"
  shows "same_listeners d0 (d\<lparr>dag_Listeners := put n l' (dag_Listeners d)\<rparr>)"
  using assms by (auto simp: same_listeners_def lookup_put) (metis (no_types, lifting) option.simps(9))

lemma dag_write_vhost_step:
  assumes "at_host host (n, i) d" "\<And>v. vh_Name (f v) = vh_Name v"
  shows "dag_step host d (write_vhost n i f d)"
  using write_vh_step [of host "(n, i)" "\<lparr>ps_dag = d, ps_orphaned = []\<rparr>" f] assms
  by (simp add: host_step_def write_vh_def on_dag_def)

lemma dag_write_svhost_step:
  assumes "at_shost host (n, i) d" "\<And>s. vh_Name (svh_VirtualHost (f s)) = vh_Name (svh_VirtualHost s)"
  shows "dag_step host d (write_svhost n i f d)"
  using write_svh_step [of host "(n, i)" "\<lparr>ps_dag = d, ps_orphaned = []\<rparr>" f] assms
  by (simp add: host_step_def write_svh_def on_dag_def)

lemma dag_step_ready: "dag_step host d d' \<Longrightarrow> dag_ready d \<Longrightarrow> dag_ready d'"
  by (simp add: dag_step_def)

lemma write_vhost_inv:
  assumes "ingress_inv lib source d0 d" "at_host host (n, i) d" "\<And>v. vh_Name (f v) = vh_Name v" "ingress_named source host"
  shows "ingress_inv lib source d0 (write_vhost n i f d)"
proof -
  obtain l where l: "lookup (dag_Listeners d) n = Some l" "i < length (ln_VirtualHosts l)" "vh_Name (ln_VirtualHosts l ! i) = host"
    using assms(2) by (auto simp: at_host_def)
  let ?l = "l\<lparr>ln_VirtualHosts := (ln_VirtualHosts l)[i := f (ln_VirtualHosts l ! i)]\<rparr>"
  have eq: "write_vhost n i f d = d\<lparr>dag_Listeners := put n ?l (dag_Listeners d)\<rparr>" by (simp add: write_vhost_def l)
  have "plain_ok source d0 n v" if v: "v \<in> set (ln_VirtualHosts ?l)" for v
  proof -
    have "v = f (ln_VirtualHosts l ! i) \<or> v \<in> set (ln_VirtualHosts l)" using v set_update_subset_insert by fastforce
    then show ?thesis using assms(1,3,4) l unfolding ingress_inv_def all_hosts_def by (auto simp: plain_ok_def)
  qed
  then have "all_hosts (plain_ok source d0) (secure_ok lib source d0) (write_vhost n i f d)"
    unfolding eq using assms(1) l(1) by (intro all_hosts_put) (auto simp: ingress_inv_def all_hosts_def)
  moreover have "dag_ready (write_vhost n i f d)"
    using dag_step_ready [OF dag_write_vhost_step [OF assms(2,3)]] assms(1) by (simp add: ingress_inv_def)
  moreover have "same_listeners d0 (write_vhost n i f d)"
    unfolding eq using assms(1) l(1) by (intro same_listeners_put) (auto simp: ingress_inv_def)
  ultimately show ?thesis by (simp add: ingress_inv_def)
qed

lemma write_svhost_inv:
  assumes "ingress_inv lib source d0 d" "at_shost host (n, i) d" "\<And>s. vh_Name (svh_VirtualHost (f s)) = vh_Name (svh_VirtualHost s)"
    and "\<And>s. vh_Name (svh_VirtualHost s) = host \<Longrightarrow> secure_ok lib source d0 n s \<Longrightarrow> secure_ok lib source d0 n (f s)"
  shows "ingress_inv lib source d0 (write_svhost n i f d)"
proof -
  obtain l where l: "lookup (dag_Listeners d) n = Some l" "i < length (ln_SecureVirtualHosts l)"
      "vh_Name (svh_VirtualHost (ln_SecureVirtualHosts l ! i)) = host"
    using assms(2) by (auto simp: at_shost_def)
  let ?l = "l\<lparr>ln_SecureVirtualHosts := (ln_SecureVirtualHosts l)[i := f (ln_SecureVirtualHosts l ! i)]\<rparr>"
  have eq: "write_svhost n i f d = d\<lparr>dag_Listeners := put n ?l (dag_Listeners d)\<rparr>" by (simp add: write_svhost_def l)
  have hosts: "all_hosts (plain_ok source d0) (secure_ok lib source d0) d" using assms(1) by (simp add: ingress_inv_def)
  have "secure_ok lib source d0 n s" if s: "s \<in> set (ln_SecureVirtualHosts ?l)" for s
  proof -
    have "s = f (ln_SecureVirtualHosts l ! i) \<or> s \<in> set (ln_SecureVirtualHosts l)" using s set_update_subset_insert by fastforce
    then show ?thesis using assms(4) hosts l nth_mem [OF l(2)] unfolding all_hosts_def by blast
  qed
  then have "all_hosts (plain_ok source d0) (secure_ok lib source d0) (write_svhost n i f d)"
    unfolding eq using hosts l(1) by (intro all_hosts_put) (auto simp: all_hosts_def)
  moreover have "dag_ready (write_svhost n i f d)"
    using dag_step_ready [OF dag_write_svhost_step [OF assms(2,3)]] assms(1) by (simp add: ingress_inv_def)
  moreover have "same_listeners d0 (write_svhost n i f d)"
    unfolding eq using assms(1) l(1) by (intro same_listeners_put) (auto simp: ingress_inv_def)
  ultimately show ?thesis by (simp add: ingress_inv_def)
qed

text \<open>Finding or adding a host.\<close>

lemma EnsureVirtualHost_inv:
  assumes inv: "ingress_inv lib source d0 d" and "EnsureVirtualHost n host d = Some (i, d')" and named: "ingress_named source host"
  shows "ingress_inv lib source d0 d'"
proof -
  obtain l l' where l: "lookup (dag_Listeners d) n = Some l" "listener_EnsureVirtualHost host l = Some (i, l')"
      "d' = d\<lparr>dag_Listeners := put n l' (dag_Listeners d)\<rparr>"
    using assms(2) unfolding EnsureVirtualHost_def by (rule on_listener_Some)
  have new: "\<And>v. v \<in> set (ln_VirtualHosts l') \<Longrightarrow> v \<in> set (ln_VirtualHosts l) \<or> vh_Name v = host"
    and rest: "ln_SecureVirtualHosts l' = ln_SecureVirtualHosts l" "ln_Name l' = ln_Name l" "ln_Protocol l' = ln_Protocol l"
    using l(2) by (auto simp: listener_EnsureVirtualHost_def Let_def split: option.splits)
  have "all_hosts (plain_ok source d0) (secure_ok lib source d0) d'"
    unfolding l(3) using inv l(1) new rest(1) named
    by (intro all_hosts_put) (auto simp: ingress_inv_def all_hosts_def plain_ok_def)
  moreover have "dag_ready d'"
    using dag_step_ready EnsureVirtualHost_step [OF assms(2)] inv by (auto simp: ingress_inv_def)
  moreover have "same_listeners d0 d'" unfolding l(3) using inv l(1) rest by (intro same_listeners_put) (auto simp: ingress_inv_def)
  ultimately show ?thesis by (simp add: ingress_inv_def)
qed

lemma EnsureSecureVirtualHost_inv:
  assumes inv: "ingress_inv lib source d0 d" and "EnsureSecureVirtualHost n host d = Some (i, d')"
    and cert: "ingress_certificate lib source host sec"
  shows "ingress_inv lib source d0 d'"
proof -
  obtain l l' where l: "lookup (dag_Listeners d) n = Some l" "listener_EnsureSecureVirtualHost host l = Some (i, l')"
      "d' = d\<lparr>dag_Listeners := put n l' (dag_Listeners d)\<rparr>"
    using assms(2) unfolding EnsureSecureVirtualHost_def by (rule on_listener_Some)
  have new: "\<And>s. s \<in> set (ln_SecureVirtualHosts l') \<Longrightarrow>
      s \<in> set (ln_SecureVirtualHosts l) \<or> (vh_Name (svh_VirtualHost s) = host \<and> svh_Secret s = None)"
    and rest: "ln_VirtualHosts l' = ln_VirtualHosts l" "ln_Name l' = ln_Name l" "ln_Protocol l' = ln_Protocol l"
    using l(2) by (auto simp: listener_EnsureSecureVirtualHost_def Let_def zero_SecureVirtualHost_def split: option.splits)
  have "secure_ok lib source d0 n s" if "s \<in> set (ln_SecureVirtualHosts l')" for s
  proof (cases "s \<in> set (ln_SecureVirtualHosts l)")
    case True
    then show ?thesis using inv l(1) unfolding ingress_inv_def all_hosts_def by blast
  next
    case False
    then show ?thesis using new [OF that] cert by (auto simp: secure_ok_def Let_def)
  qed
  then have "all_hosts (plain_ok source d0) (secure_ok lib source d0) d'"
    unfolding l(3) using inv l(1) rest(1) by (intro all_hosts_put) (auto simp: ingress_inv_def all_hosts_def)
  moreover have "dag_ready d'"
    using dag_step_ready EnsureSecureVirtualHost_step [OF assms(2)] inv by (auto simp: ingress_inv_def)
  moreover have "same_listeners d0 d'" unfolding l(3) using inv l(1) rest by (intro same_listeners_put) (auto simp: ingress_inv_def)
  ultimately show ?thesis by (simp add: ingress_inv_def)
qed

lemma single_listener_ready:
  assumes "dag_ready d" "GetSingleListener p d = Ok l"
  shows "lookup (dag_Listeners d) (ln_Name l) = Some l" "ln_Protocol l = p"
  using GetSingleListener_lookup assms by (auto simp: dag_ready_def)

lemma GetSecureVirtualHost_at:
  assumes "dag_ready d" "lookup (dag_Listeners d) n = Some l" "ln_Protocol l = ''https''" "GetSecureVirtualHost n host d = Some (Some i)"
  shows "at_shost host (n, i) d"
proof -
  have "wf_listener l" using assms(1,2) wf_dag_listener by (auto simp: dag_ready_def)
  then show ?thesis using assms(2-4)
    by (simp add: at_shost_def GetSecureVirtualHost_def wf_listener_def wf_table_def)
qed

section \<open>The steps keep the invariant\<close>

lemma secure_ingress_host_ok:
  assumes inv: "ingress_inv lib source d0 d" and cert: "ingress_certificate lib source host sec"
  shows "ok_result False (ingress_inv lib source d0) (secure_ingress_host ing sec host d)"
proof (cases "GetSingleListener ''https'' d")
  case (Inr l)
  have ready: "dag_ready d" using inv by (simp add: ingress_inv_def)
  note l = single_listener_ready [OF ready Inr]
  show ?thesis
  proof (cases "EnsureSecureVirtualHost (ln_Name l) host d")
    case None
    then show ?thesis using ensure_hosts(2) [OF ready l] by simp
  next
    case (Some r)
    then obtain i d' where e: "EnsureSecureVirtualHost (ln_Name l) host d = Some (i, d')" by (cases r) auto
    have at: "at_shost host (ln_Name l, i) d'" using EnsureSecureVirtualHost_step [OF e, of l] ready l by blast
    have inv': "ingress_inv lib source d0 d'" by (rule EnsureSecureVirtualHost_inv [OF inv e cert])
    have "ingress_inv lib source d0 (write_svhost (ln_Name l) i
        (\<lambda>s. s\<lparr>svh_Secret := Some sec, svh_MinTLSVersion := a, svh_MaxTLSVersion := b\<rparr>) d')" for a b
      using cert by (intro write_svhost_inv [OF inv' at]) (auto simp: secure_ok_def Let_def)
    then show ?thesis using inv by (simp add: secure_ingress_host_def Inr e Let_def)
  qed
qed (use inv in \<open>simp add: secure_ingress_host_def\<close>)

lemma secure_ingress_tls_ok:
  assumes "ingress_inv lib source d0 d" "ing \<in> set (map_values (kc_ingresses source))" "tls \<in> set (ing_TLS ing)"
  shows "ok_result False (ingress_inv lib source d0) (secure_ingress_tls lib source ing tls d)"
proof (cases "fst (LookupTLSSecret (lib_crypto lib) (ingress_secret_name ing tls) (ing_Namespace ing) source)")
  case (Inr sec)
  have "ingress_certificate lib source host sec" if "host \<in> set (itl_Hosts tls)" for host
    using assms that Inr by (auto simp: ingress_certificate_def)
  then show ?thesis
    using assms(1) by (simp add: secure_ingress_tls_def Inr until_return_ok secure_ingress_host_ok)
qed (use assms in \<open>simp add: secure_ingress_tls_def\<close>)

lemma fair_values:
  assumes "fair_ingress_order ord"
  shows "set (map_values (io_tls ord m)) = set (map_values m)" "set (map_values (io_rules ord m)) = set (map_values m)"
proof -
  have "mset (io_tls ord m) = mset m" "mset (io_rules ord m) = mset m" using assms by (auto simp: fair_ingress_order_def)
  then have "set (io_tls ord m) = set m" "set (io_rules ord m) = set m" by (metis set_mset_mset)+
  then show "set (map_values (io_tls ord m)) = set (map_values m)" "set (map_values (io_rules ord m)) = set (map_values m)"
    by (simp_all add: map_values_def)
qed

lemma computeSecureVirtualhosts_ok:
  assumes "fair_ingress_order ord" "ingress_inv lib source d0 d"
  shows "\<exists>d'. computeSecureVirtualhosts lib ord source d = Some d' \<and> ingress_inv lib source d0 d'"
proof -
  let ?r = "until_return (\<lambda>ing. until_return (secure_ingress_tls lib source ing) (ing_TLS ing))
       (map_values (io_tls ord (kc_ingresses source))) d"
  have "ok_result False (ingress_inv lib source d0) ?r"
    using fair_values(1) [OF assms(1)] assms(2) by (intro until_return_ok secure_ingress_tls_ok) auto
  then show ?thesis by (cases ?r) (auto simp: computeSecureVirtualhosts_def)
qed

text \<open>Rules: only a backend that is no service, or an unknown type of path, can panic.\<close>

definition known_path_type :: "string option \<Rightarrow> bool" where
  "known_path_type t \<longleftrightarrow> t \<in> {None, Some ''Prefix'', Some ''Exact'', Some ''ImplementationSpecific''}"

definition ingress_supported :: "Ingress \<Rightarrow> bool" where
  "ingress_supported ing \<longleftrightarrow>
     (\<forall>be. ing_DefaultBackend ing = Some be \<longrightarrow> ib_Service be \<noteq> None) \<and>
     (\<forall>rule\<in>set (ing_Rules ing). \<forall>h\<in>set (httppaths rule). ib_Service (hip_Backend h) \<noteq> None \<and> known_path_type (hip_PathType h))"

lemma AddRoute_name [simp]: "vh_Name (AddRoute r v) = vh_Name v"
  by (simp add: AddRoute_def)

lemma add_plain_route_ok:
  assumes inv: "ingress_inv lib source d0 d" and named: "ingress_named source host"
  shows "ok_result (\<not> has_path) (ingress_inv lib source d0) (add_plain_route ing host has_path r d)"
proof (cases "GetSingleListener ''http'' d")
  case (Inr l)
  have ready: "dag_ready d" using inv by (simp add: ingress_inv_def)
  note l = single_listener_ready [OF ready Inr]
  show ?thesis
  proof (cases "EnsureVirtualHost (ln_Name l) host d")
    case None
    then show ?thesis using ensure_hosts(1) [OF ready l] by simp
  next
    case (Some res)
    then obtain i d' where e: "EnsureVirtualHost (ln_Name l) host d = Some (i, d')" by (cases res) auto
    have at: "at_host host (ln_Name l, i) d'" using EnsureVirtualHost_step [OF e, of l] ready l by blast
    have "ingress_inv lib source d0 (write_vhost (ln_Name l) i (AddRoute r) d')"
      using EnsureVirtualHost_inv [OF inv e named] by (rule write_vhost_inv [OF _ at _ named]) simp
    then show ?thesis using inv by (simp add: add_plain_route_def Inr e)
  qed
qed (use inv in \<open>simp add: add_plain_route_def\<close>)

lemma add_secure_route_ok:
  assumes inv: "ingress_inv lib source d0 d"
  shows "ok_result (\<not> has_path) (ingress_inv lib source d0) (add_secure_route host has_path r d)"
proof (cases "GetSingleListener ''https'' d")
  case (Inr l)
  have ready: "dag_ready d" using inv by (simp add: ingress_inv_def)
  note l = single_listener_ready [OF ready Inr]
  obtain svh where svh: "GetSecureVirtualHost (ln_Name l) host d = Some svh" by (auto simp: GetSecureVirtualHost_def l)
  show ?thesis
  proof (cases svh)
    case None
    then show ?thesis using inv by (simp add: add_secure_route_def Inr svh)
  next
    case (Some i)
    note at = GetSecureVirtualHost_at [OF ready l svh [unfolded Some]]
    have "ingress_inv lib source d0 (write_svhost (ln_Name l) i (\<lambda>s. s\<lparr>svh_VirtualHost := AddRoute r (svh_VirtualHost s)\<rparr>) d)"
      by (rule write_svhost_inv [OF inv at]) (auto simp: secure_ok_def Let_def)
    then show ?thesis using inv by (simp add: add_secure_route_def Inr svh Some split: bool.split)
  qed
qed (use inv in \<open>simp add: add_secure_route_def\<close>)

lemma ingress_route_path:
  assumes "ingress_route lib p ing host path t s cc sn sp = Ok (has_path, r)" "t \<in> {''Prefix'', ''Exact'', ''ImplementationSpecific''}"
  shows has_path
proof -
  have "cond \<noteq> None" if "ingress_path_match (lib_Compile lib) path t = Ok cond" for cond
    using assms(2) that by (auto simp: ingress_path_match_def split: if_splits option.splits)
  then show ?thesis
    using assms(1) unfolding ingress_route_def Let_def by (auto split: sum.splits)
qed

lemma ingress_path_ok:
  assumes inv: "ingress_inv lib source d0 d" and named: "ingress_named source host"
  shows "ok_result (ib_Service (hip_Backend h) = None \<or> \<not> known_path_type (hip_PathType h)) (ingress_inv lib source d0)
           (ingress_path lib source p ing rule host cc h d)"
proof (cases "ib_Service (hip_Backend h)")
  case (Some service)
  let ?m = "\<lparr>nn_Namespace = ing_Namespace ing, nn_Name = isb_Name service\<rparr>"
  let ?path = "stringOrDefault (hip_Path h) ''/''" and ?t = "case hip_PathType h of None \<Rightarrow> ''ImplementationSpecific'' | Some t \<Rightarrow> t"
  let ?route = "\<lambda>s. ingress_route lib p ing (irl_Host rule) ?path ?t s cc (isb_Name service) (isb_PortNumber service)"
  have routed: "ok_result (\<not> known_path_type (hip_PathType h)) (ingress_inv lib source d0)
      (case ?route s of Inl err \<Rightarrow> Some (False, d)
       | Inr (has_path, r) \<Rightarrow>
           (case add_plain_route ing host has_path r d of None \<Rightarrow> None
            | Some (goes_on, d) \<Rightarrow> if goes_on then add_secure_route host has_path r d else Some (False, d)))" for s
  proof (cases "?route s")
    case (Inr hr)
    obtain has_path r where r: "?route s = Ok (has_path, r)" using Inr by (cases hr) auto
    have path: "\<not> has_path \<Longrightarrow> \<not> known_path_type (hip_PathType h)"
      using ingress_route_path [OF r] by (cases "hip_PathType h") (auto simp: known_path_type_def)
    have mono: "ok_result (\<not> has_path) I x \<Longrightarrow> ok_result (\<not> known_path_type (hip_PathType h)) I x" for I x
      using path by (auto simp: ok_result_def split: option.splits)
    show ?thesis
    proof (cases "add_plain_route ing host has_path r d")
      case None
      then show ?thesis using mono [OF add_plain_route_ok [OF inv named]] by (simp add: r) (metis ok_result_simps(1))
    next
      case (Some res)
      obtain b d' where res: "add_plain_route ing host has_path r d = Some (b, d')" using Some by (cases res) auto
      then have "ingress_inv lib source d0 d'" using add_plain_route_ok [OF inv named, of has_path ing r] by simp
      then show ?thesis using mono [OF add_secure_route_ok] by (simp add: r res)
    qed
  qed (use inv in simp)
  show ?thesis
  proof (cases "ingress_backend_port source ?m service")
    case (Inr port)
    show ?thesis
    proof (cases "EnsureService source ?m port port (ip_EnableExternalNameService p)")
      case Inr2: (Inr s)
      show ?thesis using routed by (simp add: ingress_path_def Some Inr Inr2 Let_def)
    qed (use inv in \<open>simp add: ingress_path_def Some Inr Let_def\<close>)
  qed (use inv in \<open>simp add: ingress_path_def Some Let_def\<close>)
qed (simp add: ingress_path_def Let_def)

definition some_unsupported :: "KubernetesCache \<Rightarrow> bool" where
  "some_unsupported source \<longleftrightarrow> (\<exists>ing\<in>set (map_values (kc_ingresses source)). \<not> ingress_supported ing)"

lemma rulesFromSpec_cases:
  assumes "rulesFromSpec ing = Some rules" "rule \<in> set rules" "h \<in> set (httppaths rule)"
    and "ib_Service (hip_Backend h) = None \<or> \<not> known_path_type (hip_PathType h)"
  shows "\<not> ingress_supported ing"
proof -
  have "rule \<in> set (ing_Rules ing) \<or> (\<exists>s. httppaths rule = [\<lparr>hip_Path = '''', hip_PathType = None, hip_Backend = \<lparr>ib_Service = Some s\<rparr>\<rparr>])"
    using assms(1,2) by (auto simp: rulesFromSpec_def defaultBackendRule_def httppaths_def split: option.splits)
  then show ?thesis using assms(3,4) by (auto simp: ingress_supported_def known_path_type_def)
qed

definition ok_dag :: "bool \<Rightarrow> (DAG \<Rightarrow> bool) \<Rightarrow> DAG option \<Rightarrow> bool" where
  "ok_dag bad I r \<longleftrightarrow> (case r of None \<Rightarrow> bad | Some d \<Rightarrow> I d)"

lemma ok_dag_bind: "ok_dag bad I r \<Longrightarrow> (\<And>d. I d \<Longrightarrow> ok_dag bad I (f d)) \<Longrightarrow> ok_dag bad I (Option.bind r f)"
  by (cases r) (auto simp: ok_dag_def)

lemma computeIngressRule_ok:
  assumes inv: "ingress_inv lib source d0 d" and ing: "ing \<in> set (map_values (kc_ingresses source))"
    and rules: "rulesFromSpec ing = Some rules" "rule \<in> set rules"
  shows "ok_dag (some_unsupported source) (ingress_inv lib source d0) (computeIngressRule lib source p ing rule d)"
proof -
  have named: "ingress_named source (rule_host rule)" using ing rules by (auto simp: ingress_named_def)
  let ?r = "\<lambda>cc. until_return (ingress_path lib source p ing rule (rule_host rule) cc) (httppaths rule) d"
  have "ok_result (some_unsupported source) (ingress_inv lib source d0) (ingress_path lib source p ing rule (rule_host rule) cc h d)"
    if "ingress_inv lib source d0 d" "h \<in> set (httppaths rule)" for cc h d
    using ingress_path_ok [OF that(1) named, of h p ing rule cc] rulesFromSpec_cases [OF rules that(2)] ing
    by (auto simp: ok_result_def some_unsupported_def split: option.splits)
  then have r: "ok_result (some_unsupported source) (ingress_inv lib source d0) (?r cc)" for cc
    using inv by (intro until_return_ok)
  have loop: "ok_dag (some_unsupported source) (ingress_inv lib source d0) (map_option snd (?r cc))" for cc
    using r [of cc] by (cases "?r cc") (auto simp: ok_dag_def)
  show ?thesis
    using inv loop unfolding computeIngressRule_def rule_host_def [symmetric] Let_def
    by (auto simp: ok_dag_def [of _ _ "Some d"] split: sum.split option.split)
qed

lemma computeIngressRules_ok:
  assumes "ing \<in> set (map_values (kc_ingresses source))" "rulesFromSpec ing = Some all"
  shows "set rules \<subseteq> set all \<Longrightarrow> ingress_inv lib source d0 d \<Longrightarrow>
    ok_dag (some_unsupported source) (ingress_inv lib source d0) (computeIngressRules lib source p ing rules d)"
proof (induction rules arbitrary: d)
  case (Cons rule rules)
  then show ?case using computeIngressRule_ok [OF _ assms] by (auto intro!: ok_dag_bind)
qed (simp add: ok_dag_def)

lemma computeIngresses_loop_ok:
  "set ings \<subseteq> set (map_values (kc_ingresses source)) \<Longrightarrow> ingress_inv lib source d0 d \<Longrightarrow>
   ok_dag (some_unsupported source) (ingress_inv lib source d0) (computeIngresses_loop lib source p ings d)"
proof (induction ings arbitrary: d)
  case (Cons ing ings)
  then have ing: "ing \<in> set (map_values (kc_ingresses source))" by simp
  show ?case
  proof (cases "rulesFromSpec ing")
    case None
    then have "\<not> ingress_supported ing"
      by (auto simp: rulesFromSpec_def defaultBackendRule_def ingress_supported_def split: option.splits)
    then show ?thesis using ing None by (auto simp: ok_dag_def some_unsupported_def)
  next
    case (Some rules)
    then show ?thesis using Cons computeIngressRules_ok [OF ing Some order_refl] by (auto intro!: ok_dag_bind)
  qed
qed (simp add: ok_dag_def)

lemma ingress_inv_start: "dag_ready d \<Longrightarrow> ingress_inv lib source d d"
  by (auto simp: ingress_inv_def same_listeners_def all_hosts_def plain_ok_def secure_ok_def old_secure_def Let_def)

lemma IngressProcessor_Run_ok:
  assumes "fair_ingress_order ord" "dag_ready d"
  shows "ok_dag (some_unsupported source) (ingress_inv lib source d) (IngressProcessor_Run lib ord p source d)"
proof -
  obtain d1 where d1: "computeSecureVirtualhosts lib ord source d = Some d1" "ingress_inv lib source d d1"
    using computeSecureVirtualhosts_ok [OF assms(1) ingress_inv_start [OF assms(2)]] by blast
  then show ?thesis
    using computeIngresses_loop_ok [of "map_values (io_rules ord (kc_ingresses source))"] fair_values(2) [OF assms(1)]
    by (simp add: IngressProcessor_Run_def computeIngresses_def)
qed

section \<open>Properties\<close>

text \<open>C11. What the Ingress processor may change, for every order of map iteration.  After a run the DAG is well formed, has the same listeners,
  statuses and extension clusters; every plain virtual host was there before unchanged or bears the host of a rule of some ingress;
  and the certificate of every secure virtual host was there before for this host, or is the one that the TLS section
  of an ingress naming this host refers to, found, valid, and delegated to the namespace of that ingress.\<close>

theorem IngressProcessor_Run_hosts:
  assumes "fair_ingress_order ord" "dag_ready d" "IngressProcessor_Run lib ord p source d = Some d'"
  shows "dag_ready d' \<and> same_listeners d d' \<and>
    (\<forall>n l. lookup (dag_Listeners d') n = Some l \<longrightarrow>
       (\<forall>v\<in>set (ln_VirtualHosts l). plain_ok source d n v) \<and>
       (\<forall>s\<in>set (ln_SecureVirtualHosts l). \<forall>sec. svh_Secret s = Some sec \<longrightarrow>
          old_secure d n (vh_Name (svh_VirtualHost s)) (Some sec) \<or> ingress_certificate lib source (vh_Name (svh_VirtualHost s)) sec))"
proof -
  have inv: "ingress_inv lib source d d'" using IngressProcessor_Run_ok [OF assms(1,2)] assms(3) unfolding ok_dag_def by (metis option.simps(5))
  then have "secure_ok lib source d n s" if "lookup (dag_Listeners d') n = Some l" "s \<in> set (ln_SecureVirtualHosts l)" for n l s
    using that unfolding ingress_inv_def all_hosts_def by blast
  then have "old_secure d n (vh_Name (svh_VirtualHost s)) (Some sec) \<or> ingress_certificate lib source (vh_Name (svh_VirtualHost s)) sec"
    if "lookup (dag_Listeners d') n = Some l" "s \<in> set (ln_SecureVirtualHosts l)" "svh_Secret s = Some sec" for n l s sec
    using that unfolding secure_ok_def Let_def by fastforce
  then show ?thesis using inv unfolding ingress_inv_def all_hosts_def by blast
qed

lemma unsupported_backend_None:
  "ing \<in> set ings \<Longrightarrow> rulesFromSpec ing = None \<Longrightarrow> computeIngresses_loop lib source p ings d = None"
proof (induction ings arbitrary: d)
  case (Cons a ings)
  show ?case
  proof (cases "a = ing")
    case False
    then have "\<And>d. computeIngresses_loop lib source p ings d = None" using Cons by simp
    then show ?thesis by (auto simp: bind_eq_None_conv)
  qed (use Cons in simp)
qed simp

text \<open>C38. When the Ingress processor panics.  It does not if the backends of all ingresses are services and the types of their paths
  are the ones of the API; it always does if the default backend of some ingress is a resource, which the API allows.\<close>

theorem IngressProcessor_Run_panics:
  assumes "fair_ingress_order ord" "dag_ready d"
  shows "((\<forall>ing\<in>set (map_values (kc_ingresses source)). ingress_supported ing) \<longrightarrow> IngressProcessor_Run lib ord p source d \<noteq> None) \<and>
    ((\<exists>ing\<in>set (map_values (kc_ingresses source)). ing_DefaultBackend ing = Some \<lparr>ib_Service = None\<rparr>) \<longrightarrow>
       IngressProcessor_Run lib ord p source d = None)"
proof (intro conjI impI)
  assume "\<forall>ing\<in>set (map_values (kc_ingresses source)). ingress_supported ing"
  then have "\<not> some_unsupported source" by (simp add: some_unsupported_def)
  then show "IngressProcessor_Run lib ord p source d \<noteq> None" 
    using IngressProcessor_Run_ok [OF assms, where source = source and lib = lib and p = p] unfolding ok_dag_def by (metis option.simps(4))
next
  assume "\<exists>ing\<in>set (map_values (kc_ingresses source)). ing_DefaultBackend ing = Some \<lparr>ib_Service = None\<rparr>"
  then obtain ing where ing: "ing \<in> set (map_values (io_rules ord (kc_ingresses source)))" "rulesFromSpec ing = None"
    using fair_values(2) [OF assms(1)] by (auto simp: rulesFromSpec_def defaultBackendRule_def)
  then have "computeIngresses lib ord source p d1 = None" for d1
    unfolding computeIngresses_def by (rule unsupported_backend_None)
  then show "IngressProcessor_Run lib ord p source d = None"
    by (simp add: IngressProcessor_Run_def bind_eq_None_conv)
qed


subsection \<open>Paths are served\<close>

definition has_route :: "string \<Rightarrow> Route \<Rightarrow> DAG \<Rightarrow> bool" where
  "has_route host r d \<longleftrightarrow>
     (\<exists>n l v. lookup (dag_Listeners d) n = Some l \<and> ln_Protocol l = ''http'' \<and> v \<in> set (ln_VirtualHosts l) \<and> vh_Name v = host \<and>
        lookup (vh_Routes v) (conditionsToString r) = Some r)"

definition has_secure_route :: "string \<Rightarrow> Route \<Rightarrow> DAG \<Rightarrow> bool" where
  "has_secure_route host r d \<longleftrightarrow>
     (\<exists>n l s. lookup (dag_Listeners d) n = Some l \<and> ln_Protocol l = ''https'' \<and> s \<in> set (ln_SecureVirtualHosts l) \<and>
        vh_Name (svh_VirtualHost s) = host \<and> lookup (vh_Routes (svh_VirtualHost s)) (conditionsToString r) = Some r)"

text \<open>What the steps on plain hosts leave alone.\<close>

definition secure_view :: "DAG \<Rightarrow> string \<Rightarrow> (string \<times> string \<times> SecureVirtualHost list \<times> (string, nat) gomap option) option" where
  "secure_view d n =
     map_option (\<lambda>l. (ln_Name l, ln_Protocol l, ln_SecureVirtualHosts l, ln_svhostsByName l)) (lookup (dag_Listeners d) n)"

lemma secure_view_eqD:
  assumes "secure_view d' = secure_view d" "lookup (dag_Listeners d) n = Some l"
  obtains l' where "lookup (dag_Listeners d') n = Some l'" "ln_Name l' = ln_Name l" "ln_Protocol l' = ln_Protocol l"
    "ln_svhostsByName l' = ln_svhostsByName l"
proof -
  have "secure_view d' n = secure_view d n" using assms(1) by simp
  then show thesis using that assms(2) by (cases "lookup (dag_Listeners d') n") (auto simp: secure_view_def)
qed

lemma distinct_single: "distinct xs \<Longrightarrow> set xs = {x} \<Longrightarrow> xs = [x]"
  by (cases xs; cases "tl xs") auto

lemma GetSingleListener_eq:
  assumes "wf_dag d"
  shows "GetSingleListener p d = Ok l \<longleftrightarrow> lookup (dag_Listeners d) (ln_Name l) = Some l \<and> ln_Protocol l = p \<and>
           (\<forall>n l'. lookup (dag_Listeners d) n = Some l' \<longrightarrow> ln_Protocol l' = p \<longrightarrow> n = ln_Name l)"
    (is "?lhs \<longleftrightarrow> ?rhs")
proof
  assume lhs: ?lhs
  have "l' = l" if "lookup (dag_Listeners d) n = Some l'" "ln_Protocol l' = p" for n l'
  proof -
    have "l' \<in> set (filter (\<lambda>l. ln_Protocol l = p) (map_values (dag_Listeners d)))"
      using that lookup_map_values by fastforce
    then show ?thesis unfolding lhs [unfolded GetSingleListener_iff] by simp
  qed
  then show ?rhs using GetSingleListener_lookup [OF assms lhs] wf_dag_listener [OF assms] by metis
next
  assume rhs: ?rhs
  let ?xs = "filter (\<lambda>l. ln_Protocol l = p) (map_values (dag_Listeners d))"
  have "distinct (map ln_Name (map_values (dag_Listeners d)))" using assms by (simp add: wf_dag_values(1) wf_dag_def)
  then have "distinct ?xs" by (simp add: distinct_map)
  moreover have "set ?xs = {l}"
  proof -
    have "l' \<in> set (map_values (dag_Listeners d)) \<longleftrightarrow> (\<exists>n. lookup (dag_Listeners d) n = Some l')" for l'
      using assms by (auto simp: map_values_def wf_dag_def lookup_eq_iff intro: rev_image_eqI)
    note vals = this
    have "l' = l" if mem: "l' \<in> set ?xs" for l'
    proof -
      obtain n where n: "lookup (dag_Listeners d) n = Some l'" "ln_Protocol l' = p" using mem vals by auto
      then have "n = ln_Name l" using rhs by blast
      then show ?thesis using n(1) rhs by simp
    qed
    moreover have "l \<in> set ?xs" using rhs vals [of l] by auto
    ultimately show ?thesis by blast
  qed
  ultimately have "?xs = [l]" by (rule distinct_single)
  then show ?lhs by (simp add: GetSingleListener_iff)
qed

lemma secure_view_put:
  assumes "lookup (dag_Listeners d) n = Some l" "ln_Name l' = ln_Name l" "ln_Protocol l' = ln_Protocol l"
    "ln_SecureVirtualHosts l' = ln_SecureVirtualHosts l" "ln_svhostsByName l' = ln_svhostsByName l"
  shows "secure_view (d\<lparr>dag_Listeners := put n l' (dag_Listeners d)\<rparr>) = secure_view d"
  using assms by (auto simp: secure_view_def lookup_put fun_eq_iff)

lemma write_vhost_view: "secure_view (write_vhost n i f d) = secure_view d"
  by (cases "lookup (dag_Listeners d) n") (auto simp: write_vhost_def intro!: secure_view_put)

lemma EnsureVirtualHost_view:
  assumes "EnsureVirtualHost n host d = Some (i, d')"
  shows "secure_view d' = secure_view d"
proof -
  obtain l l' where l: "lookup (dag_Listeners d) n = Some l" "listener_EnsureVirtualHost host l = Some (i, l')"
      "d' = d\<lparr>dag_Listeners := put n l' (dag_Listeners d)\<rparr>"
    using assms unfolding EnsureVirtualHost_def by (rule on_listener_Some)
  then show ?thesis using EnsureVirtualHost_frame [OF l(2)] by (auto intro!: secure_view_put)
qed

lemma has_route_write:
  assumes "at_host host (n, i) d"
  shows "has_route host r (write_vhost n i (AddRoute r) d)"
proof -
  obtain l where l: "lookup (dag_Listeners d) n = Some l" "ln_Protocol l = ''http''" "i < length (ln_VirtualHosts l)"
      "vh_Name (ln_VirtualHosts l ! i) = host"
    using assms by (auto simp: at_host_def)
  let ?v = "AddRoute r (ln_VirtualHosts l ! i)"
  have "?v \<in> set ((ln_VirtualHosts l)[i := ?v])" using l(3) by (rule set_update_memI)
  then show ?thesis
    unfolding has_route_def using l
    by (intro exI [of _ n] exI [of _ "l\<lparr>ln_VirtualHosts := (ln_VirtualHosts l)[i := ?v]\<rparr>"] exI [of _ ?v])
      (simp add: write_vhost_def lookup_put lookup_AddRoute)
qed

lemma has_secure_route_write:
  assumes "at_shost host (n, i) d"
  shows "has_secure_route host r (write_svhost n i (\<lambda>s. s\<lparr>svh_VirtualHost := AddRoute r (svh_VirtualHost s)\<rparr>) d)"
proof -
  obtain l where l: "lookup (dag_Listeners d) n = Some l" "ln_Protocol l = ''https''" "i < length (ln_SecureVirtualHosts l)"
      "vh_Name (svh_VirtualHost (ln_SecureVirtualHosts l ! i)) = host"
    using assms by (auto simp: at_shost_def)
  let ?s = "(ln_SecureVirtualHosts l ! i)\<lparr>svh_VirtualHost := AddRoute r (svh_VirtualHost (ln_SecureVirtualHosts l ! i))\<rparr>"
  have "?s \<in> set ((ln_SecureVirtualHosts l)[i := ?s])" using l(3) by (rule set_update_memI)
  then show ?thesis
    unfolding has_secure_route_def using l
    by (intro exI [of _ n] exI [of _ "l\<lparr>ln_SecureVirtualHosts := (ln_SecureVirtualHosts l)[i := ?s]\<rparr>"] exI [of _ ?s])
      (simp add: write_svhost_def lookup_put lookup_AddRoute)
qed

lemma ingress_route_clusters:
  assumes "ingress_route lib p ing host path t s cc sn sp = Ok (b, r)"
  shows "map cl_Upstream (rt_Clusters r) = [s]"
  using assms unfolding ingress_route_def Let_def by (auto split: sum.splits option.splits if_splits)

lemma add_plain_route_serves:
  assumes ready: "dag_ready d" and http: "GetSingleListener ''http'' d = Ok l"
  shows "\<exists>d'. add_plain_route ing host True r d = Some (True, d') \<and> dag_ready d' \<and> secure_view d' = secure_view d \<and>
           (TLSRequired ing \<or> HTTPAllowed ing \<longrightarrow> has_route host r d')"
proof -
  note l = single_listener_ready [OF ready http]
  obtain i d1 where e: "EnsureVirtualHost (ln_Name l) host d = Some (i, d1)"
    using ensure_hosts(1) [OF ready l, of host] by (cases "EnsureVirtualHost (ln_Name l) host d") auto
  have at: "at_host host (ln_Name l, i) d1" using EnsureVirtualHost_step [OF e, of l] ready l by blast
  let ?d = "write_vhost (ln_Name l) i (AddRoute r) d1"
  have "dag_ready d1" using EnsureVirtualHost_step [OF e] ready dag_step_ready by blast
  then have "dag_ready ?d" using dag_step_ready [OF dag_write_vhost_step [OF at]] by simp
  moreover have "has_route host r ?d"
    by (rule has_route_write [OF at])
  moreover have "secure_view ?d = secure_view d" using EnsureVirtualHost_view [OF e] by (simp add: write_vhost_view)
  ultimately show ?thesis using ready by (auto simp: add_plain_route_def http e)
qed

lemma add_secure_route_serves:
  assumes ready: "dag_ready d" and https: "GetSingleListener ''https'' d = Ok l"
  shows "\<exists>d'. add_secure_route host True r d = Some (True, d') \<and> (has_route host r' d \<longrightarrow> has_route host r' d') \<and>
           (host \<noteq> ''*'' \<and> nil_lookup (ln_svhostsByName l) host \<noteq> None \<longrightarrow> has_secure_route host r d')"
proof -
  note l = single_listener_ready [OF ready https]
  have get: "GetSecureVirtualHost (ln_Name l) host d = Some (nil_lookup (ln_svhostsByName l) host)"
    by (simp add: GetSecureVirtualHost_def l)
  show ?thesis
  proof (cases "host = ''*'' \<or> nil_lookup (ln_svhostsByName l) host = None")
    case True
    then have "add_secure_route host True r d = Some (True, d)"
      using get by (auto simp: add_secure_route_def https split: option.split)
    then show ?thesis using True by blast
  next
    case False
    then obtain i where i: "nil_lookup (ln_svhostsByName l) host = Some i" "host \<noteq> ''*''" by auto
    let ?d = "write_svhost (ln_Name l) i (\<lambda>s. s\<lparr>svh_VirtualHost := AddRoute r (svh_VirtualHost s)\<rparr>) d"
    have "add_secure_route host True r d = Some (True, ?d)" using get i by (simp add: add_secure_route_def https)
    moreover have "has_route host r' ?d" if "has_route host r' d"
    proof -
      obtain n la v where r: "lookup (dag_Listeners d) n = Some la" "ln_Protocol la = ''http''" "v \<in> set (ln_VirtualHosts la)"
          "vh_Name v = host" "lookup (vh_Routes v) (conditionsToString r') = Some r'"
        using \<open>has_route host r' d\<close> unfolding has_route_def by blast
      then have "n \<noteq> ln_Name l" using l by auto
      then have "lookup (dag_Listeners ?d) n = Some la" using r(1) l by (simp add: write_svhost_def lookup_put)
      then show ?thesis using r unfolding has_route_def by blast
    qed
    moreover have "at_shost host (ln_Name l, i) d" using GetSecureVirtualHost_at [OF ready l] get i by simp
    then have "has_secure_route host r ?d" by (rule has_secure_route_write)
    ultimately show ?thesis by blast
  qed
qed


section \<open>Instances\<close>

definition sample_ingress_order :: ingress_order where
  "sample_ingress_order = \<lparr>io_tls = id, io_rules = id\<rparr>"

definition sample_ingress_processor :: IngressProcessor where
  "sample_ingress_processor = \<lparr>ip_ClientCertificate = None, ip_EnableExternalNameService = False, ip_RequestHeadersPolicy = None,
     ip_ResponseHeadersPolicy = None, ip_ConnectTimeout = 2000000000, ip_MaxRequestsPerConnection = None, ip_PerConnectionBufferLimitBytes = None,
     ip_SetSourceMetadataOnRoutes = True, ip_GlobalCircuitBreakerDefaults = None, ip_UpstreamTLS = None\<rparr>"

definition web_backend :: IngressServiceBackend where
  "web_backend = \<lparr>isb_Name = ''web'', isb_PortName = '''', isb_PortNumber = 80\<rparr>"

definition web_path :: HTTPIngressPath where
  "web_path = \<lparr>hip_Path = ''/'', hip_PathType = Some ''Prefix'', hip_Backend = \<lparr>ib_Service = Some web_backend\<rparr>\<rparr>"

definition web_rule :: IngressRule where
  "web_rule = \<lparr>irl_Host = ''a.com'', irl_HTTP = Some [web_path]\<rparr>"

definition web_ingress :: Ingress where
  "web_ingress = zero_Ingress\<lparr>ing_Name := ''web'', ing_Namespace := ''team'',
     ing_TLS := [\<lparr>itl_Hosts = [''a.com''], itl_SecretName = ''certs/cert''\<rparr>], ing_Rules := [web_rule]\<rparr>"

definition bad_ingress :: Ingress where
  "bad_ingress = web_ingress\<lparr>ing_Name := ''bad'', ing_Annotations := [(''projectcontour.io/tls-minimum-protocol-version'', ''1.3''),
     (''projectcontour.io/tls-maximum-protocol-version'', ''1.2'')],
     ing_TLS := [\<lparr>itl_Hosts = [''b.com''], itl_SecretName = ''certs/cert''\<rparr>]\<rparr>"

definition web_service :: CoreService where
  "web_service = zero_CoreService\<lparr>csv_Name := ''web'', csv_Namespace := ''team'',
     csv_Ports := [\<lparr>port_Name = ''http'', port_Protocol = ''TCP'', port_AppProtocol = None, port_Port = 80\<rparr>]\<rparr>"

definition web_cache :: KubernetesCache where
  "web_cache = sample_cache\<lparr>kc_services := [(\<lparr>nn_Namespace = ''team'', nn_Name = ''web''\<rparr>, web_service)],
     kc_ingresses := [(\<lparr>nn_Namespace = ''team'', nn_Name = ''web''\<rparr>, web_ingress)]\<rparr>"

definition two_cache :: KubernetesCache where
  "two_cache = web_cache\<lparr>kc_ingresses := [(\<lparr>nn_Namespace = ''team'', nn_Name = ''bad''\<rparr>, bad_ingress),
     (\<lparr>nn_Namespace = ''team'', nn_Name = ''web''\<rparr>, web_ingress)]\<rparr>"

lemma sample_ingress_order_fair: "fair_ingress_order sample_ingress_order"
  by (simp add: fair_ingress_order_def sample_ingress_order_def)

lemma web_supported: "ingress_supported web_ingress"
  by (simp add: ingress_supported_def web_ingress_def zero_Ingress_def web_rule_def web_path_def httppaths_def known_path_type_def)

lemma web_cache_values: "map_values (kc_ingresses web_cache) = [web_ingress]" "map_values (kc_ingresses two_cache) = [bad_ingress, web_ingress]"
  by (simp_all add: web_cache_def two_cache_def map_values_def)

theorem IngressProcessor_Run_hosts_witness:
  "\<exists>d'. IngressProcessor_Run sample_library sample_ingress_order sample_ingress_processor web_cache sample_dag = Some d' \<and>
        dag_ready d' \<and> same_listeners sample_dag d'"
proof -
  have "\<not> some_unsupported web_cache" by (simp add: some_unsupported_def web_cache_values web_supported)
  then obtain d' where d': "IngressProcessor_Run sample_library sample_ingress_order sample_ingress_processor web_cache sample_dag = Some d'"
    using IngressProcessor_Run_ok [OF sample_ingress_order_fair sample_dag_ready, where source = web_cache and lib = sample_library and p = sample_ingress_processor]
    unfolding ok_dag_def by (cases "IngressProcessor_Run sample_library sample_ingress_order sample_ingress_processor web_cache sample_dag") simp_all
  from IngressProcessor_Run_hosts [OF sample_ingress_order_fair sample_dag_ready d'] d' show ?thesis by blast
qed

definition resource_cache :: KubernetesCache where
  "resource_cache = web_cache\<lparr>kc_ingresses := [(\<lparr>nn_Namespace = ''team'', nn_Name = ''web''\<rparr>,
     web_ingress\<lparr>ing_DefaultBackend := Some \<lparr>ib_Service = None\<rparr>\<rparr>)]\<rparr>"

theorem IngressProcessor_Run_panics_witness:
  "IngressProcessor_Run sample_library sample_ingress_order sample_ingress_processor web_cache sample_dag \<noteq> None \<and>
   IngressProcessor_Run sample_library sample_ingress_order sample_ingress_processor resource_cache sample_dag = None"
proof -
  note panics = IngressProcessor_Run_panics [OF sample_ingress_order_fair sample_dag_ready, where lib = sample_library and p = sample_ingress_processor]
  have "\<forall>ing\<in>set (map_values (kc_ingresses web_cache)). ingress_supported ing" by (simp add: web_cache_values web_supported)
  moreover have "\<exists>ing\<in>set (map_values (kc_ingresses resource_cache)). ing_DefaultBackend ing = Some \<lparr>ib_Service = None\<rparr>"
    by (simp add: resource_cache_def map_values_def)
  ultimately show ?thesis using panics [of web_cache] panics [of resource_cache] by blast
qed

lemma web_certificate:
  "fst (LookupTLSSecret (lib_crypto sample_library) (ingress_secret_name bad_ingress \<lparr>itl_Hosts = [''b.com''], itl_SecretName = ''certs/cert''\<rparr>)
     (ing_Namespace bad_ingress) two_cache) = Inr (new_secret sample_secret\<lparr>sec_ValidTLSSecret := Some None\<rparr>)"
  by code_simp

definition secure_names :: "DAG \<Rightarrow> string list" where
  "secure_names d = concat (map (\<lambda>l. map (\<lambda>s. vh_Name (svh_VirtualHost s)) (ln_SecureVirtualHosts l)) (map_values (dag_Listeners d)))"

text \<open>With the other order of the same two ingresses, the secure host of the second one is there.\<close>

lemma two_cache_reversed:
  "map_option secure_names (computeSecureVirtualhosts sample_library (sample_ingress_order\<lparr>io_tls := rev\<rparr>) two_cache sample_dag) = Some [''a.com'']"
  by code_simp


definition web_dag_service :: Service where
  "web_dag_service = dag_Service web_service (hd (csv_Ports web_service)) (hd (csv_Ports web_service))"

lemma web_resolves:
  "ingress_backend_port web_cache \<lparr>nn_Namespace = ing_Namespace web_ingress, nn_Name = isb_Name web_backend\<rparr> web_backend = Ok 80"
  "EnsureService web_cache \<lparr>nn_Namespace = ing_Namespace web_ingress, nn_Name = isb_Name web_backend\<rparr> 80 80
     (ip_EnableExternalNameService sample_ingress_processor) = Ok web_dag_service"
  by code_simp+

lemma web_route:
  "\<exists>r. ingress_route sample_library sample_ingress_processor web_ingress (irl_Host web_rule) (stringOrDefault (hip_Path web_path) ''/'')
     (case hip_PathType web_path of None \<Rightarrow> ''ImplementationSpecific'' | Some t \<Rightarrow> t)
     (the (serviceCircuitBreakerPolicy (Some web_dag_service) (ip_GlobalCircuitBreakerDefaults sample_ingress_processor)))
     None (isb_Name web_backend) (isb_PortNumber web_backend) = Ok (True, r)"
proof -
  let ?route = "ingress_route sample_library sample_ingress_processor web_ingress (irl_Host web_rule) (stringOrDefault (hip_Path web_path) ''/'')
     (case hip_PathType web_path of None \<Rightarrow> ''ImplementationSpecific'' | Some t \<Rightarrow> t)
     (the (serviceCircuitBreakerPolicy (Some web_dag_service) (ip_GlobalCircuitBreakerDefaults sample_ingress_processor)))
     None (isb_Name web_backend) (isb_PortNumber web_backend)"
  have "map_sum id fst ?route = Ok True" by code_simp
  then show ?thesis by (cases ?route) auto
qed

lemma sample_single_https: "GetSingleListener ''https'' sample_dag = Ok (https_listener sample_listeners)"
  by (simp add: GetSingleListener_def sample_dag_def ListenerProcessor_Run_def empty_cache_def new_DAG_def map_values_def
      http_listener_def https_listener_def)


end
