(* ===== verification/Event_Handler.thy ===== *)
theory Event_Handler
  imports Dag_Build
begin

text \<open>
  The event loop: \<open>internal/contour/handler.go\<close>, and the comparison of objects in \<open>internal/k8s/helpers.go\<close>.

  The loop of \<open>Start\<close> is a transition system.  Its state holds the fields of the handler and the variables of the loop,
  the senders that wait on the unbuffered channel \<open>update\<close>, and the DAGs given to the observer so far; the
  status updates sent are those of the same DAGs.  Each case of the \<open>select\<close> statement is a function, and a step is one of them
  at some time \<open>now\<close> (in nanoseconds), or a sender or the informers moving.  The sync tracker of client-go is the
  counter its comment in the source describes, next to whether the informers have synced.
\<close>

section \<open>Objects of an update\<close>

text \<open>
  An object as the informers deliver it: what the cache reads of it, the name of its Go type, its metadata, and the
  remaining content, which is compared for equality only.
\<close>

record client_object =
  co_Object :: KubeObject
  co_Type :: string
  co_ResourceVersion :: string
  co_Generation :: int
  co_Annotations :: "(string, string) gomap"
  co_DataNil :: bool
  co_Spec :: string
  co_Status :: string
  co_Subsets :: string

datatype any_object = ClientObject client_object | OtherObject KubeObject

fun raw_object :: "any_object \<Rightarrow> KubeObject" where
  "raw_object (ClientObject o') = co_Object o'"
| "raw_object (OtherObject o') = o'"

definition GetGeneration :: "client_object \<Rightarrow> int" where
  "GetGeneration a =
     (case co_Object a of HTTPProxyObj p \<Rightarrow> px_Generation p | ExtensionServiceObj e \<Rightarrow> ext_Generation e | _ \<Rightarrow> co_Generation a)"

definition GetAnnotations :: "client_object \<Rightarrow> (string, string) gomap" where
  "GetAnnotations a =
     (case co_Object a of HTTPProxyObj p \<Rightarrow> px_Annotations p | IngressObj i \<Rightarrow> ing_Annotations i
      | ServiceObj s \<Rightarrow> csv_Annotations s | _ \<Rightarrow> co_Annotations a)"

definition isGenerationEqual :: "client_object \<Rightarrow> client_object \<Rightarrow> bool" where
  "isGenerationEqual a b = (GetGeneration a = GetGeneration b)"

definition isResourceVersionEqual :: "client_object \<Rightarrow> client_object \<Rightarrow> bool" where
  "isResourceVersionEqual a b = (co_ResourceVersion a = co_ResourceVersion b)"

text \<open>Equality of Go maps.  \<open>reflect.DeepEqual\<close> also tells a nil map from an empty one.\<close>

definition map_equal :: "(string, string) gomap \<Rightarrow> (string, string) gomap \<Rightarrow> bool" where
  "map_equal a b = (length a = length b \<and> (\<forall>k\<in>set (map fst a). lookup a k = lookup b k))"

definition IsObjectEqual :: "client_object \<Rightarrow> client_object \<Rightarrow> bool \<times> string option" where
  "IsObjectEqual oldObj newObj =
     (let unknown = (False, Some (''do not know how to compare '' @ co_Type newObj)) in
      if isResourceVersionEqual oldObj newObj then (True, None)
      else case co_Object oldObj of
             ExtensionServiceObj _ \<Rightarrow> (isGenerationEqual oldObj newObj, None)
           | TLSCertificateDelegationObj _ \<Rightarrow> (isGenerationEqual oldObj newObj, None)
           | GatewayClassObj _ \<Rightarrow> (isGenerationEqual oldObj newObj, None)
           | GatewayObj _ \<Rightarrow> (isGenerationEqual oldObj newObj, None)
           | ReferenceGrantObj _ \<Rightarrow> (isGenerationEqual oldObj newObj, None)
           | HTTPRouteObj _ \<Rightarrow> (isGenerationEqual oldObj newObj, None)
           | TLSRouteObj _ \<Rightarrow> (isGenerationEqual oldObj newObj, None)
           | GRPCRouteObj _ \<Rightarrow> (isGenerationEqual oldObj newObj, None)
           | TCPRouteObj _ \<Rightarrow> (isGenerationEqual oldObj newObj, None)
           | BackendTLSPolicyObj _ \<Rightarrow> (isGenerationEqual oldObj newObj, None)
           | HTTPProxyObj _ \<Rightarrow>
               (isGenerationEqual oldObj newObj \<and> map_equal (GetAnnotations oldObj) (GetAnnotations newObj), None)
           | IngressObj _ \<Rightarrow>
               (isGenerationEqual oldObj newObj \<and> map_equal (GetAnnotations oldObj) (GetAnnotations newObj), None)
           | SecretObj a \<Rightarrow>
               (case co_Object newObj of
                  SecretObj b \<Rightarrow> (co_DataNil oldObj = co_DataNil newObj \<and> map_equal (csec_Data a) (csec_Data b), None)
                | _ \<Rightarrow> unknown)
           | ConfigMapObj a \<Rightarrow>
               (case co_Object newObj of
                  ConfigMapObj b \<Rightarrow> (co_DataNil oldObj = co_DataNil newObj \<and> map_equal (cm_Data a) (cm_Data b), None)
                | _ \<Rightarrow> unknown)
           | ServiceObj a \<Rightarrow>
               (case co_Object newObj of
                  ServiceObj b \<Rightarrow>
                    (csv_Type a = csv_Type b \<and> csv_ExternalName a = csv_ExternalName b \<and> csv_Ports a = csv_Ports b \<and>
                     co_Spec oldObj = co_Spec newObj \<and> co_Status oldObj = co_Status newObj \<and>
                     map_equal (GetAnnotations oldObj) (GetAnnotations newObj), None)
                | _ \<Rightarrow> unknown)
           | NamespaceObj a \<Rightarrow>
               (case co_Object newObj of NamespaceObj b \<Rightarrow> (map_equal (cns_Labels a) (cns_Labels b), None) | _ \<Rightarrow> unknown)
           | UnknownObj \<Rightarrow>
               if co_Type oldObj = ''*v1.Endpoints'' \<and> co_Type newObj = ''*v1.Endpoints''
               then (co_Subsets oldObj = co_Subsets newObj, None)
               else unknown
           | DeletedFinalStateUnknown _ \<Rightarrow> unknown)"

section \<open>The handler\<close>

datatype handler_op =
    opAdd any_object bool
  | opUpdate any_object any_object
  | opDelete any_object
  | opElected bool

record EventHandlerConfig =
  ehc_processors :: "Processor list"
  ehc_HoldoffDelay :: int
  ehc_HoldoffMaxDelay :: int

record EventHandler =
  eh_source :: KubernetesCache
  eh_waiting :: "handler_op list"
  eh_sequence :: "int option"
  eh_seq :: int
  eh_syncing :: int
  eh_upstreamHasSynced :: bool
  eh_initialDagBuilt :: bool
  eh_polling :: bool
  eh_outstanding :: nat
  eh_timer :: "int option"
  eh_lastDAGRebuild :: int
  eh_observed :: "DAG list"

definition NewEventHandler :: "KubernetesCache \<Rightarrow> int \<Rightarrow> EventHandler" where
  "NewEventHandler source now =
     \<lparr>eh_source = source, eh_waiting = [], eh_sequence = None, eh_seq = 0, eh_syncing = 0, eh_upstreamHasSynced = False,
      eh_initialDagBuilt = False, eh_polling = True, eh_outstanding = 0, eh_timer = None, eh_lastDAGRebuild = now, eh_observed = []\<rparr>"

definition HasSynced :: "EventHandler \<Rightarrow> bool" where
  "HasSynced e = (eh_upstreamHasSynced e \<and> eh_syncing e \<le> 0)"

definition HasBuiltInitialDag :: "EventHandler \<Rightarrow> bool" where
  "HasBuiltInitialDag e = eh_initialDagBuilt e"

text \<open>The senders: the informers' handlers and the election of a leader.\<close>

definition EventHandler_OnAdd :: "any_object \<Rightarrow> bool \<Rightarrow> EventHandler \<Rightarrow> EventHandler" where
  "EventHandler_OnAdd obj isInInitialList e =
     (let e = (if isInInitialList then e\<lparr>eh_syncing := eh_syncing e + 1\<rparr> else e)
      in e\<lparr>eh_waiting := eh_waiting e @ [opAdd obj isInInitialList]\<rparr>)"

definition EventHandler_OnUpdate :: "any_object \<Rightarrow> any_object \<Rightarrow> EventHandler \<Rightarrow> EventHandler" where
  "EventHandler_OnUpdate oldObj newObj e = e\<lparr>eh_waiting := eh_waiting e @ [opUpdate oldObj newObj]\<rparr>"

definition EventHandler_OnDelete :: "any_object \<Rightarrow> EventHandler \<Rightarrow> EventHandler" where
  "EventHandler_OnDelete obj e = e\<lparr>eh_waiting := eh_waiting e @ [opDelete obj]\<rparr>"

definition OnElectedLeader :: "EventHandler \<Rightarrow> EventHandler" where
  "OnElectedLeader e = e\<lparr>eh_waiting := eh_waiting e @ [opElected True]\<rparr>"

text \<open>Whether the event needs a rebuild, and the cache; \<open>GetClass\<close> reads a gateway class from the API server.\<close>

definition onUpdate :: "(string \<Rightarrow> GatewayClass option) \<Rightarrow> handler_op \<Rightarrow> KubernetesCache \<Rightarrow> (bool \<times> KubernetesCache) option" where
  "onUpdate GetClass op source =
     (case op of
        opAdd obj _ \<Rightarrow> Insert GetClass (raw_object obj) source
      | opUpdate oldObj newObj \<Rightarrow>
          (case (oldObj, newObj) of
             (ClientObject oldO, ClientObject newO) \<Rightarrow>
               if fst (IsObjectEqual oldO newO) then Some (False, source)
               else (case cache_Remove (co_Object oldO) source of
                       None \<Rightarrow> None
                     | Some (removed, source) \<Rightarrow>
                         (case Insert GetClass (co_Object newO) source of
                            None \<Rightarrow> None
                          | Some (inserted, source) \<Rightarrow> Some (removed \<or> inserted, source)))
           | _ \<Rightarrow> Some (False, source))
      | opDelete obj \<Rightarrow> cache_Remove (raw_object obj) source
      | opElected b \<Rightarrow> Some (b, source))"

text \<open>The channel \<open>sequence\<close> has room for one value; the send does not block.\<close>

definition incSequence :: "EventHandler \<Rightarrow> EventHandler" where
  "incSequence e =
     (let seq = eh_seq e + 1 in
      e\<lparr>eh_seq := seq, eh_sequence := (case eh_sequence e of None \<Rightarrow> Some seq | Some s \<Rightarrow> Some s)\<rparr>)"

subsection \<open>The cases of the loop\<close>

definition holdoff :: "EventHandlerConfig \<Rightarrow> int \<Rightarrow> EventHandler \<Rightarrow> int" where
  "holdoff cfg now e = (if now - eh_lastDAGRebuild e > ehc_HoldoffMaxDelay cfg then 0 else ehc_HoldoffDelay cfg)"

definition receive_update :: "EventHandlerConfig \<Rightarrow> (string \<Rightarrow> GatewayClass option) \<Rightarrow> int \<Rightarrow> handler_op \<Rightarrow> EventHandler \<Rightarrow> EventHandler option" where
  "receive_update cfg GetClass now op e =
     (case onUpdate GetClass op (eh_source e) of
        None \<Rightarrow> None
      | Some (changed, source) \<Rightarrow>
          let e = e\<lparr>eh_source := source\<rparr>;
              e = (if changed
                   then e\<lparr>eh_outstanding := eh_outstanding e + 1, eh_timer := Some (now + holdoff cfg now e)\<rparr>
                   else incSequence e)
          in Some (case op of
                     opAdd _ isInInitialList \<Rightarrow> if isInInitialList then e\<lparr>eh_syncing := eh_syncing e - 1\<rparr> else e
                   | _ \<Rightarrow> e))"

definition pending_fired :: "EventHandlerConfig \<Rightarrow> int \<Rightarrow> EventHandler \<Rightarrow> EventHandler" where
  "pending_fired cfg now e =
     (if \<not> HasSynced e then e\<lparr>eh_timer := Some (now + ehc_HoldoffDelay cfg)\<rparr>
      else
        let latestDAG = Build (ehc_processors cfg) (eh_source e) in
        (incSequence (e\<lparr>eh_timer := None, eh_outstanding := 0, eh_observed := eh_observed e @ [latestDAG]\<rparr>))\<lparr>eh_lastDAGRebuild := now\<rparr>)"

definition initial_poll :: "EventHandler \<Rightarrow> EventHandler" where
  "initial_poll e = (if HasSynced e then e\<lparr>eh_polling := False, eh_initialDagBuilt := True\<rparr> else e)"

text \<open>The steps of the loop, the senders and the informers.  A timer fires no earlier than its deadline.\<close>

inductive handler_step :: "EventHandlerConfig \<Rightarrow> int \<Rightarrow> EventHandler \<Rightarrow> EventHandler \<Rightarrow> bool" for cfg where
  receive: "op \<in> set (eh_waiting e) \<Longrightarrow> receive_update cfg GetClass now op (e\<lparr>eh_waiting := remove1 op (eh_waiting e)\<rparr>) = Some e' \<Longrightarrow>
    handler_step cfg now e e'"
| fire: "eh_timer e = Some deadline \<Longrightarrow> deadline \<le> now \<Longrightarrow> handler_step cfg now e (pending_fired cfg now e)"
| poll: "eh_polling e \<Longrightarrow> handler_step cfg now e (initial_poll e)"
| add: "handler_step cfg now e (EventHandler_OnAdd obj initial e)"
| update: "handler_step cfg now e (EventHandler_OnUpdate old new e)"
| delete: "handler_step cfg now e (EventHandler_OnDelete obj e)"
| elected: "handler_step cfg now e (OnElectedLeader e)"
| synced: "handler_step cfg now e (e\<lparr>eh_upstreamHasSynced := True\<rparr>)"
| taken: "handler_step cfg now e (e\<lparr>eh_sequence := None\<rparr>)"

inductive_cases handler_stepE: "handler_step cfg now e e'"

text \<open>Runs from the start, with the time of the last step; time does not go back.\<close>

inductive handler_run :: "EventHandlerConfig \<Rightarrow> KubernetesCache \<Rightarrow> int \<Rightarrow> EventHandler \<Rightarrow> bool" for cfg source where
  start: "handler_run cfg source now (NewEventHandler source now)"
| step: "handler_run cfg source t e \<Longrightarrow> t \<le> now \<Longrightarrow> handler_step cfg now e e' \<Longrightarrow> handler_run cfg source now e'"

section \<open>No event is lost\<close>

text \<open>Events that need no rebuild.\<close>

definition quiet :: "KubernetesCache \<Rightarrow> KubernetesCache \<Rightarrow> bool" where
  "quiet kc kc' \<longleftrightarrow> (\<exists>GetClass op. onUpdate GetClass op kc = Some (False, kc'))"

definition initial_ops :: "handler_op list \<Rightarrow> nat" where
  "initial_ops ops = length (filter (\<lambda>op. case op of opAdd _ initial \<Rightarrow> initial | _ \<Rightarrow> False) ops)"

text \<open>The last DAG given to the observer is up to date.\<close>

definition up_to_date :: "EventHandlerConfig \<Rightarrow> KubernetesCache \<Rightarrow> DAG list \<Rightarrow> KubernetesCache \<Rightarrow> bool" where
  "up_to_date cfg source observed current \<longleftrightarrow>
     (\<exists>kc. quiet\<^sup>*\<^sup>* kc current \<and> (if observed = [] then kc = source else last observed = Build (ehc_processors cfg) kc))"

definition handler_ok :: "EventHandlerConfig \<Rightarrow> KubernetesCache \<Rightarrow> int \<Rightarrow> EventHandler \<Rightarrow> bool" where
  "handler_ok cfg source now e \<longleftrightarrow>
     (eh_timer e = None \<longrightarrow> eh_outstanding e = 0 \<and> up_to_date cfg source (eh_observed e) (eh_source e)) \<and>
     (\<forall>d. eh_timer e = Some d \<longrightarrow> eh_outstanding e > 0 \<and> d \<le> now + ehc_HoldoffDelay cfg) \<and>
     eh_syncing e = int (initial_ops (eh_waiting e)) \<and> eh_lastDAGRebuild e \<le> now"

lemma incSequence_simps [simp]:
  "eh_source (incSequence e) = eh_source e" "eh_waiting (incSequence e) = eh_waiting e" "eh_syncing (incSequence e) = eh_syncing e"
  "eh_outstanding (incSequence e) = eh_outstanding e" "eh_timer (incSequence e) = eh_timer e"
  "eh_lastDAGRebuild (incSequence e) = eh_lastDAGRebuild e" "eh_observed (incSequence e) = eh_observed e"
  "eh_upstreamHasSynced (incSequence e) = eh_upstreamHasSynced e" "eh_initialDagBuilt (incSequence e) = eh_initialDagBuilt e"
  by (simp_all add: incSequence_def Let_def)

lemma initial_ops_simps [simp]:
  "initial_ops [] = 0" "initial_ops (ops @ ops') = initial_ops ops + initial_ops ops'"
  "initial_ops (opAdd obj b # ops) = (if b then 1 else 0) + initial_ops ops"
  "initial_ops (opUpdate old new # ops) = initial_ops ops" "initial_ops (opDelete obj # ops) = initial_ops ops"
  "initial_ops (opElected b # ops) = initial_ops ops"
  by (simp_all add: initial_ops_def)

lemma initial_ops_remove1:
  "op \<in> set ops \<Longrightarrow> initial_ops ops = initial_ops (remove1 op ops) + (case op of opAdd _ b \<Rightarrow> if b then 1 else 0 | _ \<Rightarrow> 0)"
proof (induction ops)
  case (Cons a ops)
  then show ?case by (cases a; cases "a = op") (auto split: handler_op.splits)
qed simp

lemma handler_ok_later: "handler_ok cfg source t e \<Longrightarrow> t \<le> now \<Longrightarrow> handler_ok cfg source now e"
  unfolding handler_ok_def by (cases "eh_timer e") auto

lemma quiet_step:
  assumes "onUpdate GetClass op kc = Some (False, kc')" "up_to_date cfg source observed kc"
  shows "up_to_date cfg source observed kc'"
proof -
  have "quiet kc kc'" using assms(1) unfolding quiet_def by blast
  then show ?thesis using assms(2) unfolding up_to_date_def by (meson rtranclp.rtrancl_into_rtrancl)
qed

lemma up_to_date_Build: "up_to_date cfg source (observed @ [Build (ehc_processors cfg) kc]) kc"
  unfolding up_to_date_def by (intro exI [of _ kc]) simp

lemma up_to_date_start: "up_to_date cfg source [] source"
  unfolding up_to_date_def by simp

text \<open>What receiving an event does to the loop.\<close>

lemma receive_update_cases:
  assumes "receive_update cfg GetClass now op e = Some e'"
  obtains changed kc where "onUpdate GetClass op (eh_source e) = Some (changed, kc)" "eh_source e' = kc"
    "eh_waiting e' = eh_waiting e" "eh_observed e' = eh_observed e" "eh_lastDAGRebuild e' = eh_lastDAGRebuild e"
    "eh_outstanding e' = (if changed then eh_outstanding e + 1 else eh_outstanding e)"
    "eh_timer e' = (if changed then Some (now + holdoff cfg now e) else eh_timer e)"
    "eh_syncing e' = eh_syncing e - (case op of opAdd _ b \<Rightarrow> if b then 1 else 0 | _ \<Rightarrow> 0)"
proof -
  obtain changed kc where upd: "onUpdate GetClass op (eh_source e) = Some (changed, kc)"
    using assms unfolding receive_update_def by (cases "onUpdate GetClass op (eh_source e)") auto
  have h: "holdoff cfg now (e\<lparr>eh_source := kc\<rparr>) = holdoff cfg now e" by (simp add: holdoff_def)
  show ?thesis
    using assms upd h by (intro that [OF upd]; cases op; cases changed) (auto simp: receive_update_def Let_def split: if_splits)
qed

lemma holdoff_le: "0 \<le> ehc_HoldoffDelay cfg \<Longrightarrow> holdoff cfg now e \<le> ehc_HoldoffDelay cfg"
  by (simp add: holdoff_def)

lemma receive_update_ok:
  assumes ok: "handler_ok cfg source now e" and op: "op \<in> set (eh_waiting e)" and delay: "0 \<le> ehc_HoldoffDelay cfg"
    and r: "receive_update cfg GetClass now op (e\<lparr>eh_waiting := remove1 op (eh_waiting e)\<rparr>) = Some e'"
  shows "handler_ok cfg source now e'"
proof -
  note c = initial_ops_remove1 [OF op]
  from r show ?thesis
  proof (cases rule: receive_update_cases)
    case (1 changed kc)
    have s: "eh_syncing e' = int (initial_ops (eh_waiting e'))"
      using ok 1 c by (cases op) (auto simp: handler_ok_def)
    show ?thesis
    proof (cases changed)
      case True
      then show ?thesis using ok 1 s holdoff_le [OF delay] unfolding handler_ok_def by simp
    next
      case False
      have q: "onUpdate GetClass op (eh_source e) = Some (False, kc)" using 1(1) False by simp
      show ?thesis using ok 1 s False quiet_step [OF q] unfolding handler_ok_def by (cases "eh_timer e") simp_all
    qed
  qed
qed

lemma pending_fired_ok:
  assumes "handler_ok cfg source now e" "eh_timer e = Some d"
  shows "handler_ok cfg source now (pending_fired cfg now e)"
  using assms unfolding handler_ok_def pending_fired_def Let_def by (simp add: up_to_date_Build)

lemma initial_poll_ok: "handler_ok cfg source now e \<Longrightarrow> handler_ok cfg source now (initial_poll e)"
  by (simp add: initial_poll_def handler_ok_def)

lemma handler_step_ok:
  assumes "handler_step cfg now e e'" "handler_ok cfg source now e" "0 \<le> ehc_HoldoffDelay cfg"
  shows "handler_ok cfg source now e'"
  using assms(1)
proof (cases rule: handler_step.cases)
  case (receive op GetClass)
  then show ?thesis using receive_update_ok assms by blast
next
  case (fire d)
  then show ?thesis using pending_fired_ok assms by blast
next
  case poll
  then show ?thesis using initial_poll_ok assms by blast
qed (use assms in \<open>simp_all add: handler_ok_def EventHandler_OnAdd_def EventHandler_OnUpdate_def EventHandler_OnDelete_def
       OnElectedLeader_def Let_def\<close>)

lemma handler_run_ok:
  "handler_run cfg source now e \<Longrightarrow> 0 \<le> ehc_HoldoffDelay cfg \<Longrightarrow> handler_ok cfg source now e"
proof (induction rule: handler_run.induct)
  case (start now)
  show ?case by (simp add: handler_ok_def NewEventHandler_def up_to_date_start)
next
  case (step t e now e')
  then show ?case using handler_step_ok handler_ok_later by blast
qed

section \<open>Properties\<close>

text \<open>C7. The event handler loses no event.  In every state the loop of \<open>Start\<close> reaches, from any cache, through any order of events,
  timers and polls: if events are outstanding, a timer is armed, and due within the holdoff delay; if none are, no timer is armed
  and the last DAG given to the observer is the one built of a cache from which only events that need no rebuild have led to
  the current one (before the first rebuild: that cache is the initial one).  The counter of the sync tracker is the number of
  objects of the initial list that wait to be processed.\<close>

theorem handler_loses_no_event:
  assumes "handler_run cfg source now e" "0 \<le> ehc_HoldoffDelay cfg"
  shows "(eh_outstanding e > 0 \<longrightarrow> (\<exists>d. eh_timer e = Some d \<and> d \<le> now + ehc_HoldoffDelay cfg)) \<and>
    (eh_outstanding e = 0 \<longrightarrow> eh_timer e = None \<and> up_to_date cfg source (eh_observed e) (eh_source e)) \<and>
    eh_syncing e = int (initial_ops (eh_waiting e))"
  using handler_run_ok [OF assms] unfolding handler_ok_def by (cases "eh_timer e") auto

text \<open>A run: a namespace of the initial list is announced and received, and the informers sync.\<close>

definition sample_config :: EventHandlerConfig where
  "sample_config = \<lparr>ehc_processors = [], ehc_HoldoffDelay = 100000000, ehc_HoldoffMaxDelay = 500000000\<rparr>"

definition sample_initial :: any_object where
  "sample_initial = ClientObject \<lparr>co_Object = NamespaceObj \<lparr>cns_Name = ''app'', cns_Labels = []\<rparr>, co_Type = ''*v1.Namespace'',
     co_ResourceVersion = ''1'', co_Generation = 0, co_Annotations = [], co_DataNil = True, co_Spec = '''', co_Status = '''', co_Subsets = ''''\<rparr>"

definition sample_received :: EventHandler where
  "sample_received = (NewEventHandler empty_cache 0)\<lparr>eh_source := empty_cache\<lparr>kc_namespaces := [(''app'', \<lparr>cns_Name = ''app'', cns_Labels = []\<rparr>)]\<rparr>,
     eh_outstanding := 1, eh_timer := Some 100000000\<rparr>"

lemma sample_run: "handler_run sample_config empty_cache 0 (sample_received\<lparr>eh_upstreamHasSynced := True\<rparr>)"
proof -
  let ?e = "EventHandler_OnAdd sample_initial True (NewEventHandler empty_cache 0)"
  have add: "handler_run sample_config empty_cache 0 ?e"
    by (rule handler_run.step [OF handler_run.start order_refl handler_step.add])
  have "receive_update sample_config (\<lambda>_. None) 0 (opAdd sample_initial True) (?e\<lparr>eh_waiting := remove1 (opAdd sample_initial True) (eh_waiting ?e)\<rparr>)
      = Some sample_received"
    by (simp add: receive_update_def onUpdate_def EventHandler_OnAdd_def NewEventHandler_def sample_received_def sample_initial_def
        sample_config_def holdoff_def Insert_def maybeInsert_def empty_cache_def)
  moreover have "opAdd sample_initial True \<in> set (eh_waiting ?e)"
    by (simp add: EventHandler_OnAdd_def NewEventHandler_def)
  ultimately have "handler_step sample_config 0 ?e sample_received" by (rule handler_step.receive [rotated])
  then have "handler_run sample_config empty_cache 0 sample_received" by (rule handler_run.step [OF add order_refl])
  then show ?thesis by (rule handler_run.step [OF _ order_refl handler_step.synced])
qed

theorem handler_loses_no_event_witness:
  "\<exists>d. eh_timer (sample_received\<lparr>eh_upstreamHasSynced := True\<rparr>) = Some d \<and> d \<le> 100000000"
  using handler_loses_no_event [OF sample_run] by (simp add: sample_config_def sample_received_def)

text \<open>C13. Outstanding events reach the observer.  In a reachable state with outstanding events in which the informers have synced
  and no object of the initial list waits, the timer is due within the holdoff delay, and when it fires, at any later time,
  the observer is given the DAG built of the current cache, no event is outstanding, and the next number is sent to a watcher of the
  sequence that has taken the last one.\<close>

theorem handler_delivers_dag:
  assumes "handler_run cfg source now e" "0 \<le> ehc_HoldoffDelay cfg" "eh_outstanding e > 0"
    and "eh_upstreamHasSynced e" "initial_ops (eh_waiting e) = 0"
  shows "\<exists>d \<le> now + ehc_HoldoffDelay cfg. \<forall>t \<ge> d. \<exists>e'. handler_step cfg t e e' \<and>
     eh_observed e' = eh_observed e @ [Build (ehc_processors cfg) (eh_source e)] \<and> eh_outstanding e' = 0 \<and>
     eh_source e' = eh_source e \<and> eh_waiting e' = eh_waiting e \<and> eh_lastDAGRebuild e' = t \<and>
     (eh_sequence e = None \<longrightarrow> eh_sequence e' = Some (eh_seq e + 1))"
proof -
  have ok: "handler_ok cfg source now e" by (rule handler_run_ok [OF assms(1,2)])
  obtain d where d: "eh_timer e = Some d" "d \<le> now + ehc_HoldoffDelay cfg"
    using ok assms(3) unfolding handler_ok_def by (cases "eh_timer e") auto
  have synced: "HasSynced e" using ok assms(4,5) by (simp add: HasSynced_def handler_ok_def)
  have "handler_step cfg t e (pending_fired cfg t e)" if "d \<le> t" for t
    by (rule handler_step.fire [OF d(1) that])
  then show ?thesis
    using d(2) synced by (intro exI [of _ d] conjI allI impI exI [of _ "pending_fired cfg _ e"])
      (simp_all add: pending_fired_def Let_def incSequence_def)
qed

theorem handler_delivers_dag_witness:
  "\<exists>d \<le> 100000000. \<forall>t \<ge> d. \<exists>e'. handler_step sample_config t (sample_received\<lparr>eh_upstreamHasSynced := True\<rparr>) e' \<and>
     eh_observed e' = [Build [] (eh_source sample_received)]"
proof -
  have "0 \<le> ehc_HoldoffDelay sample_config" "eh_outstanding (sample_received\<lparr>eh_upstreamHasSynced := True\<rparr>) > 0"
    "eh_upstreamHasSynced (sample_received\<lparr>eh_upstreamHasSynced := True\<rparr>)"
    "initial_ops (eh_waiting (sample_received\<lparr>eh_upstreamHasSynced := True\<rparr>)) = 0"
    by (simp_all add: sample_config_def sample_received_def NewEventHandler_def)
  from handler_delivers_dag [OF sample_run this] obtain d where d: "d \<le> 0 + ehc_HoldoffDelay sample_config" and
    step: "\<And>t. t \<ge> d \<Longrightarrow> \<exists>e'. handler_step sample_config t (sample_received\<lparr>eh_upstreamHasSynced := True\<rparr>) e' \<and>
       eh_observed e' = eh_observed (sample_received\<lparr>eh_upstreamHasSynced := True\<rparr>) @
         [Build (ehc_processors sample_config) (eh_source (sample_received\<lparr>eh_upstreamHasSynced := True\<rparr>))]"
    by metis
  have [simp]: "eh_observed (sample_received\<lparr>eh_upstreamHasSynced := True\<rparr>) = []" "ehc_processors sample_config = []"
    by (simp_all add: sample_received_def NewEventHandler_def sample_config_def)
  have "d \<le> 100000000" using d by (simp add: sample_config_def)
  then show ?thesis using step by (intro exI [of _ d]) simp
qed


end
