(* ===== verification/Build_Pipeline.thy ===== *)
theory Build_Pipeline
  imports Ingress_Processor Event_Handler
begin

text \<open>
  The builder as \<open>cmd/contour/serve.go\<close> sets it up: which processors run, in which order, with which parts of the
  configuration, and what the DAGs they build together contain.  The processor of the Gateway API is an argument.
\<close>

section \<open>The configuration\<close>

record HeadersPolicyConfig =
  hpc_Set :: "(string, string) gomap option"
  hpc_Remove :: "string list option"

record PolicyConfig =
  pc_RequestHeadersPolicy :: "HeadersPolicyConfig option"
  pc_ResponseHeadersPolicy :: "HeadersPolicyConfig option"
  pc_ApplyToIngress :: "bool option"

record dagBuilderConfig =
  dbc_ingressClassNames :: "string list"
  dbc_rootNamespaces :: "string list"
  dbc_gatewayRef :: "NamespacedName option"
  dbc_disablePermitInsecure :: bool
  dbc_enableExternalNameService :: bool
  dbc_dnsLookupFamily :: string
  dbc_headersPolicy :: "PolicyConfig option"
  dbc_clientCert :: "NamespacedName option"
  dbc_fallbackCert :: "NamespacedName option"
  dbc_connectTimeout :: duration
  dbc_httpAddress :: string
  dbc_httpPort :: int
  dbc_httpsAddress :: string
  dbc_httpsPort :: int
  dbc_globalExternalAuthorizationService :: "AuthorizationServer option"
  dbc_maxRequestsPerConnection :: "uint32 option"
  dbc_perConnectionBufferLimitBytes :: "uint32 option"
  dbc_globalRateLimitService :: "RateLimitServiceConfig option"
  dbc_globalCircuitBreakerDefaults :: "CircuitBreakers option"
  dbc_upstreamTLS :: "UpstreamTLS option"

text \<open>What stands outside: the libraries, the check of host names and the orders of map iteration.\<close>

record environment =
  env_library :: library
  env_hostnames :: hostnames
  env_order :: map_order
  env_ingress_order :: ingress_order

definition fair_environment :: "environment \<Rightarrow> bool" where
  "fair_environment env \<longleftrightarrow> fair_order (env_order env) \<and> fair_ingress_order (env_ingress_order env)"

text \<open>
  The run as the builder calls it.  Where the processor panics the program stops and there is no DAG; the value is arbitrary there, and the
  properties below are about caches on which it does not.
\<close>

definition ingress_processor :: "library \<Rightarrow> ingress_order \<Rightarrow> IngressProcessor \<Rightarrow> Processor" where
  "ingress_processor lib ord p source d = (case IngressProcessor_Run lib ord p source d of Some d' \<Rightarrow> d' | None \<Rightarrow> d)"

definition copy_headers :: "HeadersPolicyConfig option \<Rightarrow> HeadersPolicy" where
  "copy_headers hp =
     (case hp of
        None \<Rightarrow> zero_HeadersPolicy
      | Some hp \<Rightarrow>
          let p = (case hpc_Set hp of None \<Rightarrow> zero_HeadersPolicy | Some m \<Rightarrow> zero_HeadersPolicy\<lparr>hp_Set := m\<rparr>)
          in case hpc_Remove hp of None \<Rightarrow> p | Some r \<Rightarrow> p\<lparr>hp_Remove := r\<rparr>)"

text \<open>The request and the response policy, and whether ingresses get them; None where the nil \<open>ApplyToIngress\<close> is read.\<close>

definition header_policies :: "PolicyConfig option \<Rightarrow> (HeadersPolicy \<times> HeadersPolicy \<times> bool) option" where
  "header_policies pc =
     (case pc of
        None \<Rightarrow> Some (zero_HeadersPolicy, zero_HeadersPolicy, False)
      | Some pc \<Rightarrow>
          map_option (\<lambda>apply. (copy_headers (pc_RequestHeadersPolicy pc), copy_headers (pc_ResponseHeadersPolicy pc), apply))
            (pc_ApplyToIngress pc))"

definition listener_config :: "dagBuilderConfig \<Rightarrow> ListenerProcessor" where
  "listener_config dbc = \<lparr>lpr_HTTPAddress = dbc_httpAddress dbc, lpr_HTTPPort = dbc_httpPort dbc,
     lpr_HTTPSAddress = dbc_httpsAddress dbc, lpr_HTTPSPort = dbc_httpsPort dbc\<rparr>"

definition ingress_config :: "dagBuilderConfig \<Rightarrow> HeadersPolicy \<Rightarrow> HeadersPolicy \<Rightarrow> IngressProcessor" where
  "ingress_config dbc requestHeadersPolicyIngress responseHeadersPolicyIngress = \<lparr>
     ip_ClientCertificate = dbc_clientCert dbc, ip_EnableExternalNameService = dbc_enableExternalNameService dbc,
     ip_RequestHeadersPolicy = Some requestHeadersPolicyIngress, ip_ResponseHeadersPolicy = Some responseHeadersPolicyIngress,
     ip_ConnectTimeout = dbc_connectTimeout dbc, ip_MaxRequestsPerConnection = dbc_maxRequestsPerConnection dbc,
     ip_PerConnectionBufferLimitBytes = dbc_perConnectionBufferLimitBytes dbc, ip_SetSourceMetadataOnRoutes = True,
     ip_GlobalCircuitBreakerDefaults = dbc_globalCircuitBreakerDefaults dbc, ip_UpstreamTLS = dbc_upstreamTLS dbc\<rparr>"

definition extension_config :: "dagBuilderConfig \<Rightarrow> ExtensionServiceProcessor" where
  "extension_config dbc = \<lparr>esp_ClientCertificate = dbc_clientCert dbc, esp_ConnectTimeout = dbc_connectTimeout dbc,
     esp_UpstreamTLS = None, esp_GlobalCircuitBreakerDefaults = dbc_globalCircuitBreakerDefaults dbc\<rparr>"

definition httpproxy_config :: "dagBuilderConfig \<Rightarrow> HeadersPolicy \<Rightarrow> HeadersPolicy \<Rightarrow> HTTPProxyProcessor" where
  "httpproxy_config dbc requestHeadersPolicy responseHeadersPolicy = \<lparr>
     hpp_DisablePermitInsecure = dbc_disablePermitInsecure dbc, hpp_FallbackCertificate = dbc_fallbackCert dbc,
     hpp_EnableExternalNameService = dbc_enableExternalNameService dbc, hpp_DNSLookupFamily = dbc_dnsLookupFamily dbc,
     hpp_ClientCertificate = dbc_clientCert dbc, hpp_RequestHeadersPolicy = Some requestHeadersPolicy,
     hpp_ResponseHeadersPolicy = Some responseHeadersPolicy,
     hpp_GlobalExternalAuthorization = dbc_globalExternalAuthorizationService dbc,
     hpp_ConnectTimeout = dbc_connectTimeout dbc, hpp_MaxRequestsPerConnection = dbc_maxRequestsPerConnection dbc,
     hpp_PerConnectionBufferLimitBytes = dbc_perConnectionBufferLimitBytes dbc,
     hpp_GlobalRateLimitService = dbc_globalRateLimitService dbc, hpp_SetSourceMetadataOnRoutes = True,
     hpp_GlobalCircuitBreakerDefaults = dbc_globalCircuitBreakerDefaults dbc, hpp_UpstreamTLS = dbc_upstreamTLS dbc\<rparr>"

text \<open>The processors and the empty source.\<close>

definition getDAGBuilder :: "environment \<Rightarrow> Processor \<Rightarrow> dagBuilderConfig \<Rightarrow> (Processor list \<times> KubernetesCache) option" where
  "getDAGBuilder env GatewayAPIProcessor dbc =
     (case header_policies (dbc_headersPolicy dbc) of
        None \<Rightarrow> None
      | Some (requestHeadersPolicy, responseHeadersPolicy, applyHeaderPolicyToIngress) \<Rightarrow>
          let lib = env_library env;
              requestHeadersPolicyIngress = (if applyHeaderPolicyToIngress then requestHeadersPolicy else zero_HeadersPolicy);
              responseHeadersPolicyIngress = (if applyHeaderPolicyToIngress then responseHeadersPolicy else zero_HeadersPolicy);
              dagProcessors =
                [ListenerProcessor_Run (env_hostnames env) (listener_config dbc),
                 ingress_processor lib (env_ingress_order env) (ingress_config dbc requestHeadersPolicyIngress responseHeadersPolicyIngress),
                 ExtensionServiceProcessor_Run (lib_ParseDuration lib) (lib_crypto lib) (lib_now lib) (extension_config dbc),
                 HTTPProxyProcessor_Run lib (env_order env) (httpproxy_config dbc requestHeadersPolicy responseHeadersPolicy)];
              dagProcessors = (if dbc_gatewayRef dbc \<noteq> None then dagProcessors @ [GatewayAPIProcessor] else dagProcessors);
              configuredSecretRefs = option_list (dbc_fallbackCert dbc) @ option_list (dbc_clientCert dbc)
          in Some (dagProcessors, empty_cache\<lparr>kc_RootNamespaces := dbc_rootNamespaces dbc, kc_IngressClassNames := dbc_ingressClassNames dbc,
                     kc_ConfiguredGatewayToCache := dbc_gatewayRef dbc, kc_ConfiguredSecretRefs := configuredSecretRefs\<rparr>))"

section \<open>What is built\<close>

lemma gateway_listener_empty:
  "wf_listener (gateway_listener p port)" "listener_ready (gateway_listener p port)" "ln_Name (gateway_listener p port) = lp_Name port"
  "ln_VirtualHosts (gateway_listener p port) = []" "ln_SecureVirtualHosts (gateway_listener p port) = []"
  by (simp_all add: gateway_listener_def zero_Listener_def wf_listener_def wf_table_def nil_lookup_def listener_ready_def)

lemma default_listeners_empty:
  "wf_listener (http_listener p)" "listener_ready (http_listener p)" "ln_Name (http_listener p) = ''ingress_http''"
  "ln_VirtualHosts (http_listener p) = []" "ln_SecureVirtualHosts (http_listener p) = []"
  "wf_listener (https_listener p)" "listener_ready (https_listener p)" "ln_Name (https_listener p) = ''ingress_https''"
  "ln_VirtualHosts (https_listener p) = []" "ln_SecureVirtualHosts (https_listener p) = []"
  by (simp_all add: http_listener_def https_listener_def zero_Listener_def wf_listener_def wf_table_def nil_lookup_def listener_ready_def)

definition bare :: "DAG \<Rightarrow> bool" where
  "bare d \<longleftrightarrow> dag_ready d \<and> (\<forall>n l. lookup (dag_Listeners d) n = Some l \<longrightarrow> ln_VirtualHosts l = [] \<and> ln_SecureVirtualHosts l = [])"

lemma bare_put:
  assumes "bare d" "wf_listener l" "listener_ready l" "ln_Name l = n" "ln_VirtualHosts l = []" "ln_SecureVirtualHosts l = []"
  shows "bare (d\<lparr>dag_Listeners := put n l (dag_Listeners d)\<rparr>)"
  using assms wf_dag_put [of d l n] by (auto simp: bare_def dag_ready_def lookup_put)

lemma bare_gateway:
  "bare d \<Longrightarrow> bare (d\<lparr>dag_Listeners := fold (\<lambda>port. put (lp_Name port) (gateway_listener p port)) ports (dag_Listeners d)\<rparr>)"
proof (induction ports arbitrary: d)
  case (Cons port ports)
  from Cons.IH [OF bare_put [OF Cons.prems gateway_listener_empty(1-5) [where p = p and port = port]]] show ?case by simp
qed simp

lemma listener_run_bare: "bare (ListenerProcessor_Run hn p kc (new_DAG kc))"
proof -
  have new: "bare (new_DAG kc)" "bare ((new_DAG kc)\<lparr>dag_HasDynamicListeners := True\<rparr>)"
    by (simp_all add: bare_def dag_ready_def wf_dag_def new_DAG_def Let_def)
  show ?thesis
  proof (cases "kc_gateway kc")
    case None
    then show ?thesis
      using bare_put [OF bare_put [OF new(1) default_listeners_empty(1-5) [where p = p]] default_listeners_empty(6-10) [where p = p]]
      by (simp add: ListenerProcessor_Run_def)
  next
    case (Some g)
    then show ?thesis using bare_gateway [OF new(2)] by (simp add: ListenerProcessor_Run_def)
  qed
qed

text \<open>The hosts an ingress or a proxy asks for.\<close>

definition plain_source :: "KubernetesCache \<Rightarrow> string \<Rightarrow> bool" where
  "plain_source source host \<longleftrightarrow> ingress_named source host \<or> owner source host"

definition secure_source :: "library \<Rightarrow> KubernetesCache \<Rightarrow> string \<Rightarrow> bool" where
  "secure_source lib source host \<longleftrightarrow> (\<exists>sec. ingress_certificate lib source host sec) \<or> owner source host"

definition accounted :: "library \<Rightarrow> KubernetesCache \<Rightarrow> Listener \<Rightarrow> bool" where
  "accounted lib source l \<longleftrightarrow>
     (\<forall>v\<in>set (ln_VirtualHosts l). plain_source source (vh_Name v)) \<and>
     (\<forall>s\<in>set (ln_SecureVirtualHosts l). secure_source lib source (vh_Name (svh_VirtualHost s)))"

lemma ingress_stage:
  assumes "bare d" "fair_ingress_order ord" "\<not> some_unsupported source"
  shows "dag_ready (ingress_processor lib ord p source d) \<and>
    (\<forall>n l. lookup (dag_Listeners (ingress_processor lib ord p source d)) n = Some l \<longrightarrow> accounted lib source l)"
proof -
  have ready: "dag_ready d" using assms(1) by (simp add: bare_def)
  obtain d' where d': "IngressProcessor_Run lib ord p source d = Some d'" "ingress_inv lib source d d'"
    using IngressProcessor_Run_ok [OF assms(2) ready, of source lib p] assms(3) unfolding ok_dag_def
    by (cases "IngressProcessor_Run lib ord p source d") auto
  have eq: "ingress_processor lib ord p source d = d'" by (simp add: ingress_processor_def d'(1))
  have none: "\<not> (lookup (dag_Listeners d) n = Some l \<and> v \<in> set (ln_VirtualHosts l))" "\<not> old_secure d n host sec" for n l v host sec
    using assms(1) unfolding bare_def old_secure_def by fastforce+
  have "accounted lib source l" if l: "lookup (dag_Listeners d') n = Some l" for n l
  proof -
    have "plain_ok source d n v" if "v \<in> set (ln_VirtualHosts l)" for v
      using d'(2) l that unfolding ingress_inv_def all_hosts_def by blast
    moreover have "secure_ok lib source d n s" if "s \<in> set (ln_SecureVirtualHosts l)" for s
      using d'(2) l that unfolding ingress_inv_def all_hosts_def by blast
    ultimately show ?thesis
      using none unfolding accounted_def plain_ok_def secure_ok_def plain_source_def secure_source_def Let_def by blast
  qed
  then show ?thesis using d'(2) unfolding eq ingress_inv_def by blast
qed

lemma ingress_stage_frame:
  assumes "bare d" "fair_ingress_order ord" "\<not> some_unsupported source"
  shows "dag_ready (ingress_processor lib ord p source d) \<and> dag_ExtensionClusters (ingress_processor lib ord p source d) = dag_ExtensionClusters d"
proof -
  have ready: "dag_ready d" using assms(1) by (simp add: bare_def)
  from IngressProcessor_Run_ok [OF assms(2) ready, of source lib p] assms(3) show ?thesis
    by (cases "IngressProcessor_Run lib ord p source d") (auto simp: ok_dag_def ingress_inv_def same_listeners_def ingress_processor_def)
qed

lemma proxy_stage:
  assumes "dag_ready d" "fair_order ord" "\<And>n l. lookup (dag_Listeners d) n = Some l \<Longrightarrow> accounted lib source l"
  shows "dag_ready (HTTPProxyProcessor_Run lib ord p source d) \<and>
    (\<forall>n l. lookup (dag_Listeners (HTTPProxyProcessor_Run lib ord p source d)) n = Some l \<longrightarrow> accounted lib source l)"
proof -
  let ?d = "HTTPProxyProcessor_Run lib ord p source d"
  note run = HTTPProxyProcessor_Run_ok [OF assms(2,1) refl refl, where source = source and lib = lib and p = p]
  have "accounted lib source l'" if l': "lookup (dag_Listeners ?d) n = Some l'" for n l'
  proof -
    have "rel_option (hosts_of (owner source)) (lookup (dag_Listeners d) n) (Some l')"
      using run l' unfolding hosts_from_def by metis
    then obtain l where l: "lookup (dag_Listeners d) n = Some l" "hosts_of (owner source) l l'"
      by (cases "lookup (dag_Listeners d) n") auto
    then show ?thesis
      using assms(3) [OF l(1)] unfolding accounted_def hosts_of_def plain_source_def secure_source_def by blast
  qed
  then show ?thesis using run by blast
qed


subsection \<open>TLS settings of extension services\<close>

lemma buildExtensionService_tls:
  assumes "buildExtensionService pd cr p kc e vc = (Some ec, vc')"
  shows "ec_UpstreamTLS ec = esp_UpstreamTLS p"
proof -
  have base: "ec_UpstreamTLS (fst (extension_base pd cr p kc e vc)) = esp_UpstreamTLS p"
    unfolding extension_base_def Let_def by (auto split: prod.split option.split)
  obtain ec0 vc0 where e: "extension_base pd cr p kc e vc = (ec0, vc0)" by (rule prod.exhaust)
  show ?thesis
    using assms base unfolding buildExtensionService_def e Let_def prod.case fst_conv
    by (auto split: prod.splits option.splits sum.splits lookup_error.splits)
qed

lemma extension_step_tls:
  assumes "\<forall>ec\<in>set (dag_ExtensionClusters d). ec_UpstreamTLS ec = esp_UpstreamTLS p"
  shows "\<forall>ec\<in>set (dag_ExtensionClusters (extension_step pd cr now p kc e d)). ec_UpstreamTLS ec = esp_UpstreamTLS p"
proof -
  let ?c = "fst (ConditionCache_ConditionFor ValidCondition (ExtensionAccessor now e (dag_StatusCache d)))"
  obtain ext vc where b: "buildExtensionService pd cr p kc e ?c = (ext, vc)" by (rule prod.exhaust)
  have "dag_ExtensionClusters (extension_step pd cr now p kc e d) =
      dag_ExtensionClusters d @ (if dc_Errors vc = [] then option_list ext else [])"
    using b by (cases ext) (auto simp: extension_step_def Let_def option_list_def split: prod.splits)
  then show ?thesis using assms buildExtensionService_tls [of pd cr p kc e ?c] b by (cases ext) (auto simp: option_list_def)
qed

lemma extension_run_tls:
  assumes "dag_ExtensionClusters d = []"
  shows "\<forall>ec\<in>set (dag_ExtensionClusters (ExtensionServiceProcessor_Run pd cr now p kc d)). ec_UpstreamTLS ec = esp_UpstreamTLS p"
  unfolding ExtensionServiceProcessor_Run_def
  by (rule fold_invariant [where P = "\<lambda>d. \<forall>ec\<in>set (dag_ExtensionClusters d). ec_UpstreamTLS ec = esp_UpstreamTLS p" and Q = "\<lambda>_. True"])
    (simp_all add: assms extension_step_tls)

text \<open>C40. The TLS settings for upstream connections do not reach extension services.  \<open>getDAGBuilder\<close> leaves the field \<open>UpstreamTLS\<close> of the
  extension service processor nil, so whatever TLS versions and cipher suites are configured, no extension cluster of a DAG that is
  built carries them.\<close>

theorem extension_clusters_without_upstream_tls:
  assumes "getDAGBuilder env gw dbc = Some (ps, kc0)" "dbc_gatewayRef dbc = None" "fair_environment env"
    and "\<forall>ing\<in>set (map_values (kc_ingresses kc)). ingress_supported ing"
    and "ec \<in> set (dag_ExtensionClusters (Build ps kc))"
  shows "ec_UpstreamTLS ec = None"
proof -
  let ?lib = "env_library env"
  obtain ip hp where ps: "ps = [ListenerProcessor_Run (env_hostnames env) (listener_config dbc), ingress_processor ?lib (env_ingress_order env) ip,
      ExtensionServiceProcessor_Run (lib_ParseDuration ?lib) (lib_crypto ?lib) (lib_now ?lib) (extension_config dbc),
      HTTPProxyProcessor_Run ?lib (env_order env) hp]"
    using assms(1,2) unfolding getDAGBuilder_def Let_def by (auto split: option.splits)
  define d1 where "d1 = ListenerProcessor_Run (env_hostnames env) (listener_config dbc) kc (new_DAG kc)"
  define d2 where "d2 = ingress_processor ?lib (env_ingress_order env) ip kc d1"
  define d3 where "d3 = ExtensionServiceProcessor_Run (lib_ParseDuration ?lib) (lib_crypto ?lib) (lib_now ?lib) (extension_config dbc) kc d2"
  have "\<not> some_unsupported kc" using assms(4) by (simp add: some_unsupported_def)
  moreover have fair: "fair_ingress_order (env_ingress_order env)" "fair_order (env_order env)" using assms(3) by (simp_all add: fair_environment_def)
  moreover have bare: "bare d1" unfolding d1_def by (rule listener_run_bare)
  ultimately have s2: "dag_ready d2" "dag_ExtensionClusters d2 = dag_ExtensionClusters d1"
    using ingress_stage_frame [of d1 "env_ingress_order env" kc ?lib ip] unfolding d2_def by blast+
  have "dag_ExtensionClusters d1 = []" by (simp add: d1_def ListenerProcessor_Run_def new_DAG_def Let_def split: option.split)
  then have tls: "\<forall>ec\<in>set (dag_ExtensionClusters d3). ec_UpstreamTLS ec = None"
    using extension_run_tls [of d2 _ _ _ "extension_config dbc"] s2(2) unfolding d3_def by (simp add: extension_config_def)
  have "dag_ready d3" using s2(1) by (simp add: d3_def dag_ready_def wf_dag_def extension_run_listeners)
  then have "dag_ExtensionClusters (HTTPProxyProcessor_Run ?lib (env_order env) hp kc d3) = dag_ExtensionClusters d3"
    using HTTPProxyProcessor_Run_ok [OF fair(2) _ refl refl] by blast
  then show ?thesis using tls assms(5) by (simp add: Build_def ps d3_def d2_def d1_def Let_def)
qed

section \<open>Instances\<close>

definition sample_environment :: environment where
  "sample_environment = \<lparr>env_library = sample_library, env_hostnames = sample_hostnames, env_order = sample_order,
     env_ingress_order = sample_ingress_order\<rparr>"

definition sample_dbc :: dagBuilderConfig where
  "sample_dbc = \<lparr>dbc_ingressClassNames = [], dbc_rootNamespaces = [], dbc_gatewayRef = None, dbc_disablePermitInsecure = False,
     dbc_enableExternalNameService = False, dbc_dnsLookupFamily = ''auto'', dbc_headersPolicy = None, dbc_clientCert = None,
     dbc_fallbackCert = None, dbc_connectTimeout = 2000000000, dbc_httpAddress = ''0.0.0.0'', dbc_httpPort = 8080,
     dbc_httpsAddress = ''0.0.0.0'', dbc_httpsPort = 8443, dbc_globalExternalAuthorizationService = None,
     dbc_maxRequestsPerConnection = None, dbc_perConnectionBufferLimitBytes = None, dbc_globalRateLimitService = None,
     dbc_globalCircuitBreakerDefaults = None, dbc_upstreamTLS = Some \<lparr>utls_MinimumProtocolVersion = ''1.3'', utls_MaximumProtocolVersion = ''1.3'', utls_CipherSuites = []\<rparr>\<rparr>"

definition sample_processors :: "Processor list" where
  "sample_processors = fst (the (getDAGBuilder sample_environment (\<lambda>_ d. d) sample_dbc))"

lemma sample_builder: "\<exists>kc0. getDAGBuilder sample_environment (\<lambda>_ d. d) sample_dbc = Some (sample_processors, kc0)"
  by (simp add: sample_processors_def getDAGBuilder_def sample_dbc_def header_policies_def Let_def)

lemma sample_environment_fair: "fair_environment sample_environment"
  by (simp add: fair_environment_def sample_environment_def sample_order_fair sample_ingress_order_fair)


theorem extension_clusters_without_upstream_tls_witness:
  "\<exists>ec\<in>set (dag_ExtensionClusters (Build sample_processors sample_extensions)). dbc_upstreamTLS sample_dbc \<noteq> None \<and> ec_UpstreamTLS ec = None"
proof -
  have "length (dag_ExtensionClusters (Build sample_processors sample_extensions)) = 1" by code_simp
  then obtain ec where ec: "ec \<in> set (dag_ExtensionClusters (Build sample_processors sample_extensions))"
    by (cases "dag_ExtensionClusters (Build sample_processors sample_extensions)") auto
  obtain kc0 where b: "getDAGBuilder sample_environment (\<lambda>_ d. d) sample_dbc = Some (sample_processors, kc0)" using sample_builder by blast
  have "\<forall>ing\<in>set (map_values (kc_ingresses sample_extensions)). ingress_supported ing"
    by (simp add: sample_extensions_def empty_cache_def map_values_def)
  from extension_clusters_without_upstream_tls [OF b _ sample_environment_fair this ec] ec show ?thesis
    by (auto simp: sample_dbc_def)
qed

end
