(* ===== verification/Cache_Laws.thy ===== *)
theory Cache_Laws
  imports Event_Handler HTTP_Proxy_Run
begin

text \<open>
  Laws of the Kubernetes cache under the events of the informers: its maps hold every object under its own name, whatever the
  event handler receives, and removing an object undoes its insertion.
\<close>

section \<open>Objects are kept under their names\<close>

definition named_map :: "('v \<Rightarrow> 'k) \<Rightarrow> ('k, 'v) gomap \<Rightarrow> bool" where
  "named_map key m \<longleftrightarrow> wf_gomap m \<and> (\<forall>n v. lookup m n = Some v \<longrightarrow> key v = n)"

lemma named_map_put: "named_map key m \<Longrightarrow> key v = k \<Longrightarrow> named_map key (put k v m)"
  by (auto simp: named_map_def distinct_update lookup_put)

lemma named_map_del: "named_map key m \<Longrightarrow> named_map key (del k m)"
  by (auto simp: named_map_def distinct_delete lookup_del)

definition secret_key :: "Secret \<Rightarrow> NamespacedName" where
  "secret_key s = NamespacedNameOf (csec_Namespace (sec_Object s)) (csec_Name (sec_Object s))"

definition route_key :: "GatewayRoute \<Rightarrow> NamespacedName" where
  "route_key r = NamespacedNameOf (gr_Namespace r) (gr_Name r)"

definition cache_typed :: "KubernetesCache \<Rightarrow> bool" where
  "cache_typed kc \<longleftrightarrow>
     named_map secret_key (kc_secrets kc) \<and> named_map secret_key (kc_configmapsecrets kc) \<and>
     named_map (\<lambda>s. NamespacedNameOf (csv_Namespace s) (csv_Name s)) (kc_services kc) \<and>
     named_map cns_Name (kc_namespaces kc) \<and>
     named_map (\<lambda>i. NamespacedNameOf (ing_Namespace i) (ing_Name i)) (kc_ingresses kc) \<and>
     named_map (\<lambda>p. NamespacedNameOf (px_Namespace p) (px_Name p)) (kc_httpproxies kc) \<and>
     named_map (\<lambda>d. NamespacedNameOf (tcd_Namespace d) (tcd_Name d)) (kc_tlscertificatedelegations kc) \<and>
     named_map route_key (kc_httproutes kc) \<and> named_map route_key (kc_tlsroutes kc) \<and>
     named_map route_key (kc_grpcroutes kc) \<and> named_map route_key (kc_tcproutes kc) \<and>
     named_map (\<lambda>g. NamespacedNameOf (rg_Namespace g) (rg_Name g)) (kc_referencegrants kc) \<and>
     named_map (\<lambda>p. NamespacedNameOf (btp_Namespace p) (btp_Name p)) (kc_backendtlspolicies kc) \<and>
     named_map (\<lambda>e. NamespacedNameOf (ext_Namespace e) (ext_Name e)) (kc_extensions kc)"

lemma empty_cache_typed: "cache_typed empty_cache"
  by (simp add: cache_typed_def empty_cache_def named_map_def)

lemma converted_key: "convertCACertConfigMapToSecret cm = Some s \<Longrightarrow> csec_Namespace s = cm_Namespace cm \<and> csec_Name s = cm_Name cm"
  by (auto simp: convertCACertConfigMapToSecret_def split: option.splits if_splits)

lemma maybeInsert_typed:
  assumes "maybeInsert GetClass obj kc = Some (b, n, kc')" "cache_typed kc"
  shows "cache_typed kc'"
  using assms converted_key unfolding maybeInsert_def Let_def cache_typed_def
  by (cases obj) (auto simp: secret_key_def route_key_def intro!: named_map_put split: if_splits option.splits)

lemma cache_remove_typed:
  assumes "cache_remove obj kc = Some (b, n, kc')" "cache_typed kc"
  shows "cache_typed kc'"
  using assms unfolding cache_remove_def del_key_def Let_def cache_typed_def
  by (cases obj) (auto intro!: named_map_del split: if_splits option.splits)

lemma Insert_typed: "Insert GetClass obj kc = Some (b, kc') \<Longrightarrow> cache_typed kc \<Longrightarrow> cache_typed kc'"
  using maybeInsert_typed by (auto simp: Insert_def split: option.splits)

lemma cache_Remove_typed: "cache_Remove obj kc = Some (b, kc') \<Longrightarrow> cache_typed kc \<Longrightarrow> cache_typed kc'"
  using cache_Remove_cases cache_remove_typed by metis

lemma onUpdate_typed:
  assumes "onUpdate GetClass op kc = Some (b, kc')" "cache_typed kc"
  shows "cache_typed kc'"
  using assms Insert_typed cache_Remove_typed unfolding onUpdate_def
  by (auto split: handler_op.splits any_object.splits if_splits option.splits)

lemma handler_step_source:
  assumes "handler_step cfg now e e'"
  shows "eh_source e' = eh_source e \<or> (\<exists>GetClass op b. onUpdate GetClass op (eh_source e) = Some (b, eh_source e'))"
  using assms
proof (cases rule: handler_step.cases)
  case (receive op GetClass)
  from receive(2) show ?thesis by (cases rule: receive_update_cases) auto
qed (auto simp: pending_fired_def initial_poll_def EventHandler_OnAdd_def EventHandler_OnUpdate_def EventHandler_OnDelete_def OnElectedLeader_def Let_def)

lemma handler_run_typed: "handler_run cfg source now e \<Longrightarrow> cache_typed source \<Longrightarrow> cache_typed (eh_source e)"
proof (induction rule: handler_run.induct)
  case (start now)
  then show ?case by (simp add: NewEventHandler_def)
next
  case (step t e now e')
  then show ?case using handler_step_source [OF step.hyps(3)] onUpdate_typed by metis
qed



section \<open>Removing undoes inserting\<close>

text \<open>Whether the cache has an object of the kind and with the name of this one.  Two kinds are left out: caching a gateway also
  caches its class, and a tombstone is only ever removed.\<close>

fun holds :: "KubeObject \<Rightarrow> KubernetesCache \<Rightarrow> bool" where
  "holds (SecretObj o') kc = (lookup (kc_secrets kc) (NamespacedNameOf (csec_Namespace o') (csec_Name o')) \<noteq> None)"
| "holds (ConfigMapObj o') kc = (lookup (kc_configmapsecrets kc) (NamespacedNameOf (cm_Namespace o') (cm_Name o')) \<noteq> None)"
| "holds (ServiceObj o') kc = (lookup (kc_services kc) (NamespacedNameOf (csv_Namespace o') (csv_Name o')) \<noteq> None)"
| "holds (NamespaceObj o') kc = (lookup (kc_namespaces kc) (cns_Name o') \<noteq> None)"
| "holds (IngressObj o') kc = (lookup (kc_ingresses kc) (NamespacedNameOf (ing_Namespace o') (ing_Name o')) \<noteq> None)"
| "holds (HTTPProxyObj o') kc = (lookup (kc_httpproxies kc) (NamespacedNameOf (px_Namespace o') (px_Name o')) \<noteq> None)"
| "holds (TLSCertificateDelegationObj o') kc =
     (lookup (kc_tlscertificatedelegations kc) (NamespacedNameOf (tcd_Namespace o') (tcd_Name o')) \<noteq> None)"
| "holds (GatewayClassObj o') kc = (kc_gatewayclass kc \<noteq> None)"
| "holds (GatewayObj o') kc = True"
| "holds (HTTPRouteObj o') kc = (lookup (kc_httproutes kc) (NamespacedNameOf (gr_Namespace o') (gr_Name o')) \<noteq> None)"
| "holds (TLSRouteObj o') kc = (lookup (kc_tlsroutes kc) (NamespacedNameOf (gr_Namespace o') (gr_Name o')) \<noteq> None)"
| "holds (GRPCRouteObj o') kc = (lookup (kc_grpcroutes kc) (NamespacedNameOf (gr_Namespace o') (gr_Name o')) \<noteq> None)"
| "holds (TCPRouteObj o') kc = (lookup (kc_tcproutes kc) (NamespacedNameOf (gr_Namespace o') (gr_Name o')) \<noteq> None)"
| "holds (ReferenceGrantObj o') kc = (lookup (kc_referencegrants kc) (NamespacedNameOf (rg_Namespace o') (rg_Name o')) \<noteq> None)"
| "holds (BackendTLSPolicyObj o') kc = (lookup (kc_backendtlspolicies kc) (NamespacedNameOf (btp_Namespace o') (btp_Name o')) \<noteq> None)"
| "holds (ExtensionServiceObj o') kc = (lookup (kc_extensions kc) (NamespacedNameOf (ext_Namespace o') (ext_Name o')) \<noteq> None)"
| "holds (DeletedFinalStateUnknown o') kc = True"
| "holds UnknownObj kc = False"

lemma del_fresh: "lookup m k = None \<Longrightarrow> del k m = m"
  by (induction m) (auto split: if_splits)

lemma del_put_fresh: "lookup m k = None \<Longrightarrow> del k (put k v m) = m"
  by (induction m) (auto split: if_splits)

lemma serviceTriggersRebuild_services: "serviceTriggersRebuild (kc\<lparr>kc_services := m\<rparr>) s = serviceTriggersRebuild kc s"
  by (cases kc) (simp only: serviceTriggersRebuild_def KubernetesCache.select_convs KubernetesCache.update_convs)

lemma cache_remove_inserted:
  assumes "maybeInsert GetClass obj kc = Some (b, n, kc')" "\<not> holds obj kc"
  shows "\<exists>b n. cache_remove obj kc' = Some (b, n, kc)"
  using assms unfolding maybeInsert_def cache_remove_def del_key_def Let_def
  by (cases obj) (auto simp: del_put_fresh del_fresh serviceTriggersRebuild_services split: if_splits option.splits)



end
