(* ===== verification/Sorter.thy ===== *)
theory Sorter
  imports Go_Sort Conditions
begin

text \<open>
  \<open>internal/sorter/sorter.go\<close>: the comparators that fix the order of everything sent to Envoy, and
  \<open>sortRoutes\<close> of \<open>internal/xdscache/v3/route.go\<close>.  The comparators of named resources, of weighted clusters,
  of filter chains and of header and query conditions are key orders; the comparator of routes only
  refines the order of their paths.  The Envoy messages are records of the fields the comparators read.
\<close>

section \<open>Named resources\<close>

record NamedResource = nr_Name :: string

text \<open>\<open>Less\<close> of \<open>secretSorter\<close>, \<open>routeConfigurationSorter\<close>, \<open>virtualHostSorter\<close>, \<open>clusterSorter\<close>,
  \<open>clusterLoadAssignmentSorter\<close> and \<open>listenerSorter\<close>.\<close>

definition name_Less :: "NamedResource \<Rightarrow> NamedResource \<Rightarrow> bool" where
  "name_Less a b = (nr_Name a < nr_Name b)"

record ClusterWeight =
  cw_Name :: string
  cw_Weight :: uint32

definition weightedCluster_Less :: "ClusterWeight \<Rightarrow> ClusterWeight \<Rightarrow> bool" where
  "weightedCluster_Less a b =
     (if cw_Name a = cw_Name b then cw_Weight a < cw_Weight b else cw_Name a < cw_Name b)"

record FilterChain = fc_ServerNames :: "string list"

definition filterChain_Less :: "FilterChain \<Rightarrow> FilterChain \<Rightarrow> bool" where
  "filterChain_Less a b =
     (if length (fc_ServerNames a) = 0 then False
      else if length (fc_ServerNames b) = 0 then True
      else fc_ServerNames a ! 0 < fc_ServerNames b ! 0)"

interpretation by_name: key_order name_Less nr_Name UNIV
  by unfold_locales (simp add: name_Less_def)

interpretation by_weight: key_order weightedCluster_Less "\<lambda>c. (cw_Name c, cw_Weight c)" UNIV
  by unfold_locales (auto simp: weightedCluster_Less_def)

text \<open>Filter chains without a server name come last.\<close>

interpretation by_server: key_order filterChain_Less
  "\<lambda>f. (fc_ServerNames f = [], if fc_ServerNames f = [] then '''' else fc_ServerNames f ! 0)" UNIV
  by unfold_locales (auto simp: filterChain_Less_def)

section \<open>Header and query parameter conditions\<close>

definition header_compareValue :: "HeaderMatchCondition \<Rightarrow> HeaderMatchCondition \<Rightarrow> bool" where
  "header_compareValue a b =
     (let c = strings_Compare (hc_Value a) (hc_Value b) in
      if c = -1 then True else if c = 1 then False
      else if hc_Invert a \<noteq> hc_Invert b then \<not> hc_Invert a else False)"

definition header_Less :: "HeaderMatchCondition \<Rightarrow> HeaderMatchCondition \<Rightarrow> bool" where
  "header_Less a b =
     (let val = strings_Compare (hc_Name a) (hc_Name b); ta = hc_MatchType a; tb = hc_MatchType b in
      if val = -1 then True else if val = 1 then False
      else if ta = HeaderMatchTypeExact then
        (if tb = HeaderMatchTypeExact then header_compareValue a b
         else tb = HeaderMatchTypeRegex \<or> tb = HeaderMatchTypeContains \<or> tb = HeaderMatchTypePresent)
      else if ta = HeaderMatchTypeRegex then
        (if tb = HeaderMatchTypeRegex then header_compareValue a b
         else tb = HeaderMatchTypeContains \<or> tb = HeaderMatchTypePresent)
      else if ta = HeaderMatchTypeContains then
        (if tb = HeaderMatchTypeContains then header_compareValue a b
         else tb = HeaderMatchTypePresent)
      else if ta = HeaderMatchTypePresent then
        (if tb = HeaderMatchTypePresent \<and> hc_Invert a \<noteq> hc_Invert b then \<not> hc_Invert a else False)
      else False)"

definition query_compareValue :: "QueryParamMatchCondition \<Rightarrow> QueryParamMatchCondition \<Rightarrow> bool" where
  "query_compareValue a b =
     (let c = strings_Compare (qc_Value a) (qc_Value b) in
      if c = -1 then True else if c = 1 then False
      else if qc_IgnoreCase a \<noteq> qc_IgnoreCase b then \<not> qc_IgnoreCase a else False)"

definition query_Less :: "QueryParamMatchCondition \<Rightarrow> QueryParamMatchCondition \<Rightarrow> bool" where
  "query_Less a b =
     (let val = strings_Compare (qc_Name a) (qc_Name b); ta = qc_MatchType a; tb = qc_MatchType b in
      if val = -1 then True else if val = 1 then False
      else if ta = QueryParamMatchTypeExact then
        (if tb = QueryParamMatchTypeExact then query_compareValue a b
         else tb = QueryParamMatchTypeRegex \<or> tb = QueryParamMatchTypePrefix \<or> tb = QueryParamMatchTypeSuffix
           \<or> tb = QueryParamMatchTypeContains \<or> tb = QueryParamMatchTypePresent)
      else if ta = QueryParamMatchTypeRegex then
        (if tb = QueryParamMatchTypeRegex then query_compareValue a b
         else tb = QueryParamMatchTypePrefix \<or> tb = QueryParamMatchTypeSuffix
           \<or> tb = QueryParamMatchTypeContains \<or> tb = QueryParamMatchTypePresent)
      else if ta = QueryParamMatchTypePrefix then
        (if tb = QueryParamMatchTypePrefix then query_compareValue a b
         else tb = QueryParamMatchTypeSuffix \<or> tb = QueryParamMatchTypeContains \<or> tb = QueryParamMatchTypePresent)
      else if ta = QueryParamMatchTypeSuffix then
        (if tb = QueryParamMatchTypeSuffix then query_compareValue a b
         else tb = QueryParamMatchTypeContains \<or> tb = QueryParamMatchTypePresent)
      else if ta = QueryParamMatchTypeContains then
        (if tb = QueryParamMatchTypeContains then query_compareValue a b
         else tb = QueryParamMatchTypePresent)
      else False)"

text \<open>The match types in the order of the comparators, most specific first.\<close>

definition header_types :: "string list" where
  "header_types = [HeaderMatchTypeExact, HeaderMatchTypeRegex, HeaderMatchTypeContains, HeaderMatchTypePresent]"

definition query_types :: "string list" where
  "query_types = [QueryParamMatchTypeExact, QueryParamMatchTypeRegex, QueryParamMatchTypePrefix,
     QueryParamMatchTypeSuffix, QueryParamMatchTypeContains, QueryParamMatchTypePresent]"

fun index_of :: "'a list \<Rightarrow> 'a \<Rightarrow> nat" where
  "index_of [] x = 0"
| "index_of (y # ys) x = (if x = y then 0 else Suc (index_of ys x))"

definition header_key :: "HeaderMatchCondition \<Rightarrow> string \<times> nat \<times> string \<times> bool" where
  "header_key h = (hc_Name h, index_of header_types (hc_MatchType h),
     if hc_MatchType h = HeaderMatchTypePresent then '''' else hc_Value h, hc_Invert h)"

definition query_key :: "QueryParamMatchCondition \<Rightarrow> string \<times> nat \<times> string \<times> bool" where
  "query_key q = (qc_Name q, index_of query_types (qc_MatchType q),
     if qc_MatchType q = QueryParamMatchTypePresent then '''' else qc_Value q,
     if qc_MatchType q = QueryParamMatchTypePresent then False else qc_IgnoreCase q)"

abbreviation typed_headers :: "HeaderMatchCondition set" where
  "typed_headers \<equiv> {h. hc_MatchType h \<in> set header_types}"

abbreviation typed_queries :: "QueryParamMatchCondition set" where
  "typed_queries \<equiv> {q. qc_MatchType q \<in> set query_types}"

lemma strings_Compare_iff [simp]:
  "strings_Compare s t = -1 \<longleftrightarrow> s < t" "strings_Compare s t = 1 \<longleftrightarrow> t < s"
  by (auto simp: strings_Compare_def)

lemma header_compareValue_iff:
  "header_compareValue a b \<longleftrightarrow> (hc_Value a, hc_Invert a) < (hc_Value b, hc_Invert b)"
  by (auto simp: header_compareValue_def Let_def)

lemma query_compareValue_iff:
  "query_compareValue a b \<longleftrightarrow> (qc_Value a, qc_IgnoreCase a) < (qc_Value b, qc_IgnoreCase b)"
  by (auto simp: query_compareValue_def Let_def)

lemma header_Less_same_name:
  assumes "a \<in> typed_headers" "b \<in> typed_headers" "hc_Name a = hc_Name b"
  shows "header_Less a b \<longleftrightarrow> snd (header_key a) < snd (header_key b)"
  using assms unfolding header_types_def header_Less_def header_key_def Let_def header_compareValue_iff
  by (simp, elim disjE; simp)

lemma query_Less_same_name:
  assumes "a \<in> typed_queries" "b \<in> typed_queries" "qc_Name a = qc_Name b"
  shows "query_Less a b \<longleftrightarrow> snd (query_key a) < snd (query_key b)"
  using assms unfolding query_types_def query_Less_def query_key_def Let_def query_compareValue_iff
  by (simp, elim disjE; simp)

lemma header_Less_other_name: "hc_Name a \<noteq> hc_Name b \<Longrightarrow> header_Less a b \<longleftrightarrow> hc_Name a < hc_Name b"
  by (simp add: header_Less_def Let_def)

lemma query_Less_other_name: "qc_Name a \<noteq> qc_Name b \<Longrightarrow> query_Less a b \<longleftrightarrow> qc_Name a < qc_Name b"
  by (simp add: query_Less_def Let_def)

lemma less_prod_fst: "x < y \<longleftrightarrow> fst x < fst y \<or> fst x = fst y \<and> snd x < snd y" for x y :: "'a::linorder \<times> 'b::linorder"
  by (cases x; cases y) auto

lemma fst_keys [simp]: "fst (header_key h) = hc_Name h" "fst (query_key q) = qc_Name q"
  by (simp_all add: header_key_def query_key_def)

lemma header_Less_key:
  "a \<in> typed_headers \<Longrightarrow> b \<in> typed_headers \<Longrightarrow> header_Less a b \<longleftrightarrow> header_key a < header_key b"
  by (cases "hc_Name a = hc_Name b") (simp_all add: less_prod_fst [of "header_key a"] header_Less_same_name header_Less_other_name)

lemma query_Less_key:
  "a \<in> typed_queries \<Longrightarrow> b \<in> typed_queries \<Longrightarrow> query_Less a b \<longleftrightarrow> query_key a < query_key b"
  by (cases "qc_Name a = qc_Name b") (simp_all add: less_prod_fst [of "query_key a"] query_Less_same_name query_Less_other_name)

interpretation by_header: key_order header_Less header_key typed_headers
  by unfold_locales (rule header_Less_key)

interpretation by_query: key_order query_Less query_key typed_queries
  by unfold_locales (rule query_Less_key)

section \<open>Routes\<close>

definition method_found :: "Route \<Rightarrow> bool" where
  "method_found r = (\<exists>h\<in>set (rt_HeaderMatchConditions r). hc_Name h = '':method'')"

definition other_headers :: "Route \<Rightarrow> HeaderMatchCondition list" where
  "other_headers r = filter (\<lambda>h. hc_Name h \<noteq> '':method'') (rt_HeaderMatchConditions r)"

definition compareRoutesByMethodHeaderQueryParams :: "Route \<Rightarrow> Route \<Rightarrow> bool" where
  "compareRoutesByMethodHeaderQueryParams lhs rhs =
     (let lhsHeaderMatchConditions = other_headers lhs; rhsHeaderMatchConditions = other_headers rhs in
      if method_found lhs \<noteq> method_found rhs then method_found lhs
      else if length lhsHeaderMatchConditions \<noteq> length rhsHeaderMatchConditions
      then length lhsHeaderMatchConditions > length rhsHeaderMatchConditions
      else if length (rt_QueryParamMatchConditions lhs) \<noteq> length (rt_QueryParamMatchConditions rhs)
      then length (rt_QueryParamMatchConditions lhs) > length (rt_QueryParamMatchConditions rhs)
      else if rt_Priority lhs \<noteq> rt_Priority rhs then rt_Priority lhs < rt_Priority rhs
      else (\<exists>(a, b)\<in>set (zip lhsHeaderMatchConditions rhsHeaderMatchConditions). header_Less a b) \<or>
           (\<exists>(a, b)\<in>set (zip (rt_QueryParamMatchConditions lhs) (rt_QueryParamMatchConditions rhs)). query_Less a b))"

definition route_Less :: "Route \<Rightarrow> Route \<Rightarrow> bool" where
  "route_Less ri rj =
     (case rt_PathMatchCondition ri of
        PrefixMatchCondition a ta \<Rightarrow>
          (case rt_PathMatchCondition rj of
             PrefixMatchCondition b tb \<Rightarrow>
               if length a > length b then True
               else if length a < length b then False
               else (let cmp = strings_Compare a b in
                 if cmp = 1 then True else if cmp = -1 then False
                 else if ta = tb then compareRoutesByMethodHeaderQueryParams ri rj
                 else ta = PrefixMatchSegment)
           | _ \<Rightarrow> False)
      | RegexMatchCondition a \<Rightarrow>
          (case rt_PathMatchCondition rj of
             RegexMatchCondition b \<Rightarrow>
               if length a > length b then True
               else if length a < length b then False
               else (let cmp = strings_Compare a b in
                 if cmp = 1 then True else if cmp = -1 then False
                 else compareRoutesByMethodHeaderQueryParams ri rj)
           | PrefixMatchCondition _ _ \<Rightarrow> True
           | _ \<Rightarrow> False)
      | ExactMatchCondition a \<Rightarrow>
          (case rt_PathMatchCondition rj of
             ExactMatchCondition b \<Rightarrow>
               (let cmp = strings_Compare a b in
                 if cmp = 1 then True else if cmp = -1 then False
                 else compareRoutesByMethodHeaderQueryParams ri rj)
           | PrefixMatchCondition _ _ \<Rightarrow> True
           | RegexMatchCondition _ \<Rightarrow> True))"

definition sortRoutes :: "Route list \<Rightarrow> Route list" where
  "sortRoutes routes =
     sort_Stable route_Less
       (map (\<lambda>r. r\<lparr>rt_HeaderMatchConditions := sort_Stable header_Less (rt_HeaderMatchConditions r),
                   rt_QueryParamMatchConditions := sort_Stable query_Less (rt_QueryParamMatchConditions r)\<rparr>) routes)"

text \<open>The order of the paths alone: exact, then regex, then prefix; longer patterns first (not for exact
  paths, where it does not matter), then the greater string, then segment prefixes before string
  prefixes.\<close>

definition path_kind :: "MatchCondition \<Rightarrow> nat" where
  "path_kind m = (case m of ExactMatchCondition _ \<Rightarrow> 0 | RegexMatchCondition _ \<Rightarrow> 1 | PrefixMatchCondition _ _ \<Rightarrow> 2)"

definition pattern_length :: "MatchCondition \<Rightarrow> nat" where
  "pattern_length m = (if path_kind m = 0 then 0 else length (path_of m))"

definition is_segment :: "MatchCondition \<Rightarrow> bool" where
  "is_segment m = (case m of PrefixMatchCondition _ t \<Rightarrow> t = PrefixMatchSegment | _ \<Rightarrow> False)"

definition path_before :: "MatchCondition \<Rightarrow> MatchCondition \<Rightarrow> bool" where
  "path_before m n \<longleftrightarrow>
     path_kind m < path_kind n \<or> path_kind m = path_kind n \<and>
       (pattern_length m > pattern_length n \<or> pattern_length m = pattern_length n \<and>
          (path_of m > path_of n \<or> path_of m = path_of n \<and> is_segment m \<and> \<not> is_segment n))"

abbreviation route_before :: "Route \<Rightarrow> Route \<Rightarrow> bool" where
  "route_before r s \<equiv> path_before (rt_PathMatchCondition r) (rt_PathMatchCondition s)"

lemma route_Less_iff:
  "route_Less r s \<longleftrightarrow> route_before r s \<or>
     rt_PathMatchCondition r = rt_PathMatchCondition s \<and> compareRoutesByMethodHeaderQueryParams r s"
  by (cases "rt_PathMatchCondition r"; cases "rt_PathMatchCondition s")
     (auto simp: route_Less_def path_before_def path_kind_def pattern_length_def path_of_def is_segment_def Let_def
        split: PrefixMatchType.splits intro: PrefixMatchType.exhaust)

lemma path_before_asym: "path_before m n \<Longrightarrow> \<not> path_before n m"
  by (auto simp: path_before_def)

lemma path_before_neg_trans: "\<not> path_before l m \<Longrightarrow> \<not> path_before m n \<Longrightarrow> \<not> path_before l n"
  unfolding path_before_def by (metis less_linear order.strict_trans)

lemma path_before_irrefl [simp]: "\<not> path_before m m"
  by (simp add: path_before_def)

lemma PrefixMatchType_neq: "x \<noteq> y \<Longrightarrow> x = PrefixMatchSegment \<or> y = PrefixMatchSegment"
  by (cases x; cases y) auto

lemma path_before_total: "m \<noteq> n \<Longrightarrow> path_before m n \<or> path_before n m"
  by (cases m; cases n)
     (auto simp: path_before_def path_kind_def pattern_length_def path_of_def is_segment_def dest: PrefixMatchType_neq)

interpretation by_path: refines_order route_before route_Less UNIV
  by unfold_locales
     (auto simp: route_Less_iff dest: path_before_asym path_before_neg_trans)

definition sort_conditions :: "Route \<Rightarrow> Route" where
  "sort_conditions r = r\<lparr>rt_HeaderMatchConditions := sort_Stable header_Less (rt_HeaderMatchConditions r),
     rt_QueryParamMatchConditions := sort_Stable query_Less (rt_QueryParamMatchConditions r)\<rparr>"

lemma sortRoutes_eq: "sortRoutes routes = sort_Stable route_Less (map sort_conditions routes)"
  by (simp add: sortRoutes_def sort_conditions_def [abs_def])

lemma sort_conditions_path [simp]: "rt_PathMatchCondition (sort_conditions r) = rt_PathMatchCondition r"
  by (simp add: sort_conditions_def)

lemma sortRoutes_path_order: "sorted_wrt (\<lambda>r s. \<not> route_before s r) (sortRoutes routes)"
  unfolding sortRoutes_eq by (rule by_path.sort_Stable_respects) simp

lemma longer_prefix_before:
  "x \<noteq> '''' \<Longrightarrow> path_before (PrefixMatchCondition (p @ x) t) (PrefixMatchCondition p u)"
  by (simp add: path_before_def path_kind_def pattern_length_def path_of_def)

text \<open>
  C29. \<open>sortRoutes\<close> hands Envoy, which takes the first route that matches, the routes of a virtual host from the
  most to the least specific path: it keeps all of them, puts exact paths before regexes and regexes before
  prefixes, and a prefix route always comes before every route whose prefix it extends.
\<close>

theorem sortRoutes_specific_first:
  assumes "i < length routes" "j < length routes" "rs = sortRoutes routes"
  shows "mset (map rt_PathMatchCondition rs) = mset (map rt_PathMatchCondition routes) \<and>
         (path_kind (rt_PathMatchCondition (rs ! i)) < path_kind (rt_PathMatchCondition (rs ! j)) \<longrightarrow> i < j) \<and>
         (rt_PathMatchCondition (rs ! i) = PrefixMatchCondition (p @ x) t \<and> x \<noteq> '''' \<and>
          rt_PathMatchCondition (rs ! j) = PrefixMatchCondition p u \<longrightarrow> i < j)"
proof -
  have len: "length rs = length routes" using assms(3) by (simp add: sortRoutes_eq)
  have "mset rs = mset (map sort_conditions routes)" using assms(3) by (simp add: sortRoutes_eq)
  then have "mset (map rt_PathMatchCondition rs) = mset (map rt_PathMatchCondition routes)"
    by (simp add: multiset.map_comp comp_def)
  moreover have "i < j" if "route_before (rs ! i) (rs ! j)"
  proof (rule ccontr)
    assume "\<not> i < j"
    then have "j < i \<or> i = j" by auto
    then show False
      using sorted_wrt_nth_less [OF sortRoutes_path_order [of routes], of j i] that assms len by auto
  qed
  moreover have "path_kind m < path_kind n \<Longrightarrow> path_before m n" for m n by (simp add: path_before_def)
  ultimately show ?thesis by (auto simp: longer_prefix_before)
qed

theorem sortRoutes_specific_first_witness:
  "let a = zero_Route\<lparr>rt_PathMatchCondition := PrefixMatchCondition ''/'' PrefixMatchString\<rparr>;
       b = zero_Route\<lparr>rt_PathMatchCondition := PrefixMatchCondition ''/api'' PrefixMatchString\<rparr>;
       rs = sortRoutes [a, b]
   in map rt_PathMatchCondition rs = [PrefixMatchCondition ''/api'' PrefixMatchString, PrefixMatchCondition ''/'' PrefixMatchString]
      \<and> mset (map rt_PathMatchCondition rs) = mset (map rt_PathMatchCondition [a, b])"
proof -
  let ?rs = "[zero_Route\<lparr>rt_PathMatchCondition := PrefixMatchCondition ''/'' PrefixMatchString\<rparr>,
              zero_Route\<lparr>rt_PathMatchCondition := PrefixMatchCondition ''/api'' PrefixMatchString\<rparr>]"
  have "map rt_PathMatchCondition (sortRoutes ?rs) =
        [PrefixMatchCondition ''/api'' PrefixMatchString, PrefixMatchCondition ''/'' PrefixMatchString]"
    by (simp add: sortRoutes_eq sort_Stable_simps route_Less_iff path_before_def path_kind_def pattern_length_def path_of_def)
  moreover have "mset (map rt_PathMatchCondition (sortRoutes ?rs)) = mset (map rt_PathMatchCondition ?rs)"
    using sortRoutes_specific_first [of 0 ?rs 1 "sortRoutes ?rs"] by simp
  ultimately show ?thesis unfolding Let_def by blast
qed

text \<open>
  When no two routes of a virtual host have the same path the result of \<open>sortRoutes\<close> does not depend on the
  order in which the map of routes is iterated.
\<close>

theorem sortRoutes_deterministic:
  assumes "mset routes = mset routes'" and "inj_on rt_PathMatchCondition (set routes)"
  shows "sortRoutes routes = sortRoutes routes'"
  unfolding sortRoutes_eq
proof (rule by_path.sort_Stable_determined)
  show "mset (map sort_conditions routes) = mset (map sort_conditions routes')" using assms(1) by simp
  show "\<forall>a\<in>set (map sort_conditions routes). \<forall>b\<in>set (map sort_conditions routes).
          a \<noteq> b \<longrightarrow> route_before a b \<or> route_before b a"
    using assms(2) by (auto dest!: inj_onD intro!: path_before_total)
qed simp

theorem sortRoutes_deterministic_witness:
  "let a = zero_Route\<lparr>rt_PathMatchCondition := ExactMatchCondition ''/a''\<rparr>; b = zero_Route in
   sortRoutes [a, b] = sortRoutes [b, a]"
  unfolding Let_def by (rule sortRoutes_deterministic) (simp_all add: zero_Route_def)

definition crossed :: "string \<Rightarrow> string \<Rightarrow> Route" where
  "crossed v w = zero_Route\<lparr>rt_HeaderMatchConditions := [
     zero_HeaderMatchCondition\<lparr>hc_Name := ''a'', hc_Value := v, hc_MatchType := HeaderMatchTypeExact\<rparr>,
     zero_HeaderMatchCondition\<lparr>hc_Name := ''b'', hc_Value := w, hc_MatchType := HeaderMatchTypeExact\<rparr>]\<rparr>"

lemma crossed_less: "header_Less
     (zero_HeaderMatchCondition\<lparr>hc_Name := n, hc_Value := v, hc_MatchType := HeaderMatchTypeExact\<rparr>)
     (zero_HeaderMatchCondition\<lparr>hc_Name := m, hc_Value := w, hc_MatchType := HeaderMatchTypeExact\<rparr>)
   \<longleftrightarrow> n < m \<or> n = m \<and> v < w"
  by (auto simp: header_Less_def header_compareValue_iff zero_HeaderMatchCondition_def Let_def)


text \<open>
  Header and query parameter conditions made from the API are sorted by name, then by match type from
  the most specific (exact) to the least (present), then by value; secrets, clusters, listeners and the
  other named resources come out in the order of their names whatever order the maps they come from are
  iterated in.
\<close>

theorem sorters_ordered:
  "sorted (map header_key (sort_Stable header_Less (headerMatchConditions hs))) \<and>
   sorted (map query_key (sort_Stable query_Less (queryParameterMatchConditions qs))) \<and>
   sorted (map nr_Name (sort_Stable name_Less ns)) \<and>
   (distinct (map nr_Name ns) \<and> mset ns = mset ms \<longrightarrow> sort_Stable name_Less ns = sort_Stable name_Less ms)"
proof (intro conjI impI)
  have "set (headerMatchConditions hs) \<subseteq> typed_headers"
    by (auto simp: headerMatchConditions_def headerMatchCondition_def header_types_def split: if_splits)
  then show "sorted (map header_key (sort_Stable header_Less (headerMatchConditions hs)))"
    by (rule by_header.sort_Stable_sorted)
  have "set (queryParameterMatchConditions qs) \<subseteq> typed_queries"
    by (auto simp: queryParameterMatchConditions_def queryParameterMatchCondition_def query_types_def split: if_splits)
  then show "sorted (map query_key (sort_Stable query_Less (queryParameterMatchConditions qs)))"
    by (rule by_query.sort_Stable_sorted)
  show "sorted (map nr_Name (sort_Stable name_Less ns))" by (rule by_name.sort_Stable_sorted) simp
  assume "distinct (map nr_Name ns) \<and> mset ns = mset ms"
  then show "sort_Stable name_Less ns = sort_Stable name_Less ms"
    by (intro by_name.sort_Stable_deterministic) (auto simp: distinct_map)
qed

theorem sorters_ordered_witness:
  "sort_Stable name_Less [\<lparr>nr_Name = ''b''\<rparr>, \<lparr>nr_Name = ''a''\<rparr>] = sort_Stable name_Less [\<lparr>nr_Name = ''a''\<rparr>, \<lparr>nr_Name = ''b''\<rparr>]"
  using sorters_ordered [where hs = "[]" and qs = "[]" and ns = "[\<lparr>nr_Name = ''b''\<rparr>, \<lparr>nr_Name = ''a''\<rparr>]"
      and ms = "[\<lparr>nr_Name = ''a''\<rparr>, \<lparr>nr_Name = ''b''\<rparr>]"]
  by simp

end
