(* ===== verification/Endpoints.thy ===== *)
theory Endpoints
  imports Dag_Build Sorter
begin

text \<open>
  Endpoint discovery: \<open>internal/xdscache/v3/endpointslicetranslator.go\<close> and \<open>endpointstranslator.go\<close>.  The two translators keep
  the same state (clusters to recalculate, an index of clusters by service, the cached objects, the load assignments served
  to Envoy) and differ in the objects they cache and in how endpoints are read from them; what they share is defined once,
  with the cached objects as a type parameter and the endpoints of a service as an argument.

  Events change this state one at a time under the translators' locks.  An index out of range in the code is the value
  \<open>None\<close>.  The iteration over the slices of a service is an argument, one for each event.
\<close>

section \<open>Load assignments\<close>

record SocketAddress =
  sa_Address :: string
  sa_Ipv4Compat :: bool
  sa_PortValue :: uint32

record LoadBalancingEndpoint =
  lbe_Address :: SocketAddress
  lbe_HealthCheckConfig :: "uint32 option"

record LocalityEndpoints =
  le_LbEndpoints :: "LoadBalancingEndpoint list"
  le_LoadBalancingWeight :: "uint32 option"

record ClusterLoadAssignment =
  cla_ClusterName :: string
  cla_Endpoints :: "LocalityEndpoints list"

definition envoy_SocketAddress :: "string \<Rightarrow> int \<Rightarrow> SocketAddress" where
  "envoy_SocketAddress address port =
     (let portValue = to_uint32 port in
      if address = ''::'' then \<lparr>sa_Address = address, sa_Ipv4Compat = True, sa_PortValue = portValue\<rparr>
      else \<lparr>sa_Address = address, sa_Ipv4Compat = False, sa_PortValue = portValue\<rparr>)"

definition LBEndpoint :: "SocketAddress \<Rightarrow> LoadBalancingEndpoint" where
  "LBEndpoint addr = \<lparr>lbe_Address = addr, lbe_HealthCheckConfig = None\<rparr>"

definition HealthCheckConfig :: "int \<Rightarrow> uint32 option" where
  "HealthCheckConfig healthCheckPort = (if healthCheckPort = 0 then None else Some (to_uint32 healthCheckPort))"

definition UInt32OrNil :: "uint32 \<Rightarrow> uint32 option" where
  "UInt32OrNil v = (if v = 0 then None else Some v)"

definition set_health_check :: "int \<Rightarrow> LoadBalancingEndpoint list \<Rightarrow> LoadBalancingEndpoint list" where
  "set_health_check healthCheckPort lb =
     (if healthCheckPort > 0
      then map (\<lambda>lbEndpoint. lbEndpoint\<lparr>lbe_HealthCheckConfig := HealthCheckConfig healthCheckPort\<rparr>) lb
      else lb)"

section \<open>Endpoints of a service\<close>

text \<open>Of the objects of \<open>k8s.io/api/discovery/v1\<close> and \<open>k8s.io/api/core/v1\<close>, the fields the code reads.\<close>

record EndpointPort =
  epp_Name :: "string option"
  epp_Port :: "int option"
  epp_Protocol :: "string option"

record SliceEndpoint =
  sep_Addresses :: "string list"
  sep_Ready :: "bool option"

record EndpointSlice =
  es_Namespace :: string
  es_Name :: string
  es_Labels :: "(string, string) gomap"
  es_Endpoints :: "SliceEndpoint list"
  es_Ports :: "EndpointPort list"

type_synonym slice_map = "(string, EndpointSlice) gomap"

text \<open>The state of the loop: the endpoints, the keys seen, the health check port.\<close>

type_synonym lb_state = "LoadBalancingEndpoint list \<times> string list \<times> int"

definition endpointKey :: "string \<Rightarrow> int \<Rightarrow> string" where
  "endpointKey address port = address @ '':'' @ strconv_Itoa port"

definition slice_port :: "ServicePort \<Rightarrow> ServicePort \<Rightarrow> SliceEndpoint \<Rightarrow> EndpointPort \<Rightarrow> lb_state \<Rightarrow> lb_state option" where
  "slice_port port healthPort endpoint endpointPort s =
     (case s of (lb, uniqueEndpoints, healthCheckPort) \<Rightarrow>
       (case epp_Port endpointPort of
          None \<Rightarrow> Some s
        | Some p \<Rightarrow>
            if epp_Protocol endpointPort \<noteq> Some ''TCP'' then Some s
            else
              let healthCheckPort =
                    (case epp_Name endpointPort of
                       None \<Rightarrow> healthCheckPort
                     | Some n \<Rightarrow> if port_Name healthPort \<noteq> '''' \<and> port_Name healthPort = n \<and> port_Name port \<noteq> port_Name healthPort
                                then p else healthCheckPort)
              in if (case epp_Name endpointPort of None \<Rightarrow> False | Some n \<Rightarrow> port_Name port \<noteq> '''' \<and> port_Name port \<noteq> n)
                 then Some (lb, uniqueEndpoints, healthCheckPort)
                 else (case sep_Addresses endpoint of
                         [] \<Rightarrow> None
                       | a # _ \<Rightarrow>
                           if endpointKey a p \<in> set uniqueEndpoints then Some (lb, uniqueEndpoints, healthCheckPort)
                           else Some (lb @ [LBEndpoint (envoy_SocketAddress a p)], endpointKey a p # uniqueEndpoints, healthCheckPort))))"

fun slice_ports :: "ServicePort \<Rightarrow> ServicePort \<Rightarrow> SliceEndpoint \<Rightarrow> EndpointPort list \<Rightarrow> lb_state \<Rightarrow> lb_state option" where
  "slice_ports port healthPort endpoint [] s = Some s"
| "slice_ports port healthPort endpoint (p # ps) s =
     (case slice_port port healthPort endpoint p s of
        None \<Rightarrow> None
      | Some s \<Rightarrow> slice_ports port healthPort endpoint ps s)"

fun slice_endpoints :: "ServicePort \<Rightarrow> ServicePort \<Rightarrow> EndpointPort list \<Rightarrow> SliceEndpoint list \<Rightarrow> lb_state \<Rightarrow> lb_state option" where
  "slice_endpoints port healthPort ports [] s = Some s"
| "slice_endpoints port healthPort ports (endpoint # endpoints) s =
     (if sep_Ready endpoint = Some False then slice_endpoints port healthPort ports endpoints s
      else case slice_ports port healthPort endpoint ports s of
             None \<Rightarrow> None
           | Some s \<Rightarrow> slice_endpoints port healthPort ports endpoints s)"

text \<open>
  The comparison of two endpoints reads their first addresses, so sorting fails when there is more than one endpoint and
  one of them has no address.  \<open>sort.Slice\<close> may reorder endpoints with the same first address; they are interchangeable
  here, since the keys they contribute are the same.  The code sorts the cached slice in place, which makes no difference to the
  next calculation because it sorts again.
\<close>

definition sort_endpoints :: "SliceEndpoint list \<Rightarrow> SliceEndpoint list option" where
  "sort_endpoints endpoints =
     (if length endpoints > 1 \<and> (\<exists>e\<in>set endpoints. sep_Addresses e = []) then None
      else Some (sort_Stable (\<lambda>a b. hd (sep_Addresses a) < hd (sep_Addresses b)) endpoints))"

fun slice_loop :: "ServicePort \<Rightarrow> ServicePort \<Rightarrow> slice_map \<Rightarrow> lb_state \<Rightarrow> lb_state option" where
  "slice_loop port healthPort [] s = Some s"
| "slice_loop port healthPort ((_, endpointSlice) # rest) s =
     (case sort_endpoints (es_Endpoints endpointSlice) of
        None \<Rightarrow> None
      | Some endpoints \<Rightarrow>
          (case slice_endpoints port healthPort (es_Ports endpointSlice) endpoints s of
             None \<Rightarrow> None
           | Some s \<Rightarrow> slice_loop port healthPort rest s))"

definition EndpointSliceCache_RecalculateEndpoints ::
  "(slice_map \<Rightarrow> slice_map) \<Rightarrow> ServicePort \<Rightarrow> ServicePort \<Rightarrow> slice_map \<Rightarrow> LoadBalancingEndpoint list option" where
  "EndpointSliceCache_RecalculateEndpoints ord port healthPort endpointSliceMap =
     (case slice_loop port healthPort (ord endpointSliceMap) ([], [], 0) of
        None \<Rightarrow> None
      | Some (lb, _, healthCheckPort) \<Rightarrow> Some (set_health_check healthCheckPort lb))"

record CoreEndpointPort =
  cep_Name :: string
  cep_Port :: int
  cep_Protocol :: string

record EndpointSubset =
  sub_Addresses :: "string list"
  sub_Ports :: "CoreEndpointPort list"

record CoreEndpoints =
  eps_Namespace :: string
  eps_Name :: string
  eps_Subsets :: "EndpointSubset list"

definition subset_port ::
  "ServicePort \<Rightarrow> ServicePort \<Rightarrow> string list \<Rightarrow> CoreEndpointPort \<Rightarrow> LoadBalancingEndpoint list \<times> int \<Rightarrow> LoadBalancingEndpoint list \<times> int" where
  "subset_port port healthPort addresses endpointPort s =
     (case s of (lb, healthCheckPort) \<Rightarrow>
        if cep_Protocol endpointPort \<noteq> ''TCP'' then (lb, healthCheckPort)
        else
          let healthCheckPort =
                (if port_Name healthPort \<noteq> '''' \<and> port_Name healthPort = cep_Name endpointPort \<and> port_Name port \<noteq> port_Name healthPort
                 then cep_Port endpointPort else healthCheckPort)
          in if port_Name port \<noteq> '''' \<and> port_Name port \<noteq> cep_Name endpointPort then (lb, healthCheckPort)
             else (lb @ map (\<lambda>a. LBEndpoint (envoy_SocketAddress a (cep_Port endpointPort))) (sort_Stable (<) addresses), healthCheckPort))"

definition RecalculateEndpoints :: "ServicePort \<Rightarrow> ServicePort \<Rightarrow> CoreEndpoints option \<Rightarrow> LoadBalancingEndpoint list" where
  "RecalculateEndpoints port healthPort eps =
     (case eps of
        None \<Rightarrow> []
      | Some eps \<Rightarrow>
          (case fold (\<lambda>s acc. if length (sub_Addresses s) < 1 then acc
                             else fold (subset_port port healthPort (sub_Addresses s)) (sub_Ports s) acc)
                 (eps_Subsets eps) ([], 0) of
             (lb, healthCheckPort) \<Rightarrow> set_health_check healthCheckPort lb))"

section \<open>The cache\<close>

record 's endpoint_cache =
  ec_stale :: "ServiceCluster list"
  ec_services :: "(NamespacedName, ServiceCluster list) gomap"
  ec_objects :: 's

text \<open>The endpoints of a service, as a function of the cached objects: \<open>None\<close> when the code panics.\<close>

type_synonym 's endpoints_of = "'s \<Rightarrow> ServicePort \<Rightarrow> ServicePort \<Rightarrow> NamespacedName \<Rightarrow> LoadBalancingEndpoint list option"

definition service_name :: "WeightedService \<Rightarrow> NamespacedName" where
  "service_name w = \<lparr>nn_Namespace = ws_ServiceNamespace w, nn_Name = ws_ServiceName w\<rparr>"

definition locality :: "WeightedService \<Rightarrow> LoadBalancingEndpoint list \<Rightarrow> LocalityEndpoints list" where
  "locality w lb = (if lb = [] then [] else [\<lparr>le_LbEndpoints = lb, le_LoadBalancingWeight = UInt32OrNil (ws_Weight w)\<rparr>])"

fun localities :: "'s endpoints_of \<Rightarrow> 's \<Rightarrow> WeightedService list \<Rightarrow> LocalityEndpoints list option" where
  "localities eps objs [] = Some []"
| "localities eps objs (w # ws) =
     (case eps objs (ws_ServicePort w) (ws_HealthPort w) (service_name w) of
        None \<Rightarrow> None
      | Some lb \<Rightarrow> (case localities eps objs ws of None \<Rightarrow> None | Some rest \<Rightarrow> Some (locality w lb @ rest)))"

fun recalculate_loop ::
  "'s endpoints_of \<Rightarrow> 's \<Rightarrow> ServiceCluster list \<Rightarrow> (string, ClusterLoadAssignment) gomap \<Rightarrow> (string, ClusterLoadAssignment) gomap option" where
  "recalculate_loop eps objs [] assignments = Some assignments"
| "recalculate_loop eps objs (cluster # clusters) assignments =
     (if lookup assignments (sc_ClusterName cluster) \<noteq> None then recalculate_loop eps objs clusters assignments
      else case localities eps objs (sc_Services cluster) of
             None \<Rightarrow> None
           | Some endpoints \<Rightarrow>
               recalculate_loop eps objs clusters
                 (put (sc_ClusterName cluster) \<lparr>cla_ClusterName = sc_ClusterName cluster, cla_Endpoints = endpoints\<rparr> assignments))"

definition Recalculate :: "'s endpoints_of \<Rightarrow> 's endpoint_cache \<Rightarrow> ((string, ClusterLoadAssignment) gomap \<times> 's endpoint_cache) option" where
  "Recalculate eps c =
     (case recalculate_loop eps (ec_objects c) (ec_stale c) [] of
        None \<Rightarrow> None
      | Some assignments \<Rightarrow> Some (assignments, c\<lparr>ec_stale := []\<rparr>))"

definition index_cluster ::
  "ServiceCluster \<Rightarrow> (NamespacedName, ServiceCluster list) gomap \<Rightarrow> (NamespacedName, ServiceCluster list) gomap" where
  "index_cluster cluster index =
     fold (\<lambda>s index. let entry = (case lookup index (service_name s) of None \<Rightarrow> [] | Some e \<Rightarrow> e)
                    in put (service_name s) (entry @ [cluster]) index)
       (sc_Services cluster) index"

fun index_clusters ::
  "ServiceCluster list \<Rightarrow> ServiceCluster list \<Rightarrow> (NamespacedName, ServiceCluster list) gomap
     \<Rightarrow> (ServiceCluster list \<times> (NamespacedName, ServiceCluster list) gomap) result" where
  "index_clusters [] balanced index = Ok (balanced, index)"
| "index_clusters (cluster # clusters) balanced index =
     (case ServiceCluster_Validate cluster of
        Inl err \<Rightarrow> Err (''invalid ServiceCluster '' @ go_quote (sc_ClusterName cluster) @ '': '' @ err)
      | Inr _ \<Rightarrow> index_clusters clusters (balanced @ [Rebalance cluster]) (index_cluster (Rebalance cluster) index))"

text \<open>The clusters are rebalanced in place, so the ones kept are the balanced ones; an error leaves the cache as it was.\<close>

definition SetClusters :: "ServiceCluster list \<Rightarrow> 's endpoint_cache \<Rightarrow> string option \<times> 's endpoint_cache" where
  "SetClusters clusters c =
     (case index_clusters clusters [] [] of
        Inl err \<Rightarrow> (Some err, c)
      | Inr (balanced, index) \<Rightarrow> (None, c\<lparr>ec_stale := balanced, ec_services := index\<rparr>))"

definition mark_stale :: "NamespacedName \<Rightarrow> 's endpoint_cache \<Rightarrow> bool \<times> 's endpoint_cache" where
  "mark_stale name c =
     (case lookup (ec_services c) name of
        None \<Rightarrow> (False, c)
      | Some affected \<Rightarrow> if length affected > 0 then (True, c\<lparr>ec_stale := ec_stale c @ affected\<rparr>) else (False, c))"

section \<open>The translators\<close>

text \<open>Of the observer and the condition variable, how often they were called.\<close>

record 's translator =
  tr_cache :: "'s endpoint_cache"
  tr_entries :: "(string, ClusterLoadAssignment) gomap"
  tr_Observer :: bool
  tr_notified :: nat
  tr_refreshed :: nat

definition Notify :: "'s translator \<Rightarrow> 's translator" where
  "Notify e = e\<lparr>tr_notified := Suc (tr_notified e), tr_refreshed := (if tr_Observer e then Suc (tr_refreshed e) else tr_refreshed e)\<rparr>"

definition Merge :: "(string, ClusterLoadAssignment) gomap \<Rightarrow> 's translator \<Rightarrow> 's translator" where
  "Merge entries e = e\<lparr>tr_entries := fold (\<lambda>(k, v). put k v) entries (tr_entries e)\<rparr>"

definition equal_entries :: "(string, ClusterLoadAssignment) gomap \<Rightarrow> (string, ClusterLoadAssignment) gomap \<Rightarrow> bool" where
  "equal_entries a b = (length a = length b \<and> (\<forall>k\<in>set (map fst a). lookup b k \<noteq> None \<and> lookup a k = lookup b k))"

fun select_clusters :: "ServiceCluster list \<Rightarrow> ServiceCluster list \<Rightarrow> string list \<Rightarrow> ServiceCluster list" where
  "select_clusters [] clusters names = clusters"
| "select_clusters (svc # svcs) clusters names =
     (if \<not> is_ok (ServiceCluster_Validate svc) then select_clusters svcs clusters names
      else if sc_ClusterName svc \<in> set names then select_clusters svcs clusters names
      else select_clusters svcs (clusters @ [svc]) (sc_ClusterName svc # names))"

definition OnChange :: "'s endpoints_of \<Rightarrow> DAG \<Rightarrow> 's translator \<Rightarrow> 's translator option" where
  "OnChange eps root e =
     (let clusters = select_clusters (GetServiceClusters root) [] [];
          cache = snd (SetClusters clusters (tr_cache e))
      in case Recalculate eps cache of
           None \<Rightarrow> None
         | Some (entries, cache) \<Rightarrow>
             let e = e\<lparr>tr_cache := cache\<rparr> in
             Some (if \<not> equal_entries (tr_entries e) entries then Notify (e\<lparr>tr_entries := entries\<rparr>) else e))"

text \<open>What the handlers do after an update of the cache, which says whether a cluster uses the object.\<close>

definition recalculate_and_notify :: "'s endpoints_of \<Rightarrow> bool \<times> 's endpoint_cache \<Rightarrow> 's translator \<Rightarrow> 's translator option" where
  "recalculate_and_notify eps upd e =
     (case upd of
        (used, cache) \<Rightarrow>
          if \<not> used then Some (e\<lparr>tr_cache := cache\<rparr>)
          else (case Recalculate eps cache of
                  None \<Rightarrow> None
                | Some (entries, cache) \<Rightarrow> Some (Notify (Merge entries (e\<lparr>tr_cache := cache\<rparr>)))))"

text \<open>The object of an event: one of the type the translator handles, a tombstone, or one of another type.\<close>

datatype 'o event_object =
  EventObject 'o
| DeletedFinalStateUnknown "'o event_object"
| UnexpectedObject

subsection \<open>Endpoint slices\<close>

type_synonym slice_objects = "(NamespacedName, slice_map) gomap"

definition slices_of :: "slice_objects \<Rightarrow> NamespacedName \<Rightarrow> slice_map" where
  "slices_of objs n = (case lookup objs n of None \<Rightarrow> [] | Some m \<Rightarrow> m)"

definition slice_service :: "EndpointSlice \<Rightarrow> NamespacedName" where
  "slice_service s =
     \<lparr>nn_Namespace = es_Namespace s,
      nn_Name = (case lookup (es_Labels s) ''kubernetes.io/service-name'' of None \<Rightarrow> '''' | Some n \<Rightarrow> n)\<rparr>"

definition slice_eps :: "(slice_map \<Rightarrow> slice_map) \<Rightarrow> slice_objects endpoints_of" where
  "slice_eps ord objs port healthPort n = EndpointSliceCache_RecalculateEndpoints ord port healthPort (slices_of objs n)"

definition EndpointSliceCache_Recalculate ::
  "(slice_map \<Rightarrow> slice_map) \<Rightarrow> slice_objects endpoint_cache \<Rightarrow> ((string, ClusterLoadAssignment) gomap \<times> slice_objects endpoint_cache) option" where
  "EndpointSliceCache_Recalculate ord c = Recalculate (slice_eps ord) c"

definition UpdateEndpointSlice :: "EndpointSlice \<Rightarrow> slice_objects endpoint_cache \<Rightarrow> bool \<times> slice_objects endpoint_cache" where
  "UpdateEndpointSlice endpointSlice c =
     (let name = slice_service endpointSlice;
          inner = slices_of (ec_objects c) name
      in mark_stale name (c\<lparr>ec_objects := put name (put (es_Name endpointSlice) endpointSlice inner) (ec_objects c)\<rparr>))"

definition DeleteEndpointSlice :: "EndpointSlice \<Rightarrow> slice_objects endpoint_cache \<Rightarrow> bool \<times> slice_objects endpoint_cache" where
  "DeleteEndpointSlice endpointSlice c =
     (let name = slice_service endpointSlice;
          objs = (case lookup (ec_objects c) name of
                    None \<Rightarrow> ec_objects c
                  | Some inner \<Rightarrow> put name (del (es_Name endpointSlice) inner) (ec_objects c))
      in mark_stale name (c\<lparr>ec_objects := objs\<rparr>))"

definition NewEndpointSliceTranslator :: "slice_objects translator" where
  "NewEndpointSliceTranslator =
     \<lparr>tr_cache = \<lparr>ec_stale = [], ec_services = [], ec_objects = []\<rparr>, tr_entries = [], tr_Observer = False, tr_notified = 0, tr_refreshed = 0\<rparr>"

definition SetObserver :: "'s translator \<Rightarrow> 's translator" where
  "SetObserver e = e\<lparr>tr_Observer := True\<rparr>"

definition EndpointSliceTranslator_OnChange :: "(slice_map \<Rightarrow> slice_map) \<Rightarrow> DAG \<Rightarrow> slice_objects translator \<Rightarrow> slice_objects translator option" where
  "EndpointSliceTranslator_OnChange ord root e = OnChange (slice_eps ord) root e"

definition EndpointSliceTranslator_OnAdd ::
  "(slice_map \<Rightarrow> slice_map) \<Rightarrow> EndpointSlice event_object \<Rightarrow> slice_objects translator \<Rightarrow> slice_objects translator option" where
  "EndpointSliceTranslator_OnAdd ord obj e =
     (case obj of
        EventObject s \<Rightarrow> recalculate_and_notify (slice_eps ord) (UpdateEndpointSlice s (tr_cache e)) e
      | _ \<Rightarrow> Some e)"

text \<open>\<open>same\<close> says that the two objects are the same pointer.\<close>

definition EndpointSliceTranslator_OnUpdate ::
  "(slice_map \<Rightarrow> slice_map) \<Rightarrow> bool \<Rightarrow> EndpointSlice event_object \<Rightarrow> EndpointSlice event_object \<Rightarrow> slice_objects translator
     \<Rightarrow> slice_objects translator option" where
  "EndpointSliceTranslator_OnUpdate ord same oldObj newObj e =
     (case newObj of
        EventObject new \<Rightarrow>
          (case oldObj of
             EventObject old \<Rightarrow>
               if same then Some e
               else if length (es_Endpoints old) = 0 \<and> length (es_Endpoints new) = 0 then Some e
               else recalculate_and_notify (slice_eps ord) (UpdateEndpointSlice new (tr_cache e)) e
           | _ \<Rightarrow> Some e)
      | _ \<Rightarrow> Some e)"

fun EndpointSliceTranslator_OnDelete ::
  "(slice_map \<Rightarrow> slice_map) \<Rightarrow> EndpointSlice event_object \<Rightarrow> slice_objects translator \<Rightarrow> slice_objects translator option" where
  "EndpointSliceTranslator_OnDelete ord (EventObject s) e =
     recalculate_and_notify (slice_eps ord) (DeleteEndpointSlice s (tr_cache e)) e"
| "EndpointSliceTranslator_OnDelete ord (DeletedFinalStateUnknown obj) e = EndpointSliceTranslator_OnDelete ord obj e"
| "EndpointSliceTranslator_OnDelete ord UnexpectedObject e = Some e"

subsection \<open>Endpoints\<close>

type_synonym endpoint_objects = "(NamespacedName, CoreEndpoints) gomap"

definition core_eps :: "endpoint_objects endpoints_of" where
  "core_eps objs port healthPort n = Some (RecalculateEndpoints port healthPort (lookup objs n))"

definition endpoints_name :: "CoreEndpoints \<Rightarrow> NamespacedName" where
  "endpoints_name eps = NamespacedNameOf (eps_Namespace eps) (eps_Name eps)"

definition EndpointsCache_Recalculate ::
  "endpoint_objects endpoint_cache \<Rightarrow> ((string, ClusterLoadAssignment) gomap \<times> endpoint_objects endpoint_cache) option" where
  "EndpointsCache_Recalculate c = Recalculate core_eps c"

definition UpdateEndpoint :: "CoreEndpoints \<Rightarrow> endpoint_objects endpoint_cache \<Rightarrow> bool \<times> endpoint_objects endpoint_cache" where
  "UpdateEndpoint eps c = mark_stale (endpoints_name eps) (c\<lparr>ec_objects := put (endpoints_name eps) eps (ec_objects c)\<rparr>)"

definition DeleteEndpoint :: "CoreEndpoints \<Rightarrow> endpoint_objects endpoint_cache \<Rightarrow> bool \<times> endpoint_objects endpoint_cache" where
  "DeleteEndpoint eps c = mark_stale (endpoints_name eps) (c\<lparr>ec_objects := del (endpoints_name eps) (ec_objects c)\<rparr>)"

definition NewEndpointsTranslator :: "endpoint_objects translator" where
  "NewEndpointsTranslator =
     \<lparr>tr_cache = \<lparr>ec_stale = [], ec_services = [], ec_objects = []\<rparr>, tr_entries = [], tr_Observer = False, tr_notified = 0, tr_refreshed = 0\<rparr>"

definition EndpointsTranslator_OnChange :: "DAG \<Rightarrow> endpoint_objects translator \<Rightarrow> endpoint_objects translator option" where
  "EndpointsTranslator_OnChange root e = OnChange core_eps root e"

definition EndpointsTranslator_OnAdd :: "CoreEndpoints event_object \<Rightarrow> endpoint_objects translator \<Rightarrow> endpoint_objects translator option" where
  "EndpointsTranslator_OnAdd obj e =
     (case obj of
        EventObject eps \<Rightarrow> recalculate_and_notify core_eps (UpdateEndpoint eps (tr_cache e)) e
      | _ \<Rightarrow> Some e)"

definition EndpointsTranslator_OnUpdate ::
  "bool \<Rightarrow> CoreEndpoints event_object \<Rightarrow> CoreEndpoints event_object \<Rightarrow> endpoint_objects translator \<Rightarrow> endpoint_objects translator option" where
  "EndpointsTranslator_OnUpdate same oldObj newObj e =
     (case newObj of
        EventObject new \<Rightarrow>
          (case oldObj of
             EventObject old \<Rightarrow>
               if same then Some e
               else if length (eps_Subsets old) = 0 \<and> length (eps_Subsets new) = 0 then Some e
               else recalculate_and_notify core_eps (UpdateEndpoint new (tr_cache e)) e
           | _ \<Rightarrow> Some e)
      | _ \<Rightarrow> Some e)"

fun EndpointsTranslator_OnDelete :: "CoreEndpoints event_object \<Rightarrow> endpoint_objects translator \<Rightarrow> endpoint_objects translator option" where
  "EndpointsTranslator_OnDelete (EventObject eps) e = recalculate_and_notify core_eps (DeleteEndpoint eps (tr_cache e)) e"
| "EndpointsTranslator_OnDelete (DeletedFinalStateUnknown obj) e = EndpointsTranslator_OnDelete obj e"
| "EndpointsTranslator_OnDelete UnexpectedObject e = Some e"

subsection \<open>What is served\<close>

definition sort_assignments :: "ClusterLoadAssignment list \<Rightarrow> ClusterLoadAssignment list" where
  "sort_assignments cs = sort_Stable (\<lambda>a b. cla_ClusterName a < cla_ClusterName b) cs"

definition Contents :: "'s translator \<Rightarrow> ClusterLoadAssignment list" where
  "Contents e = sort_assignments (map_values (tr_entries e))"

definition Query :: "string list \<Rightarrow> 's translator \<Rightarrow> ClusterLoadAssignment list" where
  "Query names e =
     sort_assignments
       (map (\<lambda>n. case lookup (tr_entries e) n of None \<Rightarrow> \<lparr>cla_ClusterName = n, cla_Endpoints = []\<rparr> | Some v \<Rightarrow> v) names)"

end
