(* ===== verification/Endpoints_Exact.thy ===== *)
theory Endpoints_Exact
  imports Endpoints
begin

text \<open>
  The translators of endpoints are exact: whatever the sequence of events, the load assignments served to Envoy are the ones
  a calculation from scratch would give for the clusters of the last DAG and the objects that are live.  The argument is
  carried out once, in the locale \<open>endpoint_source\<close>, and interpreted for both translators.
\<close>

section \<open>Keys of endpoints\<close>

lemma nat_digits_chars: "set (nat_digits n) \<subseteq> char_of ` {48..(57::nat)}"
proof (induction n rule: nat_digits.induct)
  case (1 n)
  have "char_of (48 + m) \<in> char_of ` {48..(57::nat)}" if "m < 10" for m :: nat
    using that by (intro imageI) simp
  with 1 show ?case by (cases "n < 10") (simp_all add: nat_digits.simps [of n])
qed

lemma nat_digits_not: "c \<notin> char_of ` {48..(57::nat)} \<Longrightarrow> c \<notin> set (nat_digits n)"
  using nat_digits_chars by blast

lemma char_of_digit: "c \<in> char_of ` {48..(57::nat)} \<longleftrightarrow> 48 \<le> (of_char c :: nat) \<and> (of_char c :: nat) \<le> 57"
proof
  assume "48 \<le> (of_char c :: nat) \<and> (of_char c :: nat) \<le> 57"
  then show "c \<in> char_of ` {48..(57::nat)}" by (intro image_eqI [of _ _ "of_char c"]) simp_all
qed auto

lemma Itoa_no_colon: "CHR '':'' \<notin> set (strconv_Itoa i)"
proof -
  have "CHR '':'' \<notin> set (nat_digits n)" for n by (rule nat_digits_not) (simp add: char_of_digit)
  then show ?thesis by (simp add: strconv_Itoa_def)
qed

lemma append_last_colon:
  assumes "a @ CHR '':'' # x = b @ CHR '':'' # y" "CHR '':'' \<notin> set x" "CHR '':'' \<notin> set y"
  shows "a = b \<and> x = y"
proof -
  have "takeWhile (\<lambda>c. c \<noteq> CHR '':'') (rev (a @ CHR '':'' # x)) = rev x"
    if "CHR '':'' \<notin> set x" for a x :: string
  proof -
    have "takeWhile (\<lambda>c. c \<noteq> CHR '':'') (rev x @ (CHR '':'' # rev a)) = rev x @ takeWhile (\<lambda>c. c \<noteq> CHR '':'') (CHR '':'' # rev a)"
      using that by (intro takeWhile_append2) auto
    then show ?thesis by simp
  qed
  with assms have "rev x = rev y" by metis
  with assms(1) show ?thesis by simp
qed

lemma endpointKey_inject: "endpointKey a p = endpointKey b q \<longleftrightarrow> a = b \<and> p = q"
  using append_last_colon [OF _ Itoa_no_colon Itoa_no_colon, of a p b q] Itoa_eq_iff by (auto simp: endpointKey_def)

section \<open>The endpoints of a service\<close>

text \<open>What matters of the cached objects of a service: the addresses that are ready, each with the ports of its object.\<close>

type_synonym ready_endpoints = "(string \<times> EndpointPort list) set"

definition selects :: "ServicePort \<Rightarrow> EndpointPort \<Rightarrow> int \<Rightarrow> bool" where
  "selects port q p \<longleftrightarrow> epp_Port q = Some p \<and> epp_Protocol q = Some ''TCP'' \<and>
     (case epp_Name q of None \<Rightarrow> True | Some n \<Rightarrow> port_Name port = '''' \<or> port_Name port = n)"

definition probes :: "ServicePort \<Rightarrow> ServicePort \<Rightarrow> EndpointPort \<Rightarrow> int \<Rightarrow> bool" where
  "probes port healthPort q p \<longleftrightarrow> epp_Port q = Some p \<and> epp_Protocol q = Some ''TCP'' \<and>
     epp_Name q = Some (port_Name healthPort) \<and> port_Name healthPort \<noteq> '''' \<and> port_Name port \<noteq> port_Name healthPort"

definition targets :: "ready_endpoints \<Rightarrow> ServicePort \<Rightarrow> (string \<times> int) set" where
  "targets E port = {(a, p). \<exists>qs q. (a, qs) \<in> E \<and> q \<in> set qs \<and> selects port q p}"

definition health_ports :: "ready_endpoints \<Rightarrow> ServicePort \<Rightarrow> ServicePort \<Rightarrow> int set" where
  "health_ports E port healthPort = {p. \<exists>a qs q. (a, qs) \<in> E \<and> q \<in> set qs \<and> probes port healthPort q p}"

text \<open>
  The endpoints of a service are its targets, each once when \<open>unique\<close>, and are all checked on the same health check port, a
  port with the name of the health port if that is not the service port and there is one.
\<close>

definition load_balances :: "bool \<Rightarrow> ready_endpoints \<Rightarrow> ServicePort \<Rightarrow> ServicePort \<Rightarrow> LoadBalancingEndpoint list \<Rightarrow> bool" where
  "load_balances unique E port healthPort lb \<longleftrightarrow>
     (\<exists>ts hc. set ts = targets E port \<and> (unique \<longrightarrow> distinct ts) \<and>
        (if health_ports E port healthPort = {} then hc = 0 else hc \<in> health_ports E port healthPort) \<and>
        lb = map (\<lambda>(a, p). \<lparr>lbe_Address = envoy_SocketAddress a p,
                           lbe_HealthCheckConfig = (if hc > 0 then Some (to_uint32 hc) else None)\<rparr>) ts)"

lemma targets_simps [simp]:
  "targets {} port = {}" "targets (E \<union> F) port = targets E port \<union> targets F port"
  "health_ports {} port hp = {}" "health_ports (E \<union> F) port hp = health_ports E port hp \<union> health_ports F port hp"
  by (auto simp: targets_def health_ports_def)

lemma targets_ports:
  "targets {(a, q # qs)} port = {(a, p) |p. selects port q p} \<union> targets {(a, qs)} port"
  "health_ports {(a, q # qs)} port hp = {p. probes port hp q p} \<union> health_ports {(a, qs)} port hp"
  "targets {(a, [])} port = {}" "health_ports {(a, [])} port hp = {}"
  by (auto simp: targets_def health_ports_def)

lemma set_health_check_eq:
  "set_health_check hc (map (\<lambda>(a, p). LBEndpoint (envoy_SocketAddress a p)) ts) =
     map (\<lambda>(a, p). \<lparr>lbe_Address = envoy_SocketAddress a p, lbe_HealthCheckConfig = (if hc > 0 then Some (to_uint32 hc) else None)\<rparr>) ts"
  by (auto simp: set_health_check_def LBEndpoint_def HealthCheckConfig_def)

subsection \<open>Endpoint slices\<close>

definition addressed :: "EndpointSlice \<Rightarrow> bool" where
  "addressed s \<longleftrightarrow> (\<forall>e\<in>set (es_Endpoints s). sep_Addresses e \<noteq> [])"

definition slice_ready :: "EndpointSlice \<Rightarrow> ready_endpoints" where
  "slice_ready s = {(hd (sep_Addresses e), es_Ports s) |e. e \<in> set (es_Endpoints s) \<and> sep_Ready e \<noteq> Some False}"

definition loop_inv :: "(string \<times> int) set \<Rightarrow> int set \<Rightarrow> lb_state \<Rightarrow> bool" where
  "loop_inv T H s \<longleftrightarrow>
     (case s of (lb, unique, hc) \<Rightarrow>
        (\<exists>ts. distinct ts \<and> set ts = T \<and> lb = map (\<lambda>(a, p). LBEndpoint (envoy_SocketAddress a p)) ts) \<and>
        set unique = (\<lambda>(a, p). endpointKey a p) ` T \<and> (if H = {} then hc = 0 else hc \<in> H))"

lemma loop_inv_add:
  assumes "loop_inv T H (lb, unique, hc)"
  shows "(if endpointKey a p \<in> set unique then loop_inv (insert (a, p) T) H (lb, unique, hc)
          else loop_inv (insert (a, p) T) H (lb @ [LBEndpoint (envoy_SocketAddress a p)], endpointKey a p # unique, hc))"
proof -
  obtain ts where ts: "distinct ts" "set ts = T" "lb = map (\<lambda>(a, p). LBEndpoint (envoy_SocketAddress a p)) ts"
    using assms by (auto simp: loop_inv_def)
  have mem: "endpointKey a p \<in> set unique \<longleftrightarrow> (a, p) \<in> T" using assms by (auto simp: loop_inv_def endpointKey_inject)
  show ?thesis
  proof (cases "(a, p) \<in> T")
    case True
    then show ?thesis using assms mem by (simp add: insert_absorb)
  next
    case False
    then have "distinct (ts @ [(a, p)]) \<and> set (ts @ [(a, p)]) = insert (a, p) T \<and>
        lb @ [LBEndpoint (envoy_SocketAddress a p)] = map (\<lambda>(a, p). LBEndpoint (envoy_SocketAddress a p)) (ts @ [(a, p)])"
      using ts by simp
    then have "\<exists>ts. distinct ts \<and> set ts = insert (a, p) T \<and>
        lb @ [LBEndpoint (envoy_SocketAddress a p)] = map (\<lambda>(a, p). LBEndpoint (envoy_SocketAddress a p)) ts" by blast
    moreover have "set (endpointKey a p # unique) = (\<lambda>(a, p). endpointKey a p) ` insert (a, p) T" using assms by (simp add: loop_inv_def)
    ultimately show ?thesis using assms mem False unfolding loop_inv_def prod.case by simp
  qed
qed

lemma loop_inv_health: "loop_inv T H (lb, unique, hc) \<Longrightarrow> loop_inv T (insert p H) (lb, unique, p)"
  by (simp add: loop_inv_def)

lemma slice_port_ok:
  assumes "loop_inv T H s" "sep_Addresses e = a # as"
  shows "\<exists>s'. slice_port port hp e q s = Some s' \<and> loop_inv (T \<union> {(a, p) |p. selects port q p}) (H \<union> {p. probes port hp q p}) s'"
proof (cases "\<exists>p. epp_Port q = Some p \<and> epp_Protocol q = Some ''TCP''")
  case False
  then have "{(a, p) |p. selects port q p} = {}" "{p. probes port hp q p} = {}" by (auto simp: selects_def probes_def)
  then show ?thesis using assms(1) False by (auto simp: slice_port_def split: option.split prod.split)
next
  case True
  then obtain p where p: "epp_Port q = Some p" "epp_Protocol q = Some ''TCP''" by blast
  obtain lb u hc where s: "s = (lb, u, hc)" by (metis prod.exhaust)
  define hc' where "hc' = (if probes port hp q p then p else hc)"
  have H: "{p. probes port hp q p} = (if probes port hp q p then {p} else {})"
    and T: "{(a, p) |p. selects port q p} = (if selects port q p then {(a, p)} else {})" using p by (auto simp: probes_def selects_def)
  have inv: "loop_inv T (H \<union> {p. probes port hp q p}) (lb, u, hc')"
    unfolding H hc'_def using assms(1) s loop_inv_health by auto
  have "slice_port port hp e q s =
      Some (if selects port q p
            then if endpointKey a p \<in> set u then (lb, u, hc') else (lb @ [LBEndpoint (envoy_SocketAddress a p)], endpointKey a p # u, hc')
            else (lb, u, hc'))"
    using p assms(2) by (cases "epp_Name q") (auto simp: slice_port_def s hc'_def probes_def selects_def Let_def)
  then show ?thesis using inv loop_inv_add [OF inv, of a p] unfolding T by (auto split: if_splits)
qed

lemma slice_ports_ok:
  assumes "sep_Addresses e = a # as"
  shows "loop_inv T H s \<Longrightarrow>
    \<exists>s'. slice_ports port hp e qs s = Some s' \<and> loop_inv (T \<union> targets {(a, qs)} port) (H \<union> health_ports {(a, qs)} port hp) s'"
proof (induction qs arbitrary: T H s)
  case (Cons q qs)
  from slice_port_ok [OF Cons.prems assms, of port hp q] obtain s1 where
    s1: "slice_port port hp e q s = Some s1" "loop_inv (T \<union> {(a, p) |p. selects port q p}) (H \<union> {p. probes port hp q p}) s1" by blast
  from Cons.IH [OF s1(2)] s1(1) show ?case by (simp add: targets_ports Un_assoc)
qed (simp add: targets_ports)

lemma slice_endpoints_ok:
  "loop_inv T H s \<Longrightarrow> \<forall>e\<in>set es. sep_Addresses e \<noteq> [] \<Longrightarrow>
   \<exists>s'. slice_endpoints port hp qs es s = Some s' \<and>
        loop_inv (T \<union> targets {(hd (sep_Addresses e), qs) |e. e \<in> set es \<and> sep_Ready e \<noteq> Some False} port)
          (H \<union> health_ports {(hd (sep_Addresses e), qs) |e. e \<in> set es \<and> sep_Ready e \<noteq> Some False} port hp) s'"
proof (induction es arbitrary: T H s)
  case (Cons e es)
  let ?E = "\<lambda>es. {(hd (sep_Addresses e), qs) |e. e \<in> set es \<and> sep_Ready e \<noteq> Some False}"
  show ?case
  proof (cases "sep_Ready e = Some False")
    case True
    then have "?E (e # es) = ?E es" by auto
    with True Cons show ?thesis by simp
  next
    case False
    obtain a as where a: "sep_Addresses e = a # as" using Cons.prems(2) by (cases "sep_Addresses e") auto
    have "(a, qs) \<in> ?E (e # es)" using False a by (intro CollectI exI [of _ e]) simp
    then have E: "?E (e # es) = {(a, qs)} \<union> ?E es" using False a by auto
    from slice_ports_ok [OF a Cons.prems(1), of port hp qs] obtain s1 where
      s1: "slice_ports port hp e qs s = Some s1" "loop_inv (T \<union> targets {(a, qs)} port) (H \<union> health_ports {(a, qs)} port hp) s1" by blast
    from Cons.IH [OF s1(2)] Cons.prems(2) s1(1) False show ?thesis unfolding E targets_simps by (simp add: Un_assoc)
  qed
qed simp

lemma slice_loop_ok:
  "loop_inv T H s \<Longrightarrow> \<forall>(k, sl)\<in>set m. addressed sl \<Longrightarrow>
   \<exists>s'. slice_loop port hp m s = Some s' \<and>
        loop_inv (T \<union> targets (\<Union>(k, sl)\<in>set m. slice_ready sl) port) (H \<union> health_ports (\<Union>(k, sl)\<in>set m. slice_ready sl) port hp) s'"
proof (induction m arbitrary: T H s)
  case (Cons x m)
  obtain k sl where x: "x = (k, sl)" by (rule prod.exhaust)
  have addr: "\<forall>e\<in>set (es_Endpoints sl). sep_Addresses e \<noteq> []" using Cons.prems(2) x by (simp add: addressed_def)
  then have sort: "sort_endpoints (es_Endpoints sl) = Some (sort_Stable (\<lambda>a b. hd (sep_Addresses a) < hd (sep_Addresses b)) (es_Endpoints sl))"
    by (auto simp: sort_endpoints_def)
  obtain s1 where s1: "slice_endpoints port hp (es_Ports sl) (sort_Stable (\<lambda>a b. hd (sep_Addresses a) < hd (sep_Addresses b)) (es_Endpoints sl)) s = Some s1"
    "loop_inv (T \<union> targets (slice_ready sl) port) (H \<union> health_ports (slice_ready sl) port hp) s1"
    using slice_endpoints_ok [OF Cons.prems(1), of "sort_Stable (\<lambda>a b. hd (sep_Addresses a) < hd (sep_Addresses b)) (es_Endpoints sl)" port hp "es_Ports sl"] addr
    by (auto simp: slice_ready_def)
  from Cons.IH [OF s1(2)] Cons.prems(2) s1(1) show ?case by (simp add: x sort Un_assoc)
qed simp

lemma slice_RecalculateEndpoints_ok:
  assumes "mset (ord m) = mset m" "\<forall>(k, sl)\<in>set m. addressed sl"
  shows "\<exists>lb. EndpointSliceCache_RecalculateEndpoints ord port hp m = Some lb \<and>
           load_balances True (\<Union>(k, sl)\<in>set m. slice_ready sl) port hp lb"
proof -
  have set: "set (ord m) = set m" using assms(1) by (metis set_mset_mset)
  have "loop_inv {} {} ([], [], 0)" by (simp add: loop_inv_def)
  from slice_loop_ok [OF this, of "ord m" port hp] assms(2) obtain lb u hc where
    l: "slice_loop port hp (ord m) ([], [], 0) = Some (lb, u, hc)"
    "loop_inv (targets (\<Union>(k, sl)\<in>set m. slice_ready sl) port) (health_ports (\<Union>(k, sl)\<in>set m. slice_ready sl) port hp) (lb, u, hc)"
    by (auto simp: set)
  let ?E = "\<Union>(k, sl)\<in>set m. slice_ready sl"
  obtain ts where ts: "distinct ts" "set ts = targets ?E port" "lb = map (\<lambda>(a, p). LBEndpoint (envoy_SocketAddress a p)) ts"
    and hc: "if health_ports ?E port hp = {} then hc = 0 else hc \<in> health_ports ?E port hp"
    using l(2) unfolding loop_inv_def prod.case by blast
  have "load_balances True ?E port hp (set_health_check hc lb)"
    unfolding load_balances_def ts(3) set_health_check_eq using ts(1,2) hc by blast
  then show ?thesis using l(1) by (simp add: EndpointSliceCache_RecalculateEndpoints_def)
qed

subsection \<open>Endpoints\<close>

definition core_port :: "CoreEndpointPort \<Rightarrow> EndpointPort" where
  "core_port p = \<lparr>epp_Name = Some (cep_Name p), epp_Port = Some (cep_Port p), epp_Protocol = Some (cep_Protocol p)\<rparr>"

definition subset_ready :: "EndpointSubset \<Rightarrow> ready_endpoints" where
  "subset_ready s = {(a, map core_port (sub_Ports s)) |a. a \<in> set (sub_Addresses s)}"

definition core_inv :: "(string \<times> int) set \<Rightarrow> int set \<Rightarrow> LoadBalancingEndpoint list \<times> int \<Rightarrow> bool" where
  "core_inv T H s \<longleftrightarrow>
     (\<exists>ts. set ts = T \<and> fst s = map (\<lambda>(a, p). LBEndpoint (envoy_SocketAddress a p)) ts) \<and> (if H = {} then snd s = 0 else snd s \<in> H)"

lemma core_inv_add:
  assumes "core_inv T H (lb, hc)"
  shows "core_inv (T \<union> {(a, p) |a. a \<in> set as}) H (lb @ map (\<lambda>a. LBEndpoint (envoy_SocketAddress a p)) (sort_Stable (<) as), hc)"
proof -
  obtain ts where "set ts = T" "lb = map (\<lambda>(a, p). LBEndpoint (envoy_SocketAddress a p)) ts" using assms by (auto simp: core_inv_def)
  then have "set (ts @ map (\<lambda>a. (a, p)) (sort_Stable (<) as)) = T \<union> {(a, p) |a. a \<in> set as} \<and>
      lb @ map (\<lambda>a. LBEndpoint (envoy_SocketAddress a p)) (sort_Stable (<) as) =
      map (\<lambda>(a, p). LBEndpoint (envoy_SocketAddress a p)) (ts @ map (\<lambda>a. (a, p)) (sort_Stable (<) as))" by auto
  then show ?thesis using assms unfolding core_inv_def fst_conv snd_conv by blast
qed

lemma subset_port_ok:
  assumes "core_inv T H s" "as \<noteq> []"
  shows "core_inv (T \<union> {(a, p) |a p. a \<in> set as \<and> selects port (core_port q) p}) (H \<union> {p. probes port hp (core_port q) p})
           (subset_port port hp as q s)"
proof -
  obtain lb hc where s: "s = (lb, hc)" by (rule prod.exhaust)
  have T: "{(a, p) |a p. a \<in> set as \<and> selects port (core_port q) p} =
      (if selects port (core_port q) (cep_Port q) then {(a, cep_Port q) |a. a \<in> set as} else {})"
    and H: "{p. probes port hp (core_port q) p} = (if probes port hp (core_port q) (cep_Port q) then {cep_Port q} else {})"
    by (auto simp: selects_def probes_def core_port_def)
  define hc' where "hc' = (if probes port hp (core_port q) (cep_Port q) then cep_Port q else hc)"
  have inv: "core_inv T (H \<union> {p. probes port hp (core_port q) p}) (lb, hc')"
    unfolding H hc'_def using assms(1) s by (cases "H = {}") (simp_all add: core_inv_def)
  have "subset_port port hp as q s =
      (if selects port (core_port q) (cep_Port q) then (lb @ map (\<lambda>a. LBEndpoint (envoy_SocketAddress a (cep_Port q))) (sort_Stable (<) as), hc')
       else (lb, hc'))"
    by (auto simp: subset_port_def s hc'_def selects_def probes_def core_port_def Let_def)
  then show ?thesis using inv core_inv_add [OF inv] unfolding T by simp
qed

lemma subset_ports_ok:
  "as \<noteq> [] \<Longrightarrow> core_inv T H s \<Longrightarrow>
   core_inv (T \<union> targets {(a, map core_port qs) |a. a \<in> set as} port) (H \<union> health_ports {(a, map core_port qs) |a. a \<in> set as} port hp)
     (fold (subset_port port hp as) qs s)"
proof (induction qs arbitrary: T H s)
  case Nil
  then show ?case by (simp add: targets_def health_ports_def)
next
  case (Cons q qs)
  have "targets {(a, map core_port (q # qs)) |a. a \<in> set as} port =
      {(a, p) |a p. a \<in> set as \<and> selects port (core_port q) p} \<union> targets {(a, map core_port qs) |a. a \<in> set as} port"
    by (auto simp: targets_def)
  moreover have "health_ports {(a, map core_port (q # qs)) |a. a \<in> set as} port hp =
      {p. probes port hp (core_port q) p} \<union> health_ports {(a, map core_port qs) |a. a \<in> set as} port hp"
    using Cons.prems(1) by (auto simp: health_ports_def neq_Nil_conv)
  ultimately show ?case
    using Cons.IH [OF Cons.prems(1) subset_port_ok [OF Cons.prems(2,1), of port q hp]] by (simp add: Un_assoc)
qed

lemma subsets_ok:
  "core_inv T H s \<Longrightarrow>
   core_inv (T \<union> targets (\<Union>(subset_ready ` set ss)) port) (H \<union> health_ports (\<Union>(subset_ready ` set ss)) port hp)
     (fold (\<lambda>s acc. if length (sub_Addresses s) < 1 then acc else fold (subset_port port hp (sub_Addresses s)) (sub_Ports s) acc) ss s)"
proof (induction ss arbitrary: T H s)
  case (Cons x ss)
  show ?case
  proof (cases "sub_Addresses x = []")
    case True
    then have "subset_ready x = {}" by (simp add: subset_ready_def)
    then show ?thesis using True Cons.IH [OF Cons.prems] by simp
  next
    case False
    have "core_inv (T \<union> targets (subset_ready x) port) (H \<union> health_ports (subset_ready x) port hp)
        (fold (subset_port port hp (sub_Addresses x)) (sub_Ports x) s)"
      unfolding subset_ready_def by (rule subset_ports_ok [OF False Cons.prems])
    from Cons.IH [OF this] show ?thesis using False by (simp add: Un_assoc)
  qed
qed simp

definition core_ready :: "CoreEndpoints option \<Rightarrow> ready_endpoints" where
  "core_ready eps = (case eps of None \<Rightarrow> {} | Some eps \<Rightarrow> \<Union>(subset_ready ` set (eps_Subsets eps)))"

lemma core_inv_load_balances:
  assumes "core_inv (targets E port) (health_ports E port hp) s"
  shows "load_balances False E port hp (set_health_check (snd s) (fst s))"
proof -
  obtain ts where ts: "set ts = targets E port" "fst s = map (\<lambda>(a, p). LBEndpoint (envoy_SocketAddress a p)) ts"
    and hc: "if health_ports E port hp = {} then snd s = 0 else snd s \<in> health_ports E port hp"
    using assms unfolding core_inv_def by blast
  show ?thesis unfolding load_balances_def ts(2) set_health_check_eq using ts(1) hc by blast
qed

lemma RecalculateEndpoints_ok: "load_balances False (core_ready eps) port hp (RecalculateEndpoints port hp eps)"
proof (cases eps)
  case None
  have "load_balances False {} port hp []" unfolding load_balances_def by (rule exI [of _ "[]"]) simp
  with None show ?thesis by (simp add: core_ready_def RecalculateEndpoints_def)
next
  case (Some e)
  have "core_inv {} {} ([], 0)" by (simp add: core_inv_def)
  from core_inv_load_balances [OF subsets_ok [OF this, unfolded Un_empty_left]] show ?thesis
    by (simp add: Some core_ready_def RecalculateEndpoints_def case_prod_beta)
qed

section \<open>Incremental calculation\<close>

text \<open>The load assignment of a cluster is exact when each of its services has a locality with the right endpoints.\<close>

definition exact :: "bool \<Rightarrow> (NamespacedName \<Rightarrow> ready_endpoints) \<Rightarrow> ServiceCluster \<Rightarrow> ClusterLoadAssignment \<Rightarrow> bool" where
  "exact unique view c cla \<longleftrightarrow>
     cla_ClusterName cla = sc_ClusterName c \<and>
     (\<exists>lbs. list_all2 (\<lambda>w lb. load_balances unique (view (service_name w)) (ws_ServicePort w) (ws_HealthPort w) lb) (sc_Services c) lbs \<and>
        cla_Endpoints cla = concat (map2 locality (sc_Services c) lbs))"

lemma exact_cong:
  assumes "\<forall>w\<in>set (sc_Services c). view (service_name w) = view' (service_name w)"
  shows "exact unique view c cla = exact unique view' c cla"
proof -
  have "list_all2 (\<lambda>w lb. load_balances unique (view (service_name w)) (ws_ServicePort w) (ws_HealthPort w) lb) (sc_Services c) lbs =
      list_all2 (\<lambda>w lb. load_balances unique (view' (service_name w)) (ws_ServicePort w) (ws_HealthPort w) lb) (sc_Services c) lbs" for lbs
    using assms by (intro list.rel_cong) auto
  then show ?thesis by (simp add: exact_def)
qed

definition index_ok :: "ServiceCluster list \<Rightarrow> (NamespacedName, ServiceCluster list) gomap \<Rightarrow> bool" where
  "index_ok clusters index \<longleftrightarrow>
     (\<forall>n c. c \<in> set (case lookup index n of None \<Rightarrow> [] | Some e \<Rightarrow> e) \<longleftrightarrow> c \<in> set clusters \<and> n \<in> service_name ` set (sc_Services c))"

lemma index_cluster_ok:
  assumes "index_ok clusters index"
  shows "index_ok (clusters @ [cluster]) (index_cluster cluster index)"
proof -
  let ?step = "\<lambda>s index. let entry = (case lookup index (service_name s) of None \<Rightarrow> [] | Some e \<Rightarrow> e)
                    in put (service_name s) (entry @ [cluster]) index"
  have "c \<in> set (case lookup (fold ?step ws index) n of None \<Rightarrow> [] | Some e \<Rightarrow> e) \<longleftrightarrow>
      c \<in> set (case lookup index n of None \<Rightarrow> [] | Some e \<Rightarrow> e) \<or> c = cluster \<and> n \<in> service_name ` set ws" for ws n c
    by (induction ws arbitrary: index) (auto simp: Let_def lookup_put)
  then show ?thesis using assms by (auto simp: index_ok_def index_cluster_def)
qed

lemma index_clusters_ok:
  "\<forall>c\<in>set cs. is_ok (ServiceCluster_Validate c) \<Longrightarrow> index_ok balanced index \<Longrightarrow>
   \<exists>index'. index_clusters cs balanced index = Ok (balanced @ map Rebalance cs, index') \<and> index_ok (balanced @ map Rebalance cs) index'"
proof (induction cs arbitrary: balanced index)
  case (Cons c cs)
  from Cons.IH [OF _ index_cluster_ok [OF Cons.prems(2), of "Rebalance c"]] Cons.prems(1) show ?case
    by (auto simp: is_ok_iff)
qed simp

lemma SetClusters_ok:
  assumes "\<forall>c\<in>set cs. is_ok (ServiceCluster_Validate c)"
  shows "\<exists>index. SetClusters cs c = (None, c\<lparr>ec_stale := map Rebalance cs, ec_services := index\<rparr>) \<and> index_ok (map Rebalance cs) index"
proof -
  have "index_ok [] []" by (simp add: index_ok_def)
  from index_clusters_ok [OF assms this] show ?thesis by (auto simp: SetClusters_def)
qed

lemma select_clusters_ok:
  "\<forall>c\<in>set cs. is_ok (ServiceCluster_Validate c) \<Longrightarrow> set names = sc_ClusterName ` set cs \<Longrightarrow> distinct (map sc_ClusterName cs) \<Longrightarrow>
   (\<forall>c\<in>set (select_clusters svcs cs names). is_ok (ServiceCluster_Validate c)) \<and> distinct (map sc_ClusterName (select_clusters svcs cs names))"
proof (induction svcs arbitrary: cs names)
  case (Cons svc svcs)
  show ?case
  proof (cases "is_ok (ServiceCluster_Validate svc) \<and> sc_ClusterName svc \<notin> set names")
    case True
    have "(\<forall>c\<in>set (cs @ [svc]). is_ok (ServiceCluster_Validate c)) \<and> set (sc_ClusterName svc # names) = sc_ClusterName ` set (cs @ [svc]) \<and>
        distinct (map sc_ClusterName (cs @ [svc]))"
      using Cons.prems True by simp
    with Cons.IH [of "cs @ [svc]" "sc_ClusterName svc # names"] True show ?thesis by simp
  next
    case False
    then have "select_clusters (svc # svcs) cs names = select_clusters svcs cs names" by auto
    with Cons show ?thesis by metis
  qed
qed simp

text \<open>The clusters of a DAG that get load assignments.\<close>

definition eds_clusters :: "DAG \<Rightarrow> ServiceCluster list" where
  "eds_clusters root = map Rebalance (select_clusters (GetServiceClusters root) [] [])"

lemma eds_clusters_names: "distinct (map sc_ClusterName (eds_clusters root))"
  using select_clusters_ok [of "[]" "[]" "GetServiceClusters root"] by (simp add: eds_clusters_def comp_def frame)

lemma equal_entries_lookup:
  assumes "wf_gomap a" "wf_gomap b" "equal_entries a b"
  shows "lookup a = lookup b"
proof -
  have same: "lookup a k = lookup b k" "k \<in> set (map fst b)" if "k \<in> set (map fst a)" for k
    using assms(3) that unfolding equal_entries_def set_map by (blast, metis map_of_eq_None_iff)
  then have "set (map fst a) \<subseteq> set (map fst b)" by blast
  moreover have "card (set (map fst a)) = card (set (map fst b))"
    using assms by (metis distinct_card equal_entries_def length_map)
  ultimately have "set (map fst a) = set (map fst b)" by (simp add: card_subset_eq)
  then have "lookup a k = lookup b k" if "k \<notin> set (map fst a)" for k
    using that map_of_eq_None_iff [of a k] map_of_eq_None_iff [of b k] by simp
  with same show ?thesis by blast
qed

definition translator_ok :: "bool \<Rightarrow> (NamespacedName \<Rightarrow> ready_endpoints) \<Rightarrow> ServiceCluster list \<Rightarrow> 's translator \<Rightarrow> bool" where
  "translator_ok unique view clusters e \<longleftrightarrow>
     ec_stale (tr_cache e) = [] \<and> distinct (map sc_ClusterName clusters) \<and> index_ok clusters (ec_services (tr_cache e)) \<and>
     wf_gomap (tr_entries e) \<and> dom (lookup (tr_entries e)) = sc_ClusterName ` set clusters \<and>
     (\<forall>c\<in>set clusters. \<exists>cla. lookup (tr_entries e) (sc_ClusterName c) = Some cla \<and> exact unique view c cla)"

text \<open>
  A source of endpoints: for objects that are safe the endpoints of every service can be calculated, and they are the right ones
  for the ready endpoints of the service.
\<close>

locale endpoint_source =
  fixes eps :: "'o \<Rightarrow> 's endpoints_of"
    and fair :: "'o \<Rightarrow> bool"
    and safe :: "'s \<Rightarrow> bool"
    and view :: "'s \<Rightarrow> NamespacedName \<Rightarrow> ready_endpoints"
    and unique :: bool
  assumes eps_ok: "fair ord \<Longrightarrow> safe objs \<Longrightarrow>
    \<exists>lb. eps ord objs port hp n = Some lb \<and> load_balances unique (view objs n) port hp lb"
begin

lemma localities_ok:
  assumes "fair ord" "safe objs"
  shows "\<exists>lbs. list_all2 (\<lambda>w lb. load_balances unique (view objs (service_name w)) (ws_ServicePort w) (ws_HealthPort w) lb) ws lbs \<and>
           localities (eps ord) objs ws = Some (concat (map2 locality ws lbs))"
proof (induction ws)
  case (Cons w ws)
  from Cons obtain lbs where lbs: "list_all2 (\<lambda>w lb. load_balances unique (view objs (service_name w)) (ws_ServicePort w) (ws_HealthPort w) lb) ws lbs"
    "localities (eps ord) objs ws = Some (concat (map2 locality ws lbs))" by blast
  obtain lb where "eps ord objs (ws_ServicePort w) (ws_HealthPort w) (service_name w) = Some lb"
    "load_balances unique (view objs (service_name w)) (ws_ServicePort w) (ws_HealthPort w) lb" using eps_ok [OF assms] by blast
  with lbs show ?case by (intro exI [of _ "lb # lbs"]) simp
qed simp

lemma recalculate_loop_ok:
  assumes "fair ord" "safe objs"
  shows "inj_on sc_ClusterName (set cs) \<Longrightarrow> wf_gomap acc \<Longrightarrow>
    \<exists>asg. recalculate_loop (eps ord) objs cs acc = Some asg \<and> wf_gomap asg \<and>
      (\<forall>k. k \<notin> sc_ClusterName ` set cs \<longrightarrow> lookup asg k = lookup acc k) \<and>
      (\<forall>c\<in>set cs. \<exists>cla. lookup asg (sc_ClusterName c) = Some cla \<and> (lookup acc (sc_ClusterName c) = None \<longrightarrow> exact unique (view objs) c cla)) \<and>
      (\<forall>k v. lookup acc k = Some v \<longrightarrow> lookup asg k = Some v)"
proof (induction cs arbitrary: acc)
  case (Cons c cs)
  have inj: "inj_on sc_ClusterName (set cs)" using Cons.prems(1) by (simp add: inj_on_insert)
  show ?case
  proof (cases "lookup acc (sc_ClusterName c)")
    case (Some v)
    obtain asg where asg: "recalculate_loop (eps ord) objs cs acc = Some asg" "wf_gomap asg"
      "\<forall>k. k \<notin> sc_ClusterName ` set cs \<longrightarrow> lookup asg k = lookup acc k"
      "\<forall>c\<in>set cs. \<exists>cla. lookup asg (sc_ClusterName c) = Some cla \<and> (lookup acc (sc_ClusterName c) = None \<longrightarrow> exact unique (view objs) c cla)"
      "\<forall>k v. lookup acc k = Some v \<longrightarrow> lookup asg k = Some v"
      using Cons.IH [OF inj Cons.prems(2)] by blast
    have "\<forall>c\<in>set (c # cs). \<exists>cla. lookup asg (sc_ClusterName c) = Some cla \<and> (lookup acc (sc_ClusterName c) = None \<longrightarrow> exact unique (view objs) c cla)"
      using asg(4,5) Some by simp
    moreover have "recalculate_loop (eps ord) objs (c # cs) acc = Some asg" using Some asg(1) by simp
    moreover have "\<forall>k. k \<notin> sc_ClusterName ` set (c # cs) \<longrightarrow> lookup asg k = lookup acc k" using asg(3) by simp
    ultimately show ?thesis using asg(2,5) by blast
  next
    case None
    obtain lbs where lbs: "list_all2 (\<lambda>w lb. load_balances unique (view objs (service_name w)) (ws_ServicePort w) (ws_HealthPort w) lb) (sc_Services c) lbs"
      "localities (eps ord) objs (sc_Services c) = Some (concat (map2 locality (sc_Services c) lbs))" using localities_ok [OF assms] by blast
    define cla where "cla = \<lparr>cla_ClusterName = sc_ClusterName c, cla_Endpoints = concat (map2 locality (sc_Services c) lbs)\<rparr>"
    have ex: "exact unique (view objs) c cla" using lbs(1) by (auto simp: exact_def cla_def)
    let ?acc = "put (sc_ClusterName c) cla acc"
    obtain asg where asg: "recalculate_loop (eps ord) objs cs ?acc = Some asg" "wf_gomap asg"
      "\<forall>k. k \<notin> sc_ClusterName ` set cs \<longrightarrow> lookup asg k = lookup ?acc k"
      "\<forall>c\<in>set cs. \<exists>cla. lookup asg (sc_ClusterName c) = Some cla \<and> (lookup ?acc (sc_ClusterName c) = None \<longrightarrow> exact unique (view objs) c cla)"
      "\<forall>k v. lookup ?acc k = Some v \<longrightarrow> lookup asg k = Some v"
      using Cons.IH [OF inj, of ?acc] distinct_update [OF Cons.prems(2)] by blast
    have c: "lookup asg (sc_ClusterName c) = Some cla" using asg(5) by (simp add: lookup_put)
    have "\<exists>cla. lookup asg (sc_ClusterName d) = Some cla \<and> (lookup acc (sc_ClusterName d) = None \<longrightarrow> exact unique (view objs) d cla)"
      if d: "d \<in> set (c # cs)" for d
    proof (cases "sc_ClusterName d = sc_ClusterName c")
      case True
      then have "d = c" using inj_onD [OF Cons.prems(1) True] d by simp
      then show ?thesis using c ex by simp
    next
      case False
      then have "d \<in> set cs" using d by auto
      then show ?thesis using asg(4) False by (auto simp: lookup_put)
    qed
    moreover have "recalculate_loop (eps ord) objs (c # cs) acc = Some asg"
      using None lbs(2) asg(1) by (simp add: cla_def)
    moreover have "lookup asg k = Some v" if "lookup acc k = Some v" for k v
    proof -
      have "lookup ?acc k = Some v" using that None by (auto simp: lookup_put)
      then show ?thesis using asg(5) by blast
    qed
    moreover have "\<forall>k. k \<notin> sc_ClusterName ` set (c # cs) \<longrightarrow> lookup asg k = lookup acc k" using asg(3) by (auto simp: lookup_put)
    ultimately show ?thesis using asg(2) by blast
  qed
qed simp

lemma Recalculate_ok:
  assumes "fair ord" "safe (ec_objects cache)" "inj_on sc_ClusterName (set (ec_stale cache))"
  shows "\<exists>asg. Recalculate (eps ord) cache = Some (asg, cache\<lparr>ec_stale := []\<rparr>) \<and> wf_gomap asg \<and>
           dom (lookup asg) = sc_ClusterName ` set (ec_stale cache) \<and>
           (\<forall>c\<in>set (ec_stale cache). \<exists>cla. lookup asg (sc_ClusterName c) = Some cla \<and> exact unique (view (ec_objects cache)) c cla)"
proof -
  have "wf_gomap ([] :: (string, ClusterLoadAssignment) gomap)" by simp
  from recalculate_loop_ok [OF assms this] obtain asg where
    asg: "recalculate_loop (eps ord) (ec_objects cache) (ec_stale cache) [] = Some asg" "wf_gomap asg"
    "\<forall>k. k \<notin> sc_ClusterName ` set (ec_stale cache) \<longrightarrow> lookup asg k = None"
    "\<forall>c\<in>set (ec_stale cache). \<exists>cla. lookup asg (sc_ClusterName c) = Some cla \<and> exact unique (view (ec_objects cache)) c cla"
    unfolding map_of.simps by blast
  have "dom (lookup asg) = sc_ClusterName ` set (ec_stale cache)"
  proof (rule set_eqI)
    show "k \<in> dom (lookup asg) \<longleftrightarrow> k \<in> sc_ClusterName ` set (ec_stale cache)" for k
      using asg(3,4) by (cases "k \<in> sc_ClusterName ` set (ec_stale cache)") fastforce+
  qed
  moreover have "Recalculate (eps ord) cache = Some (asg, cache\<lparr>ec_stale := []\<rparr>)" using asg(1) by (simp add: Recalculate_def)
  ultimately show ?thesis using asg(2,4) by blast
qed

text \<open>An object of service \<open>n\<close> has changed.\<close>

lemma touch_ok:
  assumes ok: "translator_ok unique view0 clusters e" and "fair ord" "safe objs"
    and other: "\<And>m. m \<noteq> n \<Longrightarrow> view objs m = view0 m"
  shows "\<exists>e'. recalculate_and_notify (eps ord) (mark_stale n ((tr_cache e)\<lparr>ec_objects := objs\<rparr>)) e = Some e' \<and>
           translator_ok unique (view objs) clusters e' \<and> ec_objects (tr_cache e') = objs"
proof -
  let ?entry = "case lookup (ec_services (tr_cache e)) n of None \<Rightarrow> [] | Some l \<Rightarrow> l"
  let ?cache = "(tr_cache e)\<lparr>ec_objects := objs\<rparr>"
  have index: "c \<in> set ?entry \<longleftrightarrow> c \<in> set clusters \<and> n \<in> service_name ` set (sc_Services c)" for c
    using ok unfolding translator_ok_def index_ok_def by blast
  have same: "exact unique view0 c cla = exact unique (view objs) c cla" if "c \<in> set clusters" "c \<notin> set ?entry" for c cla
    using that index other by (intro exact_cong) (metis imageI)
  have mark: "mark_stale n ?cache = (?entry \<noteq> [], ?cache\<lparr>ec_stale := ?entry\<rparr>)"
    using ok by (auto simp: mark_stale_def translator_ok_def split: option.split)
  have names: "inj_on sc_ClusterName (set clusters)" using ok by (simp add: translator_ok_def distinct_map)
  show ?thesis
  proof (cases "?entry = []")
    case True
    then have "translator_ok unique (view objs) clusters (e\<lparr>tr_cache := ?cache\<lparr>ec_stale := []\<rparr>\<rparr>)"
      using ok same unfolding translator_ok_def by fastforce
    then show ?thesis using mark True by (simp add: recalculate_and_notify_def)
  next
    case False
    have "inj_on sc_ClusterName (set ?entry)" using index by (intro inj_on_subset [OF names]) blast
    then obtain asg where asg: "Recalculate (eps ord) (?cache\<lparr>ec_stale := ?entry\<rparr>) = Some (asg, ?cache\<lparr>ec_stale := []\<rparr>)" "wf_gomap asg"
      "dom (lookup asg) = sc_ClusterName ` set ?entry"
      "\<forall>c\<in>set ?entry. \<exists>cla. lookup asg (sc_ClusterName c) = Some cla \<and> exact unique (view objs) c cla"
      using Recalculate_ok [of ord "?cache\<lparr>ec_stale := ?entry\<rparr>"] assms(2,3) by auto
    let ?e = "Notify (Merge asg (e\<lparr>tr_cache := ?cache\<lparr>ec_stale := []\<rparr>\<rparr>))"
    have entries: "lookup (tr_entries ?e) k = (case lookup asg k of Some v \<Rightarrow> Some v | None \<Rightarrow> lookup (tr_entries e) k)" for k
      by (simp add: Notify_def Merge_def lookup_fold_put [OF asg(2)])
    have "\<exists>cla. lookup (tr_entries ?e) (sc_ClusterName c) = Some cla \<and> exact unique (view objs) c cla" if c: "c \<in> set clusters" for c
    proof (cases "c \<in> set ?entry")
      case True
      then show ?thesis using asg(4) by (fastforce simp: entries)
    next
      case False
      then have "sc_ClusterName c \<notin> sc_ClusterName ` set ?entry" using index c inj_onD [OF names] by blast
      then have "lookup asg (sc_ClusterName c) = None" using asg(3) by auto
      moreover obtain cla where "lookup (tr_entries e) (sc_ClusterName c) = Some cla" "exact unique view0 c cla"
        using ok c unfolding translator_ok_def by blast
      ultimately show ?thesis using same [OF c False] by (simp add: entries)
    qed
    moreover have "dom (lookup (tr_entries ?e)) = sc_ClusterName ` set clusters"
    proof -
      have "dom (lookup (tr_entries ?e)) = dom (lookup asg) \<union> dom (lookup (tr_entries e))"
      proof (rule set_eqI)
        show "k \<in> dom (lookup (tr_entries ?e)) \<longleftrightarrow> k \<in> dom (lookup asg) \<union> dom (lookup (tr_entries e))" for k
          unfolding Un_iff domIff entries by (cases "lookup asg k") simp_all
      qed
      moreover have "dom (lookup (tr_entries e)) = sc_ClusterName ` set clusters" using ok by (simp add: translator_ok_def)
      moreover have "set ?entry \<subseteq> set clusters" using index by blast
      ultimately show ?thesis using asg(3) image_mono [of "set ?entry" "set clusters" sc_ClusterName] by (simp add: Un_absorb1)
    qed
    moreover have "wf_gomap (tr_entries e)" using ok by (simp add: translator_ok_def)
    then have "wf_gomap (tr_entries ?e)" using gm.inv_fold_store [of "tr_entries e" asg] by (simp add: Notify_def Merge_def)
    ultimately have "translator_ok unique (view objs) clusters ?e"
      using ok by (simp add: translator_ok_def Notify_def Merge_def)
    then show ?thesis using mark False asg(1) by (simp add: recalculate_and_notify_def Notify_def Merge_def)
  qed
qed

text \<open>The DAG has changed.\<close>

lemma OnChange_ok:
  assumes "fair ord" "safe (ec_objects (tr_cache e))" "wf_gomap (tr_entries e)"
  shows "\<exists>e'. OnChange (eps ord) root e = Some e' \<and> translator_ok unique (view (ec_objects (tr_cache e))) (eds_clusters root) e' \<and>
           ec_objects (tr_cache e') = ec_objects (tr_cache e)"
proof -
  let ?cs = "select_clusters (GetServiceClusters root) [] []"
  have "\<forall>c\<in>set ?cs. is_ok (ServiceCluster_Validate c)" using select_clusters_ok [of "[]" "[]"] by simp
  then obtain index where set: "SetClusters ?cs (tr_cache e) = (None, (tr_cache e)\<lparr>ec_stale := eds_clusters root, ec_services := index\<rparr>)"
    and index: "index_ok (eds_clusters root) index"
    using SetClusters_ok [of ?cs "tr_cache e"] unfolding eds_clusters_def by blast
  let ?cache = "(tr_cache e)\<lparr>ec_stale := eds_clusters root, ec_services := index\<rparr>"
  have "inj_on sc_ClusterName (set (eds_clusters root))" using eds_clusters_names by (simp add: distinct_map)
  then obtain asg where asg: "Recalculate (eps ord) ?cache = Some (asg, ?cache\<lparr>ec_stale := []\<rparr>)" "wf_gomap asg"
    "dom (lookup asg) = sc_ClusterName ` set (eds_clusters root)"
    "\<forall>c\<in>set (eds_clusters root). \<exists>cla. lookup asg (sc_ClusterName c) = Some cla \<and> exact unique (view (ec_objects (tr_cache e))) c cla"
    using Recalculate_ok [of ord ?cache] assms by auto
  let ?e = "e\<lparr>tr_cache := ?cache\<lparr>ec_stale := []\<rparr>\<rparr>"
  have run: "OnChange (eps ord) root e = Some (if \<not> equal_entries (tr_entries e) asg then Notify (?e\<lparr>tr_entries := asg\<rparr>) else ?e)"
    by (simp add: OnChange_def set asg(1))
  have ok: "translator_ok unique (view (ec_objects (tr_cache e))) (eds_clusters root) e'"
    if "wf_gomap (tr_entries e')" "lookup (tr_entries e') = lookup asg" "tr_cache e' = ?cache\<lparr>ec_stale := []\<rparr>" for e'
    using that index asg(3,4) eds_clusters_names by (simp add: translator_ok_def)
  show ?thesis
  proof (cases "equal_entries (tr_entries e) asg")
    case True
    then have "lookup (tr_entries e) = lookup asg" by (rule equal_entries_lookup [OF assms(3) asg(2)])
    then have "translator_ok unique (view (ec_objects (tr_cache e))) (eds_clusters root) ?e" using assms(3) by (intro ok) simp_all
    then show ?thesis using run True by simp
  next
    case False
    have "translator_ok unique (view (ec_objects (tr_cache e))) (eds_clusters root) (Notify (?e\<lparr>tr_entries := asg\<rparr>))"
      using asg(2) by (intro ok) (simp_all add: Notify_def)
    then show ?thesis using run False by (simp add: Notify_def)
  qed
qed

end

section \<open>Runs of the translators\<close>

text \<open>
  The live objects, as the API server has them: endpoint slices by namespace and name.  A slice belongs to the service its label
  names.  The ready endpoints of a service are those of its live slices.
\<close>

type_synonym live_slices = "string \<times> string \<Rightarrow> EndpointSlice option"

definition live_ready :: "live_slices \<Rightarrow> NamespacedName \<Rightarrow> ready_endpoints" where
  "live_ready live n = \<Union>{slice_ready s |s k. live (nn_Namespace n, k) = Some s \<and> slice_service s = n}"

definition slice_key :: "EndpointSlice \<Rightarrow> string \<times> string" where
  "slice_key s = (es_Namespace s, es_Name s)"

definition fair_slices :: "(slice_map \<Rightarrow> slice_map) \<Rightarrow> bool" where
  "fair_slices ord \<longleftrightarrow> (\<forall>m. mset (ord m) = mset m)"

definition slices_safe :: "slice_objects \<Rightarrow> bool" where
  "slices_safe objs \<longleftrightarrow> (\<forall>n. wf_gomap (slices_of objs n) \<and> (\<forall>(k, s)\<in>set (slices_of objs n). addressed s))"

definition slices_view :: "slice_objects \<Rightarrow> NamespacedName \<Rightarrow> ready_endpoints" where
  "slices_view objs n = (\<Union>(k, s)\<in>set (slices_of objs n). slice_ready s)"

interpretation slices: endpoint_source slice_eps fair_slices slices_safe slices_view True
proof
  fix ord objs port hp n
  assume "fair_slices ord" "slices_safe objs"
  then have "mset (ord (slices_of objs n)) = mset (slices_of objs n)" "\<forall>(k, s)\<in>set (slices_of objs n). addressed s"
    by (simp_all add: fair_slices_def slices_safe_def)
  then show "\<exists>lb. slice_eps ord objs port hp n = Some lb \<and> load_balances True (slices_view objs n) port hp lb"
    unfolding slice_eps_def slices_view_def by (rule slice_RecalculateEndpoints_ok)
qed

definition endpoints_view :: "endpoint_objects \<Rightarrow> NamespacedName \<Rightarrow> ready_endpoints" where
  "endpoints_view objs n = core_ready (lookup objs n)"

interpretation endpoints: endpoint_source "\<lambda>_ :: unit. core_eps" "\<lambda>_. True" "\<lambda>_. True" endpoints_view False
  by unfold_locales (simp add: core_eps_def endpoints_view_def RecalculateEndpoints_ok)

subsection \<open>Endpoint slices\<close>

text \<open>
  A run of the slice translator: a sequence of DAG rebuilds and of events about live slices.  An update comes with the object that
  was live before, a slice stays with its service while it lives, and every endpoint has an address, as the API server
  guarantees; the object of a deletion may be outdated.
\<close>

inductive slice_run :: "live_slices \<Rightarrow> ServiceCluster list \<Rightarrow> slice_objects translator \<Rightarrow> bool" where
  start: "slice_run (\<lambda>_. None) [] NewEndpointSliceTranslator"
| rebuild: "slice_run live clusters e \<Longrightarrow> fair_slices ord \<Longrightarrow> EndpointSliceTranslator_OnChange ord root e = Some e' \<Longrightarrow>
    slice_run live (eds_clusters root) e'"
| add: "slice_run live clusters e \<Longrightarrow> fair_slices ord \<Longrightarrow> addressed s \<Longrightarrow>
    (\<And>t. live (slice_key s) = Some t \<Longrightarrow> slice_service t = slice_service s) \<Longrightarrow>
    EndpointSliceTranslator_OnAdd ord (EventObject s) e = Some e' \<Longrightarrow> slice_run (live(slice_key s \<mapsto> s)) clusters e'"
| update: "slice_run live clusters e \<Longrightarrow> fair_slices ord \<Longrightarrow> addressed s \<Longrightarrow> live (slice_key s) = Some old \<Longrightarrow>
    slice_service old = slice_service s \<Longrightarrow> (same \<Longrightarrow> s = old) \<Longrightarrow>
    EndpointSliceTranslator_OnUpdate ord same (EventObject old) (EventObject s) e = Some e' \<Longrightarrow> slice_run (live(slice_key s \<mapsto> s)) clusters e'"
| delete: "slice_run live clusters e \<Longrightarrow> fair_slices ord \<Longrightarrow> live (slice_key s) = Some old \<Longrightarrow> slice_service old = slice_service s \<Longrightarrow>
    obj = EventObject s \<or> obj = DeletedFinalStateUnknown (EventObject s) \<Longrightarrow>
    EndpointSliceTranslator_OnDelete ord obj e = Some e' \<Longrightarrow> slice_run (live(slice_key s := None)) clusters e'"

text \<open>The cached slices are the live ones, up to updates that were skipped because there are no endpoints.\<close>

definition cached :: "live_slices \<Rightarrow> slice_objects \<Rightarrow> bool" where
  "cached live objs \<longleftrightarrow>
     (\<forall>n k. rel_option (\<lambda>c s. slice_ready c = slice_ready s) (lookup (slices_of objs n) k)
        (case live (nn_Namespace n, k) of None \<Rightarrow> None | Some s \<Rightarrow> if slice_service s = n then Some s else None))"

lemma cached_view:
  assumes "cached live objs" "slices_safe objs"
  shows "slices_view objs n = live_ready live n"
proof -
  let ?live = "\<lambda>k. case live (nn_Namespace n, k) of None \<Rightarrow> None | Some s \<Rightarrow> if slice_service s = n then Some s else None"
  have rel: "rel_option (\<lambda>c s. slice_ready c = slice_ready s) (lookup (slices_of objs n) k) (?live k)" for k
    using assms(1) unfolding cached_def by blast
  have "wf_gomap (slices_of objs n)" using assms(2) by (simp add: slices_safe_def)
  then have mem: "(k, c) \<in> set (slices_of objs n) \<longleftrightarrow> lookup (slices_of objs n) k = Some c" for k c
    by (simp add: lookup_eq_iff)
  have live: "?live k = Some s \<longleftrightarrow> live (nn_Namespace n, k) = Some s \<and> slice_service s = n" for k s
    by (auto split: option.splits)
  show ?thesis
  proof (intro set_eqI iffI)
    fix x assume "x \<in> slices_view objs n"
    then obtain k c where c: "lookup (slices_of objs n) k = Some c" "x \<in> slice_ready c" by (auto simp: slices_view_def mem)
    then obtain s where "?live k = Some s" "slice_ready c = slice_ready s" using rel [of k] unfolding c(1) option_rel_Some1 by blast
    then show "x \<in> live_ready live n" using c(2) unfolding live live_ready_def by blast
  next
    fix x assume "x \<in> live_ready live n"
    then obtain k s where s: "?live k = Some s" "x \<in> slice_ready s" unfolding live_ready_def live by blast
    then obtain c where "lookup (slices_of objs n) k = Some c" "slice_ready c = slice_ready s"
      using rel [of k] unfolding s(1) option_rel_Some2 by blast
    then show "x \<in> slices_view objs n" using s(2) unfolding slices_view_def mem [symmetric] by blast
  qed
qed

text \<open>The live slice of a service, as the cache should have it.\<close>

definition live_slice :: "live_slices \<Rightarrow> NamespacedName \<Rightarrow> string \<Rightarrow> EndpointSlice option" where
  "live_slice live n k = (case live (nn_Namespace n, k) of None \<Rightarrow> None | Some s \<Rightarrow> if slice_service s = n then Some s else None)"

lemma cached_iff:
  "cached live objs \<longleftrightarrow> (\<forall>n k. rel_option (\<lambda>c s. slice_ready c = slice_ready s) (lookup (slices_of objs n) k) (live_slice live n k))"
  by (simp add: cached_def live_slice_def)

lemma live_slice_upd:
  assumes "\<And>t. live (slice_key s) = Some t \<Longrightarrow> slice_service t = slice_service s" "\<And>t. v = Some t \<Longrightarrow> slice_service t = slice_service s"
  shows "live_slice (live(slice_key s := v)) n k = (if n = slice_service s \<and> k = es_Name s then v else live_slice live n k)"
proof (cases "(nn_Namespace n, k) = slice_key s")
  case True
  then have "live_slice (live(slice_key s := v)) n k = (if n = slice_service s then v else None)"
    using assms(2) by (cases v) (auto simp: live_slice_def)
  moreover have "live_slice live n k = None" if "n \<noteq> slice_service s"
    using True assms(1) that by (cases "live (slice_key s)") (auto simp: live_slice_def)
  ultimately show ?thesis using True by (simp add: slice_key_def)
next
  case False
  then have not: "(n = slice_service s \<and> k = es_Name s) = False" by (auto simp: slice_key_def slice_service_def)
  from False show ?thesis unfolding not by (simp add: live_slice_def)
qed

lemma slice_map_sets:
  "set (put k v m) \<subseteq> insert (k, v) (set m)" "set (del k m) \<subseteq> set m" for m :: slice_map
  by (induction m) auto

lemma cached_upd:
  assumes "cached live objs"
    and "\<And>t. live (slice_key s) = Some t \<Longrightarrow> slice_service t = slice_service s" "\<And>t. v = Some t \<Longrightarrow> slice_service t = slice_service s"
    and "\<And>n k. lookup (slices_of objs' n) k = (if n = slice_service s \<and> k = es_Name s then v else lookup (slices_of objs n) k)"
  shows "cached (live(slice_key s := v)) objs'"
  unfolding cached_iff
proof (intro allI)
  fix n k
  have "rel_option (\<lambda>c s. slice_ready c = slice_ready s) (lookup (slices_of objs n) k) (live_slice live n k)"
    using assms(1) unfolding cached_iff by blast
  moreover have "rel_option (\<lambda>c s. slice_ready c = slice_ready s) v v" by (rule option.rel_refl) simp
  ultimately show "rel_option (\<lambda>c s. slice_ready c = slice_ready s) (lookup (slices_of objs' n) k) (live_slice (live(slice_key s := v)) n k)"
    unfolding assms(4) by (subst live_slice_upd) (use assms(2,3) in \<open>simp_all\<close>)
qed

lemma cached_put:
  assumes "cached live objs" "slices_safe objs" "addressed s"
    and same: "\<And>t. live (slice_key s) = Some t \<Longrightarrow> slice_service t = slice_service s"
    and objs': "\<And>n. slices_of objs' n = (if n = slice_service s then put (es_Name s) s (slices_of objs n) else slices_of objs n)"
  shows "cached (live(slice_key s \<mapsto> s)) objs' \<and> slices_safe objs'"
proof
  show "cached (live(slice_key s \<mapsto> s)) objs'"
    by (rule cached_upd [OF assms(1) same]) (auto simp: objs' lookup_put)
  have "wf_gomap (slices_of objs' n) \<and> (\<forall>x\<in>set (slices_of objs' n). addressed (snd x))" for n
  proof -
    have "wf_gomap (slices_of objs n)" "\<forall>x\<in>set (slices_of objs n). addressed (snd x)" using assms(2) by (simp_all add: slices_safe_def case_prod_beta)
    then show ?thesis
      using assms(3) slice_map_sets(1) [of "es_Name s" s "slices_of objs n"] distinct_update [of "slices_of objs n" "es_Name s" s]
      unfolding objs' by (cases "n = slice_service s") fastforce+
  qed
  then show "slices_safe objs'" by (simp add: slices_safe_def case_prod_beta)
qed

lemma cached_del:
  assumes "cached live objs" "slices_safe objs"
    and same: "\<And>t. live (slice_key s) = Some t \<Longrightarrow> slice_service t = slice_service s"
    and objs': "\<And>n. slices_of objs' n = (if n = slice_service s then del (es_Name s) (slices_of objs n) else slices_of objs n)"
  shows "cached (live(slice_key s := None)) objs' \<and> slices_safe objs'"
proof
  show "cached (live(slice_key s := None)) objs'"
    by (rule cached_upd [OF assms(1) same]) (auto simp: objs' lookup_del)
  have "wf_gomap (slices_of objs' n) \<and> (\<forall>x\<in>set (slices_of objs' n). addressed (snd x))" for n
  proof -
    have "wf_gomap (slices_of objs n)" "\<forall>x\<in>set (slices_of objs n). addressed (snd x)" using assms(2) by (simp_all add: slices_safe_def case_prod_beta)
    then show ?thesis
      using slice_map_sets(2) [of "es_Name s" "slices_of objs n"] distinct_delete [of "slices_of objs n" "es_Name s"]
      unfolding objs' by (cases "n = slice_service s") fastforce+
  qed
  then show "slices_safe objs'" by (simp add: slices_safe_def case_prod_beta)
qed

text \<open>What every run keeps.\<close>

definition run_ok :: "live_slices \<Rightarrow> ServiceCluster list \<Rightarrow> slice_objects translator \<Rightarrow> bool" where
  "run_ok live clusters e \<longleftrightarrow>
     translator_ok True (live_ready live) clusters e \<and> cached live (ec_objects (tr_cache e)) \<and> slices_safe (ec_objects (tr_cache e))"

lemma live_ready_other:
  assumes "n \<noteq> slice_service s" "\<And>t. live (slice_key s) = Some t \<Longrightarrow> slice_service t = slice_service s"
    and "live' = live(slice_key s := v)" "\<And>t. v = Some t \<Longrightarrow> slice_service t = slice_service s"
  shows "live_ready live' n = live_ready live n"
proof -
  have "live' (nn_Namespace n, k) = Some t \<and> slice_service t = n \<longleftrightarrow> live (nn_Namespace n, k) = Some t \<and> slice_service t = n" for t k
    using assms by (cases "(nn_Namespace n, k) = slice_key s") auto
  then show ?thesis unfolding live_ready_def by simp
qed

lemma touch_run:
  assumes ok: "run_ok live clusters e" and "fair_slices ord"
    and upd: "upd = mark_stale (slice_service s) ((tr_cache e)\<lparr>ec_objects := objs'\<rparr>)"
    and objs': "cached live' objs' \<and> slices_safe objs'"
    and live': "live' = live(slice_key s := v)" "\<And>t. v = Some t \<Longrightarrow> slice_service t = slice_service s"
    and same: "\<And>t. live (slice_key s) = Some t \<Longrightarrow> slice_service t = slice_service s"
  shows "\<exists>e'. recalculate_and_notify (slice_eps ord) upd e = Some e' \<and> run_ok live' clusters e'"
proof -
  have view: "slices_view objs' = live_ready live'" using objs' cached_view by blast
  have "slices_view objs' m = live_ready live m" if "m \<noteq> slice_service s" for m
    unfolding view by (rule live_ready_other [OF that same live'])
  moreover have "translator_ok True (live_ready live) clusters e" using ok by (simp add: run_ok_def)
  ultimately obtain e' where "recalculate_and_notify (slice_eps ord) upd e = Some e'" "translator_ok True (slices_view objs') clusters e'"
    "ec_objects (tr_cache e') = objs'"
    using slices.touch_ok [of "live_ready live" clusters e ord objs' "slice_service s"] assms(2) objs' unfolding upd by blast
  then show ?thesis using objs' unfolding run_ok_def view by blast
qed

lemma UpdateEndpointSlice_objects:
  "\<exists>objs'. UpdateEndpointSlice s c = mark_stale (slice_service s) (c\<lparr>ec_objects := objs'\<rparr>) \<and>
     (\<forall>n. slices_of objs' n = (if n = slice_service s then put (es_Name s) s (slices_of (ec_objects c) n) else slices_of (ec_objects c) n))"
  by (rule exI, rule conjI, simp only: UpdateEndpointSlice_def Let_def) (simp add: slices_of_def lookup_put)

lemma DeleteEndpointSlice_objects:
  "\<exists>objs'. DeleteEndpointSlice s c = mark_stale (slice_service s) (c\<lparr>ec_objects := objs'\<rparr>) \<and>
     (\<forall>n. slices_of objs' n = (if n = slice_service s then del (es_Name s) (slices_of (ec_objects c) n) else slices_of (ec_objects c) n))"
  by (rule exI, rule conjI, simp only: DeleteEndpointSlice_def Let_def) (simp add: slices_of_def lookup_put split: option.split)

lemma insert_run:
  assumes "run_ok live clusters e" "fair_slices ord" "addressed s"
    and same: "\<And>t. live (slice_key s) = Some t \<Longrightarrow> slice_service t = slice_service s"
  shows "\<exists>e'. recalculate_and_notify (slice_eps ord) (UpdateEndpointSlice s (tr_cache e)) e = Some e' \<and> run_ok (live(slice_key s \<mapsto> s)) clusters e'"
proof -
  obtain objs' where u: "UpdateEndpointSlice s (tr_cache e) = mark_stale (slice_service s) ((tr_cache e)\<lparr>ec_objects := objs'\<rparr>)"
    "\<And>n. slices_of objs' n = (if n = slice_service s then put (es_Name s) s (slices_of (ec_objects (tr_cache e)) n)
                            else slices_of (ec_objects (tr_cache e)) n)" using UpdateEndpointSlice_objects by blast
  have "cached live (ec_objects (tr_cache e))" "slices_safe (ec_objects (tr_cache e))" using assms(1) by (simp_all add: run_ok_def)
  from cached_put [OF this assms(3) same u(2)] show ?thesis
    by (intro touch_run [OF assms(1,2) u(1) _ refl]) (simp_all add: same)
qed

lemma remove_run:
  assumes "run_ok live clusters e" "fair_slices ord"
    and same: "\<And>t. live (slice_key s) = Some t \<Longrightarrow> slice_service t = slice_service s"
  shows "\<exists>e'. recalculate_and_notify (slice_eps ord) (DeleteEndpointSlice s (tr_cache e)) e = Some e' \<and> run_ok (live(slice_key s := None)) clusters e'"
proof -
  obtain objs' where u: "DeleteEndpointSlice s (tr_cache e) = mark_stale (slice_service s) ((tr_cache e)\<lparr>ec_objects := objs'\<rparr>)"
    "\<And>n. slices_of objs' n = (if n = slice_service s then del (es_Name s) (slices_of (ec_objects (tr_cache e)) n)
                            else slices_of (ec_objects (tr_cache e)) n)" using DeleteEndpointSlice_objects by blast
  have "cached live (ec_objects (tr_cache e))" "slices_safe (ec_objects (tr_cache e))" using assms(1) by (simp_all add: run_ok_def)
  from cached_del [OF this same u(2)] show ?thesis
    by (intro touch_run [OF assms(1,2) u(1) _ refl]) (simp_all add: same)
qed

text \<open>An update that is skipped: neither object has endpoints.\<close>

lemma skipped_run:
  assumes "run_ok live clusters e" "live (slice_key s) = Some old" "slice_service old = slice_service s" "slice_ready s = slice_ready old"
  shows "run_ok (live(slice_key s \<mapsto> s)) clusters e"
proof -
  let ?live = "live(slice_key s \<mapsto> s)"
  have live: "live_slice ?live n k = (if n = slice_service s \<and> k = es_Name s then Some s else live_slice live n k)" for n k
    by (rule live_slice_upd) (use assms(2,3) in simp_all)
  have "live_slice live (slice_service s) (es_Name s) = Some old"
    using assms(2,3) by (simp add: live_slice_def slice_key_def slice_service_def)
  moreover have c: "cached live (ec_objects (tr_cache e))" "slices_safe (ec_objects (tr_cache e))" using assms(1) by (simp_all add: run_ok_def)
  ultimately have old: "rel_option (\<lambda>c s. slice_ready c = slice_ready s) (lookup (slices_of (ec_objects (tr_cache e)) (slice_service s)) (es_Name s)) (Some old)"
    unfolding cached_iff by metis
  have "rel_option (\<lambda>c s. slice_ready c = slice_ready s) (lookup (slices_of (ec_objects (tr_cache e)) n) k) (live_slice ?live n k)" for n k
  proof (cases "n = slice_service s \<and> k = es_Name s")
    case True
    then have "live_slice ?live n k = Some s" unfolding live by simp
    then show ?thesis using True old assms(4) by (simp add: option_rel_Some2)
  next
    case False
    then have "live_slice ?live n k = live_slice live n k" unfolding live by (simp only: if_False)
    then show ?thesis using c(1) unfolding cached_iff by metis
  qed
  then have c': "cached ?live (ec_objects (tr_cache e))" unfolding cached_iff by blast
  have "live_ready ?live = live_ready live" using cached_view [OF c] cached_view [OF c' c(2)] by (simp add: fun_eq_iff)
  then show ?thesis using assms(1) c' by (simp add: run_ok_def)
qed

lemma slice_run_ok: "slice_run live clusters e \<Longrightarrow> run_ok live clusters e"
proof (induction rule: slice_run.induct)
  case start
  show ?case
    by (simp add: run_ok_def NewEndpointSliceTranslator_def translator_ok_def index_ok_def cached_iff live_slice_def slices_of_def slices_safe_def)
next
  case (rebuild live clusters e ord root e')
  then have ok: "slices_safe (ec_objects (tr_cache e))" "wf_gomap (tr_entries e)" "cached live (ec_objects (tr_cache e))"
    by (simp_all add: run_ok_def translator_ok_def)
  then have "slices_view (ec_objects (tr_cache e)) = live_ready live" using cached_view by blast
  with slices.OnChange_ok [OF rebuild(2) ok(1,2), of root] rebuild(3) ok show ?case
    by (auto simp: EndpointSliceTranslator_OnChange_def run_ok_def)
next
  case (add live clusters e ord s e')
  have "recalculate_and_notify (slice_eps ord) (UpdateEndpointSlice s (tr_cache e)) e = Some e'"
    using add(5) by (simp add: EndpointSliceTranslator_OnAdd_def)
  with insert_run [OF add.IH add(2,3,4)] show ?case by (metis option.sel)
next
  case (update live clusters e ord s old same e')
  show ?case
  proof (cases "same \<or> length (es_Endpoints old) = 0 \<and> length (es_Endpoints s) = 0")
    case True
    then have "slice_ready s = slice_ready old" using update(6) by (auto simp: slice_ready_def)
    moreover have "e' = e" using True update(7) by (cases same) (simp_all add: EndpointSliceTranslator_OnUpdate_def)
    ultimately show ?thesis using skipped_run [OF update.IH update(4,5)] by metis
  next
    case False
    then have "recalculate_and_notify (slice_eps ord) (UpdateEndpointSlice s (tr_cache e)) e = Some e'"
      using update(7) by (cases same) (simp_all add: EndpointSliceTranslator_OnUpdate_def split: if_splits)
    moreover have "slice_service t = slice_service s" if "live (slice_key s) = Some t" for t using that update(4,5) by simp
    ultimately show ?thesis using insert_run [OF update.IH update(2,3)] by (metis option.sel)
  qed
next
  case (delete live clusters e ord s old obj e')
  have "recalculate_and_notify (slice_eps ord) (DeleteEndpointSlice s (tr_cache e)) e = Some e'" using delete(5,6) by auto
  moreover have "slice_service t = slice_service s" if "live (slice_key s) = Some t" for t using that delete(3,4) by simp
  ultimately show ?case using remove_run [OF delete.IH delete(2)] by (metis option.sel)
qed


subsection \<open>Endpoints\<close>

type_synonym live_endpoints = "NamespacedName \<Rightarrow> CoreEndpoints option"

inductive endpoints_run :: "live_endpoints \<Rightarrow> ServiceCluster list \<Rightarrow> endpoint_objects translator \<Rightarrow> bool" where
  start: "endpoints_run (\<lambda>_. None) [] NewEndpointsTranslator"
| rebuild: "endpoints_run live clusters e \<Longrightarrow> EndpointsTranslator_OnChange root e = Some e' \<Longrightarrow> endpoints_run live (eds_clusters root) e'"
| add: "endpoints_run live clusters e \<Longrightarrow> EndpointsTranslator_OnAdd (EventObject eps) e = Some e' \<Longrightarrow>
    endpoints_run (live(endpoints_name eps \<mapsto> eps)) clusters e'"
| update: "endpoints_run live clusters e \<Longrightarrow> live (endpoints_name eps) = Some old \<Longrightarrow> (same \<Longrightarrow> eps = old) \<Longrightarrow>
    EndpointsTranslator_OnUpdate same (EventObject old) (EventObject eps) e = Some e' \<Longrightarrow>
    endpoints_run (live(endpoints_name eps \<mapsto> eps)) clusters e'"
| delete: "endpoints_run live clusters e \<Longrightarrow> obj = EventObject eps \<or> obj = DeletedFinalStateUnknown (EventObject eps) \<Longrightarrow>
    EndpointsTranslator_OnDelete obj e = Some e' \<Longrightarrow> endpoints_run (live(endpoints_name eps := None)) clusters e'"

definition endpoints_ok :: "live_endpoints \<Rightarrow> ServiceCluster list \<Rightarrow> endpoint_objects translator \<Rightarrow> bool" where
  "endpoints_ok live clusters e \<longleftrightarrow>
     translator_ok False (\<lambda>n. core_ready (live n)) clusters e \<and>
     (\<forall>n. core_ready (lookup (ec_objects (tr_cache e)) n) = core_ready (live n))"

lemma touch_endpoints:
  assumes "endpoints_ok live clusters e" "\<And>n. lookup objs' n = (if n = m then v else lookup (ec_objects (tr_cache e)) n)"
  shows "\<exists>e'. recalculate_and_notify core_eps (mark_stale m ((tr_cache e)\<lparr>ec_objects := objs'\<rparr>)) e = Some e' \<and> endpoints_ok (live(m := v)) clusters e'"
proof -
  have view: "endpoints_view objs' = (\<lambda>n. core_ready ((live(m := v)) n))"
    using assms by (auto simp: endpoints_view_def endpoints_ok_def fun_eq_iff)
  have "endpoints_view objs' n = core_ready (live n)" if "n \<noteq> m" for n using that unfolding view by simp
  moreover have "translator_ok False (\<lambda>n. core_ready (live n)) clusters e" using assms(1) by (simp add: endpoints_ok_def)
  ultimately obtain e' where "recalculate_and_notify core_eps (mark_stale m ((tr_cache e)\<lparr>ec_objects := objs'\<rparr>)) e = Some e'"
    "translator_ok False (endpoints_view objs') clusters e'" "ec_objects (tr_cache e') = objs'"
    using endpoints.touch_ok [where objs = objs' and n = m] by blast
  moreover have "core_ready (lookup objs' n) = core_ready ((live(m := v)) n)" for n using fun_cong [OF view, of n] by (simp add: endpoints_view_def)
  ultimately show ?thesis unfolding endpoints_ok_def view by metis
qed

lemma update_endpoints:
  assumes "endpoints_ok live clusters e"
  shows "\<exists>e'. recalculate_and_notify core_eps (UpdateEndpoint eps (tr_cache e)) e = Some e' \<and> endpoints_ok (live(endpoints_name eps \<mapsto> eps)) clusters e'"
    "\<exists>e'. recalculate_and_notify core_eps (DeleteEndpoint eps (tr_cache e)) e = Some e' \<and> endpoints_ok (live(endpoints_name eps := None)) clusters e'"
  unfolding UpdateEndpoint_def DeleteEndpoint_def by (rule touch_endpoints [OF assms]; simp add: lookup_put lookup_del)+

lemma rebuild_endpoints:
  assumes "endpoints_ok live clusters e"
  shows "\<exists>e'. EndpointsTranslator_OnChange root e = Some e' \<and> endpoints_ok live (eds_clusters root) e'"
proof -
  have view: "endpoints_view (ec_objects (tr_cache e)) = (\<lambda>n. core_ready (live n))"
    using assms by (simp add: endpoints_ok_def endpoints_view_def fun_eq_iff)
  have "wf_gomap (tr_entries e)" using assms by (simp add: endpoints_ok_def translator_ok_def)
  from endpoints.OnChange_ok [OF TrueI TrueI this, of root] show ?thesis
    using assms unfolding view EndpointsTranslator_OnChange_def endpoints_ok_def by metis
qed

lemma endpoints_run_ok: "endpoints_run live clusters e \<Longrightarrow> endpoints_ok live clusters e"
proof (induction rule: endpoints_run.induct)
  case start
  show ?case by (simp add: endpoints_ok_def NewEndpointsTranslator_def translator_ok_def index_ok_def)
next
  case (rebuild live clusters e root e')
  then show ?case using rebuild_endpoints by (metis option.sel)
next
  case (add live clusters e eps e')
  have "recalculate_and_notify core_eps (UpdateEndpoint eps (tr_cache e)) e = Some e'" using add(2) by (simp add: EndpointsTranslator_OnAdd_def)
  with update_endpoints(1) [OF add.IH, of eps] show ?case by (metis option.sel)
next
  case (update live clusters e eps old same e')
  show ?case
  proof (cases "same \<or> length (eps_Subsets old) = 0 \<and> length (eps_Subsets eps) = 0")
    case True
    then have e: "e' = e" using update(4) by (cases same) (simp_all add: EndpointsTranslator_OnUpdate_def)
    have "core_ready (Some eps) = core_ready (Some old)" using True update(3) by (auto simp: core_ready_def)
    then have "(\<lambda>n. core_ready ((live(endpoints_name eps \<mapsto> eps)) n)) = (\<lambda>n. core_ready (live n))" using update(2) by (auto simp: fun_eq_iff)
    then show ?thesis using update.IH e unfolding endpoints_ok_def by metis
  next
    case False
    then have "recalculate_and_notify core_eps (UpdateEndpoint eps (tr_cache e)) e = Some e'"
      using update(4) by (cases same) (simp_all add: EndpointsTranslator_OnUpdate_def split: if_splits)
    with update_endpoints(1) [OF update.IH, of eps] show ?thesis by (metis option.sel)
  qed
next
  case (delete live clusters e obj eps e')
  have "recalculate_and_notify core_eps (DeleteEndpoint eps (tr_cache e)) e = Some e'" using delete(2,3) by auto
  with update_endpoints(2) [OF delete.IH, of eps] show ?case by (metis option.sel)
qed

text \<open>
  C9. The load assignments served for Endpoints objects are exact, after any sequence of DAG rebuilds and events: the served clusters are those of
  the last DAG, and each has one locality for each of its services with ready endpoints, the addresses and matching TCP ports
  of the service's live object.  Unlike with slices, an endpoint that occurs twice in the object is served twice.
\<close>

theorem endpoints_translator_exact:
  assumes "endpoints_run live clusters e"
  shows "dom (lookup (tr_entries e)) = sc_ClusterName ` set clusters \<and>
         (\<forall>c\<in>set clusters. \<exists>cla. lookup (tr_entries e) (sc_ClusterName c) = Some cla \<and> exact False (\<lambda>n. core_ready (live n)) c cla) \<and>
         (\<forall>root eps. EndpointsTranslator_OnChange root e \<noteq> None \<and> EndpointsTranslator_OnAdd (EventObject eps) e \<noteq> None)"
proof -
  have ok: "endpoints_ok live clusters e" using assms by (rule endpoints_run_ok)
  have "EndpointsTranslator_OnChange root e \<noteq> None \<and> EndpointsTranslator_OnAdd (EventObject eps) e \<noteq> None" for root eps
    using rebuild_endpoints [OF ok, of root] update_endpoints(1) [OF ok, of eps] by (auto simp: EndpointsTranslator_OnAdd_def)
  moreover have "dom (lookup (tr_entries e)) = sc_ClusterName ` set clusters"
    "\<forall>c\<in>set clusters. \<exists>cla. lookup (tr_entries e) (sc_ClusterName c) = Some cla \<and> exact False (\<lambda>n. core_ready (live n)) c cla"
    using ok unfolding endpoints_ok_def translator_ok_def by blast+
  ultimately show ?thesis by metis
qed

section \<open>Witnesses\<close>

definition eds_cluster :: ServiceCluster where
  "eds_cluster = \<lparr>sc_ClusterName = ''ns/svc'', sc_Services = [zero_WeightedService\<lparr>ws_Weight := 1, ws_ServiceName := ''svc'', ws_ServiceNamespace := ''ns''\<rparr>]\<rparr>"

definition eds_dag :: DAG where
  "eds_dag = (new_DAG empty_cache)\<lparr>dag_ExtensionClusters := [zero_ExtensionCluster\<lparr>ec_Upstream := eds_cluster\<rparr>]\<rparr>"

lemma eds_clusters_sample: "eds_clusters eds_dag = [eds_cluster]"
proof -
  have "GetServiceClusters eds_dag = [eds_cluster]"
    by (simp add: GetServiceClusters_def GetClusters_def eds_dag_def new_DAG_def map_values_def zero_ExtensionCluster_def)
  moreover have "is_ok (ServiceCluster_Validate eds_cluster)" by (simp add: ServiceCluster_Validate_def eds_cluster_def zero_WeightedService_def)
  moreover have "Rebalance eds_cluster = eds_cluster" by (simp add: Rebalance_def weight_sum_def eds_cluster_def)
  ultimately show ?thesis by (simp add: eds_clusters_def)
qed

definition sample_slice :: EndpointSlice where
  "sample_slice = \<lparr>es_Namespace = ''ns'', es_Name = ''svc-1'', es_Labels = [(''kubernetes.io/service-name'', ''svc'')],
     es_Endpoints = [\<lparr>sep_Addresses = [''10.0.0.1''], sep_Ready = None\<rparr>],
     es_Ports = [\<lparr>epp_Name = None, epp_Port = Some 8080, epp_Protocol = Some ''TCP''\<rparr>]\<rparr>"


theorem endpoints_translator_exact_witness:
  "\<exists>e. endpoints_run (\<lambda>_. None) [eds_cluster] e \<and> lookup (tr_entries e) ''ns/svc'' \<noteq> None"
proof -
  obtain e where e: "EndpointsTranslator_OnChange eds_dag NewEndpointsTranslator = Some e"
    using endpoints_translator_exact [OF endpoints_run.start] by (meson not_None_eq)
  from endpoints_run.rebuild [OF endpoints_run.start e] have run: "endpoints_run (\<lambda>_. None) [eds_cluster] e" by (simp add: eds_clusters_sample)
  have "sc_ClusterName eds_cluster = ''ns/svc''" by (simp add: eds_cluster_def)
  with endpoints_translator_exact [OF run] run show ?thesis by (metis list.set_intros(1) option.distinct(1))
qed

end
