(* ===== verification/Proxy_Termination.thy ===== *)
theory Proxy_Termination
  imports HTTP_Proxy_Run
begin

text \<open>
  How deep the recursion over the includes of HTTPProxies goes.  \<open>computeRoutes_fuel\<close> is \<open>computeRoutes\<close> of
  \<open>internal/dag/httpproxy_processor.go\<close> with a bound on the depth of its calls: None when the bound is reached.
\<close>

type_synonym routes_result = "DetailedCondition \<times> ProxyState \<times> Route list"

text \<open>The loop over the includes; the call for an included proxy is the argument.\<close>

fun include_loop_fuel ::
  "(HTTPProxy \<Rightarrow> MatchCondition_v1 list \<Rightarrow> DetailedCondition \<Rightarrow> ProxyState \<Rightarrow> routes_result option) \<Rightarrow> route_env \<Rightarrow> HTTPProxy
     \<Rightarrow> MatchCondition_v1 list \<Rightarrow> Include list \<Rightarrow> seenConds \<Rightarrow> Route list \<Rightarrow> DetailedCondition \<Rightarrow> ProxyState \<Rightarrow> routes_result option" where
  "include_loop_fuel call env proxy conditions [] seenConds routes validCond st = Some (validCond, st, routes)"
| "include_loop_fuel call env proxy conditions (include # includes) seenConds routes validCond st =
     (case include_check env proxy include seenConds routes validCond of
        (validCond, seenConds, IncludeSkip routes) \<Rightarrow>
          include_loop_fuel call env proxy conditions includes seenConds routes validCond st
      | (validCond, seenConds, IncludeProxy includedProxy) \<Rightarrow>
          (case ConditionFor (ProxyAccessor (lib_now (re_lib env)) includedProxy) ValidCondition of
             (incValidCond, inc) \<Rightarrow>
               (case call includedProxy (conditions @ inc_Conditions include) incValidCond st of
                  None \<Rightarrow> None
                | Some (incValidCond, st, included) \<Rightarrow>
                    let st = commit_update (with_valid incValidCond inc) st;
                        st = st\<lparr>ps_orphaned := del (px_NamespacedName includedProxy) (ps_orphaned st)\<rparr>
                    in include_loop_fuel call env proxy conditions includes seenConds (routes @ included) validCond st)))"

primrec computeRoutes_fuel ::
  "nat \<Rightarrow> route_env \<Rightarrow> HTTPProxy \<Rightarrow> MatchCondition_v1 list \<Rightarrow> HTTPProxy list \<Rightarrow> DetailedCondition \<Rightarrow> ProxyState \<Rightarrow> routes_result option" where
  "computeRoutes_fuel 0 env proxy conditions visited validCond st = None"
| "computeRoutes_fuel (Suc fuel) env proxy conditions visited validCond st =
     (if px_NamespacedName proxy \<in> set (map px_NamespacedName visited) then
        Some (AddError ConditionTypeIncludeError ''IncludeCreatesCycle''
           (''include creates an include cycle: '' @ cycle_path visited proxy) validCond, st, [])
      else
        (case include_loop_fuel (\<lambda>q conditions validCond st. computeRoutes_fuel fuel env q conditions (visited @ [proxy]) validCond st)
                env proxy conditions (spec_Includes (px_Spec proxy)) [] [] validCond st of
           None \<Rightarrow> None
         | Some (validCond, st, routes) \<Rightarrow>
             (case compute_routes_loop (re_lib env) (re_cache env) (re_proc env) (re_vh env) proxy conditions (re_enforceTLS env)
                     (re_jwt env) (spec_Routes (px_Spec proxy)) [(''CONTOUR_NAMESPACE'', px_Namespace proxy)] routes validCond of
                (validCond, None) \<Rightarrow> Some (validCond, st, [])
              | (validCond, Some routes) \<Rightarrow> Some (validCond, st, expandPrefixMatches (re_order env) routes))))"

text \<open>The fuel a call needs: one for the answer to a cycle, otherwise the proxies not visited yet and two.\<close>

definition depth_needed :: "route_env \<Rightarrow> HTTPProxy \<Rightarrow> HTTPProxy list \<Rightarrow> nat" where
  "depth_needed env proxy visited =
     (if px_NamespacedName proxy \<in> set (map px_NamespacedName visited) then 1
      else unvisited (re_cache env) (visited @ [proxy]) + 2)"

lemma depth_needed_less:
  assumes "px_NamespacedName proxy \<notin> set (map px_NamespacedName visited)" "q \<in> set (map_values (kc_httpproxies (re_cache env)))"
  shows "depth_needed env q (visited @ [proxy]) < depth_needed env proxy visited"
proof (cases "px_NamespacedName q \<in> px_NamespacedName ` set (visited @ [proxy])")
  case True
  then show ?thesis using assms(1) by (simp add: depth_needed_def)
next
  case False
  from unvisited_less [OF assms(2) False] show ?thesis using assms(1) False by (simp add: depth_needed_def)
qed

lemma include_loop_fuel_eq:
  assumes "\<And>q conds vc st. q \<in> set (map_values (kc_httpproxies (re_cache env))) \<Longrightarrow>
      call q conds vc st = Some (computeRoutes env q conds visited vc st)"
  shows "include_loop_fuel call env proxy conds incs seen routes vc st =
      Some (include_loop env proxy conds visited incs seen routes vc st)"
proof (induction incs arbitrary: seen routes vc st)
  case (Cons inc incs)
  obtain vc1 seen1 step where check: "include_check env proxy inc seen routes vc = (vc1, seen1, step)" by (metis prod.exhaust)
  show ?case
  proof (cases step)
    case (IncludeSkip rs)
    then show ?thesis using Cons.IH check by simp
  next
    case (IncludeProxy q)
    have q: "q \<in> set (map_values (kc_httpproxies (re_cache env)))" using include_check_proxy check IncludeProxy by blast
    obtain ivc pu where cond: "ConditionFor (ProxyAccessor (lib_now (re_lib env)) q) ValidCondition = (ivc, pu)" by (rule prod.exhaust)
    obtain vc2 st2 rs where rec: "computeRoutes env q (conds @ inc_Conditions inc) visited ivc st = (vc2, st2, rs)" by (metis prod.exhaust)
    show ?thesis
      using Cons.IH assms [OF q] rec
      by (simp add: check IncludeProxy cond Let_def del: computeRoutes.simps)
  qed
qed simp

lemma computeRoutes_fuel_eq:
  "depth_needed env proxy visited \<le> fuel \<Longrightarrow>
   computeRoutes_fuel fuel env proxy conds visited vc st = Some (computeRoutes env proxy conds visited vc st)"
proof (induction fuel arbitrary: proxy conds visited vc st)
  case 0
  then show ?case by (simp add: depth_needed_def split: if_splits)
next
  case (Suc fuel)
  show ?case
  proof (cases "px_NamespacedName proxy \<in> set (map px_NamespacedName visited)")
    case True
    then show ?thesis by (simp only: computeRoutes_fuel.simps computeRoutes.simps if_True)
  next
    case False
    let ?call = "\<lambda>q conditions validCond st. computeRoutes_fuel fuel env q conditions (visited @ [proxy]) validCond st"
    have call: "?call q cs vc st = Some (computeRoutes env q cs (visited @ [proxy]) vc st)"
      if "q \<in> set (map_values (kc_httpproxies (re_cache env)))" for q cs vc st
      using depth_needed_less [OF False that] Suc.prems by (intro Suc.IH) simp
    obtain vc1 st1 rs where l: "include_loop env proxy conds (visited @ [proxy]) (spec_Includes (px_Spec proxy)) [] [] vc st = (vc1, st1, rs)"
      by (metis prod.exhaust)
    have loop: "include_loop_fuel ?call env proxy conds (spec_Includes (px_Spec proxy)) [] [] vc st = Some (vc1, st1, rs)"
      using include_loop_fuel_eq [where call = ?call and visited = "visited @ [proxy]", OF call] by (simp only: l)
    obtain vc2 res where r: "compute_routes_loop (re_lib env) (re_cache env) (re_proc env) (re_vh env) proxy conds (re_enforceTLS env)
        (re_jwt env) (spec_Routes (px_Spec proxy)) [(''CONTOUR_NAMESPACE'', px_Namespace proxy)] rs vc1 = (vc2, res)" by (rule prod.exhaust)
    show ?thesis
      by (cases res) (simp_all only: computeRoutes_fuel.simps computeRoutes.simps loop l False if_False option.case prod.case r)
  qed
qed

lemma depth_needed_bound: "depth_needed env proxy visited \<le> length (kc_httpproxies (re_cache env)) + 2"
proof -
  have "unvisited (re_cache env) visited' \<le> length (kc_httpproxies (re_cache env))" for visited'
  proof -
    have "unvisited (re_cache env) visited' \<le> card (px_NamespacedName ` set (map_values (kc_httpproxies (re_cache env))))"
      unfolding unvisited_def by (rule card_mono) auto
    also have "\<dots> \<le> length (kc_httpproxies (re_cache env))"
      by (metis card_image_le card_length finite_set le_trans length_map map_values_def)
    finally show ?thesis .
  qed
  then show ?thesis by (simp add: depth_needed_def)
qed

text \<open>C18. The recursion over includes ends, for any HTTPProxies, also those that include each other or themselves: calls of \<open>computeRoutes\<close>
  are never nested deeper than the number of proxies in the cache and two.  With this bound on the depth the computation returns,
  and returns the result of \<open>computeRoutes\<close>.\<close>

theorem computeRoutes_terminates:
  assumes "fuel \<ge> length (kc_httpproxies (re_cache env)) + 2"
  shows "computeRoutes_fuel fuel env proxy conditions visited validCond st = Some (computeRoutes env proxy conditions visited validCond st)"
  using depth_needed_bound assms by (intro computeRoutes_fuel_eq) (rule order_trans)

text \<open>A proxy that includes itself.\<close>

definition self_proxy :: HTTPProxy where
  "self_proxy = zero_HTTPProxy\<lparr>px_Name := ''loop'', px_Namespace := ''app'',
     px_Spec := zero_HTTPProxySpec\<lparr>spec_Includes := [zero_Include\<lparr>inc_Name := ''loop''\<rparr>]\<rparr>\<rparr>"

definition self_cache :: KubernetesCache where
  "self_cache = empty_cache\<lparr>kc_httpproxies := [(\<lparr>nn_Namespace = ''app'', nn_Name = ''loop''\<rparr>, self_proxy)]\<rparr>"

theorem computeRoutes_terminates_witness:
  "computeRoutes_fuel 3 (sample_env\<lparr>re_cache := self_cache\<rparr>) self_proxy [] [] sample_cond sample_state =
     Some (computeRoutes (sample_env\<lparr>re_cache := self_cache\<rparr>) self_proxy [] [] sample_cond sample_state)"
  by (rule computeRoutes_terminates) (simp add: self_cache_def)

end
