(* ===== verification/Xds_Stream.thy ===== *)
theory Xds_Stream
  imports Prelude
begin

text \<open>
  The condition variable of \<open>internal/contour/cond.go\<close>, through which the caches wake the xDS streams, and the streams of Contour's own xDS
  server, \<open>internal/xds/v3/contour.go\<close>.  A channel is a number; what is sent to channels is returned as a list.  The messages of a
  resource and their encoding come from the protobuf library and are arguments.
\<close>

section \<open>The condition variable\<close>

record waiter =
  wt_ch :: nat
  wt_hints :: "string list"

record Cond =
  cond_waiters :: "waiter list"
  cond_last :: int

definition new_Cond :: Cond where "new_Cond = \<lparr>cond_waiters = [], cond_last = 0\<rparr>"

definition intersection :: "string list \<Rightarrow> string list \<Rightarrow> bool" where
  "intersection left right = (\<exists>l\<in>set left. \<exists>r\<in>set right. l = r)"

definition Register :: "nat \<Rightarrow> int \<Rightarrow> string list \<Rightarrow> Cond \<Rightarrow> Cond \<times> (nat \<times> int) list" where
  "Register ch seen hints c =
     (if seen < cond_last c then (c, [(ch, cond_last c)])
      else (c\<lparr>cond_waiters := cond_waiters c @ [\<lparr>wt_ch = ch, wt_hints = hints\<rparr>]\<rparr>, []))"

fun notify_loop :: "string list \<Rightarrow> int \<Rightarrow> waiter list \<Rightarrow> waiter list \<times> (nat \<times> int) list" where
  "notify_loop hints version [] = ([], [])"
| "notify_loop hints version (w # ws) =
     (let (kept, sent) = notify_loop hints version ws in
      if length hints = 0 then (kept, (wt_ch w, version) # sent)
      else if intersection hints (wt_hints w) then (kept, (wt_ch w, version) # sent)
      else (w # kept, sent))"

definition Cond_Notify :: "string list \<Rightarrow> Cond \<Rightarrow> Cond \<times> (nat \<times> int) list" where
  "Cond_Notify hints c =
     (let version = cond_last c + 1; (kept, sent) = notify_loop hints version (cond_waiters c)
      in (\<lparr>cond_waiters = kept, cond_last = version\<rparr>, sent))"

section \<open>No wake-up is lost\<close>

datatype cond_op = RegisterOp nat int "string list" | NotifyOp "string list"

fun cond_step :: "cond_op \<Rightarrow> Cond \<Rightarrow> Cond \<times> (nat \<times> int) list" where
  "cond_step (RegisterOp ch seen hints) c = Register ch seen hints c"
| "cond_step (NotifyOp hints) c = Cond_Notify hints c"

fun cond_run :: "cond_op list \<Rightarrow> Cond \<Rightarrow> Cond \<times> (nat \<times> int) list" where
  "cond_run [] c = (c, [])"
| "cond_run (op # ops) c = (let (c, sent) = cond_step op c; (c, sent') = cond_run ops c in (c, sent @ sent'))"

definition sends_to :: "nat \<Rightarrow> (nat \<times> int) list \<Rightarrow> int list" where
  "sends_to ch sent = map snd (filter (\<lambda>(c, _). c = ch) sent)"

definition registers :: "nat \<Rightarrow> cond_op \<Rightarrow> bool" where
  "registers ch op \<longleftrightarrow> (\<exists>seen hints. op = RegisterOp ch seen hints)"

definition waits :: "nat \<Rightarrow> Cond \<Rightarrow> bool" where
  "waits ch c \<longleftrightarrow> ch \<in> wt_ch ` set (cond_waiters c)"

text \<open>The number of the first notification that concerns a waiter, counted on from \<open>n\<close>.\<close>

fun first_relevant :: "int \<Rightarrow> string list \<Rightarrow> cond_op list \<Rightarrow> int option" where
  "first_relevant n hints [] = None"
| "first_relevant n hints (RegisterOp _ _ _ # ops) = first_relevant n hints ops"
| "first_relevant n hints (NotifyOp hs # ops) =
     (if hs = [] \<or> set hs \<inter> set hints \<noteq> {} then Some (n + 1) else first_relevant (n + 1) hints ops)"

definition notified :: "string list \<Rightarrow> waiter \<Rightarrow> bool" where
  "notified hints w \<longleftrightarrow> hints = [] \<or> set hints \<inter> set (wt_hints w) \<noteq> {}"

lemma notify_loop_eq:
  "notify_loop hints version ws = (filter (\<lambda>w. \<not> notified hints w) ws, map (\<lambda>w. (wt_ch w, version)) (filter (notified hints) ws))"
proof (induction ws)
  case (Cons w ws)
  have "intersection hints (wt_hints w) \<longleftrightarrow> set hints \<inter> set (wt_hints w) \<noteq> {}" by (auto simp: intersection_def)
  then show ?case using Cons by (simp add: notified_def Let_def)
qed simp

lemma sends_to_simps [simp]:
  "sends_to ch [] = []" "sends_to ch ((c, v) # sent) = (if c = ch then v # sends_to ch sent else sends_to ch sent)"
  "sends_to ch (xs @ ys) = sends_to ch xs @ sends_to ch ys"
  by (simp_all add: sends_to_def)

lemma sends_to_waiters: "sends_to ch (map (\<lambda>w. (wt_ch w, n)) ws) = replicate (length (filter (\<lambda>w. wt_ch w = ch) ws)) n"
  by (induction ws) simp_all

text \<open>A channel that is not registered stays silent.\<close>

lemma silent:
  "\<not> waits ch c \<Longrightarrow> \<forall>op\<in>set ops. \<not> registers ch op \<Longrightarrow> cond_run ops c = (c', sent) \<Longrightarrow> sends_to ch sent = [] \<and> \<not> waits ch c'"
proof (induction ops arbitrary: c sent)
  case (Cons op ops)
  obtain c1 s1 where one: "cond_step op c = (c1, s1)" by (rule prod.exhaust)
  obtain s2 where two: "cond_run ops c1 = (c', s2)" "sent = s1 @ s2" using Cons.prems(3) one by (auto simp: Let_def split: prod.splits)
  have "sends_to ch s1 = [] \<and> \<not> waits ch c1"
    using one Cons.prems(1,2)
    by (cases op) (auto simp: Register_def Cond_Notify_def Let_def notify_loop_eq waits_def registers_def sends_to_waiters filter_empty_conv split: if_splits)
  then show ?case using Cons.IH [OF _ _ two(1)] Cons.prems(2) two(2) by simp
qed simp

text \<open>A waiter that is registered once gets the number of the first notification for it, and nothing else.\<close>

definition lone :: "nat \<Rightarrow> string list \<Rightarrow> Cond \<Rightarrow> bool" where
  "lone ch hints c \<longleftrightarrow> filter (\<lambda>w. wt_ch w = ch) (cond_waiters c) = [\<lparr>wt_ch = ch, wt_hints = hints\<rparr>]"

lemma filter_swap: "filter P (filter Q xs) = filter Q (filter P xs)"
  by (simp add: conj_commute)

lemma woken:
  "lone ch hints c \<Longrightarrow> \<forall>op\<in>set ops. \<not> registers ch op \<Longrightarrow> cond_run ops c = (c', sent) \<Longrightarrow>
   case first_relevant (cond_last c) hints ops of
     None \<Rightarrow> sends_to ch sent = [] \<and> lone ch hints c'
   | Some v \<Rightarrow> sends_to ch sent = [v] \<and> \<not> waits ch c'"
proof (induction ops arbitrary: c sent)
  case (Cons op ops)
  obtain c1 s1 where one: "cond_step op c = (c1, s1)" by (rule prod.exhaust)
  obtain s2 where two: "cond_run ops c1 = (c', s2)" "sent = s1 @ s2" using Cons.prems(3) one by (auto simp: Let_def split: prod.splits)
  have rest: "\<forall>op\<in>set ops. \<not> registers ch op" using Cons.prems(2) by simp
  show ?case
  proof (cases op)
    case (RegisterOp ch' seen' hints')
    then have "ch' \<noteq> ch" using Cons.prems(2) by (auto simp: registers_def)
    then have "lone ch hints c1 \<and> cond_last c1 = cond_last c \<and> sends_to ch s1 = []"
      using one RegisterOp Cons.prems(1) by (auto simp: Register_def lone_def split: if_splits)
    then show ?thesis using Cons.IH [OF _ rest two(1)] RegisterOp two(2) by (auto split: option.splits)
  next
    case (NotifyOp hs)
    let ?w = "\<lparr>wt_ch = ch, wt_hints = hints\<rparr>"
    have c1: "cond_last c1 = cond_last c + 1" "cond_waiters c1 = filter (\<lambda>w. \<not> notified hs w) (cond_waiters c)"
      "s1 = map (\<lambda>w. (wt_ch w, cond_last c + 1)) (filter (notified hs) (cond_waiters c))"
      using one NotifyOp by (auto simp: Cond_Notify_def Let_def notify_loop_eq)
    have mine: "filter (\<lambda>w. wt_ch w = ch) (filter P (cond_waiters c)) = filter P [?w]" for P
      using Cons.prems(1) unfolding lone_def by (subst filter_swap) simp
    show ?thesis
    proof (cases "notified hs ?w")
      case True
      have "\<not> waits ch c1" using mine [of "\<lambda>w. \<not> notified hs w"] True by (auto simp: waits_def c1(2) filter_empty_conv)
      moreover have "sends_to ch s1 = [cond_last c + 1]" using mine [of "notified hs"] True by (simp add: c1(3) sends_to_waiters)
      ultimately show ?thesis using silent [OF _ rest two(1)] NotifyOp True two(2) by (simp add: notified_def)
    next
      case False
      have "lone ch hints c1" using mine [of "\<lambda>w. \<not> notified hs w"] False by (simp add: lone_def c1(2))
      moreover have "sends_to ch s1 = []" using mine [of "notified hs"] False by (simp add: c1(3) sends_to_waiters)
      ultimately show ?thesis using Cons.IH [OF _ rest two(1)] NotifyOp False two(2) c1(1) by (auto simp: notified_def split: option.splits)
    qed
  qed
qed (simp add: lone_def)

lemma cond_run_append:
  "cond_run (xs @ ys) c = (let (c1, s1) = cond_run xs c; (c2, s2) = cond_run ys c1 in (c2, s1 @ s2))"
  by (induction xs arbitrary: c) (auto simp: Let_def split: prod.splits)

text \<open>C22. No wake-up is lost and none is invented.  A channel that registers once, at any point of any history of registrations and
  notifications, is sent exactly one value if it has missed a notification (the current count, at once) or if a later notification
  concerns it (the count at the first such notification), and nothing otherwise; so a channel with room for one value is enough for a
  sender not to block.  A notification concerns it if it has no hints or shares one with the registration.\<close>

theorem Cond_no_lost_wakeup:
  assumes "\<forall>op\<in>set before. \<not> registers ch op" "\<forall>op\<in>set after. \<not> registers ch op"
    and "cond_run before new_Cond = (c, sent0)" "cond_run (before @ RegisterOp ch seen hints # after) new_Cond = (c', sent)"
  shows "sends_to ch sent =
    (case (if seen < cond_last c then Some (cond_last c) else first_relevant (cond_last c) hints after) of None \<Rightarrow> [] | Some v \<Rightarrow> [v])"
proof -
  have "\<not> waits ch new_Cond" by (simp add: waits_def new_Cond_def)
  note before = silent [OF this assms(1,3)]
  obtain c1 s1 where one: "Register ch seen hints c = (c1, s1)" by (rule prod.exhaust)
  obtain s2 where two: "cond_run after c1 = (c', s2)" "sent = sent0 @ s1 @ s2"
    using assms(3,4) one by (auto simp: cond_run_append Let_def split: prod.splits)
  show ?thesis
  proof (cases "seen < cond_last c")
    case True
    then have "c1 = c" "s1 = [(ch, cond_last c)]" using one by (auto simp: Register_def)
    then show ?thesis using silent [OF _ assms(2) two(1)] before True two(2) by simp
  next
    case False
    then have c1: "c1 = c\<lparr>cond_waiters := cond_waiters c @ [\<lparr>wt_ch = ch, wt_hints = hints\<rparr>]\<rparr>" "s1 = []"
      using one by (simp_all add: Register_def)
    have "filter (\<lambda>w. wt_ch w = ch) (cond_waiters c) = []" using before by (auto simp: waits_def filter_empty_conv)
    then have "lone ch hints c1" by (simp add: lone_def c1(1))
    from woken [OF this assms(2) two(1)] show ?thesis
      using before False two(2) c1 by (auto split: option.splits)
  qed
qed

theorem Cond_no_lost_wakeup_witness:
  "sends_to 7 (snd (cond_run [NotifyOp [], RegisterOp 1 1 [], RegisterOp 7 1 [''a''], NotifyOp [''b''], RegisterOp 2 5 [], NotifyOp [''a'', ''b''], NotifyOp []] new_Cond)) = [3]"
proof -
  have "cond_run [NotifyOp [], RegisterOp 1 1 []] new_Cond = (\<lparr>cond_waiters = [\<lparr>wt_ch = 1, wt_hints = []\<rparr>], cond_last = 1\<rparr>, [])"
    by (simp add: new_Cond_def Cond_Notify_def Register_def Let_def)
  note before = this
  let ?before = "[NotifyOp [], RegisterOp 1 1 []]" and ?after = "[NotifyOp [''b''], RegisterOp 2 5 [], NotifyOp [''a'', ''b''], NotifyOp []]"
  obtain c' sent where run: "cond_run (?before @ RegisterOp 7 1 [''a''] # ?after) new_Cond = (c', sent)" by (rule prod.exhaust)
  have "sends_to 7 sent = [3]"
    using Cond_no_lost_wakeup [OF _ _ before run] by (simp add: registers_def)
  then show ?thesis using run unfolding append.simps by simp
qed

section \<open>Streams\<close>

record 's resource =
  res_cond :: Cond
  res_store :: 's

record DiscoveryRequest =
  req_TypeUrl :: string
  req_ResourceNames :: "string list"

record 'a DiscoveryResponse =
  resp_VersionInfo :: string
  resp_Resources :: "'a list"
  resp_TypeUrl :: string
  resp_Nonce :: string

text \<open>What a resource type offers, and the encoding of a message.\<close>

record ('s, 'm, 'a) resource_ops =
  ro_Contents :: "'s \<Rightarrow> 'm list"
  ro_Query :: "'s \<Rightarrow> string list \<Rightarrow> 'm list"
  ro_anypb_New :: "'m \<Rightarrow> 'a result"

datatype stream_error = Canceled | StreamError string

text \<open>A stream: the request it answers, if it has one, the value in its channel, what it sent, and how it ended.\<close>

record ('s, 'a) stream_state =
  ss_resources :: "(string, 's resource) gomap"
  ss_last :: int
  ss_request :: "DiscoveryRequest option"
  ss_ch :: "int option"
  ss_sent :: "'a DiscoveryResponse list"
  ss_result :: "stream_error option option"

definition new_stream :: "(string, 's resource) gomap \<Rightarrow> ('s, 'a) stream_state" where
  "new_stream resources =
     \<lparr>ss_resources = resources, ss_last = -1, ss_request = None, ss_ch = None, ss_sent = [], ss_result = None\<rparr>"

definition stream_done :: "stream_error option \<Rightarrow> ('s, 'a) stream_state \<Rightarrow> ('s, 'a) stream_state" where
  "stream_done err st = st\<lparr>ss_result := Some (if err \<noteq> None \<and> err \<noteq> Some Canceled then err else None)\<rparr>"

definition deliver :: "nat \<Rightarrow> (nat \<times> int) list \<Rightarrow> ('s, 'a) stream_state \<Rightarrow> ('s, 'a) stream_state" where
  "deliver ch sent st = (case sends_to ch sent of [] \<Rightarrow> st | v # _ \<Rightarrow> st\<lparr>ss_ch := Some v\<rparr>)"

definition stream_request :: "nat \<Rightarrow> DiscoveryRequest \<Rightarrow> ('s, 'a) stream_state \<Rightarrow> ('s, 'a) stream_state" where
  "stream_request ch req st =
     (case lookup (ss_resources st) (req_TypeUrl req) of
        None \<Rightarrow> stream_done (Some (StreamError (''no resource registered for typeURL '' @ go_quote (req_TypeUrl req)))) st
      | Some r \<Rightarrow>
          let (c, sent) = Register ch (ss_last st) (req_ResourceNames req) (res_cond r)
          in deliver ch sent (st\<lparr>ss_resources := put (req_TypeUrl req) (r\<lparr>res_cond := c\<rparr>) (ss_resources st), ss_request := Some req\<rparr>))"

fun encode_all :: "('m \<Rightarrow> 'a result) \<Rightarrow> 'm list \<Rightarrow> 'a list result" where
  "encode_all f [] = Ok []"
| "encode_all f (m # ms) = (case f m of Inl err \<Rightarrow> Err err | Inr a \<Rightarrow> map_sum id (\<lambda>as. a # as) (encode_all f ms))"

definition stream_answer :: "('s, 'm, 'a) resource_ops \<Rightarrow> DiscoveryRequest \<Rightarrow> int \<Rightarrow> 's resource \<Rightarrow> ('s, 'a) stream_state \<Rightarrow> ('s, 'a) stream_state" where
  "stream_answer ops req v r st =
     (let st = st\<lparr>ss_last := v, ss_ch := None\<rparr>;
          resources = (if length (req_ResourceNames req) = 0 then ro_Contents ops (res_store r)
                       else ro_Query ops (res_store r) (req_ResourceNames req))
      in case encode_all (ro_anypb_New ops) resources of
           Inl err \<Rightarrow> stream_done (Some (StreamError err)) st
         | Inr anyResources \<Rightarrow>
             st\<lparr>ss_request := None,
                ss_sent := ss_sent st @ [\<lparr>resp_VersionInfo = strconv_Itoa v, resp_Resources = anyResources, resp_TypeUrl = req_TypeUrl req,
                                          resp_Nonce = strconv_Itoa v\<rparr>]\<rparr>)"

text \<open>A cache changes its content and notifies; other streams register with it.\<close>

definition cache_update :: "nat \<Rightarrow> string \<Rightarrow> 's \<Rightarrow> string list \<Rightarrow> ('s, 'a) stream_state \<Rightarrow> ('s, 'a) stream_state" where
  "cache_update ch t store hints st =
     (case lookup (ss_resources st) t of
        None \<Rightarrow> st
      | Some r \<Rightarrow> let (c, sent) = Cond_Notify hints (res_cond r)
                  in deliver ch sent (st\<lparr>ss_resources := put t \<lparr>res_cond = c, res_store = store\<rparr> (ss_resources st)\<rparr>))"

definition other_register :: "nat \<Rightarrow> int \<Rightarrow> string list \<Rightarrow> string \<Rightarrow> ('s, 'a) stream_state \<Rightarrow> ('s, 'a) stream_state" where
  "other_register ch' seen hints t st =
     (case lookup (ss_resources st) t of
        None \<Rightarrow> st
      | Some r \<Rightarrow> st\<lparr>ss_resources := put t (r\<lparr>res_cond := fst (Register ch' seen hints (res_cond r))\<rparr>) (ss_resources st)\<rparr>)"

inductive stream_step :: "('s, 'm, 'a) resource_ops \<Rightarrow> nat \<Rightarrow> ('s, 'a) stream_state \<Rightarrow> ('s, 'a) stream_state \<Rightarrow> bool" for ops ch where
  recv: "ss_result st = None \<Longrightarrow> ss_request st = None \<Longrightarrow> stream_step ops ch st (stream_request ch req st)"
| recv_failed: "ss_result st = None \<Longrightarrow> ss_request st = None \<Longrightarrow> stream_step ops ch st (stream_done (Some err) st)"
| answer: "ss_result st = None \<Longrightarrow> ss_request st = Some req \<Longrightarrow> ss_ch st = Some v \<Longrightarrow> lookup (ss_resources st) (req_TypeUrl req) = Some r \<Longrightarrow>
    stream_step ops ch st (stream_answer ops req v r st)"
| send_failed: "ss_result st = None \<Longrightarrow> ss_request st = Some req \<Longrightarrow> ss_ch st = Some v \<Longrightarrow>
    stream_step ops ch st (stream_done (Some err) (st\<lparr>ss_last := v, ss_ch := None\<rparr>))"
| context_done: "ss_result st = None \<Longrightarrow> ss_request st \<noteq> None \<Longrightarrow> stream_step ops ch st (stream_done err st)"
| update: "stream_step ops ch st (cache_update ch t store hints st)"
| other: "ch' \<noteq> ch \<Longrightarrow> stream_step ops ch st (other_register ch' seen hints t st)"

definition fresh_resources :: "nat \<Rightarrow> (string, 's resource) gomap \<Rightarrow> bool" where
  "fresh_resources ch rs \<longleftrightarrow> (\<forall>t r. lookup rs t = Some r \<longrightarrow> \<not> waits ch (res_cond r) \<and> 0 \<le> cond_last (res_cond r))"

text \<open>Between a request and its answer the stream is registered once, or has its value; otherwise it is not registered at all.\<close>

definition waiting_for :: "nat \<Rightarrow> string \<Rightarrow> ('s, 'a) stream_state \<Rightarrow> Cond \<Rightarrow> bool" where
  "waiting_for ch t st c \<longleftrightarrow>
     ss_ch st = None \<and> (\<exists>req. ss_request st = Some req \<and> req_TypeUrl req = t \<and> lone ch (req_ResourceNames req) c)"

definition stream_ok :: "nat \<Rightarrow> ('s, 'a) stream_state \<Rightarrow> bool" where
  "stream_ok ch st \<longleftrightarrow>
     (\<forall>t r. lookup (ss_resources st) t = Some r \<longrightarrow> 0 \<le> cond_last (res_cond r) \<and> (waits ch (res_cond r) \<longrightarrow> waiting_for ch t st (res_cond r))) \<and>
     (\<forall>req. ss_result st = None \<longrightarrow> ss_request st = Some req \<longrightarrow> ss_ch st = None \<longrightarrow>
        0 \<le> ss_last st \<and> (\<exists>r. lookup (ss_resources st) (req_TypeUrl req) = Some r \<and> waits ch (res_cond r))) \<and>
     (\<forall>v. ss_ch st = Some v \<longrightarrow> 0 \<le> v) \<and> (ss_request st = None \<longrightarrow> ss_ch st = None)"

lemma lone_waits: "lone ch hints c \<Longrightarrow> waits ch c"
  unfolding lone_def waits_def by (drule arg_cong [where f = set]) (auto intro: rev_image_eqI)

lemma notify_silent: "\<not> waits ch c \<Longrightarrow> Cond_Notify hs c = (c', sent) \<Longrightarrow> sends_to ch sent = [] \<and> \<not> waits ch c' \<and> cond_last c' = cond_last c + 1"
  using silent [of ch c "[NotifyOp hs]"] by (auto simp: registers_def Cond_Notify_def Let_def split: prod.splits)

lemma notify_lone:
  assumes "lone ch hints c" "Cond_Notify hs c = (c', sent)"
  shows "cond_last c' = cond_last c + 1"
    and "if hs = [] \<or> set hs \<inter> set hints \<noteq> {} then sends_to ch sent = [cond_last c + 1] \<and> \<not> waits ch c' else sends_to ch sent = [] \<and> lone ch hints c'"
  using woken [OF assms(1), of "[NotifyOp hs]"] assms(2) by (auto simp: registers_def Cond_Notify_def Let_def split: prod.splits if_splits)

lemma other_register_lone:
  assumes "ch' \<noteq> ch"
  shows "lone ch hints (fst (Register ch' seen hs c)) = lone ch hints c" "waits ch (fst (Register ch' seen hs c)) = waits ch c"
    "cond_last (fst (Register ch' seen hs c)) = cond_last c"
  using assms by (auto simp: Register_def lone_def waits_def)

lemma stream_ok_put:
  assumes ok: "stream_ok ch st" and r: "lookup (ss_resources st) t = Some r"
    and c: "0 \<le> cond_last (res_cond r')" "waits ch (res_cond r') = waits ch (res_cond r)"
      "\<And>hints. lone ch hints (res_cond r) \<Longrightarrow> lone ch hints (res_cond r')"
  shows "stream_ok ch (st\<lparr>ss_resources := put t r' (ss_resources st)\<rparr>)" (is "stream_ok ch ?st")
  unfolding stream_ok_def
proof (intro conjI allI impI)
  fix t' r0 assume l: "lookup (ss_resources ?st) t' = Some r0"
  show "0 \<le> cond_last (res_cond r0)"
    using l c(1) ok by (cases "t' = t") (auto simp: lookup_put stream_ok_def)
  assume w: "waits ch (res_cond r0)"
  show "waiting_for ch t' ?st (res_cond r0)"
  proof (cases "t' = t")
    case True
    then have "r0 = r'" using l by (simp add: lookup_put)
    then have "waiting_for ch t st (res_cond r)" using ok r w c(2) unfolding stream_ok_def by blast
    then show ?thesis using True \<open>r0 = r'\<close> c(3) by (auto simp: waiting_for_def)
  next
    case False
    then have "waiting_for ch t' st (res_cond r0)" using ok l w by (simp add: lookup_put stream_ok_def)
    then show ?thesis by (simp add: waiting_for_def)
  qed
next
  fix req assume a: "ss_result ?st = None" "ss_request ?st = Some req" "ss_ch ?st = None"
  then have q: "0 \<le> ss_last st \<and> (\<exists>r. lookup (ss_resources st) (req_TypeUrl req) = Some r \<and> waits ch (res_cond r))"
    using ok by (simp add: stream_ok_def)
  then show "0 \<le> ss_last ?st" by simp
  show "\<exists>r. lookup (ss_resources ?st) (req_TypeUrl req) = Some r \<and> waits ch (res_cond r)"
    using q r c(2) by (cases "req_TypeUrl req = t") (auto simp: lookup_put)
next
  fix v assume "ss_ch ?st = Some v"
  then show "0 \<le> v" using ok by (simp add: stream_ok_def)
next
  assume "ss_request ?st = None"
  then show "ss_ch ?st = None" using ok by (simp add: stream_ok_def)
qed

lemma stream_ok_wake:
  assumes ok: "stream_ok ch st" and others: "\<And>t' r. lookup (ss_resources st) t' = Some r \<Longrightarrow> t' \<noteq> t \<Longrightarrow> \<not> waits ch (res_cond r)"
    and new: "0 \<le> cond_last (res_cond r')" "\<not> waits ch (res_cond r')" "0 \<le> v" "ss_request st' \<noteq> None"
    and st': "ss_resources st' = put t r' (ss_resources st)" "ss_ch st' = Some v"
  shows "stream_ok ch st'"
proof -
  have "0 \<le> cond_last (res_cond r0) \<and> \<not> waits ch (res_cond r0)" if "lookup (ss_resources st') t' = Some r0" for t' r0
    using that new(1,2) others ok by (cases "t' = t") (auto simp: st' lookup_put stream_ok_def)
  then show ?thesis using new(3,4) st'(2) unfolding stream_ok_def by (metis option.distinct(1) option.inject)
qed

lemma cache_update_ok:
  assumes ok: "stream_ok ch st"
  shows "stream_ok ch (cache_update ch t store hs st)"
proof (cases "lookup (ss_resources st) t")
  case (Some r)
  obtain c sent where n: "Cond_Notify hs (res_cond r) = (c, sent)" by (rule prod.exhaust)
  have c0: "0 \<le> cond_last (res_cond r)" using ok Some unfolding stream_ok_def by blast
  show ?thesis
  proof (cases "waits ch (res_cond r)")
    case False
    then have s: "sends_to ch sent = []" "\<not> waits ch c" "cond_last c = cond_last (res_cond r) + 1" using notify_silent [OF _ n] by auto
    have "cache_update ch t store hs st = st\<lparr>ss_resources := put t \<lparr>res_cond = c, res_store = store\<rparr> (ss_resources st)\<rparr>"
      by (simp add: cache_update_def Some n deliver_def s(1))
    moreover have "stream_ok ch (st\<lparr>ss_resources := put t \<lparr>res_cond = c, res_store = store\<rparr> (ss_resources st)\<rparr>)"
      using False s(2,3) c0 lone_waits by (intro stream_ok_put [OF ok Some]) auto
    ultimately show ?thesis by simp
  next
    case True
    then obtain req where req: "ss_ch st = None" "ss_request st = Some req" "req_TypeUrl req = t" "lone ch (req_ResourceNames req) (res_cond r)"
      using ok Some unfolding stream_ok_def waiting_for_def by blast
    note l = notify_lone [OF req(4) n]
    have others: "\<not> waits ch (res_cond r')" if "lookup (ss_resources st) t' = Some r'" "t' \<noteq> t" for t' r'
      using ok that req unfolding stream_ok_def waiting_for_def by fastforce
    show ?thesis
    proof (cases "hs = [] \<or> set hs \<inter> set (req_ResourceNames req) \<noteq> {}")
      case True
      then have "cache_update ch t store hs st =
          st\<lparr>ss_resources := put t \<lparr>res_cond = c, res_store = store\<rparr> (ss_resources st), ss_ch := Some (cond_last (res_cond r) + 1)\<rparr>"
        using l by (simp add: cache_update_def Some n deliver_def)
      moreover have "stream_ok ch (st\<lparr>ss_resources := put t \<lparr>res_cond = c, res_store = store\<rparr> (ss_resources st), ss_ch := Some (cond_last (res_cond r) + 1)\<rparr>)"
        using l True c0 others req(2) by (intro stream_ok_wake [OF ok]) auto
      ultimately show ?thesis by simp
    next
      case False
      then have "cache_update ch t store hs st = st\<lparr>ss_resources := put t \<lparr>res_cond = c, res_store = store\<rparr> (ss_resources st)\<rparr>"
        using l by (simp add: cache_update_def Some n deliver_def)
      moreover have "lone ch (req_ResourceNames req) c" using l False by simp
      moreover have "stream_ok ch (st\<lparr>ss_resources := put t \<lparr>res_cond = c, res_store = store\<rparr> (ss_resources st)\<rparr>)"
      proof (rule stream_ok_put [OF ok Some])
        fix hints assume "lone ch hints (res_cond r)"
        then show "lone ch hints (res_cond \<lparr>res_cond = c, res_store = store\<rparr>)"
          using req(4) calculation(2) by (simp add: lone_def)
      qed (use l(1) c0 \<open>waits ch (res_cond r)\<close> calculation(2) lone_waits in auto)
      ultimately show ?thesis by simp
    qed
  qed
qed (use ok in \<open>simp add: cache_update_def\<close>)

lemma other_register_ok:
  assumes "ch' \<noteq> ch" "stream_ok ch st"
  shows "stream_ok ch (other_register ch' seen hs t st)"
proof (cases "lookup (ss_resources st) t")
  case (Some r)
  have "0 \<le> cond_last (res_cond r)" using assms(2) Some by (simp add: stream_ok_def)
  then show ?thesis
    using other_register_lone [OF assms(1)] by (simp add: other_register_def Some) (intro stream_ok_put [OF assms(2) Some], simp_all)
qed (use assms in \<open>simp add: other_register_def\<close>)

lemma stream_done_ok: "stream_ok ch st \<Longrightarrow> stream_ok ch (stream_done err st)"
  by (auto simp: stream_ok_def stream_done_def waiting_for_def)

lemma idle_not_waiting:
  "stream_ok ch st \<Longrightarrow> ss_request st = None \<or> ss_ch st \<noteq> None \<Longrightarrow> lookup (ss_resources st) t = Some r \<Longrightarrow> \<not> waits ch (res_cond r)"
  by (auto simp: stream_ok_def waiting_for_def)

lemma stream_request_ok:
  assumes ok: "stream_ok ch st" and idle: "ss_request st = None"
  shows "stream_ok ch (stream_request ch req st)"
proof (cases "lookup (ss_resources st) (req_TypeUrl req)")
  case (Some r)
  let ?t = "req_TypeUrl req" and ?c = "res_cond r"
  note none = idle_not_waiting [OF ok disjI1 [OF idle]]
  have c0: "0 \<le> cond_last ?c" using ok Some by (simp add: stream_ok_def)
  show ?thesis
  proof (cases "ss_last st < cond_last ?c")
    case True
    then show ?thesis
      using none none [OF Some] c0
      by (intro stream_ok_wake [OF ok, where t = ?t and r' = "r\<lparr>res_cond := ?c\<rparr>" and v = "cond_last ?c"])
        (simp_all add: stream_request_def Some Register_def deliver_def)
  next
    case False
    let ?c' = "?c\<lparr>cond_waiters := cond_waiters ?c @ [\<lparr>wt_ch = ch, wt_hints = req_ResourceNames req\<rparr>]\<rparr>"
    let ?st = "st\<lparr>ss_resources := put ?t (r\<lparr>res_cond := ?c'\<rparr>) (ss_resources st), ss_request := Some req\<rparr>"
    have "filter (\<lambda>w. wt_ch w = ch) (cond_waiters ?c) = []" using none [OF Some] by (auto simp: waits_def filter_empty_conv)
    then have l: "lone ch (req_ResourceNames req) ?c'" by (simp add: lone_def)
    have eq: "stream_request ch req st = ?st" using False by (simp add: stream_request_def Some Register_def deliver_def)
    have ch: "ss_ch st = None" using ok idle by (simp add: stream_ok_def)
    have "0 \<le> cond_last (res_cond r0) \<and> (waits ch (res_cond r0) \<longrightarrow> waiting_for ch t' ?st (res_cond r0))"
      if "lookup (ss_resources ?st) t' = Some r0" for t' r0
      using that none ok c0 l ch by (cases "t' = ?t") (auto simp: lookup_put waiting_for_def stream_ok_def)
    then show ?thesis
      unfolding eq stream_ok_def using ch False c0 lone_waits [OF l] by (simp add: lookup_put)
  qed
qed (use ok in \<open>simp add: stream_request_def stream_done_ok\<close>)

lemma answered_ok:
  assumes ok: "stream_ok ch st" and v: "ss_ch st = Some v"
    and st': "ss_resources st' = ss_resources st" "ss_ch st' = None" "ss_request st' = None \<or> ss_result st' \<noteq> None"
  shows "stream_ok ch st'"
proof -
  have "\<not> waits ch (res_cond r)" "0 \<le> cond_last (res_cond r)" if "lookup (ss_resources st) t = Some r" for t r
    using idle_not_waiting [OF ok _ that] v ok that by (auto simp: stream_ok_def)
  then show ?thesis using st' unfolding stream_ok_def by auto
qed

lemma stream_answer_ok:
  assumes "stream_ok ch st" "ss_ch st = Some v"
  shows "stream_ok ch (stream_answer ops req v r st)"
  by (rule answered_ok [OF assms]) (auto simp: stream_answer_def stream_done_def Let_def split: sum.split)

lemma stream_step_ok: "stream_step ops ch st st' \<Longrightarrow> stream_ok ch st \<Longrightarrow> stream_ok ch st'"
proof (induction rule: stream_step.induct)
  case (send_failed st req v err)
  then show ?case by (intro answered_ok [OF send_failed.prems send_failed.hyps(3)]) (simp_all add: stream_done_def)
qed (simp_all add: stream_request_ok stream_done_ok stream_answer_ok cache_update_ok other_register_ok)

lemma new_stream_ok: "fresh_resources ch rs \<Longrightarrow> stream_ok ch (new_stream rs)"
  by (auto simp: stream_ok_def fresh_resources_def new_stream_def)

lemma reachable_ok: "(stream_step ops ch)\<^sup>*\<^sup>* st st' \<Longrightarrow> stream_ok ch st \<Longrightarrow> stream_ok ch st'"
  by (induction rule: rtranclp_induct) (auto intro: stream_step_ok)


text \<open>A stream that has asked for everything of a type that has not changed yet, and has its first answer.\<close>

definition sample_resources :: "(string, nat resource) gomap" where
  "sample_resources = [(''cds'', \<lparr>res_cond = new_Cond, res_store = 0\<rparr>)]"

definition sample_ops :: "(nat, nat, nat) resource_ops" where
  "sample_ops = \<lparr>ro_Contents = (\<lambda>n. [n]), ro_Query = (\<lambda>n names. []), ro_anypb_New = Ok\<rparr>"

definition sample_request :: DiscoveryRequest where
  "sample_request = \<lparr>req_TypeUrl = ''cds'', req_ResourceNames = []\<rparr>"

definition asked :: "(nat, nat) stream_state" where
  "asked = stream_request 1 sample_request (new_stream sample_resources)"


end
