(* ===== verification/Spec2Isabelle.thy ===== *)
theory Spec2Isabelle
  imports Build_Pipeline Cache_Laws Endpoints_Exact Proxy_Termination Xds_Stream
begin

text \<open>
  Contour is a Kubernetes ingress controller for the proxy Envoy.  Informers deliver Kubernetes objects to an event handler, which
  keeps them in a cache and, after a holdoff delay, lets a builder run a list of processors over the cache.  The result is a DAG of
  listeners, virtual hosts, routes, clusters and services, together with the statuses to report on the objects.  Observers translate the
  DAG to Envoy's configuration, and xDS streams send it to the Envoys.  Endpoints of services take a path of their own: a translator
  joins the endpoint objects with the clusters of the last DAG.

  \<^bold>\<open>Conventions.\<close>  A Go struct is a record, an interface or a tagged set of structs a datatype, a nil pointer None.  A map is an association
  list with the operations of Prelude (\<open>gomap\<close>); the order of an iteration over a map is an argument of the definition, and theorems that
  depend on it hold for every order (\<open>fair_order\<close>, \<open>fair_ingress_order\<close>).  Errors are values of a sum type (\<open>Err\<close> and \<open>Ok\<close>); a panic is
  None.  Integers whose width matters are words (\<open>uint32\<close>) or wrapped explicitly.  Code outside the repository is an argument: the
  record \<open>library\<close> holds the duration parser, the regular expression compiler, the CIDR and URL parsers and the clock, \<open>crypto\<close> the parsers of
  certificates, \<open>hostnames\<close> the check of host names.  Log output and metrics are left out.

  \<^bold>\<open>Theories, in the order of the data flow.\<close>

  \<^item> Prelude, Go_Sort: strings, maps (locale \<open>go_map\<close>), results, Go's stable sort and what it gives for the three kinds of
    comparison the program uses (\<open>refines_order\<close>, \<open>strict_weak\<close>, \<open>key_order\<close>).
  \<^item> API_V1, Dag_Types, Timeout: \<open>apis/projectcontour/v1\<close>, the types and methods of \<open>internal/dag/dag.go\<close>, \<open>internal/timeout\<close>.
  \<^item> Conditions: \<open>internal/dag/conditions.go\<close>; what the validation of conditions accepts, and the path that conditions merge to.
  \<^item> Sorter: \<open>internal/sorter/sorter.go\<close>; specific routes come first, and when the order is not determined by the routes.
  \<^item> Annotations, Status: \<open>internal/annotation\<close>, \<open>internal/ingressclass\<close>, \<open>internal/status\<close> and the detailed conditions of the API; updates
    keep the errors of all commits.
  \<^item> Policy: \<open>internal/dag/policy.go\<close>; each policy as a function of the specification, on accepted and on rejected input.
  \<^item> Secrets, Kube_Cache: \<open>internal/dag/secret.go\<close>, \<open>internal/dag/cache.go\<close>; the lookups of secrets, which store validation results in the
    cache, refine a specification without that state (locale \<open>delegated_lookup\<close>), and which events need a rebuild.
  \<^item> Gateway_Listeners: \<open>internal/gatewayapi/listeners.go\<close>.
  \<^item> Dag_Build: \<open>internal/dag/builder.go\<close>, \<open>accessors.go\<close>, \<open>listener_processor.go\<close>; hosts are stored twice, in a list and by name, and stay in
    step (locale \<open>host_table\<close>); processors keep the DAG well formed (locale \<open>dag_processor\<close>); what pruning leaves.
  \<^item> Extension: \<open>internal/dag/extension_processor.go\<close>.
  \<^item> Proxy_Policies, Proxy_Routes, Proxy_Scope, HTTP_Proxy: \<open>internal/dag/httpproxy_processor.go\<close>, from the policies of hosts and routes over
    \<open>computeRoutes\<close> with its recursion over includes to \<open>computeHTTPProxy\<close> and \<open>Run\<close>.  Proxy_Scope proves what holds of all computed routes
    through one induction (locale \<open>route_invariant\<close>): included routes stay below the delegated prefix, and TLS is enforced.
  \<^item> HTTP_Proxy_Steps, HTTP_Proxy_Run: a calculus of the steps of \<open>computeHTTPProxy\<close> on the DAG, and the properties of a whole run: which hosts it may
    add, that valid proxies are served, that proxies do not disturb each other, duplicates and orphans.
  \<^item> Proxy_Termination: \<open>computeRoutes\<close> with a bound on the depth of its calls.
  \<^item> Ingress_Processor: \<open>internal/dag/ingress_processor.go\<close>; which hosts and certificates a run may add, that paths are served, when it panics.
  \<^item> Event_Handler, Cache_Laws: \<open>internal/contour/handler.go\<close> and \<open>internal/k8s/helpers.go\<close> as a transition system with explicit time; no event
    is lost, DAGs are delivered, and in every reachable state the cache is well typed.
  \<^item> Build_Pipeline: \<open>getDAGBuilder\<close> of \<open>cmd/contour/serve.go\<close>; what the DAGs contain that the four processors build together.
  \<^item> Endpoints, Endpoints_Exact: \<open>internal/xdscache/v3/endpointslicetranslator.go\<close> and \<open>endpointstranslator.go\<close>; both keep exactly the load
    assignments of the live objects for the clusters of the last DAG (one proof, in the locale \<open>endpoint_source\<close>).
  \<^item> Xds_Stream: \<open>internal/contour/cond.go\<close> and \<open>internal/xds/v3/contour.go\<close>; no wake-up is lost and no notification blocks.

  \<^bold>\<open>Recursion and bounds.\<close>  Loops over slices and maps are structural recursions.  The recursions over includes (\<open>computeRoutes\<close> and
  \<open>processHTTPProxyTCPProxy\<close>) are total because a proxy that was visited ends them; their measure is the number of proxies of the cache not
  visited yet.  Proxy_Termination uses fuel instead, and proves that the number of proxies in the cache and two is enough.  The loops of the event
  handler and of a stream do not end; they are step relations, and their properties hold in every reachable state.

  \<^bold>\<open>Not modelled.\<close>  The Gateway API processor and the statuses it writes (\<open>internal/dag/gatewayapi_processor.go\<close>): they work on the types of the
  Gateway API module, which is not part of the repository; the builder takes the processor as an argument, and the properties of built DAGs are
  about configurations without a Gateway.  The translation of the DAG to Envoy messages (\<open>internal/envoy\<close>) and the caches of these
  messages (\<open>internal/xdscache/v3\<close>, translators and \<open>sortRoutes\<close> apart): their values belong to the Envoy API module.  Status updates are computed
  but not sent: sending goes through the API server.  Commands, configuration files, metrics, debugging, health checks, leader election, certificate
  generation: input and output.  The gateway provisioner is a separate controller.  Generated code, fixtures, tests and release tools.
\<close>

end
